(* ===== verification/Mach_Prelude.thy ===== *)
theory Mach_Prelude
  imports Main "HOL-Library.Word" "HOL-Library.Monad_Syntax"
begin

text \<open>
  Shared vocabulary of the development: the machine types of the Mach IPC code, the return
  codes, the failure discipline and the generic lemmas on words, lists and options that the
  component theories use.

  A kernel routine that can stop the machine (a failed \<open>assert\<close>, a \<open>panic\<close>, an access
  outside an array or to freed memory, a loop that never ends) returns an \<open>option\<close>; \<open>None\<close> is
  that outcome. A routine that returns \<open>Some\<close> has passed every assertion on its path.
\<close>

unbundle bit_operations_syntax

named_theorems ie_bits \<open>field extraction and field update on the bits of a capability entry\<close>
named_theorems kmon \<open>simplification of the option monad of kernel routines\<close>

section \<open>Types\<close>

type_synonym ptr = "64 word"                 \<comment> \<open>a kernel address; 0 is the null pointer\<close>
type_synonym mach_port_name_t = "32 word"
type_synonym ipc_entry_bits_t = "32 word"
type_synonym mach_port_gen_t = "32 word"
type_synonym mach_port_index_t = nat

text \<open>The return codes of \<open>mach/kern_return.h\<close> that the modelled routines use.\<close>

datatype kern_return_t =
    KERN_SUCCESS | KERN_NO_SPACE | KERN_INVALID_ARGUMENT | KERN_FAILURE
  | KERN_RESOURCE_SHORTAGE | KERN_NAME_EXISTS | KERN_INVALID_NAME | KERN_INVALID_TASK
  | KERN_INVALID_RIGHT | KERN_INVALID_VALUE | KERN_INVALID_CAPABILITY | KERN_RIGHT_EXISTS
  | KERN_NOT_SUPPORTED | KERN_DENIED

section \<open>Assertions and array accesses\<close>

definition kassert :: "bool \<Rightarrow> unit option" where
  "kassert P = (if P then Some () else None)"

definition panic :: "'a option" where
  "panic = None"

definition arr_get :: "'a list \<Rightarrow> nat \<Rightarrow> 'a option" where
  "arr_get xs i = (if i < length xs then Some (xs ! i) else None)"

definition arr_set :: "'a list \<Rightarrow> nat \<Rightarrow> 'a \<Rightarrow> 'a list option" where
  "arr_set xs i x = (if i < length xs then Some (xs[i := x]) else None)"

lemma kassert_True [simp, kmon]: "P \<Longrightarrow> kassert P = Some ()"
  by (simp add: kassert_def)

lemma kassert_Some_iff [simp, kmon]: "kassert P = Some u \<longleftrightarrow> P"
  by (simp add: kassert_def)

lemma kassert_bind_Some_iff [kmon]: "kassert P \<bind> f = Some y \<longleftrightarrow> P \<and> f () = Some y"
  by (simp add: kassert_def)

lemma arr_get_in [simp, kmon]: "i < length xs \<Longrightarrow> arr_get xs i = Some (xs ! i)"
  by (simp add: arr_get_def)

lemma arr_get_Some_iff [kmon]: "arr_get xs i = Some x \<longleftrightarrow> i < length xs \<and> x = xs ! i"
  by (auto simp: arr_get_def)

lemma arr_set_in [simp, kmon]: "i < length xs \<Longrightarrow> arr_set xs i x = Some (xs[i := x])"
  by (simp add: arr_set_def)

lemma arr_set_Some_iff [kmon]: "arr_set xs i x = Some ys \<longleftrightarrow> i < length xs \<and> ys = xs[i := x]"
  by (auto simp: arr_set_def)

lemma panic_not_Some [simp, kmon]: "panic \<noteq> Some x" "panic \<bind> f = None"
  by (simp_all add: panic_def)

section \<open>Words: the low half of a 32-bit value\<close>

text \<open>
  The user-reference count of an entry is the low half of its bits. Adding a delta that keeps
  the low half within its sixteen bits changes nothing else.
\<close>

lemma split_low16: "(b::32 word) = (b AND NOT 0xffff) + (b AND 0xffff)"
proof -
  have "(b AND NOT 0xffff) + (b AND 0xffff) = (b AND NOT 0xffff) OR (b AND 0xffff)"
    by (rule disjunctive_add) (auto simp: bit_simps)
  also have "\<dots> = b" by (simp add: bit.conj_disj_distrib [symmetric])
  finally show ?thesis ..
qed

lemma le_low16_and: "(l::32 word) \<le> 0xffff \<Longrightarrow> l AND 0xffff = l"
proof -
  assume "l \<le> 0xffff"
  then have "l < 2 ^ 16" by (simp add: word_le_nat_alt word_less_nat_alt)
  then have "l AND mask 16 = l" by (rule less_mask_eq)
  then show ?thesis by (simp add: mask_eq_exp_minus_1)
qed

lemma add_low16_eq:
  fixes b d :: "32 word"
  assumes "(b AND 0xffff) + d \<le> 0xffff"
  shows "b + d = (b AND NOT 0xffff) OR ((b AND 0xffff) + d)"
proof -
  let ?l = "(b AND 0xffff) + d"
  have "b + d = (b AND NOT 0xffff) + ?l" by (subst split_low16 [of b]) (simp add: add.assoc)
  also have "\<dots> = (b AND NOT 0xffff) OR ?l"
  proof (rule disjunctive_add)
    fix n
    have "bit ?l n = bit (?l AND 0xffff) n" by (simp only: le_low16_and [OF assms])
    then show "\<not> bit (b AND NOT 0xffff) n \<or> \<not> bit ?l n" by (auto simp: bit_simps)
  qed
  finally show ?thesis .
qed

lemma add_low16:
  fixes b d m :: "32 word"
  assumes le: "(b AND 0xffff) + d \<le> 0xffff"
  shows "(b + d) AND 0xffff = (b AND 0xffff) + d"
    and "m AND 0xffff = 0 \<Longrightarrow> (b + d) AND m = b AND m"
proof -
  let ?l = "(b AND 0xffff) + d"
  show "(b + d) AND 0xffff = ?l"
    by (simp add: add_low16_eq [OF le] bit.conj_disj_distrib2 and.assoc le_low16_and [OF le])
  assume m: "m AND 0xffff = 0"
  have "?l AND m = (?l AND 0xffff) AND m" by (simp only: le_low16_and [OF le])
  also have "\<dots> = ?l AND (m AND 0xffff)" by (simp only: ac_simps)
  finally have 1: "?l AND m = 0" by (simp add: m)
  have "b AND m = ((b AND NOT 0xffff) OR (b AND 0xffff)) AND m"
    by (simp add: bit.conj_disj_distrib [symmetric])
  also have "\<dots> = (b AND NOT 0xffff) AND m OR b AND (m AND 0xffff)"
    by (rule bit_word_eqI) (auto simp: bit_simps)
  finally show "(b + d) AND m = b AND m"
    by (simp add: add_low16_eq [OF le] bit.conj_disj_distrib2 1 m)
qed

lemma and_submask:
  fixes b m k :: "32 word"
  shows "m AND k = m \<Longrightarrow> b AND m = (b AND k) AND m"
  by (metis and.assoc and.commute)

section \<open>Lists\<close>

lemma nth_list_update_if:
  "i < length xs \<Longrightarrow> xs[i := x] ! j = (if i = j then x else xs ! j)"
  by simp

end
