(* ===== verification/Mach_Port_Names.thy ===== *)
theory Mach_Port_Names
  imports Mach_Prelude
begin

text \<open>
  Port names and capability bits: the macros of \<open>osfmk/mach/port.h\<close>, \<open>osfmk/ipc/port.h\<close> and
  the generation counter of \<open>osfmk/ipc/ipc_entry.h\<close> (the configuration without
  \<open>NO_PORT_GEN\<close>). A port name packs a 24-bit table index and an 8-bit generation; the bits of
  an entry pack the generation, the rollover point, the extended type, the capability type and
  the user-reference count. The lemmas show that names and fields round-trip, how adding to the
  reference count acts on the fields, and how often an entry can be reused before a name comes
  back.
\<close>

section \<open>Names\<close>

definition MACH_PORT_NULL :: mach_port_name_t where
  "MACH_PORT_NULL = 0"

definition MACH_PORT_DEAD :: mach_port_name_t where
  "MACH_PORT_DEAD = NOT 0"

definition MACH_PORT_VALID :: "mach_port_name_t \<Rightarrow> bool" where
  "MACH_PORT_VALID name \<longleftrightarrow> name \<noteq> MACH_PORT_NULL \<and> name \<noteq> MACH_PORT_DEAD"

definition MACH_PORT_INDEX :: "mach_port_name_t \<Rightarrow> mach_port_index_t" where
  "MACH_PORT_INDEX name = unat (drop_bit 8 name)"

definition MACH_PORT_GEN :: "mach_port_name_t \<Rightarrow> mach_port_gen_t" where
  "MACH_PORT_GEN name = push_bit 24 (name AND 0xff)"

definition MACH_PORT_MAKE :: "mach_port_index_t \<Rightarrow> mach_port_gen_t \<Rightarrow> mach_port_name_t" where
  "MACH_PORT_MAKE index gen = push_bit 8 (of_nat index) OR drop_bit 24 gen"

section \<open>Rights and types\<close>

text \<open>\<open>MACH_PORT_RIGHT_OTHER n\<close> stands for the values from \<open>MACH_PORT_RIGHT_NUMBER\<close> on.\<close>

datatype mach_port_right_t =
    MACH_PORT_RIGHT_SEND | MACH_PORT_RIGHT_RECEIVE | MACH_PORT_RIGHT_SEND_ONCE
  | MACH_PORT_RIGHT_PORT_SET | MACH_PORT_RIGHT_DEAD_NAME | MACH_PORT_RIGHT_LABELH
  | MACH_PORT_RIGHT_OTHER nat

fun right_number :: "mach_port_right_t \<Rightarrow> nat" where
  "right_number MACH_PORT_RIGHT_SEND = 0"
| "right_number MACH_PORT_RIGHT_RECEIVE = 1"
| "right_number MACH_PORT_RIGHT_SEND_ONCE = 2"
| "right_number MACH_PORT_RIGHT_PORT_SET = 3"
| "right_number MACH_PORT_RIGHT_DEAD_NAME = 4"
| "right_number MACH_PORT_RIGHT_LABELH = 5"
| "right_number (MACH_PORT_RIGHT_OTHER n) = 6 + n"

definition MACH_PORT_TYPE :: "mach_port_right_t \<Rightarrow> 32 word" where
  "MACH_PORT_TYPE r = push_bit (right_number r + 16) 1"

definition MACH_PORT_TYPE_NONE :: "32 word" where
  "MACH_PORT_TYPE_NONE = 0"

definition MACH_PORT_TYPE_SEND :: "32 word" where
  "MACH_PORT_TYPE_SEND = MACH_PORT_TYPE MACH_PORT_RIGHT_SEND"

definition MACH_PORT_TYPE_RECEIVE :: "32 word" where
  "MACH_PORT_TYPE_RECEIVE = MACH_PORT_TYPE MACH_PORT_RIGHT_RECEIVE"

definition MACH_PORT_TYPE_SEND_ONCE :: "32 word" where
  "MACH_PORT_TYPE_SEND_ONCE = MACH_PORT_TYPE MACH_PORT_RIGHT_SEND_ONCE"

definition MACH_PORT_TYPE_PORT_SET :: "32 word" where
  "MACH_PORT_TYPE_PORT_SET = MACH_PORT_TYPE MACH_PORT_RIGHT_PORT_SET"

definition MACH_PORT_TYPE_DEAD_NAME :: "32 word" where
  "MACH_PORT_TYPE_DEAD_NAME = MACH_PORT_TYPE MACH_PORT_RIGHT_DEAD_NAME"

definition MACH_PORT_TYPE_EX_RECEIVE :: "32 word" where
  "MACH_PORT_TYPE_EX_RECEIVE = MACH_PORT_TYPE MACH_PORT_RIGHT_LABELH"

definition MACH_PORT_TYPE_SEND_RECEIVE :: "32 word" where
  "MACH_PORT_TYPE_SEND_RECEIVE = MACH_PORT_TYPE_SEND OR MACH_PORT_TYPE_RECEIVE"

definition MACH_PORT_TYPE_SEND_RIGHTS :: "32 word" where
  "MACH_PORT_TYPE_SEND_RIGHTS = MACH_PORT_TYPE_SEND OR MACH_PORT_TYPE_SEND_ONCE"

definition MACH_PORT_TYPE_PORT_RIGHTS :: "32 word" where
  "MACH_PORT_TYPE_PORT_RIGHTS = MACH_PORT_TYPE_SEND_RIGHTS OR MACH_PORT_TYPE_RECEIVE"

definition MACH_PORT_TYPE_PORT_OR_DEAD :: "32 word" where
  "MACH_PORT_TYPE_PORT_OR_DEAD = MACH_PORT_TYPE_PORT_RIGHTS OR MACH_PORT_TYPE_DEAD_NAME"

definition MACH_PORT_TYPE_ALL_RIGHTS :: "32 word" where
  "MACH_PORT_TYPE_ALL_RIGHTS = MACH_PORT_TYPE_PORT_OR_DEAD OR MACH_PORT_TYPE_PORT_SET"

definition MACH_PORT_TYPE_DNREQUEST :: "32 word" where
  "MACH_PORT_TYPE_DNREQUEST = 0x80000000"

definition MACH_PORT_TYPE_SPREQUEST :: "32 word" where
  "MACH_PORT_TYPE_SPREQUEST = 0x40000000"

definition MACH_PORT_TYPE_SPREQUEST_DELAYED :: "32 word" where
  "MACH_PORT_TYPE_SPREQUEST_DELAYED = 0x20000000"

text \<open>
  Message type names (\<open>mach/message.h\<close>). The received types \<open>MACH_MSG_TYPE_PORT_RECEIVE\<close>,
  \<open>MACH_MSG_TYPE_PORT_SEND\<close> and \<open>MACH_MSG_TYPE_PORT_SEND_ONCE\<close> are the same numbers as the
  three moves. \<open>MACH_MSG_TYPE_OTHER\<close> stands for every other value.
\<close>

datatype mach_msg_type_name_t =
    MACH_MSG_TYPE_PORT_NONE
  | MACH_MSG_TYPE_MOVE_RECEIVE | MACH_MSG_TYPE_MOVE_SEND | MACH_MSG_TYPE_MOVE_SEND_ONCE
  | MACH_MSG_TYPE_COPY_SEND | MACH_MSG_TYPE_MAKE_SEND | MACH_MSG_TYPE_MAKE_SEND_ONCE
  | MACH_MSG_TYPE_DISPOSE_RECEIVE | MACH_MSG_TYPE_DISPOSE_SEND | MACH_MSG_TYPE_DISPOSE_SEND_ONCE
  | MACH_MSG_TYPE_OTHER nat

abbreviation MACH_MSG_TYPE_PORT_RECEIVE :: mach_msg_type_name_t where
  "MACH_MSG_TYPE_PORT_RECEIVE \<equiv> MACH_MSG_TYPE_MOVE_RECEIVE"

abbreviation MACH_MSG_TYPE_PORT_SEND :: mach_msg_type_name_t where
  "MACH_MSG_TYPE_PORT_SEND \<equiv> MACH_MSG_TYPE_MOVE_SEND"

abbreviation MACH_MSG_TYPE_PORT_SEND_ONCE :: mach_msg_type_name_t where
  "MACH_MSG_TYPE_PORT_SEND_ONCE \<equiv> MACH_MSG_TYPE_MOVE_SEND_ONCE"

section \<open>User references\<close>

definition MACH_PORT_UREFS_MAX :: "32 word" where
  "MACH_PORT_UREFS_MAX = push_bit 16 1 - 1"

text \<open>
  A delta is a signed 32-bit value; \<open>urefs + delta\<close> is unsigned 32-bit arithmetic, since C
  converts the signed operand.
\<close>

definition MACH_PORT_UREFS_OVERFLOW :: "32 word \<Rightarrow> 32 word \<Rightarrow> bool" where
  "MACH_PORT_UREFS_OVERFLOW urefs delta \<longleftrightarrow>
     0 <s delta \<and> (urefs + delta \<le> urefs \<or> MACH_PORT_UREFS_MAX \<le> urefs + delta)"

definition MACH_PORT_UREFS_UNDERFLOW :: "32 word \<Rightarrow> 32 word \<Rightarrow> bool" where
  "MACH_PORT_UREFS_UNDERFLOW urefs delta \<longleftrightarrow> delta <s 0 \<and> urefs < - delta"

section \<open>The bits of an entry\<close>

definition IE_BITS_UREFS_MASK :: "32 word" where
  "IE_BITS_UREFS_MASK = 0x0000ffff"

definition IE_BITS_UREFS :: "32 word \<Rightarrow> 32 word" where
  "IE_BITS_UREFS bits = bits AND IE_BITS_UREFS_MASK"

definition IE_BITS_TYPE_MASK :: "32 word" where
  "IE_BITS_TYPE_MASK = 0x001f0000"

definition IE_BITS_TYPE :: "32 word \<Rightarrow> 32 word" where
  "IE_BITS_TYPE bits = bits AND IE_BITS_TYPE_MASK"

definition IE_BITS_GEN_MASK :: "32 word" where
  "IE_BITS_GEN_MASK = 0xff000000"

definition IE_BITS_GEN :: "32 word \<Rightarrow> 32 word" where
  "IE_BITS_GEN bits = bits AND IE_BITS_GEN_MASK"

definition IE_BITS_GEN_ONE :: "32 word" where
  "IE_BITS_GEN_ONE = 0x04000000"

definition IE_BITS_ROLL_POS :: nat where
  "IE_BITS_ROLL_POS = 22"

definition IE_BITS_ROLL_BITS :: nat where
  "IE_BITS_ROLL_BITS = 2"

definition IE_BITS_ROLL_MASK :: "32 word" where
  "IE_BITS_ROLL_MASK = push_bit IE_BITS_ROLL_POS (push_bit IE_BITS_ROLL_BITS 1 - 1)"

definition IE_BITS_ROLL :: "32 word \<Rightarrow> 32 word" where
  "IE_BITS_ROLL bits = push_bit 8 (bits AND IE_BITS_ROLL_MASK) XOR IE_BITS_GEN_MASK"

definition ipc_entry_new_rollpoint :: "32 word \<Rightarrow> 32 word" where
  "ipc_entry_new_rollpoint rollbits =
     (let rollbits = push_bit IE_BITS_ROLL_POS rollbits AND IE_BITS_ROLL_MASK;
          newgen = IE_BITS_GEN_MASK + IE_BITS_GEN_ONE
      in newgen OR rollbits)"

definition ipc_entry_new_gen :: "32 word \<Rightarrow> 32 word" where
  "ipc_entry_new_gen oldgen =
     (let sum = (oldgen + IE_BITS_GEN_ONE) AND IE_BITS_GEN_MASK;
          roll = oldgen AND IE_BITS_ROLL_MASK;
          newgen = (sum mod IE_BITS_ROLL oldgen) OR roll
      in newgen)"

definition ipc_entry_gen_rolled :: "32 word \<Rightarrow> 32 word \<Rightarrow> bool" where
  "ipc_entry_gen_rolled oldgen newgen \<longleftrightarrow>
     (newgen AND IE_BITS_GEN_MASK) < (oldgen AND IE_BITS_GEN_MASK)"

definition ipc_entry_name_mask :: "mach_port_name_t \<Rightarrow> mach_port_name_t" where
  "ipc_entry_name_mask name =
     (let null_name = MACH_PORT_MAKE 0 (IE_BITS_GEN_MASK + IE_BITS_GEN_ONE)
      in name OR null_name)"

lemmas mach_port_type_consts =
  MACH_PORT_TYPE_def MACH_PORT_TYPE_NONE_def MACH_PORT_TYPE_SEND_def MACH_PORT_TYPE_RECEIVE_def
  MACH_PORT_TYPE_SEND_ONCE_def MACH_PORT_TYPE_PORT_SET_def MACH_PORT_TYPE_DEAD_NAME_def
  MACH_PORT_TYPE_EX_RECEIVE_def MACH_PORT_TYPE_SEND_RECEIVE_def MACH_PORT_TYPE_SEND_RIGHTS_def
  MACH_PORT_TYPE_PORT_RIGHTS_def MACH_PORT_TYPE_PORT_OR_DEAD_def MACH_PORT_TYPE_ALL_RIGHTS_def

lemmas ie_bits_masks =
  IE_BITS_UREFS_MASK_def IE_BITS_TYPE_MASK_def IE_BITS_GEN_MASK_def IE_BITS_GEN_ONE_def
  IE_BITS_ROLL_POS_def IE_BITS_ROLL_BITS_def IE_BITS_ROLL_MASK_def

section \<open>Lemmas on names\<close>

lemma MACH_PORT_INDEX_MAKE [simp]:
  assumes "i < 2 ^ 24"
  shows "MACH_PORT_INDEX (MACH_PORT_MAKE i g) = i"
proof -
  have "drop_bit 8 (push_bit 8 (of_nat i) OR drop_bit 24 g) = take_bit 24 (of_nat i :: 32 word)"
    by (rule bit_word_eqI) (auto simp: bit_simps dest: bit_imp_le_length)
  then show ?thesis
    using assms by (simp add: MACH_PORT_INDEX_def MACH_PORT_MAKE_def unsigned_take_bit_eq
        unsigned_of_nat take_bit_nat_eq_self)
qed

lemma mask_consts: "(0xff::32 word) = mask 8" "(0xff000000::32 word) = push_bit 24 (mask 8)"
  "(0xc00000::32 word) = push_bit 22 (mask 2)"
  by (simp_all add: mask_eq_exp_minus_1)

lemma MACH_PORT_GEN_MAKE [simp]: "MACH_PORT_GEN (MACH_PORT_MAKE i g) = IE_BITS_GEN g"
  unfolding MACH_PORT_GEN_def MACH_PORT_MAKE_def IE_BITS_GEN_def IE_BITS_GEN_MASK_def mask_consts
  by (rule bit_word_eqI) (auto simp: bit_simps)

lemma MACH_PORT_MAKE_INDEX_GEN [simp]:
  "MACH_PORT_MAKE (MACH_PORT_INDEX name) (MACH_PORT_GEN name) = name"
proof -
  have "push_bit 8 (drop_bit 8 name) OR drop_bit 24 (push_bit 24 (name AND mask 8)) = name"
  proof (rule bit_word_eqI)
    fix n
    assume "n < LENGTH(32)"
    then show "bit (push_bit 8 (drop_bit 8 name) OR drop_bit 24 (push_bit 24 (name AND mask 8))) n
        = bit name n"
      by (cases "n < 8") (auto simp: bit_simps)
  qed
  then show ?thesis
    by (simp add: MACH_PORT_MAKE_def MACH_PORT_INDEX_def MACH_PORT_GEN_def mask_consts)
qed

lemma MACH_PORT_INDEX_less: "MACH_PORT_INDEX name < 2 ^ 24"
proof -
  have "unat name < 2 ^ LENGTH(32)" by (rule unsigned_less)
  then have "unat name div 2 ^ 8 < 2 ^ 24" by simp
  then show ?thesis by (simp add: MACH_PORT_INDEX_def drop_bit_eq_div unat_div)
qed

section \<open>Lemmas on types\<close>

lemmas ie_bits_defs = mach_port_type_consts ie_bits_masks IE_BITS_TYPE_def IE_BITS_UREFS_def
  IE_BITS_GEN_def

lemma type_test:
  assumes "IE_BITS_TYPE b = t" and "m AND IE_BITS_TYPE_MASK = m"
  shows "b AND m = t AND m"
  using and_submask [OF assms(2), of b] assms(1) by (simp add: IE_BITS_TYPE_def)

lemma type_NONE_tests [ie_bits]:
  assumes "IE_BITS_TYPE b = MACH_PORT_TYPE_NONE"
  shows "b AND MACH_PORT_TYPE_SEND = 0"
    and "b AND MACH_PORT_TYPE_RECEIVE = 0"
    and "b AND MACH_PORT_TYPE_SEND_ONCE = 0"
    and "b AND MACH_PORT_TYPE_PORT_SET = 0"
    and "b AND MACH_PORT_TYPE_DEAD_NAME = 0"
    and "b AND MACH_PORT_TYPE_SEND_RIGHTS = 0"
    and "b AND MACH_PORT_TYPE_PORT_RIGHTS = 0"
    and "b AND MACH_PORT_TYPE_PORT_OR_DEAD = 0"
    and "b AND MACH_PORT_TYPE_SEND_RECEIVE = 0"
  by (simp_all add: type_test [OF assms] ie_bits_defs)

lemma type_SEND_tests [ie_bits]:
  assumes "IE_BITS_TYPE b = MACH_PORT_TYPE_SEND"
  shows "b AND MACH_PORT_TYPE_SEND \<noteq> 0"
    and "b AND MACH_PORT_TYPE_RECEIVE = 0"
    and "b AND MACH_PORT_TYPE_SEND_ONCE = 0"
    and "b AND MACH_PORT_TYPE_PORT_SET = 0"
    and "b AND MACH_PORT_TYPE_DEAD_NAME = 0"
    and "b AND MACH_PORT_TYPE_SEND_RIGHTS \<noteq> 0"
    and "b AND MACH_PORT_TYPE_PORT_RIGHTS \<noteq> 0"
    and "b AND MACH_PORT_TYPE_PORT_OR_DEAD \<noteq> 0"
    and "b AND MACH_PORT_TYPE_SEND_RECEIVE \<noteq> 0"
  by (simp_all add: type_test [OF assms] ie_bits_defs)

lemma type_RECEIVE_tests [ie_bits]:
  assumes "IE_BITS_TYPE b = MACH_PORT_TYPE_RECEIVE"
  shows "b AND MACH_PORT_TYPE_SEND = 0"
    and "b AND MACH_PORT_TYPE_RECEIVE \<noteq> 0"
    and "b AND MACH_PORT_TYPE_SEND_ONCE = 0"
    and "b AND MACH_PORT_TYPE_PORT_SET = 0"
    and "b AND MACH_PORT_TYPE_DEAD_NAME = 0"
    and "b AND MACH_PORT_TYPE_SEND_RIGHTS = 0"
    and "b AND MACH_PORT_TYPE_PORT_RIGHTS \<noteq> 0"
    and "b AND MACH_PORT_TYPE_PORT_OR_DEAD \<noteq> 0"
    and "b AND MACH_PORT_TYPE_SEND_RECEIVE \<noteq> 0"
  by (simp_all add: type_test [OF assms] ie_bits_defs)

lemma type_SEND_RECEIVE_tests [ie_bits]:
  assumes "IE_BITS_TYPE b = MACH_PORT_TYPE_SEND_RECEIVE"
  shows "b AND MACH_PORT_TYPE_SEND \<noteq> 0"
    and "b AND MACH_PORT_TYPE_RECEIVE \<noteq> 0"
    and "b AND MACH_PORT_TYPE_SEND_ONCE = 0"
    and "b AND MACH_PORT_TYPE_PORT_SET = 0"
    and "b AND MACH_PORT_TYPE_DEAD_NAME = 0"
    and "b AND MACH_PORT_TYPE_SEND_RIGHTS \<noteq> 0"
    and "b AND MACH_PORT_TYPE_PORT_RIGHTS \<noteq> 0"
    and "b AND MACH_PORT_TYPE_PORT_OR_DEAD \<noteq> 0"
    and "b AND MACH_PORT_TYPE_SEND_RECEIVE \<noteq> 0"
  by (simp_all add: type_test [OF assms] ie_bits_defs)

lemma type_SEND_ONCE_tests [ie_bits]:
  assumes "IE_BITS_TYPE b = MACH_PORT_TYPE_SEND_ONCE"
  shows "b AND MACH_PORT_TYPE_SEND = 0"
    and "b AND MACH_PORT_TYPE_RECEIVE = 0"
    and "b AND MACH_PORT_TYPE_SEND_ONCE \<noteq> 0"
    and "b AND MACH_PORT_TYPE_PORT_SET = 0"
    and "b AND MACH_PORT_TYPE_DEAD_NAME = 0"
    and "b AND MACH_PORT_TYPE_SEND_RIGHTS \<noteq> 0"
    and "b AND MACH_PORT_TYPE_PORT_RIGHTS \<noteq> 0"
    and "b AND MACH_PORT_TYPE_PORT_OR_DEAD \<noteq> 0"
    and "b AND MACH_PORT_TYPE_SEND_RECEIVE = 0"
  by (simp_all add: type_test [OF assms] ie_bits_defs)

lemma type_PORT_SET_tests [ie_bits]:
  assumes "IE_BITS_TYPE b = MACH_PORT_TYPE_PORT_SET"
  shows "b AND MACH_PORT_TYPE_SEND = 0"
    and "b AND MACH_PORT_TYPE_RECEIVE = 0"
    and "b AND MACH_PORT_TYPE_SEND_ONCE = 0"
    and "b AND MACH_PORT_TYPE_PORT_SET \<noteq> 0"
    and "b AND MACH_PORT_TYPE_DEAD_NAME = 0"
    and "b AND MACH_PORT_TYPE_SEND_RIGHTS = 0"
    and "b AND MACH_PORT_TYPE_PORT_RIGHTS = 0"
    and "b AND MACH_PORT_TYPE_PORT_OR_DEAD = 0"
    and "b AND MACH_PORT_TYPE_SEND_RECEIVE = 0"
  by (simp_all add: type_test [OF assms] ie_bits_defs)

lemma type_DEAD_NAME_tests [ie_bits]:
  assumes "IE_BITS_TYPE b = MACH_PORT_TYPE_DEAD_NAME"
  shows "b AND MACH_PORT_TYPE_SEND = 0"
    and "b AND MACH_PORT_TYPE_RECEIVE = 0"
    and "b AND MACH_PORT_TYPE_SEND_ONCE = 0"
    and "b AND MACH_PORT_TYPE_PORT_SET = 0"
    and "b AND MACH_PORT_TYPE_DEAD_NAME \<noteq> 0"
    and "b AND MACH_PORT_TYPE_SEND_RIGHTS = 0"
    and "b AND MACH_PORT_TYPE_PORT_RIGHTS = 0"
    and "b AND MACH_PORT_TYPE_PORT_OR_DEAD \<noteq> 0"
    and "b AND MACH_PORT_TYPE_SEND_RECEIVE = 0"
  by (simp_all add: type_test [OF assms] ie_bits_defs)


lemma type_field_distinct [simp]:
  "MACH_PORT_TYPE_SEND \<noteq> MACH_PORT_TYPE_NONE" "MACH_PORT_TYPE_RECEIVE \<noteq> MACH_PORT_TYPE_NONE"
  "MACH_PORT_TYPE_SEND_RECEIVE \<noteq> MACH_PORT_TYPE_NONE"
  "MACH_PORT_TYPE_SEND_ONCE \<noteq> MACH_PORT_TYPE_NONE" "MACH_PORT_TYPE_PORT_SET \<noteq> MACH_PORT_TYPE_NONE"
  "MACH_PORT_TYPE_DEAD_NAME \<noteq> MACH_PORT_TYPE_NONE"
  "MACH_PORT_TYPE_SEND \<noteq> MACH_PORT_TYPE_RECEIVE" "MACH_PORT_TYPE_SEND \<noteq> MACH_PORT_TYPE_SEND_RECEIVE"
  "MACH_PORT_TYPE_SEND \<noteq> MACH_PORT_TYPE_SEND_ONCE" "MACH_PORT_TYPE_SEND \<noteq> MACH_PORT_TYPE_PORT_SET"
  "MACH_PORT_TYPE_SEND \<noteq> MACH_PORT_TYPE_DEAD_NAME"
  "MACH_PORT_TYPE_RECEIVE \<noteq> MACH_PORT_TYPE_SEND_RECEIVE"
  "MACH_PORT_TYPE_RECEIVE \<noteq> MACH_PORT_TYPE_SEND_ONCE" "MACH_PORT_TYPE_RECEIVE \<noteq> MACH_PORT_TYPE_PORT_SET"
  "MACH_PORT_TYPE_RECEIVE \<noteq> MACH_PORT_TYPE_DEAD_NAME"
  "MACH_PORT_TYPE_SEND_RECEIVE \<noteq> MACH_PORT_TYPE_SEND_ONCE"
  "MACH_PORT_TYPE_SEND_RECEIVE \<noteq> MACH_PORT_TYPE_PORT_SET"
  "MACH_PORT_TYPE_SEND_RECEIVE \<noteq> MACH_PORT_TYPE_DEAD_NAME"
  "MACH_PORT_TYPE_SEND_ONCE \<noteq> MACH_PORT_TYPE_PORT_SET"
  "MACH_PORT_TYPE_SEND_ONCE \<noteq> MACH_PORT_TYPE_DEAD_NAME"
  "MACH_PORT_TYPE_PORT_SET \<noteq> MACH_PORT_TYPE_DEAD_NAME"
  by (simp_all add: mach_port_type_consts)

lemmas type_field_distinct' [simp] = type_field_distinct [symmetric]

section \<open>Lemmas on field updates\<close>

text \<open>Adding to the reference count leaves the other fields alone.\<close>

lemma IE_BITS_UREFS_le: "IE_BITS_UREFS b \<le> MACH_PORT_UREFS_MAX"
  using word_and_le1 [of b "0xffff"]
  by (simp add: IE_BITS_UREFS_def IE_BITS_UREFS_MASK_def MACH_PORT_UREFS_MAX_def)

lemma urefs_add:
  assumes "IE_BITS_UREFS b + d \<le> MACH_PORT_UREFS_MAX"
  shows "IE_BITS_UREFS (b + d) = IE_BITS_UREFS b + d"
    and "IE_BITS_TYPE (b + d) = IE_BITS_TYPE b"
    and "IE_BITS_GEN (b + d) = IE_BITS_GEN b"
    and "(b + d) AND MACH_PORT_TYPE_EX_RECEIVE = b AND MACH_PORT_TYPE_EX_RECEIVE"
  using assms add_low16 [of b d]
  by (simp_all add: ie_bits_defs MACH_PORT_UREFS_MAX_def)

lemma urefs_incr [ie_bits]:
  assumes "IE_BITS_UREFS b < MACH_PORT_UREFS_MAX"
  shows "IE_BITS_UREFS (b + 1) = IE_BITS_UREFS b + 1"
    and "IE_BITS_TYPE (b + 1) = IE_BITS_TYPE b"
    and "IE_BITS_GEN (b + 1) = IE_BITS_GEN b"
  using urefs_add [of b 1] inc_le [OF assms] by simp_all

lemma urefs_decr [ie_bits]:
  assumes "IE_BITS_UREFS b \<noteq> 0"
  shows "IE_BITS_UREFS (b - 1) = IE_BITS_UREFS b - 1"
    and "IE_BITS_TYPE (b - 1) = IE_BITS_TYPE b"
    and "IE_BITS_GEN (b - 1) = IE_BITS_GEN b"
proof -
  have "IE_BITS_UREFS b + - 1 \<le> MACH_PORT_UREFS_MAX"
    using IE_BITS_UREFS_le [of b] assms
    by (simp add: word_le_nat_alt unat_minus_one)
  from urefs_add [OF this]
  show "IE_BITS_UREFS (b - 1) = IE_BITS_UREFS b - 1"
    and "IE_BITS_TYPE (b - 1) = IE_BITS_TYPE b"
    and "IE_BITS_GEN (b - 1) = IE_BITS_GEN b" by simp_all
qed

text \<open>Setting and clearing type bits.\<close>

lemma type_update [ie_bits]:
  "IE_BITS_TYPE (b OR MACH_PORT_TYPE_EX_RECEIVE) = IE_BITS_TYPE b"
  "IE_BITS_TYPE ((b AND NOT IE_BITS_TYPE_MASK) OR MACH_PORT_TYPE_DEAD_NAME) = MACH_PORT_TYPE_DEAD_NAME"
  "IE_BITS_TYPE ((b AND NOT IE_BITS_TYPE_MASK) OR (MACH_PORT_TYPE_DEAD_NAME OR MACH_PORT_TYPE_EX_RECEIVE))
     = MACH_PORT_TYPE_DEAD_NAME"
  "IE_BITS_TYPE (b AND NOT IE_BITS_TYPE_MASK) = MACH_PORT_TYPE_NONE"
  "IE_BITS_TYPE (b AND (IE_BITS_GEN_MASK OR IE_BITS_ROLL_MASK)) = MACH_PORT_TYPE_NONE"
  by (simp_all add: ie_bits_defs bit.conj_disj_distrib bit.conj_disj_distrib2 and.assoc)

lemma urefs_update [ie_bits]:
  "IE_BITS_UREFS (b OR MACH_PORT_TYPE_EX_RECEIVE) = IE_BITS_UREFS b"
  "IE_BITS_UREFS ((b AND NOT IE_BITS_TYPE_MASK) OR MACH_PORT_TYPE_DEAD_NAME) = IE_BITS_UREFS b"
  "IE_BITS_UREFS ((b AND NOT IE_BITS_TYPE_MASK) OR (MACH_PORT_TYPE_DEAD_NAME OR MACH_PORT_TYPE_EX_RECEIVE))
     = IE_BITS_UREFS b"
  "IE_BITS_UREFS (b AND NOT IE_BITS_TYPE_MASK) = IE_BITS_UREFS b"
  "IE_BITS_UREFS (b AND (IE_BITS_GEN_MASK OR IE_BITS_ROLL_MASK)) = 0"
  by (simp_all add: ie_bits_defs bit.conj_disj_distrib bit.conj_disj_distrib2 and.assoc)

lemma gen_update [ie_bits]:
  "IE_BITS_GEN (b OR MACH_PORT_TYPE_EX_RECEIVE) = IE_BITS_GEN b"
  "IE_BITS_GEN ((b AND NOT IE_BITS_TYPE_MASK) OR MACH_PORT_TYPE_DEAD_NAME) = IE_BITS_GEN b"
  "IE_BITS_GEN ((b AND NOT IE_BITS_TYPE_MASK) OR (MACH_PORT_TYPE_DEAD_NAME OR MACH_PORT_TYPE_EX_RECEIVE))
     = IE_BITS_GEN b"
  "IE_BITS_GEN (b AND NOT IE_BITS_TYPE_MASK) = IE_BITS_GEN b"
  "IE_BITS_GEN (b AND (IE_BITS_GEN_MASK OR IE_BITS_ROLL_MASK)) = IE_BITS_GEN b"
  by (simp_all add: ie_bits_defs bit.conj_disj_distrib bit.conj_disj_distrib2 and.assoc)

section \<open>The generation counter\<close>

text \<open>
  \<open>gen_at r k\<close> is the value of a counter with rollover point \<open>r\<close> after \<open>k\<close> steps from
  \<open>ipc_entry_new_rollpoint\<close>: the generation is \<open>4 * k + 3\<close>.
\<close>

definition gen_at :: "nat \<Rightarrow> nat \<Rightarrow> 32 word" where
  "gen_at r k = push_bit 24 (of_nat (4 * k + 3)) OR push_bit 22 (of_nat r)"

definition gen_period :: "nat \<Rightarrow> nat" where
  "gen_period r = 63 - 16 * r"

lemma gen_fields:
  fixes x c :: "32 word"
  assumes "c AND 0xc00000 = c"
  shows "(push_bit 24 x OR c) AND 0xc00000 = c"
    and "(push_bit 24 x OR c) AND 0xff000000 = push_bit 24 x"
    and "push_bit 24 x OR c = push_bit 24 x + c"
proof -
  have 1: "push_bit 24 x AND 0xc00000 = 0"
    unfolding mask_consts(3) by (rule bit_word_eqI) (auto simp: bit_simps)
  have 2: "push_bit 24 x AND 0xff000000 = push_bit 24 x"
    unfolding mask_consts(2) by (rule bit_word_eqI) (auto simp: bit_simps)
  have "c AND 0xff000000 = (c AND 0xc00000) AND 0xff000000" by (simp only: assms)
  also have "\<dots> = 0" by (simp add: and.assoc)
  finally have 3: "c AND 0xff000000 = 0" .
  show "(push_bit 24 x OR c) AND 0xc00000 = c" by (simp add: bit.conj_disj_distrib2 1 assms)
  show "(push_bit 24 x OR c) AND 0xff000000 = push_bit 24 x"
    by (simp add: bit.conj_disj_distrib2 2 3)
  have "push_bit 24 x AND c = (push_bit 24 x AND 0xc00000) AND c"
    by (subst assms [symmetric]) (simp only: ac_simps)
  then have "push_bit 24 x AND c = 0" by (simp add: 1)
  then show "push_bit 24 x OR c = push_bit 24 x + c" by (simp add: disjunctive_add_eq_or)
qed

lemma gen_field_mod:
  assumes "a < 256" and "b < 256"
  shows "push_bit 24 (of_nat a) mod push_bit 24 (of_nat b) = (push_bit 24 (of_nat (a mod b)) :: 32 word)"
proof (rule word_unat_eq_iff [THEN iffD2])
  have u: "unat (push_bit 24 (of_nat k) :: 32 word) = 2 ^ 24 * k" if "k < 256" for k
    using that by (simp add: push_bit_eq_mult unat_word_ariths unsigned_of_nat take_bit_nat_eq_self)
  have "a mod b < 256" using assms by (cases "b = 0") (auto intro: less_trans [OF mod_less_divisor])
  then show "unat (push_bit 24 (of_nat a) mod push_bit 24 (of_nat b) :: 32 word)
      = unat (push_bit 24 (of_nat (a mod b)) :: 32 word)"
    using assms by (simp add: unat_mod u mult_mod_right [symmetric])
qed

lemma new_gen_gen_at:
  assumes "r < 4" and "k < 63"
  shows "ipc_entry_new_gen (gen_at r k)
    = push_bit 24 (of_nat ((4 * k + 7) mod (255 - 64 * r))) OR push_bit 22 (of_nat r)"
proof -
  let ?c = "push_bit 22 (of_nat r) :: 32 word"
  have r: "r \<in> {0, 1, 2, 3}" using assms(1) by auto
  then have c: "?c AND 0xc00000 = ?c" by auto
  have old: "gen_at r k AND 0xc00000 = ?c"
    unfolding gen_at_def by (rule gen_fields(1) [OF c])
  have roll: "push_bit 8 ?c XOR 0xff000000 = push_bit 24 (of_nat (255 - 64 * r))"
    using r by auto
  have "gen_at r k + 0x04000000 = push_bit 24 (of_nat (4 * k + 7)) OR ?c"
    unfolding gen_at_def gen_fields(3) [OF c] by (simp add: push_bit_eq_mult algebra_simps)
  then have sum: "(gen_at r k + 0x04000000) AND 0xff000000 = push_bit 24 (of_nat (4 * k + 7))"
    by (simp only: gen_fields(2) [OF c])
  have b: "4 * k + 7 < 256" "255 - 64 * r < 256" using assms by auto
  have masks_num: "push_bit 22 (push_bit 2 1 - 1) = (0xc00000 :: 32 word)" by simp
  show ?thesis
    unfolding ipc_entry_new_gen_def IE_BITS_ROLL_def Let_def
    unfolding ie_bits_masks
    by (simp only: masks_num sum old roll gen_field_mod [OF b])
qed

lemma gen_at_0: "r < 4 \<Longrightarrow> ipc_entry_new_rollpoint (of_nat r) = gen_at r 0"
proof -
  assume "r < 4"
  then have "r \<in> {0, 1, 2, 3}" by auto
  then show ?thesis by (auto simp: ipc_entry_new_rollpoint_def gen_at_def ie_bits_masks)
qed

lemma roll_const: "r < 4 \<Longrightarrow> push_bit 22 (of_nat r) AND 0xc00000 = (push_bit 22 (of_nat r) :: 32 word)"
proof -
  assume "r < 4"
  then have "r \<in> {0, 1, 2, 3}" by auto
  then show ?thesis by auto
qed

lemma gen_at_gen: "r < 4 \<Longrightarrow> IE_BITS_GEN (gen_at r k) = push_bit 24 (of_nat (4 * k + 3))"
  unfolding IE_BITS_GEN_def IE_BITS_GEN_MASK_def gen_at_def by (rule gen_fields(2) [OF roll_const])

lemma push_bit_24_less_iff:
  assumes "a < 256" and "b < 256"
  shows "(push_bit 24 (of_nat a) :: 32 word) < push_bit 24 (of_nat b) \<longleftrightarrow> a < b"
  using assms by (simp add: word_less_nat_alt push_bit_eq_mult unat_word_ariths unsigned_of_nat
      take_bit_nat_eq_self)

lemma gen_at_step:
  assumes "r < 4" and "Suc k < gen_period r"
  shows "ipc_entry_new_gen (gen_at r k) = gen_at r (Suc k)"
    and "\<not> ipc_entry_gen_rolled (gen_at r k) (gen_at r (Suc k))"
proof -
  have k: "k < 62" "4 * k + 7 < 255 - 64 * r" using assms by (auto simp: gen_period_def)
  then show "ipc_entry_new_gen (gen_at r k) = gen_at r (Suc k)"
    using new_gen_gen_at [of r k] assms(1) by (simp add: gen_at_def algebra_simps)
  show "\<not> ipc_entry_gen_rolled (gen_at r k) (gen_at r (Suc k))"
    using k push_bit_24_less_iff [of "4 * Suc k + 3" "4 * k + 3"]
    unfolding ipc_entry_gen_rolled_def
    by (simp add: IE_BITS_GEN_def [symmetric] gen_at_gen [OF assms(1)])
qed

lemma gen_at_roll:
  assumes "r < 4" and "Suc k = gen_period r"
  shows "ipc_entry_gen_rolled (gen_at r k) (ipc_entry_new_gen (gen_at r k))"
proof -
  have k: "k < 63" "4 * k + 7 = 255 - 64 * r" using assms by (auto simp: gen_period_def)
  have "ipc_entry_new_gen (gen_at r k) = push_bit 24 (of_nat 0) OR push_bit 22 (of_nat r)"
    using new_gen_gen_at [OF assms(1) k(1)] k(2) by simp
  moreover have "(push_bit 24 (of_nat 0) OR push_bit 22 (of_nat r)) AND 0xff000000
      = (push_bit 24 (of_nat 0) :: 32 word)"
    by (rule gen_fields(2) [OF roll_const [OF assms(1)]])
  ultimately show ?thesis
    using k push_bit_24_less_iff [of 0 "4 * k + 3"]
    unfolding ipc_entry_gen_rolled_def
    by (simp add: IE_BITS_GEN_def [symmetric] gen_at_gen [OF assms(1)]) (simp add: ie_bits_defs)
qed

lemma gen_iter:
  assumes "r < 4" and "k < gen_period r"
  shows "(ipc_entry_new_gen ^^ k) (ipc_entry_new_rollpoint (of_nat r)) = gen_at r k"
  using assms(2) by (induction k) (simp_all add: gen_at_0 gen_at_step(1) assms(1))

lemma gen_at_inj:
  assumes "r < 4" "j < 63" "k < 63" "IE_BITS_GEN (gen_at r j) = IE_BITS_GEN (gen_at r k)"
  shows "j = k"
proof -
  have "4 * j + 3 = 4 * k + 3"
    using assms push_bit_24_less_iff [of "4 * j + 3" "4 * k + 3"]
      push_bit_24_less_iff [of "4 * k + 3" "4 * j + 3"]
    by (auto simp: gen_at_gen)
  then show ?thesis by simp
qed

definition gen_after :: "nat \<Rightarrow> nat \<Rightarrow> 32 word" where
  "gen_after r k = (ipc_entry_new_gen ^^ k) (ipc_entry_new_rollpoint (of_nat r))"

text \<open>
  C30. Between two rollovers the counter of a table slot yields exactly \<open>63 - 16 * r\<close> generations,
  where \<open>r\<close> is its rollover point, and the port names they make with the slot's index are pairwise
  different; the next step of the counter is the first one reported as a rollover.
\<close>

theorem generation_period:
  assumes r: "r < 4" and "i < 2 ^ 24"
  shows "inj_on (\<lambda>k. MACH_PORT_MAKE i (gen_after r k)) {..<63 - 16 * r} \<and>
    (\<forall>k < 63 - 16 * r.
       ipc_entry_gen_rolled (gen_after r k) (ipc_entry_new_gen (gen_after r k)) \<longleftrightarrow> k = 62 - 16 * r)"
proof (intro conjI allI impI)
  have p: "gen_period r = 63 - 16 * r" "62 - 16 * r < 63 - 16 * r" "Suc (62 - 16 * r) = 63 - 16 * r"
    using r by (auto simp: gen_period_def)
  have g: "gen_after r k = gen_at r k" if "k < 63 - 16 * r" for k
    unfolding gen_after_def using gen_iter [OF r] that p(1) by simp
  show "inj_on (\<lambda>k. MACH_PORT_MAKE i (gen_after r k)) {..<63 - 16 * r}"
  proof (rule inj_onI)
    fix j k
    assume jk: "j \<in> {..<63 - 16 * r}" "k \<in> {..<63 - 16 * r}"
      and eq: "MACH_PORT_MAKE i (gen_after r j) = MACH_PORT_MAKE i (gen_after r k)"
    have "IE_BITS_GEN (gen_after r j) = IE_BITS_GEN (gen_after r k)"
      using arg_cong [OF eq, of MACH_PORT_GEN] by simp
    then show "j = k" using jk gen_at_inj [OF r, of j k] by (auto simp: g)
  qed
  fix k
  assume "k < 63 - 16 * r"
  then show "ipc_entry_gen_rolled (gen_after r k) (ipc_entry_new_gen (gen_after r k))
      \<longleftrightarrow> k = 62 - 16 * r"
    using gen_at_step [OF r, of k] gen_at_roll [OF r, of k] p
    by (cases "Suc k < gen_period r") (auto simp: g)
qed

lemma generation_period_witness:
  "inj_on (\<lambda>k. MACH_PORT_MAKE 5 (gen_after 1 k)) {..<47} \<and>
    ipc_entry_gen_rolled (gen_after 1 46) (ipc_entry_new_gen (gen_after 1 46)) \<and>
    \<not> ipc_entry_gen_rolled (gen_after 1 45) (ipc_entry_new_gen (gen_after 1 45))"
  using generation_period [of 1 5] by simp

text \<open>
  C31. A port name is its index and its generation: splitting a name and making it again gives the
  same name, and a name made from an index below \<open>2 ^ 24\<close> splits into that index and the
  generation bits it was made from.
\<close>

theorem port_name_roundtrip:
  "MACH_PORT_MAKE (MACH_PORT_INDEX name) (MACH_PORT_GEN name) = name \<and>
   (i < 2 ^ 24 \<longrightarrow> MACH_PORT_INDEX (MACH_PORT_MAKE i g) = i \<and>
                  MACH_PORT_GEN (MACH_PORT_MAKE i g) = IE_BITS_GEN g)"
  by simp

lemma port_name_roundtrip_witness:
  "MACH_PORT_MAKE (MACH_PORT_INDEX 0x1203) (MACH_PORT_GEN 0x1203) = 0x1203 \<and>
   MACH_PORT_INDEX (MACH_PORT_MAKE 18 0x07000000) = 18 \<and>
   MACH_PORT_GEN (MACH_PORT_MAKE 18 0x07000000) = IE_BITS_GEN 0x07000000"
  using port_name_roundtrip [of "0x1203" 18 "0x07000000"] by simp

end
