(* ===== verification/Ipc_Hash.thy ===== *)
theory Ipc_Hash
  imports Mach_Port_Names
begin

text \<open>
  The entry of a capability table (\<open>osfmk/ipc/ipc_entry.h\<close>) and the reverse hash table threaded
  through its \<open>ie_index\<close> and \<open>ie_dist\<close> fields (\<open>osfmk/ipc/ipc_hash.c\<close>): an open-addressing table
  with linear probing and Robin Hood displacement that converts an object to the index of the entry
  holding the pure send right for it. A table is the list of its entries; a pointer to an entry is
  its index. The loops are partial functions: \<open>None\<close> is a failed assertion, an access outside the
  table or a probe that never ends.

  \<open>rh_ok\<close> is the Robin Hood invariant. The lemmas show that lookup decides membership, that
  insertion and deletion return, keep the invariant and change the hashed set by exactly the entry
  they are given. Distances are pegged at \<open>IPC_ENTRY_DIST_MAX\<close>; lookup and insertion are correct at
  every table size, deletion at sizes up to \<open>IPC_ENTRY_DIST_MAX + 1\<close>, where no distance is pegged
  above its true value.
\<close>

section \<open>Entries\<close>

text \<open>
  \<open>ie_request\<close> and \<open>ie_next\<close> are the two members of the union \<open>index\<close>: the same storage, so one
  field of the record. \<open>ie_dist\<close> (12 bits) and \<open>ie_index\<close> (32 bits) are naturals; \<open>rh_ok\<close> bounds the first by
  \<open>IPC_ENTRY_DIST_MAX\<close> and the second by the number of entries of the table.
\<close>

record ipc_entry =
  ie_object :: ptr
  ie_bits :: ipc_entry_bits_t
  ie_dist :: nat
  ie_index :: mach_port_index_t
  ie_request :: nat

abbreviation ie_next :: "'a ipc_entry_scheme \<Rightarrow> nat" where
  "ie_next \<equiv> ie_request"

abbreviation ie_next_update :: "(nat \<Rightarrow> nat) \<Rightarrow> 'a ipc_entry_scheme \<Rightarrow> 'a ipc_entry_scheme" where
  "ie_next_update \<equiv> ie_request_update"

definition IE_REQ_NONE :: nat where
  "IE_REQ_NONE = 0"

definition IO_NULL :: ptr where
  "IO_NULL = 0"

definition IO_DEAD :: ptr where
  "IO_DEAD = NOT 0"

definition IO_VALID :: "ptr \<Rightarrow> bool" where
  "IO_VALID io \<longleftrightarrow> io \<noteq> IO_NULL \<and> io \<noteq> IO_DEAD"

definition IPC_ENTRY_DIST_MAX :: nat where
  "IPC_ENTRY_DIST_MAX = 2 ^ 12 - 1"

type_synonym ipc_table = "ipc_entry list"

section \<open>The hash function\<close>

definition bswap32 :: "32 word \<Rightarrow> 32 word" where
  "bswap32 x = push_bit 24 (x AND 0xff) OR push_bit 8 (x AND 0xff00)
     OR drop_bit 8 (x AND 0xff0000) OR drop_bit 24 x"

definition os_hash_kernel_pointer :: "ptr \<Rightarrow> 32 word" where
  "os_hash_kernel_pointer pointer =
     (let key = drop_bit 4 pointer * 0x5052acdb
      in (ucast key :: 32 word) XOR bswap32 (ucast key))"

definition IH_TABLE_HASH :: "ptr \<Rightarrow> nat \<Rightarrow> mach_port_index_t" where
  "IH_TABLE_HASH obj tsize = unat (os_hash_kernel_pointer obj) mod tsize"

section \<open>Operations on a table\<close>

text \<open>The wrap-around of a slot index and the pegged increment of a distance.\<close>

definition hindex_next :: "nat \<Rightarrow> nat \<Rightarrow> nat" where
  "hindex_next tsize hindex = (if hindex + 1 = tsize then 0 else hindex + 1)"

definition hdist_next :: "nat \<Rightarrow> nat" where
  "hdist_next hdist = (if hdist < IPC_ENTRY_DIST_MAX then hdist + 1 else hdist)"

partial_function (option) ipc_hash_table_lookup_loop ::
  "ipc_table \<Rightarrow> nat \<Rightarrow> ptr \<Rightarrow> nat \<Rightarrow> nat \<Rightarrow> (mach_port_name_t \<times> mach_port_index_t) option option" where
  "ipc_hash_table_lookup_loop table tsize obj hindex hdist = do {
     slot \<leftarrow> arr_get table hindex;
     let index = ie_index slot;
     if index = 0 then Some None
     else if ie_dist slot < hdist then Some None
     else if hdist = ie_dist slot then do {
       kassert (index < tsize);
       entry \<leftarrow> arr_get table index;
       if ie_object entry = obj
       then Some (Some (MACH_PORT_MAKE index (IE_BITS_GEN (ie_bits entry)), index))
       else ipc_hash_table_lookup_loop table tsize obj (hindex_next tsize hindex) (hdist_next hdist)
     } else do {
       entry \<leftarrow> arr_get table index;
       kassert (ie_object entry \<noteq> obj);
       ipc_hash_table_lookup_loop table tsize obj (hindex_next tsize hindex) (hdist_next hdist)
     }
   }"

definition ipc_hash_table_lookup ::
  "ipc_table \<Rightarrow> nat \<Rightarrow> ptr \<Rightarrow> (mach_port_name_t \<times> mach_port_index_t) option option" where
  "ipc_hash_table_lookup table tsize obj =
     (if obj = IO_NULL then Some None
      else ipc_hash_table_lookup_loop table tsize obj (IH_TABLE_HASH obj tsize) 0)"

partial_function (option) ipc_hash_table_insert_loop ::
  "nat \<Rightarrow> ipc_table \<Rightarrow> nat \<Rightarrow> nat \<Rightarrow> nat \<Rightarrow> ipc_table option" where
  "ipc_hash_table_insert_loop tsize table index hindex hdist = do {
     slot \<leftarrow> arr_get table hindex;
     if ie_index slot \<noteq> 0 then
       if ie_dist slot < hdist then
         ipc_hash_table_insert_loop tsize
           (table[hindex := slot\<lparr>ie_dist := hdist, ie_index := index\<rparr>])
           (ie_index slot) (hindex_next tsize hindex) (hdist_next (ie_dist slot))
       else ipc_hash_table_insert_loop tsize table index (hindex_next tsize hindex) (hdist_next hdist)
     else arr_set table hindex (slot\<lparr>ie_index := index, ie_dist := hdist\<rparr>)
   }"

definition ipc_hash_table_insert ::
  "ipc_table \<Rightarrow> nat \<Rightarrow> ptr \<Rightarrow> mach_port_index_t \<Rightarrow> ipc_table option" where
  "ipc_hash_table_insert table tsize obj index = do {
     kassert (index \<noteq> 0);
     kassert (obj \<noteq> IO_NULL);
     entry \<leftarrow> arr_get table index;
     kassert (ie_object entry = obj);
     ipc_hash_table_insert_loop tsize table index (IH_TABLE_HASH obj tsize) 0
   }"

partial_function (option) ipc_hash_table_delete_find ::
  "ipc_table \<Rightarrow> nat \<Rightarrow> mach_port_index_t \<Rightarrow> nat \<Rightarrow> nat option" where
  "ipc_hash_table_delete_find table tsize index hindex = do {
     slot \<leftarrow> arr_get table hindex;
     if ie_index slot \<noteq> index
     then ipc_hash_table_delete_find table tsize index (hindex_next tsize hindex)
     else Some hindex
   }"

text \<open>The new distance of an element that moves from slot \<open>dindex\<close> back into the hole.\<close>

definition moved_dist :: "ipc_table \<Rightarrow> nat \<Rightarrow> nat \<Rightarrow> nat \<Rightarrow> nat \<Rightarrow> nat option" where
  "moved_dist table tsize hindex index dist =
     (if dist = IPC_ENTRY_DIST_MAX then do {
        entry \<leftarrow> arr_get table index;
        let desired = IH_TABLE_HASH (ie_object entry) tsize;
        let dist = (if desired \<le> hindex then hindex - desired else hindex + tsize - desired);
        Some (if IPC_ENTRY_DIST_MAX < dist then IPC_ENTRY_DIST_MAX else dist)
      } else Some (dist - 1))"

partial_function (option) ipc_hash_table_delete_shift ::
  "nat \<Rightarrow> ipc_table \<Rightarrow> nat \<Rightarrow> ipc_table option" where
  "ipc_hash_table_delete_shift tsize table hindex = do {
     let dindex = hindex_next tsize hindex;
     hole \<leftarrow> arr_get table hindex;
     slot \<leftarrow> arr_get table dindex;
     let index = ie_index slot;
     let dist = ie_dist slot;
     if index = 0 \<or> dist = 0 then arr_set table hindex (hole\<lparr>ie_index := 0, ie_dist := 0\<rparr>)
     else do {
       dist \<leftarrow> moved_dist table tsize hindex index dist;
       table \<leftarrow> arr_set table hindex (hole\<lparr>ie_index := index, ie_dist := dist\<rparr>);
       ipc_hash_table_delete_shift tsize table dindex
     }
   }"

definition ipc_hash_table_delete ::
  "ipc_table \<Rightarrow> nat \<Rightarrow> ptr \<Rightarrow> mach_port_index_t \<Rightarrow> ipc_table option" where
  "ipc_hash_table_delete table tsize obj index = do {
     kassert (index \<noteq> 0);
     kassert (obj \<noteq> IO_NULL);
     entry \<leftarrow> arr_get table index;
     kassert (ie_object entry = obj);
     hindex \<leftarrow> ipc_hash_table_delete_find table tsize index (IH_TABLE_HASH obj tsize);
     ipc_hash_table_delete_shift tsize table hindex
   }"


section \<open>Circular distance\<close>

definition cdist :: "nat \<Rightarrow> nat \<Rightarrow> nat \<Rightarrow> nat" where
  "cdist n a b = (b + n - a) mod n"

lemma cdist_less: "0 < n \<Longrightarrow> cdist n a b < n"
  by (simp add: cdist_def)

lemma cdist_add: "a < n \<Longrightarrow> k < n \<Longrightarrow> cdist n a ((a + k) mod n) = k"
  by (cases "a + k < n") (auto simp: cdist_def mod_if)

lemma add_cdist: "a < n \<Longrightarrow> b < n \<Longrightarrow> (a + cdist n a b) mod n = b"
  by (cases "a \<le> b") (auto simp: cdist_def mod_if)

lemma cdist_zero_iff: "a < n \<Longrightarrow> b < n \<Longrightarrow> cdist n a b = 0 \<longleftrightarrow> a = b"
  by (cases "a \<le> b") (auto simp: cdist_def mod_if)

lemma cdist_if: "a < n \<Longrightarrow> b < n \<Longrightarrow> cdist n a b = (if a \<le> b then b - a else b + n - a)"
  by (cases "a \<le> b") (auto simp: cdist_def mod_if)

lemma hindex_next_mod: "i < n \<Longrightarrow> hindex_next n i = (i + 1) mod n"
  by (simp add: hindex_next_def mod_if)

lemma hindex_next_add: "0 < n \<Longrightarrow> hindex_next n ((a + k) mod n) = (a + Suc k) mod n"
  by (simp add: hindex_next_mod mod_simps)

lemma hdist_next_min: "hdist_next (min IPC_ENTRY_DIST_MAX k) = min IPC_ENTRY_DIST_MAX (Suc k)"
  by (simp add: hdist_next_def min_def)

lemma IH_TABLE_HASH_less: "0 < n \<Longrightarrow> IH_TABLE_HASH obj n < n"
  by (simp add: IH_TABLE_HASH_def)

section \<open>The Robin Hood invariant\<close>

definition slot_home :: "ipc_table \<Rightarrow> nat \<Rightarrow> nat" where
  "slot_home t j = IH_TABLE_HASH (ie_object (t ! j)) (length t)"

definition probe_path :: "ipc_table \<Rightarrow> nat \<Rightarrow> nat \<Rightarrow> bool" where
  "probe_path t h k \<longleftrightarrow> (\<forall>k' < k. ie_index (t ! ((h + k') mod length t)) \<noteq> 0
      \<and> min IPC_ENTRY_DIST_MAX k' \<le> ie_dist (t ! ((h + k') mod length t)))"

definition rh_slot :: "ipc_table \<Rightarrow> nat \<Rightarrow> bool" where
  "rh_slot t i \<longleftrightarrow> (ie_index (t ! i) \<noteq> 0 \<longrightarrow>
     (let j = ie_index (t ! i); d = cdist (length t) (slot_home t j) i
      in j < length t \<and> ie_object (t ! j) \<noteq> IO_NULL
         \<and> ie_dist (t ! i) = min IPC_ENTRY_DIST_MAX d \<and> probe_path t (slot_home t j) d))"

definition rh_distinct :: "ipc_table \<Rightarrow> bool" where
  "rh_distinct t \<longleftrightarrow> (\<forall>i < length t. \<forall>j < length t. ie_index (t ! i) \<noteq> 0 \<longrightarrow> ie_index (t ! j) \<noteq> 0 \<longrightarrow>
     ie_object (t ! ie_index (t ! i)) = ie_object (t ! ie_index (t ! j)) \<longrightarrow> i = j)"

definition rh_ok :: "ipc_table \<Rightarrow> bool" where
  "rh_ok t \<longleftrightarrow> rh_distinct t \<and> (\<forall>i < length t. rh_slot t i)"

text \<open>
  The order alone, in which no entry is hashed twice but two hashed entries may hold the same object. The table that
  \<open>ipc_entry_grow_table\<close> builds is in this state while other threads change the one it copies from.
\<close>

definition rh_order :: "ipc_table \<Rightarrow> bool" where
  "rh_order t \<longleftrightarrow> (\<forall>i < length t. \<forall>j < length t. ie_index (t ! i) \<noteq> 0 \<longrightarrow> ie_index (t ! i) = ie_index (t ! j) \<longrightarrow> i = j)
     \<and> (\<forall>i < length t. rh_slot t i)"

definition hashed :: "ipc_table \<Rightarrow> nat set" where
  "hashed t = {ie_index (t ! i) | i. i < length t \<and> ie_index (t ! i) \<noteq> 0}"

lemma hashed_code [code]: "hashed t = set (filter (\<lambda>j. j \<noteq> 0) (map ie_index t))"
  by (auto simp: hashed_def in_set_conv_nth image_iff) (metis nth_mem)

text \<open>The part of a table that the hash operations leave alone.\<close>

definition same_entries :: "ipc_table \<Rightarrow> ipc_table \<Rightarrow> bool" where
  "same_entries t t' \<longleftrightarrow> length t' = length t \<and>
     (\<forall>i < length t. ie_object (t' ! i) = ie_object (t ! i) \<and> ie_bits (t' ! i) = ie_bits (t ! i)
        \<and> ie_request (t' ! i) = ie_request (t ! i))"

lemma same_entries_refl [simp]: "same_entries t t"
  by (simp add: same_entries_def)

lemma same_entries_trans: "same_entries t t' \<Longrightarrow> same_entries t' t'' \<Longrightarrow> same_entries t t''"
  by (simp add: same_entries_def)

lemma same_entries_upd:
  "i < length t \<Longrightarrow> same_entries t (t[i := (t ! i)\<lparr>ie_index := x, ie_dist := d\<rparr>])"
  by (simp add: same_entries_def nth_list_update)

lemma same_entries_length: "same_entries t t' \<Longrightarrow> length t' = length t"
  by (simp add: same_entries_def)

lemma ie_dist_index_update [simp]:
  "e\<lparr>ie_dist := d, ie_index := x\<rparr> = e\<lparr>ie_index := x, ie_dist := d\<rparr>"
  by (cases e) simp

lemma rh_orderD:
  assumes "rh_order t" "i < length t" "ie_index (t ! i) = j" "j \<noteq> 0"
  shows "j < length t" "ie_object (t ! j) \<noteq> IO_NULL"
    "ie_dist (t ! i) = min IPC_ENTRY_DIST_MAX (cdist (length t) (slot_home t j) i)"
    "probe_path t (slot_home t j) (cdist (length t) (slot_home t j) i)"
  using assms by (auto simp: rh_order_def rh_slot_def Let_def)

lemma rh_order_inj:
  assumes "rh_order t" "i < length t" "j < length t" "ie_index (t ! i) \<noteq> 0" "ie_index (t ! i) = ie_index (t ! j)"
  shows "i = j"
  using assms by (simp add: rh_order_def)

lemma rh_ok_order: "rh_ok t \<longleftrightarrow> rh_order t \<and> inj_on (\<lambda>j. ie_object (t ! j)) (hashed t)"
  unfolding rh_ok_def rh_order_def rh_distinct_def inj_on_def hashed_def by (intro iffI; auto; metis)

lemmas rh_okD = rh_orderD [OF rh_ok_order [THEN iffD1, THEN conjunct1]]

lemma rh_ok_inj:
  assumes "rh_ok t" "i < length t" "j < length t" "ie_index (t ! i) \<noteq> 0" "ie_index (t ! j) \<noteq> 0"
    "ie_object (t ! ie_index (t ! i)) = ie_object (t ! ie_index (t ! j))"
  shows "i = j"
  using assms by (auto simp: rh_ok_def rh_distinct_def)

text \<open>Operations that leave the entries alone keep the distinctness of objects as far as they keep the hashed set.\<close>

lemma rh_ok_same:
  assumes "rh_order t'" "same_entries t t'" "\<And>j. j \<in> hashed t' \<Longrightarrow> j < length t" "inj_on (\<lambda>j. ie_object (t ! j)) (hashed t')"
  shows "rh_ok t'"
  using assms by (auto simp: rh_ok_order same_entries_def inj_on_def)

lemma slot_home_less: "0 < length t \<Longrightarrow> slot_home t j < length t"
  by (simp add: slot_home_def IH_TABLE_HASH_less)

lemma rh_order_empty:
  assumes "rh_order t" "t \<noteq> []"
  shows "\<exists>e < length t. ie_index (t ! e) = 0"
proof (rule ccontr)
  let ?f = "\<lambda>i. ie_index (t ! i)"
  assume "\<not> ?thesis"
  then have ne: "\<forall>i < length t. ?f i \<noteq> 0" by auto
  then have "inj_on ?f {..<length t}"
    using rh_order_inj [OF assms(1)] by (auto simp: inj_on_def)
  moreover have "?f ` {..<length t} \<subseteq> {1..<length t}"
    using ne rh_orderD(1) [OF assms(1)] by (fastforce simp: Suc_le_eq)
  ultimately have "card {..<length t} \<le> card {1..<length t}"
    by (intro card_inj_on_le) auto
  then show False using assms(2) by (cases t) auto
qed

lemmas rh_ok_empty = rh_order_empty [OF rh_ok_order [THEN iffD1, THEN conjunct1]]

lemma probe_path_bound:
  assumes "probe_path t h k" "e < length t" "ie_index (t ! e) = 0" "h < length t"
  shows "k \<le> cdist (length t) h e"
proof (rule ccontr)
  assume "\<not> ?thesis"
  then have "ie_index (t ! ((h + cdist (length t) h e) mod length t)) \<noteq> 0"
    using assms(1) by (auto simp: probe_path_def)
  then show False using assms by (simp add: add_cdist)
qed

lemma probe_path_Suc:
  "probe_path t h (Suc k) \<longleftrightarrow> probe_path t h k \<and> ie_index (t ! ((h + k) mod length t)) \<noteq> 0
     \<and> min IPC_ENTRY_DIST_MAX k \<le> ie_dist (t ! ((h + k) mod length t))"
  by (auto simp: probe_path_def less_Suc_eq)

lemma probe_path_0 [simp]: "probe_path t h 0"
  by (simp add: probe_path_def)

subsection \<open>Lookup\<close>

text \<open>The entry whose object is \<open>obj\<close> among the hashed ones.\<close>

definition hash_find :: "ipc_table \<Rightarrow> ptr \<Rightarrow> nat option" where
  "hash_find t obj = map_option (\<lambda>i. ie_index (t ! i))
     (find (\<lambda>i. ie_index (t ! i) \<noteq> 0 \<and> ie_object (t ! ie_index (t ! i)) = obj) [0..<length t])"

lemma hash_find_Some:
  assumes "rh_ok t"
  shows "hash_find t obj = Some j \<longleftrightarrow> j \<in> hashed t \<and> ie_object (t ! j) = obj"
proof
  assume "hash_find t obj = Some j"
  then show "j \<in> hashed t \<and> ie_object (t ! j) = obj"
    by (auto simp: hash_find_def hashed_def find_Some_iff)
next
  assume j: "j \<in> hashed t \<and> ie_object (t ! j) = obj"
  then obtain i where i: "i < length t" "ie_index (t ! i) = j" "j \<noteq> 0"
    by (auto simp: hashed_def)
  have "ie_index (t ! i') \<noteq> 0 \<longrightarrow> ie_object (t ! ie_index (t ! i')) \<noteq> obj" if "i' < i" for i'
    using rh_ok_inj [OF assms i(1), of i'] i j that by auto
  then have "find (\<lambda>i. ie_index (t ! i) \<noteq> 0 \<and> ie_object (t ! ie_index (t ! i)) = obj) [0..<length t] = Some i"
    using i j by (intro find_Some_iff [THEN iffD2] exI [of _ i]) auto
  then show "hash_find t obj = Some j"
    using i by (simp add: hash_find_def)
qed

lemma hash_find_None:
  "hash_find t obj = None \<longleftrightarrow> (\<forall>j \<in> hashed t. ie_object (t ! j) \<noteq> obj)"
  by (auto simp: hash_find_def hashed_def find_None_iff)

text \<open>A probe that has reached distance \<open>k\<close> along the path of \<open>obj\<close> has passed over no entry for it.\<close>

lemma rh_not_found:
  assumes ok: "rh_ok t" and path: "probe_path t (IH_TABLE_HASH obj (length t)) k" and ne: "t \<noteq> []"
    and stop: "ie_index (t ! ((IH_TABLE_HASH obj (length t) + k) mod length t)) = 0
      \<or> ie_dist (t ! ((IH_TABLE_HASH obj (length t) + k) mod length t)) < min IPC_ENTRY_DIST_MAX k"
    and passed: "\<And>k'. k' < k \<Longrightarrow> ie_object (t ! ie_index (t ! ((IH_TABLE_HASH obj (length t) + k') mod length t))) \<noteq> obj"
  shows "hash_find t obj = None"
proof -
  let ?n = "length t" and ?h = "IH_TABLE_HASH obj (length t)"
  have h: "?h < ?n" using ne by (simp add: IH_TABLE_HASH_less)
  { fix i assume i: "i < ?n" "ie_index (t ! i) \<noteq> 0" "ie_object (t ! ie_index (t ! i)) = obj"
    let ?d = "cdist ?n ?h i"
    have hm: "slot_home t (ie_index (t ! i)) = ?h" by (simp add: slot_home_def i)
    have path': "probe_path t ?h ?d" and ds: "ie_dist (t ! i) = min IPC_ENTRY_DIST_MAX ?d"
      using rh_okD [OF ok i(1) refl i(2)] hm by simp_all
    have at: "(?h + ?d) mod ?n = i" using add_cdist [OF h i(1)] .
    have "\<not> ?d < k" using passed [of ?d] i(3) at by auto
    moreover have "\<not> k < ?d"
      using path' stop by (auto simp: probe_path_def not_less[symmetric])
    moreover have "k \<noteq> ?d" using stop i(2) ds at by auto
    ultimately have False by simp }
  then show ?thesis by (auto simp: hash_find_None hashed_def)
qed

lemma ipc_hash_table_lookup_loop_correct:
  assumes ok: "rh_ok t" and ne: "t \<noteq> []" and "obj \<noteq> IO_NULL"
    and "probe_path t (IH_TABLE_HASH obj (length t)) k"
    and "\<And>k'. k' < k \<Longrightarrow> ie_object (t ! ie_index (t ! ((IH_TABLE_HASH obj (length t) + k') mod length t))) \<noteq> obj"
  shows "ipc_hash_table_lookup_loop t (length t) obj ((IH_TABLE_HASH obj (length t) + k) mod length t)
      (min IPC_ENTRY_DIST_MAX k)
    = Some (map_option (\<lambda>j. (MACH_PORT_MAKE j (IE_BITS_GEN (ie_bits (t ! j))), j)) (hash_find t obj))"
  using assms(4,5)
proof (induction "length t - k" arbitrary: k rule: less_induct)
  case less
  let ?n = "length t" and ?h = "IH_TABLE_HASH obj (length t)"
  let ?i = "(?h + k) mod ?n" and ?d = "min IPC_ENTRY_DIST_MAX k"
  have n: "0 < ?n" and h: "?h < ?n" and i: "?i < ?n" using ne by (simp_all add: IH_TABLE_HASH_less)
  obtain e where e: "e < ?n" "ie_index (t ! e) = 0" using rh_ok_empty [OF ok ne] by blast
  have "k < ?n"
    using probe_path_bound [OF less.prems(1) e h] cdist_less [of ?n ?h e] i by linarith
  show ?case
  proof (cases "ie_index (t ! ?i) = 0 \<or> ie_dist (t ! ?i) < ?d")
    case True
    then have "hash_find t obj = None"
      by (intro rh_not_found [OF ok less.prems(1) ne]) (use less.prems(2) in auto)
    with True i show ?thesis by (subst ipc_hash_table_lookup_loop.simps) (auto simp: Let_def)
  next
    case False
    let ?j = "ie_index (t ! ?i)"
    from False have j: "?j \<noteq> 0" and dle: "?d \<le> ie_dist (t ! ?i)" by auto
    note J = rh_okD [OF ok i refl j]
    show ?thesis
    proof (cases "ie_object (t ! ?j) = obj")
      case True
      then have "slot_home t ?j = ?h" by (simp add: slot_home_def)
      then have "ie_dist (t ! ?i) = ?d" using J(3) cdist_add [OF h \<open>k < ?n\<close>] by simp
      moreover have "hash_find t obj = Some ?j"
        using True i j by (auto simp: hash_find_Some [OF ok] hashed_def)
      ultimately show ?thesis
        using True i j J(1) by (subst ipc_hash_table_lookup_loop.simps) (simp add: Let_def)
    next
      case other: False
      have step: "ipc_hash_table_lookup_loop t ?n obj (hindex_next ?n ?i) (hdist_next ?d)
          = Some (map_option (\<lambda>j. (MACH_PORT_MAKE j (IE_BITS_GEN (ie_bits (t ! j))), j)) (hash_find t obj))"
        unfolding hdist_next_min hindex_next_add [OF n]
        by (rule less.hyps) (use \<open>k < ?n\<close> less.prems j dle other in \<open>auto simp: probe_path_Suc less_Suc_eq\<close>)
      show ?thesis
        using other i j J(1) dle step by (subst ipc_hash_table_lookup_loop.simps) (auto simp: Let_def not_less)
    qed
  qed
qed

lemma ipc_hash_table_lookup_correct:
  assumes "rh_ok t" "t \<noteq> []" "obj \<noteq> IO_NULL"
  shows "ipc_hash_table_lookup t (length t) obj
    = Some (map_option (\<lambda>j. (MACH_PORT_MAKE j (IE_BITS_GEN (ie_bits (t ! j))), j)) (hash_find t obj))"
  using ipc_hash_table_lookup_loop_correct [OF assms, of 0] assms
  by (simp add: ipc_hash_table_lookup_def IH_TABLE_HASH_less)

subsection \<open>Insertion\<close>

text \<open>
  The state of an insertion that carries entry \<open>c\<close>, displaced \<open>k\<close> slots from its home: the table is
  ordered, \<open>c\<close> is not hashed, and the slots \<open>c\<close> has passed keep it out.
\<close>

definition rh_carry :: "ipc_table \<Rightarrow> nat \<Rightarrow> nat \<Rightarrow> bool" where
  "rh_carry t c k \<longleftrightarrow> rh_order t \<and> c \<noteq> 0 \<and> c < length t \<and> ie_object (t ! c) \<noteq> IO_NULL
     \<and> c \<notin> hashed t \<and> probe_path t (slot_home t c) k"

text \<open>Replacing the occupant of a slot by one at least as far displaced keeps every other path.\<close>

lemma probe_path_upd:
  assumes "probe_path t h k" "i < length t" "x \<noteq> 0" "ie_dist (t ! i) \<le> d"
  shows "probe_path (t[i := (t ! i)\<lparr>ie_index := x, ie_dist := d\<rparr>]) h k"
  using assms by (fastforce simp: probe_path_def nth_list_update intro: order_trans)

lemma probe_path_upd_empty:
  assumes "probe_path t h k" "i < length t" "x \<noteq> 0" "ie_index (t ! i) = 0"
  shows "probe_path (t[i := (t ! i)\<lparr>ie_index := x, ie_dist := d\<rparr>]) h k"
  using assms by (auto simp: probe_path_def nth_list_update)

lemma slot_home_same: "same_entries t t' \<Longrightarrow> j < length t \<Longrightarrow> slot_home t' j = slot_home t j"
  by (simp add: slot_home_def same_entries_def)

text \<open>Placing the carried entry in a slot that is empty or holds a less displaced entry.\<close>

lemma rh_place:
  assumes carry: "rh_carry t c k" and i: "i = (slot_home t c + k) mod length t" and k: "k < length t"
    and slot: "ie_index (t ! i) = 0 \<or> ie_dist (t ! i) \<le> min IPC_ENTRY_DIST_MAX k"
    and t': "t' = t[i := (t ! i)\<lparr>ie_index := c, ie_dist := min IPC_ENTRY_DIST_MAX k\<rparr>]"
  shows "rh_order t'" "same_entries t t'" "hashed t' = insert c (hashed t - (if ie_index (t ! i) = 0 then {} else {ie_index (t ! i)}))"
proof -
  let ?n = "length t"
  have ok: "rh_order t" and c: "c \<noteq> 0" "c < ?n" "ie_object (t ! c) \<noteq> IO_NULL"
    and fresh: "\<And>j. j < ?n \<Longrightarrow> ie_index (t ! j) \<noteq> c" and path: "probe_path t (slot_home t c) k"
    using carry by (auto simp: rh_carry_def hashed_def)
  have "0 < ?n" using k by linarith
  then have il: "i < ?n" using i by simp
  show same: "same_entries t t'" unfolding t' using il by (rule same_entries_upd)
  have len: "length t' = ?n" by (simp add: t')
  have obj: "ie_object (t' ! j) = ie_object (t ! j)" if "j < ?n" for j
    using same that by (simp add: same_entries_def)
  have paths: "probe_path t' h d" if "probe_path t h d" for h d
    unfolding t' using slot probe_path_upd [OF that il c(1)] probe_path_upd_empty [OF that il c(1)] by auto
  have nth: "ie_index (t' ! j) = (if j = i then c else ie_index (t ! j))"
      "ie_dist (t' ! j) = (if j = i then min IPC_ENTRY_DIST_MAX k else ie_dist (t ! j))" for j
    using il by (simp_all add: t' nth_list_update)
  have "a = b" if "a < ?n" "b < ?n" "ie_index (t' ! a) \<noteq> 0" "ie_index (t' ! a) = ie_index (t' ! b)" for a b
    using that rh_order_inj [OF ok, of a b] fresh by (auto simp: nth split: if_splits)
  moreover have "rh_slot t' j" if j: "j < ?n" for j
  proof (cases "j = i")
    case True
    have "slot_home t' c = slot_home t c" using slot_home_same [OF same c(2)] .
    with True show ?thesis
      using c k paths [OF path] cdist_add [OF slot_home_less [OF \<open>0 < ?n\<close>] k, of c] i obj [of c]
      by (auto simp: rh_slot_def Let_def nth len)
  next
    case False
    then show ?thesis
      using rh_orderD [OF ok j refl] paths slot_home_same [OF same] obj
      by (auto simp: rh_slot_def Let_def nth len)
  qed
  ultimately show "rh_order t'" by (simp add: rh_order_def len)
  let ?others = "{ie_index (t ! j) | j. j < ?n \<and> j \<noteq> i \<and> ie_index (t ! j) \<noteq> 0}"
  have "j = i" if "j < ?n" "ie_index (t ! j) = ie_index (t ! i)" "0 < ie_index (t ! i)" for j
    using rh_order_inj [OF ok that(1) il] that by simp
  then have "?others = hashed t - (if ie_index (t ! i) = 0 then {} else {ie_index (t ! i)})"
    by (auto simp: hashed_def)
  moreover have "hashed t' = insert c ?others"
    unfolding hashed_def len nth set_eq_iff insert_iff mem_Collect_eq using c(1) il by metis
  ultimately show "hashed t' = insert c (hashed t - (if ie_index (t ! i) = 0 then {} else {ie_index (t ! i)}))"
    by simp
qed

lemma rh_order_hashed_less: "rh_order t \<Longrightarrow> j \<in> hashed t \<Longrightarrow> j < length t"
  by (auto simp: hashed_def dest: rh_orderD(1))

lemmas hashed_less = rh_order_hashed_less [OF rh_ok_order [THEN iffD1, THEN conjunct1]]

lemma hashed_object_inj:
  assumes "rh_ok t" "a \<in> hashed t" "b \<in> hashed t" "ie_object (t ! a) = ie_object (t ! b)"
  shows "a = b"
  using assms by (auto simp: hashed_def dest: rh_ok_inj)

text \<open>The entry evicted by a placement is carried on from the next slot.\<close>

lemma rh_evict:
  assumes carry: "rh_carry t c k" and i: "i = (slot_home t c + k) mod length t" and k: "k < length t"
    and j: "ie_index (t ! i) = j" "j \<noteq> 0" and d: "ie_dist (t ! i) \<le> min IPC_ENTRY_DIST_MAX k"
    and t': "t' = t[i := (t ! i)\<lparr>ie_index := c, ie_dist := min IPC_ENTRY_DIST_MAX k\<rparr>]"
  shows "rh_carry t' j (Suc (cdist (length t) (slot_home t j) i))"
proof -
  let ?n = "length t"
  have ok: "rh_order t" and c: "c \<noteq> 0" "c < ?n" and fresh: "c \<notin> hashed t"
    using carry by (auto simp: rh_carry_def)
  have n: "0 < ?n" using k by linarith
  then have il: "i < ?n" using i by simp
  note P = rh_place [OF carry i k disjI2 [OF d] t']
  note J = rh_orderD [OF ok il j]
  have len: "length t' = ?n" and obj: "\<And>x. x < ?n \<Longrightarrow> ie_object (t' ! x) = ie_object (t ! x)"
    using P(2) by (simp_all add: same_entries_def)
  have jh: "j \<in> hashed t" using il j by (auto simp: hashed_def)
  then have "j \<notin> hashed t'" using P(3) j fresh by auto
  moreover have "probe_path t' (slot_home t j) (Suc (cdist ?n (slot_home t j) i))"
    using probe_path_upd [OF J(4) il c(1) d] il c d J(3)
    by (auto simp: probe_path_Suc len add_cdist [OF slot_home_less [OF n] il] t')
  ultimately show ?thesis
    using P(1) j J(1,2) slot_home_same [OF P(2) J(1)] by (simp add: rh_carry_def len obj)
qed

lemma ipc_hash_table_insert_loop_correct:
  assumes "rh_carry t c k" "ie_index (t ! ((slot_home t c + k + d) mod length t)) = 0"
  shows "\<exists>t'. ipc_hash_table_insert_loop (length t) t c ((slot_home t c + k) mod length t)
      (min IPC_ENTRY_DIST_MAX k) = Some t' \<and> rh_order t' \<and> same_entries t t' \<and> hashed t' = insert c (hashed t)"
  using assms
proof (induction d arbitrary: t c k rule: less_induct)
  case (less d)
  let ?n = "length t" and ?h = "slot_home t c"
  let ?i = "(?h + k) mod ?n" and ?d = "min IPC_ENTRY_DIST_MAX k"
  let ?t' = "t[?i := (t ! ?i)\<lparr>ie_index := c, ie_dist := ?d\<rparr>]"
  have ok: "rh_order t" and c: "c \<noteq> 0" "c < ?n" and path: "probe_path t ?h k"
    using less.prems(1) by (simp_all add: rh_carry_def)
  have n: "0 < ?n" using c by linarith
  then have h: "?h < ?n" and i: "?i < ?n" by (simp_all add: slot_home_less)
  have k: "k < ?n"
    using probe_path_bound [OF path _ less.prems(2) h] cdist_less [OF n] n by (meson le_less_trans mod_less_divisor)
  note place = rh_place [OF less.prems(1) refl k]
  show ?case
  proof (cases "ie_index (t ! ?i) = 0")
    case True
    then have "ipc_hash_table_insert_loop ?n t c ?i ?d = Some ?t'"
      using i by (subst ipc_hash_table_insert_loop.simps) simp
    then show ?thesis using place [OF _ refl] True by auto
  next
    case False
    then obtain d' where d: "d = Suc d'" using less.prems(2) by (cases d) auto
    let ?j = "ie_index (t ! ?i)"
    note J = rh_orderD [OF ok i refl False]
    show ?thesis
    proof (cases "ie_dist (t ! ?i) < ?d")
      case True
      let ?k' = "cdist ?n (slot_home t ?j) ?i"
      have P: "rh_order ?t'" "same_entries t ?t'" "hashed ?t' = insert c (hashed t - {?j})"
        using place [OF _ refl] True False by auto
      have at: "(slot_home t ?j + ?k') mod ?n = ?i" by (rule add_cdist [OF slot_home_less [OF n] i])
      have home: "slot_home ?t' ?j = slot_home t ?j" by (rule slot_home_same [OF P(2) J(1)])
      have carry: "rh_carry ?t' ?j (Suc ?k')"
        by (rule rh_evict [OF less.prems(1) refl k refl False less_imp_le [OF True] refl])
      have "((slot_home ?t' ?j + Suc ?k') + d') mod ?n = (?h + k + d) mod ?n"
        using at d home by (metis add.assoc add_Suc_shift mod_add_left_eq)
      then have "ie_index (?t' ! ((slot_home ?t' ?j + Suc ?k' + d') mod length ?t')) = 0"
        using less.prems(2) False i by (auto simp: nth_list_update)
      from less.IH [OF _ carry this] obtain t'' where
        "ipc_hash_table_insert_loop ?n ?t' ?j ((slot_home t ?j + Suc ?k') mod ?n) (min IPC_ENTRY_DIST_MAX (Suc ?k')) = Some t''"
        "rh_order t''" "same_entries ?t' t''" "hashed t'' = insert ?j (hashed ?t')"
        using d home by auto
      moreover have "ipc_hash_table_insert_loop ?n t c ?i ?d
          = ipc_hash_table_insert_loop ?n ?t' ?j (hindex_next ?n ?i) (hdist_next (ie_dist (t ! ?i)))"
        using True False i by (subst ipc_hash_table_insert_loop.simps) simp
      moreover have "insert ?j (hashed ?t') = insert c (hashed t)"
        using P(3) i False by (auto simp: hashed_def)
      ultimately show ?thesis
        using same_entries_trans [OF P(2)] J(3) hindex_next_add [OF n, of "slot_home t ?j" ?k'] at
        by (auto simp: hdist_next_min)
    next
      case other: False
      have "rh_carry t c (Suc k)"
        using less.prems(1) False other [unfolded not_less] by (simp add: rh_carry_def probe_path_Suc)
      then obtain t' where "ipc_hash_table_insert_loop ?n t c ((?h + Suc k) mod ?n) (min IPC_ENTRY_DIST_MAX (Suc k)) = Some t'"
        "rh_order t'" "same_entries t t'" "hashed t' = insert c (hashed t)"
        using less.IH [of d' t c "Suc k"] less.prems(2) d by auto
      then show ?thesis
        using other False i n
        by (subst ipc_hash_table_insert_loop.simps) (auto simp: hindex_next_add hdist_next_min)
    qed
  qed
qed

lemma ipc_hash_table_insert_order:
  assumes ok: "rh_order t" and j: "j \<noteq> 0" "j < length t" "j \<notin> hashed t" and obj: "ie_object (t ! j) = obj" "obj \<noteq> IO_NULL"
  shows "\<exists>t'. ipc_hash_table_insert t (length t) obj j = Some t' \<and> rh_order t' \<and> same_entries t t'
    \<and> hashed t' = insert j (hashed t)"
proof -
  have n: "0 < length t" using j by linarith
  obtain e where e: "e < length t" "ie_index (t ! e) = 0" using rh_order_empty [OF ok] n by auto
  have "rh_carry t j 0" using assms by (simp add: rh_carry_def)
  from ipc_hash_table_insert_loop_correct [OF this, of "cdist (length t) (slot_home t j) e"]
  show ?thesis
    using assms e n by (simp add: ipc_hash_table_insert_def add_cdist slot_home_less)
      (simp add: slot_home_def IH_TABLE_HASH_less)
qed

lemma ipc_hash_table_insert_correct:
  assumes ok: "rh_ok t" and j: "j \<noteq> 0" "j < length t" and obj: "ie_object (t ! j) = obj" "obj \<noteq> IO_NULL"
    and new: "\<forall>x \<in> hashed t. ie_object (t ! x) \<noteq> obj"
  shows "\<exists>t'. ipc_hash_table_insert t (length t) obj j = Some t' \<and> rh_ok t' \<and> same_entries t t'
    \<and> hashed t' = insert j (hashed t)"
proof -
  have o: "rh_order t" "inj_on (\<lambda>j. ie_object (t ! j)) (hashed t)" "j \<notin> hashed t" using ok new obj(1) by (auto simp: rh_ok_order)
  obtain t' where t': "ipc_hash_table_insert t (length t) obj j = Some t'" "rh_order t'" "same_entries t t'" "hashed t' = insert j (hashed t)"
    using ipc_hash_table_insert_order [OF o(1) j o(3) obj] by blast
  have "inj_on (\<lambda>j. ie_object (t ! j)) (hashed t')" using o(2) new obj(1) by (auto simp: t'(4) inj_on_def)
  then have "rh_ok t'" using rh_ok_same [OF t'(2,3)] t'(4) j(2) hashed_less [OF ok] by auto
  then show ?thesis using t' by blast
qed

subsection \<open>Deletion\<close>

lemma ipc_hash_table_delete_find_correct:
  assumes ok: "rh_order t" and i: "i < length t" "ie_index (t ! i) = j" "j \<noteq> 0"
    and "k \<le> cdist (length t) (slot_home t j) i"
  shows "ipc_hash_table_delete_find t (length t) j ((slot_home t j + k) mod length t) = Some i"
  using assms(5)
proof (induction "cdist (length t) (slot_home t j) i - k" arbitrary: k)
  case 0
  then have "(slot_home t j + k) mod length t = i"
    using i add_cdist [OF slot_home_less i(1)] by (cases "length t") auto
  then show ?case using i by (subst ipc_hash_table_delete_find.simps) simp
next
  case (Suc d)
  let ?n = "length t" and ?s = "(slot_home t j + k) mod length t"
  have n: "0 < ?n" using i by linarith
  have lt: "k < cdist ?n (slot_home t j) i" using Suc.hyps(2) by linarith
  then have "?s \<noteq> i"
    using cdist_add [OF slot_home_less [OF n, of j], of k] cdist_less [OF n, of "slot_home t j" i] by auto
  then have "ie_index (t ! ?s) \<noteq> j"
    using rh_order_inj [OF ok i(1), of ?s] i n by auto
  moreover have "ipc_hash_table_delete_find t ?n j ((slot_home t j + Suc k) mod ?n) = Some i"
    by (rule Suc.hyps(1)) (use Suc.hyps(2) lt in linarith)+
  ultimately show ?case
    using n by (subst ipc_hash_table_delete_find.simps) (simp add: hindex_next_add)
qed

text \<open>
  A table with a hole at slot \<open>i\<close>: the content of the slot is stale, the other slots are ordered as
  far as their paths avoid the hole.
\<close>

definition rh_hole_slot :: "ipc_table \<Rightarrow> nat \<Rightarrow> nat \<Rightarrow> bool" where
  "rh_hole_slot t i s \<longleftrightarrow> (ie_index (t ! s) \<noteq> 0 \<longrightarrow>
     (let j = ie_index (t ! s); d = cdist (length t) (slot_home t j) s
      in j < length t \<and> ie_object (t ! j) \<noteq> IO_NULL \<and> ie_dist (t ! s) = d
         \<and> (\<forall>k < d. (slot_home t j + k) mod length t \<noteq> i \<longrightarrow>
              ie_index (t ! ((slot_home t j + k) mod length t)) \<noteq> 0
              \<and> k \<le> ie_dist (t ! ((slot_home t j + k) mod length t)))))"

definition rh_hole :: "ipc_table \<Rightarrow> nat \<Rightarrow> bool" where
  "rh_hole t i \<longleftrightarrow> (\<forall>s < length t. s \<noteq> i \<longrightarrow> rh_hole_slot t i s) \<and>
     (\<forall>s < length t. \<forall>s' < length t. s \<noteq> i \<longrightarrow> s' \<noteq> i \<longrightarrow>
        ie_index (t ! s) \<noteq> 0 \<longrightarrow> ie_index (t ! s') \<noteq> 0 \<longrightarrow>
        ie_index (t ! s) = ie_index (t ! s') \<longrightarrow> s = s')"

definition hashed_but :: "ipc_table \<Rightarrow> nat \<Rightarrow> nat set" where
  "hashed_but t i = {ie_index (t ! s) | s. s < length t \<and> s \<noteq> i \<and> ie_index (t ! s) \<noteq> 0}"

lemma rh_order_hole:
  assumes "rh_order t" "length t \<le> IPC_ENTRY_DIST_MAX + 1"
  shows "rh_hole t i"
proof -
  have "rh_hole_slot t i s" if s: "s < length t" for s
  proof -
    have D: "cdist (length t) h s \<le> IPC_ENTRY_DIST_MAX" for h
      using cdist_less [of "length t" h s] s assms(2) by linarith
    have K: "k < cdist (length t) h s \<Longrightarrow> min IPC_ENTRY_DIST_MAX k = k" for h k
      using D [of h] by simp
    show ?thesis
      using rh_orderD [OF assms(1) s refl]
      by (auto simp: rh_hole_slot_def Let_def probe_path_def min_absorb2 [OF D] K)
  qed
  then show ?thesis using rh_order_inj [OF assms(1)] by (auto simp: rh_hole_def)
qed

lemma cdist_pred:
  "h < n \<Longrightarrow> i < n \<Longrightarrow> cdist n h (hindex_next n i) = Suc d \<Longrightarrow> cdist n h i = d"
  by (auto simp: cdist_def hindex_next_def mod_if split: if_splits)

lemma hindex_next_eq_add:
  assumes "h < n" "i < n" "0 < cdist n h (hindex_next n i)"
  shows "(h + (cdist n h (hindex_next n i) - 1)) mod n = i"
  using assms cdist_pred [of h n i "cdist n h (hindex_next n i) - 1"] add_cdist [of h n i] by simp

lemma rh_holeD:
  assumes "rh_hole t i" "s < length t" "s \<noteq> i" "ie_index (t ! s) = j" "j \<noteq> 0"
  shows "j < length t" "ie_object (t ! j) \<noteq> IO_NULL" "ie_dist (t ! s) = cdist (length t) (slot_home t j) s"
    "\<And>k. k < cdist (length t) (slot_home t j) s \<Longrightarrow> (slot_home t j + k) mod length t \<noteq> i \<Longrightarrow>
       ie_index (t ! ((slot_home t j + k) mod length t)) \<noteq> 0
       \<and> k \<le> ie_dist (t ! ((slot_home t j + k) mod length t))"
  using assms by (auto simp: rh_hole_def rh_hole_slot_def Let_def)

lemma rh_hole_inj:
  assumes "rh_hole t i" "s < length t" "s' < length t" "s \<noteq> i" "s' \<noteq> i" "ie_index (t ! s) \<noteq> 0" "ie_index (t ! s') \<noteq> 0"
    "ie_index (t ! s) = ie_index (t ! s')"
  shows "s = s'"
  using assms by (simp add: rh_hole_def)

text \<open>A path that meets the hole goes on to the slot behind it, or ends there.\<close>

lemma rh_hole_path:
  assumes hole: "rh_hole t i" and s: "s < length t" "s \<noteq> i" "ie_index (t ! s) = j" "j \<noteq> 0"
    and k: "k < cdist (length t) (slot_home t j) s" "(slot_home t j + k) mod length t = i"
    and ne: "hindex_next (length t) i \<noteq> i"
  shows "ie_index (t ! hindex_next (length t) i) \<noteq> 0"
    "Suc k \<le> ie_dist (t ! hindex_next (length t) i)"
    "s \<noteq> hindex_next (length t) i \<Longrightarrow> Suc k < cdist (length t) (slot_home t j) s"
proof -
  let ?n = "length t" and ?h = "slot_home t j"
  have n: "0 < ?n" using s by linarith
  have nxt: "(?h + Suc k) mod ?n = hindex_next ?n i" using hindex_next_add [OF n] k(2) by metis
  have last: "s = hindex_next ?n i" if "Suc k = cdist ?n ?h s"
    using add_cdist [OF slot_home_less [OF n] s(1), of j] nxt that by simp
  then show "s \<noteq> hindex_next ?n i \<Longrightarrow> Suc k < cdist ?n ?h s" using k by linarith
  have "ie_index (t ! hindex_next ?n i) \<noteq> 0 \<and> Suc k \<le> ie_dist (t ! hindex_next ?n i)"
  proof (cases "Suc k = cdist ?n ?h s")
    case True
    then show ?thesis using last [OF True] rh_holeD(3) [OF hole s] s by simp
  next
    case False
    then have "Suc k < cdist ?n ?h s" using k by linarith
    from rh_holeD(4) [OF hole s this] show ?thesis using nxt ne by simp
  qed
  then show "ie_index (t ! hindex_next ?n i) \<noteq> 0" "Suc k \<le> ie_dist (t ! hindex_next ?n i)" by simp_all
qed

text \<open>Closing the hole in front of an empty or undisplaced slot.\<close>

lemma rh_hole_close:
  assumes hole: "rh_hole t i" and i: "i < length t" and small: "length t \<le> IPC_ENTRY_DIST_MAX + 1"
    and stop: "ie_index (t ! hindex_next (length t) i) = 0 \<or> ie_dist (t ! hindex_next (length t) i) = 0"
    and ne: "hindex_next (length t) i \<noteq> i"
    and t': "t' = t[i := (t ! i)\<lparr>ie_index := 0, ie_dist := 0\<rparr>]"
  shows "rh_order t'" "hashed t' = hashed_but t i"
proof -
  let ?n = "length t"
  have same: "same_entries t t'" unfolding t' using i by (rule same_entries_upd)
  have len: "length t' = ?n" and obj: "\<And>x. x < ?n \<Longrightarrow> ie_object (t' ! x) = ie_object (t ! x)"
    using same by (simp_all add: same_entries_def)
  have nth: "ie_index (t' ! x) = (if x = i then 0 else ie_index (t ! x))"
      "ie_dist (t' ! x) = (if x = i then 0 else ie_dist (t ! x))" for x
    using i by (simp_all add: t' nth_list_update)
  have "rh_slot t' s" if s: "s < ?n" for s
  proof (cases "s = i \<or> ie_index (t ! s) = 0")
    case True then show ?thesis by (auto simp: rh_slot_def nth)
  next
    case False
    let ?j = "ie_index (t ! s)" and ?h = "slot_home t (ie_index (t ! s))"
    from False have si: "s \<noteq> i" and j: "?j \<noteq> 0" by auto
    note S = rh_holeD [OF hole s si refl j]
    have avoid: "(?h + k) mod ?n \<noteq> i" if "k < cdist ?n ?h s" for k
    proof
      assume "(?h + k) mod ?n = i"
      from rh_hole_path(1,2) [OF hole s si refl j that this ne] stop show False by simp
    qed
    have "cdist ?n ?h s \<le> IPC_ENTRY_DIST_MAX" using cdist_less [of ?n ?h s] s small by linarith
    then show ?thesis
      using S(1-3) S(4) [OF _ avoid] avoid si j slot_home_same [OF same S(1)]
      by (simp add: rh_slot_def Let_def nth len obj probe_path_def min.coboundedI2)
  qed
  moreover have "a = b" if "a < ?n" "b < ?n" "ie_index (t' ! a) \<noteq> 0" "ie_index (t' ! a) = ie_index (t' ! b)" for a b
    using that rh_hole_inj [OF hole, of a b] by (auto simp: nth split: if_splits)
  ultimately show "rh_order t'" by (simp add: rh_order_def len)
  show "hashed t' = hashed_but t i" by (auto simp: hashed_def hashed_but_def nth len)
qed

text \<open>Moving the entry behind the hole into it.\<close>

lemma rh_hole_move:
  assumes hole: "rh_hole t i" and i: "i < length t" and nxt: "nxt = hindex_next (length t) i" "nxt \<noteq> i"
    and x: "ie_index (t ! nxt) = x" "x \<noteq> 0" and d: "ie_dist (t ! nxt) = Suc d"
    and t': "t' = t[i := (t ! i)\<lparr>ie_index := x, ie_dist := d\<rparr>]"
  shows "rh_hole t' nxt" "hashed_but t' nxt = hashed_but t i"
proof -
  let ?n = "length t"
  have n: "0 < ?n" and nl: "nxt < ?n" using i nxt(1) by (auto simp: hindex_next_def)
  have same: "same_entries t t'" unfolding t' using i by (rule same_entries_upd)
  have len: "length t' = ?n" and obj: "\<And>x. x < ?n \<Longrightarrow> ie_object (t' ! x) = ie_object (t ! x)"
    using same by (simp_all add: same_entries_def)
  have nth: "ie_index (t' ! s) = (if s = i then x else ie_index (t ! s))"
      "ie_dist (t' ! s) = (if s = i then d else ie_dist (t ! s))" for s
    using i by (simp_all add: t' nth_list_update)
  note X = rh_holeD [OF hole nl nxt(2) x]
  have cx: "cdist ?n (slot_home t x) i = d" using cdist_pred [OF slot_home_less [OF n] i] X(3) d nxt(1) by simp
  have "rh_hole_slot t' nxt s" if s: "s < ?n" "s \<noteq> nxt" for s
  proof (cases "s = i")
    case True
    have "(slot_home t x + k) mod ?n \<noteq> i" if "k < d" for k
      using cx cdist_add [OF slot_home_less [OF n, of x], of k] that cdist_less [OF n, of "slot_home t x" i] by auto
    then show ?thesis
      using True x X d cx slot_home_same [OF same X(1)]
      by (auto simp: rh_hole_slot_def Let_def nth len obj)
  next
    case False
    show ?thesis
    proof (cases "ie_index (t ! s) = 0")
      case True then show ?thesis using False by (simp add: rh_hole_slot_def nth)
    next
      case j: False
      note S = rh_holeD [OF hole s(1) False refl j]
      note path = rh_hole_path [OF hole s(1) False refl j _ _ nxt(2) [unfolded nxt(1)], folded nxt(1)]
      have "k \<le> d" if "k < cdist ?n (slot_home t (ie_index (t ! s))) s"
          "(slot_home t (ie_index (t ! s)) + k) mod ?n = i" for k
        using path(2) [OF that] d by simp
      then show ?thesis
        using False j x S slot_home_same [OF same S(1)]
        by (auto simp: rh_hole_slot_def Let_def nth len obj)
    qed
  qed
  moreover have "s = s'" if s: "s < ?n" "s' < ?n" "s \<noteq> nxt" "s' \<noteq> nxt" "ie_index (t' ! s) \<noteq> 0" "ie_index (t' ! s') \<noteq> 0"
      "ie_index (t' ! s) = ie_index (t' ! s')" for s s'
  proof -
    define b where "b = (\<lambda>s. if s = i then nxt else s)"
    have b: "b r < ?n \<and> b r \<noteq> i \<and> ie_index (t ! b r) = ie_index (t' ! r)" if "r < ?n" "r \<noteq> nxt" for r
      using that nl nxt(2) x by (simp add: b_def nth)
    have "b s = b s'"
      using rh_hole_inj [OF hole, of "b s" "b s'"] b [OF s(1,3)] b [OF s(2,4)] s(5-7) by simp
    then show ?thesis using s(3,4) by (auto simp: b_def split: if_splits)
  qed
  ultimately show "rh_hole t' nxt" by (simp add: rh_hole_def len)
  show "hashed_but t' nxt = hashed_but t i"
    unfolding hashed_but_def len nth set_eq_iff mem_Collect_eq using x nl nxt(2) i by metis
qed

lemma moved_dist_correct:
  assumes hole: "rh_hole t i" and i: "i < length t" and nxt: "hindex_next (length t) i \<noteq> i"
    and x: "ie_index (t ! hindex_next (length t) i) = x" "x \<noteq> 0" and d: "ie_dist (t ! hindex_next (length t) i) = Suc d"
    and small: "length t \<le> IPC_ENTRY_DIST_MAX + 1"
  shows "moved_dist t (length t) i x (Suc d) = Some d"
proof -
  have n: "0 < length t" and nl: "hindex_next (length t) i < length t" using i by (auto simp: hindex_next_def)
  note X = rh_holeD [OF hole nl nxt x]
  have "cdist (length t) (slot_home t x) i = d" using cdist_pred [OF slot_home_less [OF n] i] X(3) d by simp
  then have "(if slot_home t x \<le> i then i - slot_home t x else i + length t - slot_home t x) = d"
    using cdist_if [OF slot_home_less [OF n] i] by simp
  moreover have "d \<le> IPC_ENTRY_DIST_MAX"
    using X(3) d small cdist_less [OF n, of "slot_home t x" "hindex_next (length t) i"] by linarith
  ultimately show ?thesis
    using X(1) by (auto simp: moved_dist_def slot_home_def Let_def split: if_splits)
qed

lemma ipc_hash_table_delete_shift_correct:
  assumes "rh_hole t i" "i < length t" "length t \<le> IPC_ENTRY_DIST_MAX + 1"
    "(i + Suc d) mod length t = e" "e \<noteq> i" "ie_index (t ! e) = 0"
  shows "\<exists>t'. ipc_hash_table_delete_shift (length t) t i = Some t' \<and> rh_order t' \<and> same_entries t t'
    \<and> hashed t' = hashed_but t i"
  using assms
proof (induction d arbitrary: t i)
  case 0
  let ?n = "length t"
  have nxt: "hindex_next ?n i = e" using 0 by (simp add: hindex_next_mod)
  then have "e < ?n" using 0 by (auto simp: hindex_next_def)
  then show ?case
    using 0 nxt rh_hole_close [OF 0(1,2,3) _ _ refl] same_entries_upd [of i t 0 0]
    by (subst ipc_hash_table_delete_shift.simps) simp
next
  case (Suc d)
  let ?n = "length t" and ?nxt = "hindex_next (length t) i"
  have n: "0 < ?n" using Suc.prems(2) by linarith
  then have e: "e < ?n" using Suc.prems(4) by auto
  have nl: "?nxt < ?n" using Suc.prems(2) n by (simp add: hindex_next_mod)
  have ne: "?nxt \<noteq> i" using Suc.prems(2,5) e by (auto simp: hindex_next_def split: if_splits)
  show ?case
  proof (cases "ie_index (t ! ?nxt) = 0 \<or> ie_dist (t ! ?nxt) = 0")
    case True
    then show ?thesis
      using Suc.prems nl rh_hole_close [OF Suc.prems(1-3) True ne refl] same_entries_upd [of i t 0 0]
      by (subst ipc_hash_table_delete_shift.simps) simp
  next
    case False
    then obtain b where x: "ie_index (t ! ?nxt) \<noteq> 0" and b: "ie_dist (t ! ?nxt) = Suc b"
      by (cases "ie_dist (t ! ?nxt)") auto
    let ?t' = "t[i := (t ! i)\<lparr>ie_index := ie_index (t ! ?nxt), ie_dist := b\<rparr>]"
    note M = rh_hole_move [OF Suc.prems(1,2) refl ne refl x b refl]
    have "(?nxt + Suc d) mod ?n = e" 
      using Suc.prems(2,4) by (simp add: hindex_next_mod) (metis add_Suc mod_Suc_eq mod_add_left_eq)
    moreover have "e \<noteq> ?nxt" using x Suc.prems(6) by auto
    ultimately obtain t'' where "ipc_hash_table_delete_shift ?n ?t' ?nxt = Some t''" "rh_order t''"
        "same_entries ?t' t''" "hashed t'' = hashed_but t i"
      using Suc.IH [of ?t' ?nxt] M Suc.prems(3,5,6) nl by auto
    then show ?thesis
      using x b nl Suc.prems(2) moved_dist_correct [OF Suc.prems(1,2) ne refl x b Suc.prems(3)]
        same_entries_trans [OF same_entries_upd [OF Suc.prems(2)]]
      by (subst ipc_hash_table_delete_shift.simps) (auto simp: Let_def)
  qed
qed

lemma ipc_hash_table_delete_order:
  assumes ok: "rh_order t" and j: "j \<in> hashed t" and obj: "ie_object (t ! j) = obj"
    and small: "length t \<le> IPC_ENTRY_DIST_MAX + 1"
  shows "\<exists>t'. ipc_hash_table_delete t (length t) obj j = Some t' \<and> rh_order t' \<and> same_entries t t'
    \<and> hashed t' = hashed t - {j}"
proof -
  let ?n = "length t"
  obtain i where i: "i < ?n" "ie_index (t ! i) = j" "j \<noteq> 0" using j by (auto simp: hashed_def)
  have n: "0 < ?n" using i by linarith
  note J = rh_orderD [OF ok i]
  obtain e where e: "e < ?n" "ie_index (t ! e) = 0" using rh_order_empty [OF ok] n by auto
  have ei: "e \<noteq> i" using e i by auto
  have "cdist ?n i e \<noteq> 0" using cdist_zero_iff [OF i(1) e(1)] ei by simp
  then obtain d where "(i + Suc d) mod ?n = e" using add_cdist [OF i(1) e(1)] by (cases "cdist ?n i e") auto
  from ipc_hash_table_delete_shift_correct [OF rh_order_hole [OF ok small] i(1) small this ei e(2)]
  obtain t' where t': "ipc_hash_table_delete_shift ?n t i = Some t'" "rh_order t'" "same_entries t t'"
      "hashed t' = hashed_but t i" by blast
  have "s = i" if "s < ?n" "ie_index (t ! s) = j" for s
    using rh_order_inj [OF ok that(1) i(1)] i that(2) by simp
  then have "hashed_but t i = hashed t - {j}"
    unfolding hashed_but_def hashed_def set_eq_iff Diff_iff singleton_iff mem_Collect_eq using i by metis
  then show ?thesis
    using t' i J obj ipc_hash_table_delete_find_correct [OF ok i, of 0] n
    by (simp add: ipc_hash_table_delete_def slot_home_def IH_TABLE_HASH_less)
qed

lemma ipc_hash_table_delete_correct:
  assumes ok: "rh_ok t" and j: "j \<in> hashed t" and obj: "ie_object (t ! j) = obj"
    and small: "length t \<le> IPC_ENTRY_DIST_MAX + 1"
  shows "\<exists>t'. ipc_hash_table_delete t (length t) obj j = Some t' \<and> rh_ok t' \<and> same_entries t t'
    \<and> hashed t' = hashed t - {j}"
proof -
  have o: "rh_order t" "inj_on (\<lambda>j. ie_object (t ! j)) (hashed t)" using ok by (auto simp: rh_ok_order)
  obtain t' where t': "ipc_hash_table_delete t (length t) obj j = Some t'" "rh_order t'" "same_entries t t'" "hashed t' = hashed t - {j}"
    using ipc_hash_table_delete_order [OF o(1) j obj small] by blast
  have "rh_ok t'" using rh_ok_same [OF t'(2,3)] t'(4) hashed_less [OF ok] o(2) by (auto intro: inj_on_subset)
  then show ?thesis using t' by blast
qed

section \<open>The contract of the reverse table\<close>

text \<open>
  What the rest of the IPC code relies on: a partial inverse of the map from entries to objects,
  with a lookup that decides membership and updates that return and change one member. The laws are
  those of the routines at the sizes where deletion is exact.
\<close>

locale reverse_table =
  fixes ok :: "'t \<Rightarrow> bool" and members :: "'t \<Rightarrow> nat set" and key :: "'t \<Rightarrow> nat \<Rightarrow> 'k"
    and valid :: "'k \<Rightarrow> bool"
    and find :: "'t \<Rightarrow> 'k \<Rightarrow> nat option option"
    and add :: "'t \<Rightarrow> nat \<Rightarrow> 't option" and del :: "'t \<Rightarrow> nat \<Rightarrow> 't option"
  assumes find_law: "ok t \<Longrightarrow> valid k \<Longrightarrow>
      \<exists>r. find t k = Some r \<and> (\<forall>j. r = Some j \<longleftrightarrow> j \<in> members t \<and> key t j = k)"
    and add_law: "ok t \<Longrightarrow> j \<noteq> 0 \<Longrightarrow> valid (key t j) \<Longrightarrow> \<forall>x \<in> members t. key t x \<noteq> key t j \<Longrightarrow>
      \<exists>t'. add t j = Some t' \<and> ok t' \<and> key t' = key t \<and> members t' = insert j (members t)"
    and del_law: "ok t \<Longrightarrow> j \<in> members t \<Longrightarrow>
      \<exists>t'. del t j = Some t' \<and> ok t' \<and> key t' = key t \<and> members t' = members t - {j}"
    and member_law: "ok t \<Longrightarrow> j \<in> members t \<Longrightarrow> j \<noteq> 0 \<and> valid (key t j)"
begin

lemma find_unique:
  assumes "ok t" "a \<in> members t" "b \<in> members t" "key t a = key t b"
  shows "a = b"
  using find_law [OF assms(1), of "key t a"] member_law [OF assms(1,2)] assms by (metis option.inject)

lemma find_eq:
  assumes "ok t" "valid k"
  shows "find t k = Some r \<longleftrightarrow> (case r of Some j \<Rightarrow> j \<in> members t \<and> key t j = k
     | None \<Rightarrow> \<forall>x \<in> members t. key t x \<noteq> k)"
proof -
  obtain r' where r': "find t k = Some r'" "\<And>j. r' = Some j \<longleftrightarrow> j \<in> members t \<and> key t j = k"
    using find_law [OF assms] by blast
  show ?thesis
  proof (cases r)
    case None
    have "r' = None \<longleftrightarrow> (\<forall>j. r' \<noteq> Some j)" by auto
    then show ?thesis using None r' by auto
  next
    case (Some j)
    then show ?thesis using r' by auto
  qed
qed

lemma find_add:
  assumes "ok t" "j \<noteq> 0" "valid (key t j)" "\<forall>x \<in> members t. key t x \<noteq> key t j" "add t j = Some t'"
    and "valid k"
  shows "find t' k = (if k = key t j then Some (Some j) else find t k)"
proof -
  have t': "ok t'" "key t' = key t" "members t' = insert j (members t)"
    using add_law [OF assms(1-4)] assms(5) by auto
  obtain r where r: "find t k = Some r" using find_law [OF assms(1,6)] by blast
  show ?thesis
    using r find_eq [OF assms(1,6), of r] find_eq [OF t'(1) assms(6)] t'(2,3)
    by (auto split: option.splits)
qed

lemma find_del:
  assumes "ok t" "j \<in> members t" "del t j = Some t'" and "valid k"
  shows "find t' k = (if k = key t j then Some None else find t k)"
proof -
  have t': "ok t'" "key t' = key t" "members t' = members t - {j}"
    using del_law [OF assms(1,2)] assms(3) by auto
  obtain r where r: "find t k = Some r" using find_law [OF assms(1,4)] by blast
  have "\<forall>x \<in> members t - {j}. key t x \<noteq> key t j" using find_unique [OF assms(1) _ assms(2)] by blast
  then show ?thesis
    using r find_eq [OF assms(1,4), of r] find_eq [OF t'(1) assms(4)] t'(2,3)
    by (auto split: option.splits)
qed

lemma add_del:
  assumes "ok t" "j \<noteq> 0" "valid (key t j)" "\<forall>x \<in> members t. key t x \<noteq> key t j"
  shows "\<exists>t' t''. add t j = Some t' \<and> del t' j = Some t'' \<and> ok t'' \<and> (\<forall>k. valid k \<longrightarrow> find t'' k = find t k)"
proof -
  obtain t' where t': "add t j = Some t'" "ok t'" "key t' = key t" "members t' = insert j (members t)"
    using add_law [OF assms] by blast
  then obtain t'' where t'': "del t' j = Some t''" "ok t''" using del_law [of t' j] by auto
  have "find t'' k = find t k" if "valid k" for k
    using find_del [OF t'(2) _ t''(1) that] find_add [OF assms t'(1) that] t'(3,4)
      find_eq [OF assms(1,3), of None] assms(4) by auto
  with t'(1) t'' show ?thesis by blast
qed

end

definition entry_object :: "ipc_table \<Rightarrow> nat \<Rightarrow> ptr" where
  "entry_object t j = (if j < length t then ie_object (t ! j) else IO_NULL)"

definition hash_table_ok :: "ipc_table \<Rightarrow> bool" where
  "hash_table_ok t \<longleftrightarrow> rh_ok t \<and> t \<noteq> [] \<and> length t \<le> IPC_ENTRY_DIST_MAX + 1"

lemma same_entries_object: "same_entries t t' \<Longrightarrow> entry_object t' = entry_object t"
  by (auto simp: same_entries_def entry_object_def)

interpretation rht: reverse_table hash_table_ok hashed entry_object "\<lambda>k. k \<noteq> IO_NULL"
  "\<lambda>t k. map_option (map_option snd) (ipc_hash_table_lookup t (length t) k)"
  "\<lambda>t j. ipc_hash_table_insert t (length t) (entry_object t j) j"
  "\<lambda>t j. ipc_hash_table_delete t (length t) (entry_object t j) j"
proof (unfold_locales, goal_cases)
  case (1 t k)
  then show ?case
    using hash_find_Some [of t k] hashed_less [of t]
    by (auto simp: hash_table_ok_def ipc_hash_table_lookup_correct option.map_comp comp_def option.map_ident
        entry_object_def split: if_splits)
next
  case (2 t j)
  then have j: "j < length t" "ie_object (t ! j) = entry_object t j"
    by (auto simp: entry_object_def split: if_splits)
  have "\<forall>x \<in> hashed t. ie_object (t ! x) \<noteq> entry_object t j"
    using 2(1,4) hashed_less by (fastforce simp: hash_table_ok_def entry_object_def)
  with 2 j obtain t' where "ipc_hash_table_insert t (length t) (entry_object t j) j = Some t'"
      "rh_ok t'" "same_entries t t'" "hashed t' = insert j (hashed t)"
    using ipc_hash_table_insert_correct [of t j "entry_object t j"] by (auto simp: hash_table_ok_def)
  then show ?case
    using 2(1) same_entries_object same_entries_length by (fastforce simp: hash_table_ok_def)
next
  case (3 t j)
  then have "ie_object (t ! j) = entry_object t j"
    using hashed_less by (auto simp: hash_table_ok_def entry_object_def)
  with 3 obtain t' where "ipc_hash_table_delete t (length t) (entry_object t j) j = Some t'"
      "rh_ok t'" "same_entries t t'" "hashed t' = hashed t - {j}"
    using ipc_hash_table_delete_correct [of t j "entry_object t j"] by (auto simp: hash_table_ok_def)
  then show ?case
    using 3(1) same_entries_object same_entries_length by (fastforce simp: hash_table_ok_def)
next
  case (4 t j)
  then show ?case by (auto simp: hash_table_ok_def hashed_def entry_object_def dest: rh_okD)
qed

lemma rht_insert_entries:
  assumes ok: "hash_table_ok t" and j: "j \<noteq> 0" "entry_object t j \<noteq> IO_NULL" "\<forall>x \<in> hashed t. entry_object t x \<noteq> entry_object t j"
    and t': "ipc_hash_table_insert t (length t) (entry_object t j) j = Some t'"
  shows "same_entries t t'" "hash_table_ok t'" "j \<in> hashed t'"
proof -
  have l: "j < length t" "ie_object (t ! j) = entry_object t j" "rh_ok t" using ok j(2) by (auto simp: entry_object_def hash_table_ok_def split: if_splits)
  have "\<forall>x \<in> hashed t. ie_object (t ! x) \<noteq> entry_object t j" using j(3) hashed_less [OF l(3)] by (auto simp: entry_object_def)
  then have r: "rh_ok t'" "same_entries t t'" "hashed t' = insert j (hashed t)"
    using ipc_hash_table_insert_correct [OF l(3) j(1) l(1,2) j(2)] t' by auto
  then show "same_entries t t'" "j \<in> hashed t'" by simp_all
  have "length t' = length t" by (rule same_entries_length [OF r(2)])
  then show "hash_table_ok t'" using ok r(1) unfolding hash_table_ok_def by (metis length_0_conv)
qed

lemma rht_delete_entries:
  assumes ok: "hash_table_ok t" and t': "ipc_hash_table_delete t (length t) (entry_object t j) j = Some t'" and j: "j \<in> hashed t"
  shows "same_entries t t'"
proof -
  have "ie_object (t ! j) = entry_object t j" "rh_ok t" "length t \<le> IPC_ENTRY_DIST_MAX + 1"
    using ok j hashed_less by (auto simp: entry_object_def hash_table_ok_def)
  then show ?thesis using ipc_hash_table_delete_correct [of t j] j t' by auto
qed

text \<open>A lookup returns a name that depends only on the entry found.\<close>

lemma rht_lookup_same:
  assumes ok: "hash_table_ok t" "hash_table_ok t'" and same: "same_entries t t'"
    and r: "obj \<noteq> IO_NULL \<Longrightarrow> map_option (map_option snd) (ipc_hash_table_lookup t' (length t') obj)
      = map_option (map_option snd) (ipc_hash_table_lookup t (length t) obj)"
  shows "ipc_hash_table_lookup t' (length t') obj = ipc_hash_table_lookup t (length t) obj"
proof (cases "obj = IO_NULL")
  case False
  note l = ipc_hash_table_lookup_correct [of t obj] ipc_hash_table_lookup_correct [of t' obj]
  have o: "rh_ok t" "t \<noteq> []" "rh_ok t'" "t' \<noteq> []" using ok by (simp_all add: hash_table_ok_def)
  have f: "hash_find t' obj = hash_find t obj"
    using r [OF False] l o False by (simp add: option.map_comp comp_def option.map_ident)
  have "ie_bits (t' ! j) = ie_bits (t ! j)" if "hash_find t obj = Some j" for j
    using that same hash_find_Some [OF o(1)] hashed_less [OF o(1)] by (simp add: same_entries_def)
  then show ?thesis using l o False f by (cases "hash_find t obj") simp_all
qed (simp add: ipc_hash_table_lookup_def)

section \<open>Properties\<close>

text \<open>
  C7. In an ordered table of any size the lookup of an object returns (it neither panics nor loops
  nor leaves the table), and it returns the name and entry \<open>j\<close> exactly when \<open>j\<close> is hashed and holds
  the object: the early exit on displacement loses no entry.
\<close>

theorem ipc_hash_lookup_decides:
  assumes "rh_ok t" "t \<noteq> []" "obj \<noteq> IO_NULL"
  shows "\<exists>r. ipc_hash_table_lookup t (length t) obj = Some r \<and>
    (\<forall>name j. r = Some (name, j) \<longleftrightarrow> j \<in> hashed t \<and> ie_object (t ! j) = obj
       \<and> name = MACH_PORT_MAKE j (IE_BITS_GEN (ie_bits (t ! j))))"
  using assms by (auto simp: ipc_hash_table_lookup_correct hash_find_Some)

text \<open>
  C6. Inserting an unhashed object into an ordered table of any size returns an ordered table that
  differs from the old one in the hash fields only and whose hashed set has gained exactly the
  inserted entry: Robin Hood displacement loses and duplicates nothing.
\<close>

theorem ipc_hash_insert_keeps_order:
  assumes "rh_ok t" "j \<noteq> 0" "j < length t" "ie_object (t ! j) = obj" "obj \<noteq> IO_NULL"
    and "\<forall>x \<in> hashed t. ie_object (t ! x) \<noteq> obj"
  shows "\<exists>t'. ipc_hash_table_insert t (length t) obj j = Some t' \<and> rh_ok t' \<and> same_entries t t'
    \<and> hashed t' = insert j (hashed t)"
  using assms by (rule ipc_hash_table_insert_correct)

text \<open>
  C4. Deleting a hashed entry from an ordered table of at most \<open>IPC_ENTRY_DIST_MAX + 1\<close> slots
  returns an ordered table that has lost exactly that entry: the backward shift terminates and
  recomputes pegged distances correctly.
\<close>

theorem ipc_hash_delete_keeps_order:
  assumes "rh_ok t" "j \<in> hashed t" "ie_object (t ! j) = obj" "length t \<le> IPC_ENTRY_DIST_MAX + 1"
  shows "\<exists>t'. ipc_hash_table_delete t (length t) obj j = Some t' \<and> rh_ok t' \<and> same_entries t t'
    \<and> hashed t' = hashed t - {j}"
  using assms by (rule ipc_hash_table_delete_correct)

text \<open>
  C23. In an ordered table of at most \<open>IPC_ENTRY_DIST_MAX + 1\<close> slots, hashing an entry whose object is not hashed and unhashing it again both
  succeed, leave every entry as it was, and afterwards the lookup of every object returns the very name and entry that it returned before,
  although the hashed entries may have changed places.
\<close>

theorem ipc_hash_insert_delete_roundtrip:
  assumes "hash_table_ok t" "j \<noteq> 0" "entry_object t j \<noteq> IO_NULL"
    and "\<forall>x \<in> hashed t. entry_object t x \<noteq> entry_object t j"
  shows "\<exists>t' t''. ipc_hash_table_insert t (length t) (entry_object t j) j = Some t'
    \<and> ipc_hash_table_delete t' (length t') (entry_object t' j) j = Some t'' \<and> hash_table_ok t'' \<and> same_entries t t''
    \<and> (\<forall>obj. ipc_hash_table_lookup t'' (length t'') obj = ipc_hash_table_lookup t (length t) obj)"
proof -
  obtain t' t'' where r: "ipc_hash_table_insert t (length t) (entry_object t j) j = Some t'"
      "ipc_hash_table_delete t' (length t') (entry_object t' j) j = Some t''" "hash_table_ok t''"
      "\<And>obj. obj \<noteq> IO_NULL \<Longrightarrow> map_option (map_option snd) (ipc_hash_table_lookup t'' (length t'') obj)
          = map_option (map_option snd) (ipc_hash_table_lookup t (length t) obj)"
    using rht.add_del [OF assms] by blast
  note i = rht_insert_entries [OF assms r(1)]
  have "same_entries t t''" using same_entries_trans [OF i(1)] rht_delete_entries [OF i(2) r(2) i(3)] .
  then show ?thesis using r rht_lookup_same [OF assms(1) r(3)] by blast
qed

subsection \<open>A concrete table\<close>

text \<open>
  Four slots. The objects at entries 1, 2 and 3 are multiples of \<open>2^36\<close>, so they all hash to slot 0
  and collide; entries 1 and 2 are hashed.
\<close>

definition sample_table :: ipc_table where
  "sample_table =
    [\<lparr>ie_object = 0, ie_bits = 0, ie_dist = 0, ie_index = 1, ie_request = 0\<rparr>,
     \<lparr>ie_object = 0x1000000000, ie_bits = 0x01010001, ie_dist = 1, ie_index = 2, ie_request = 0\<rparr>,
     \<lparr>ie_object = 0x2000000000, ie_bits = 0x02010001, ie_dist = 0, ie_index = 0, ie_request = 0\<rparr>,
     \<lparr>ie_object = 0x3000000000, ie_bits = 0x03010001, ie_dist = 0, ie_index = 0, ie_request = 0\<rparr>]"

lemma sample_hash:
  "IH_TABLE_HASH 0x1000000000 4 = 0" "IH_TABLE_HASH 0x2000000000 4 = 0" "IH_TABLE_HASH 0x3000000000 4 = 0"
  by (simp_all add: IH_TABLE_HASH_def os_hash_kernel_pointer_def bswap32_def)

lemma sample_table_nth:
  "length sample_table = 4"
  "sample_table ! 0 = \<lparr>ie_object = 0, ie_bits = 0, ie_dist = 0, ie_index = 1, ie_request = 0\<rparr>"
  "sample_table ! 1 = \<lparr>ie_object = 0x1000000000, ie_bits = 0x01010001, ie_dist = 1, ie_index = 2, ie_request = 0\<rparr>"
  "sample_table ! 2 = \<lparr>ie_object = 0x2000000000, ie_bits = 0x02010001, ie_dist = 0, ie_index = 0, ie_request = 0\<rparr>"
  "sample_table ! 3 = \<lparr>ie_object = 0x3000000000, ie_bits = 0x03010001, ie_dist = 0, ie_index = 0, ie_request = 0\<rparr>"
  by (simp_all add: sample_table_def)

lemma less_4: "(\<forall>i < (4::nat). P i) \<longleftrightarrow> P 0 \<and> P 1 \<and> P 2 \<and> P 3"
  by (auto simp: less_Suc_eq numeral_eq_Suc)

lemma sample_rh_ok: "rh_ok sample_table"
  by (simp add: rh_ok_def rh_distinct_def rh_slot_def Let_def less_4 sample_table_nth sample_table_nth [unfolded One_nat_def]
      slot_home_def sample_hash cdist_def probe_path_def IO_NULL_def IPC_ENTRY_DIST_MAX_def)

lemma sample_hashed: "hashed sample_table = {1, 2}"
  by (simp add: hashed_code sample_table_def)

theorem ipc_hash_lookup_decides_witness:
  "\<exists>r. ipc_hash_table_lookup sample_table (length sample_table) 0x2000000000 = Some r \<and>
    (\<forall>name j. r = Some (name, j) \<longleftrightarrow> j \<in> hashed sample_table \<and> ie_object (sample_table ! j) = 0x2000000000
       \<and> name = MACH_PORT_MAKE j (IE_BITS_GEN (ie_bits (sample_table ! j))))"
  by (rule ipc_hash_lookup_decides [OF sample_rh_ok]) (simp_all add: sample_table_def IO_NULL_def)

theorem ipc_hash_insert_keeps_order_witness:
  "\<exists>t'. ipc_hash_table_insert sample_table (length sample_table) 0x3000000000 3 = Some t' \<and> rh_ok t'
    \<and> same_entries sample_table t' \<and> hashed t' = insert 3 (hashed sample_table)"
  by (rule ipc_hash_insert_keeps_order [OF sample_rh_ok])
    (simp_all add: sample_hashed sample_table_nth [unfolded One_nat_def] IO_NULL_def)

theorem ipc_hash_delete_keeps_order_witness:
  "\<exists>t'. ipc_hash_table_delete sample_table (length sample_table) 0x1000000000 1 = Some t' \<and> rh_ok t'
    \<and> same_entries sample_table t' \<and> hashed t' = hashed sample_table - {1}"
  by (rule ipc_hash_delete_keeps_order [OF sample_rh_ok])
    (simp_all add: sample_hashed sample_table_nth [unfolded One_nat_def] IPC_ENTRY_DIST_MAX_def)

theorem ipc_hash_insert_delete_roundtrip_witness:
  "\<exists>t' t''. ipc_hash_table_insert sample_table (length sample_table) (entry_object sample_table 3) 3 = Some t'
    \<and> ipc_hash_table_delete t' (length t') (entry_object t' 3) 3 = Some t'' \<and> hash_table_ok t'' \<and> same_entries sample_table t''
    \<and> (\<forall>obj. ipc_hash_table_lookup t'' (length t'') obj = ipc_hash_table_lookup sample_table (length sample_table) obj)"
proof (rule ipc_hash_insert_delete_roundtrip)
  show "hash_table_ok sample_table"
    using sample_rh_ok by (simp add: hash_table_ok_def sample_table_def IPC_ENTRY_DIST_MAX_def)
qed (simp_all add: sample_hashed entry_object_def sample_table_nth [unfolded One_nat_def] IO_NULL_def)

end
