(* ===== verification/Ipc_Table.thy ===== *)
theory Ipc_Table
  imports Ipc_Hash
begin

text \<open>
  The size classes of the capability and request tables (\<open>osfmk/ipc/ipc_table.c\<close>). \<open>ipc_table_fill\<close>
  computes them at boot: powers of two up to a page, then increments of one, two, four and eight
  pages, fifteen steps each. The two loops are partial functions over the output written so far;
  byte sizes are 64-bit (\<open>vm_size_t\<close>) and wrap, the number of elements of a class is truncated to 32 bits
  (\<open>ipc_table_elems_t\<close>). The lemmas show that the loops return for every page size, element size, minimum and number of
  classes whose sizes fit these widths, and that the classes are then strictly increasing, which is what
  \<open>ipc_entry_grow_table\<close> and \<open>ipc_port_request_grow\<close> assume of them. \<open>PAGE_MAX_SIZE\<close>, the number of steps
  and the element size differ between configurations and are parameters.
\<close>

record ipc_table_size =
  its_size :: nat

definition ITS_SIZE_NONE :: "32 word" where
  "ITS_SIZE_NONE = NOT 0"

definition IPC_ENTRY_INDEX_MAX :: nat where
  "IPC_ENTRY_INDEX_MAX = 2 ^ 32 - 1"

definition sizeof_ipc_entry :: nat where
  "sizeof_ipc_entry = 24"

definition sizeof_ipc_port_request :: nat where
  "sizeof_ipc_port_request = 16"

text \<open>The widths of \<open>vm_size_t\<close> and \<open>ipc_table_elems_t\<close>.\<close>

abbreviation vm_size :: "nat \<Rightarrow> nat" where
  "vm_size n \<equiv> n mod 2 ^ 64"

abbreviation table_elems :: "nat \<Rightarrow> nat" where
  "table_elems n \<equiv> n mod 2 ^ 32"

text \<open>The entry of the array for a table of \<open>sz\<close> bytes, when that is at least \<open>minsize\<close>.\<close>

definition its_push :: "nat \<Rightarrow> nat \<Rightarrow> nat \<Rightarrow> ipc_table_size list \<Rightarrow> ipc_table_size list" where
  "its_push minsize elemsize sz its =
     (if minsize \<le> sz then its @ [\<lparr>its_size = table_elems (sz div elemsize)\<rparr>] else its)"

partial_function (option) ipc_table_fill_pow2 ::
  "nat \<Rightarrow> nat \<Rightarrow> nat \<Rightarrow> nat \<Rightarrow> ipc_table_size list \<Rightarrow> nat \<Rightarrow> (ipc_table_size list \<times> nat) option" where
  "ipc_table_fill_pow2 page num minsize elemsize its sz =
     (if length its < num \<and> sz < page
      then ipc_table_fill_pow2 page num minsize elemsize (its_push minsize elemsize sz its) (vm_size (2 * sz))
      else Some (its, sz))"

fun ipc_table_fill_period ::
  "nat \<Rightarrow> nat \<Rightarrow> nat \<Rightarrow> nat \<Rightarrow> nat \<Rightarrow> ipc_table_size list \<Rightarrow> nat \<Rightarrow> ipc_table_size list \<times> nat" where
  "ipc_table_fill_period num minsize elemsize incrsize 0 its sz = (its, sz)"
| "ipc_table_fill_period num minsize elemsize incrsize (Suc period) its sz =
     (if length its < num
      then ipc_table_fill_period num minsize elemsize incrsize period
             (its_push minsize elemsize sz its) (vm_size (sz + incrsize))
      else (its, sz))"

partial_function (option) ipc_table_fill_pages ::
  "nat \<Rightarrow> nat \<Rightarrow> nat \<Rightarrow> nat \<Rightarrow> nat \<Rightarrow> ipc_table_size list \<Rightarrow> nat \<Rightarrow> ipc_table_size list option" where
  "ipc_table_fill_pages page num minsize elemsize incrsize its sz =
     (if length its < num
      then let (its', sz') = ipc_table_fill_period num minsize elemsize incrsize 15 its sz
           in ipc_table_fill_pages page num minsize elemsize
                (if incrsize < vm_size (page * 8) then vm_size (2 * incrsize) else incrsize) its' sz'
      else Some its)"

definition ipc_table_fill :: "nat \<Rightarrow> nat \<Rightarrow> nat \<Rightarrow> nat \<Rightarrow> ipc_table_size list option" where
  "ipc_table_fill page num mn elemsize = do {
     let minsize = vm_size (mn * elemsize);
     (its, sz) \<leftarrow> ipc_table_fill_pow2 page num minsize elemsize [] 1;
     ipc_table_fill_pages page num minsize elemsize page its sz
   }"

text \<open>The two arrays \<open>ipc_table_entries\<close> and \<open>ipc_table_requests\<close> that \<open>ipc_table_init\<close> leaves.\<close>

definition ipc_table_init :: "nat \<Rightarrow> nat \<Rightarrow> (ipc_table_size list \<times> ipc_table_size list) option" where
  "ipc_table_init page steps = do {
     entries \<leftarrow> ipc_table_fill page (steps - 1) 16 sizeof_ipc_entry;
     e \<leftarrow> arr_get entries (steps - 2);
     let ipc_table_entries = entries @ [\<lparr>its_size = its_size e\<rparr>];
     kassert (its_size e \<le> IPC_ENTRY_INDEX_MAX);
     requests \<leftarrow> ipc_table_fill page 63 2 sizeof_ipc_port_request;
     Some (ipc_table_entries, requests @ [\<lparr>its_size = 0\<rparr>])
   }"

definition ipc_table_max_entries :: "ipc_table_size list \<Rightarrow> nat option" where
  "ipc_table_max_entries ipc_table_entries =
     map_option its_size (arr_get ipc_table_entries (length ipc_table_entries - 1))"

definition ipc_table_max_requests :: "ipc_table_size list \<Rightarrow> nat option" where
  "ipc_table_max_requests ipc_table_requests =
     map_option its_size (arr_get ipc_table_requests (length ipc_table_requests - 2))"

section \<open>The classes are strictly increasing\<close>

text \<open>
  The invariant of both loops: sizes are increasing and below the one the next step would write, and no size has wrapped. The
  last is the bound on \<open>sz\<close>: below the minimum the loops only step, above it every step of at most eight pages fills a class.
\<close>

definition fill_inv :: "nat \<Rightarrow> nat \<Rightarrow> nat \<Rightarrow> nat \<Rightarrow> ipc_table_size list \<Rightarrow> nat \<Rightarrow> bool" where
  "fill_inv page num minsize elemsize its sz \<longleftrightarrow> length its \<le> num \<and> 0 < sz
     \<and> sorted_wrt (<) (map its_size its) \<and> (\<forall>s \<in> set its. its_size s < sz div elemsize)
     \<and> (\<forall>s \<in> set its. minsize div elemsize \<le> its_size s) \<and> sz \<le> minsize + 8 * page * Suc (length its)"

definition fill_fits :: "nat \<Rightarrow> nat \<Rightarrow> nat \<Rightarrow> nat \<Rightarrow> bool" where
  "fill_fits page num minsize elemsize \<longleftrightarrow> 0 < elemsize \<and> elemsize \<le> minsize \<and> elemsize \<le> page \<and> elemsize < 2 ^ 32
     \<and> minsize + 8 * page * Suc num < 2 ^ 32 * elemsize"

lemma fill_fits_bounds:
  assumes fits: "fill_fits page num minsize e" and inv: "fill_inv page num minsize e its sz" "length its < num"
  shows "table_elems (sz div e) = sz div e" "sz + 8 * page < 2 ^ 64"
proof -
  have "8 * page * Suc (length its) + 8 * page \<le> 8 * page * Suc num"
    using inv(2) by (metis Suc_leI Suc_le_mono add.commute mult_Suc_right mult_le_mono2)
  then have b: "sz + 8 * page < 2 ^ 32 * e" using assms by (simp add: fill_fits_def fill_inv_def)
  then have "sz div e < 2 ^ 32" using fits by (simp add: fill_fits_def div_less_iff_less_mult)
  then show "table_elems (sz div e) = sz div e" by simp
  have "2 ^ 32 * e < 2 ^ 32 * 2 ^ 32" using fits by (simp add: fill_fits_def)
  then show "sz + 8 * page < 2 ^ 64" using b by simp
qed

lemma fill_inv_step:
  assumes fits: "fill_fits page num minsize e" and inv: "fill_inv page num minsize e its sz" and room: "length its < num"
    and grow: "minsize \<le> sz \<Longrightarrow> sz + e \<le> sz'" "sz \<le> sz'" "sz' \<le> sz + 8 * page"
  shows "fill_inv page num minsize e (its_push minsize e sz its) sz'"
proof (cases "minsize \<le> sz")
  case True
  have e: "0 < e" "e \<le> minsize" using fits by (simp_all add: fill_fits_def)
  have "sz div e + 1 = (sz + e) div e" using div_add_self2 [of e sz] e by simp
  also have "\<dots> \<le> sz' div e" using grow(1) [OF True] by (rule div_le_mono)
  finally have "sz div e < sz' div e" by simp
  with inv room True grow(2,3) show ?thesis
    unfolding its_push_def fill_fits_bounds(1) [OF fits inv room]
    by (auto simp: fill_inv_def sorted_wrt_append div_le_mono)
next
  case False
  have "sz div e \<le> sz' div e" using grow(2) by (rule div_le_mono)
  with inv False grow(2,3) show ?thesis by (fastforce simp: fill_inv_def its_push_def)
qed

lemma fill_pow2_returns:
  assumes fits: "fill_fits page num minsize e" and "fill_inv page num minsize e its sz"
  shows "\<exists>its' sz'. ipc_table_fill_pow2 page num minsize e its sz = Some (its', sz')
    \<and> fill_inv page num minsize e its' sz'"
  using assms(2)
proof (induction "page - sz" arbitrary: its sz rule: less_induct)
  case less
  show ?case
  proof (cases "length its < num \<and> sz < page")
    case True
    have "0 < sz" using less.prems by (simp add: fill_inv_def)
    moreover have "fill_inv page num minsize e (its_push minsize e sz its) (2 * sz)"
      by (rule fill_inv_step [OF fits less.prems]) (use True fits in \<open>auto simp: fill_fits_def\<close>)
    moreover have "vm_size (2 * sz) = 2 * sz" using fill_fits_bounds(2) [OF fits less.prems] True by simp
    ultimately show ?thesis
      using less.hyps [of "2 * sz" "its_push minsize e sz its"] True
      by (subst ipc_table_fill_pow2.simps) auto
  next
    case False
    then show ?thesis using less.prems by (subst ipc_table_fill_pow2.simps) auto
  qed
qed

lemma its_push_length: "length its \<le> length (its_push minsize e sz its)"
  "minsize \<le> sz \<Longrightarrow> length its < length (its_push minsize e sz its)"
  by (simp_all add: its_push_def)

text \<open>The increments are one, two, four and eight pages.\<close>

definition page_step :: "nat \<Rightarrow> nat \<Rightarrow> bool" where
  "page_step page incr \<longleftrightarrow> incr \<in> {page, 2 * page, 4 * page, 8 * page}"

lemma fill_period_inv:
  assumes fits: "fill_fits page num minsize e" and "fill_inv page num minsize e its sz" and incr: "page_step page incr"
    and "ipc_table_fill_period num minsize e incr p its sz = (its', sz')"
  shows "fill_inv page num minsize e its' sz' \<and> length its \<le> length its' \<and> sz \<le> sz'
    \<and> (0 < p \<longrightarrow> length its < num \<longrightarrow> length its < length its' \<or> minsize - sz' < minsize - sz)"
  using assms(2,4)
proof (induction p arbitrary: its sz)
  case 0
  then show ?case by simp
next
  case (Suc p)
  have i: "e \<le> incr" "0 < incr" "incr \<le> 8 * page" using fits incr by (auto simp: fill_fits_def page_step_def)
  show ?case
  proof (cases "length its < num")
    case True
    have "fill_inv page num minsize e (its_push minsize e sz its) (sz + incr)"
      by (rule fill_inv_step [OF fits Suc.prems(1) True]) (use i in auto)
    moreover have "vm_size (sz + incr) = sz + incr" using fill_fits_bounds(2) [OF fits Suc.prems(1) True] i(3) by simp
    ultimately show ?thesis
      using Suc.IH [of "its_push minsize e sz its" "sz + incr"] Suc.prems(2) True
        its_push_length(1) [of its minsize e sz] its_push_length(2) [of minsize sz its e] i(2)
      by (cases "minsize \<le> sz") auto
  qed (use Suc.prems in simp)
qed

lemma fill_pages_returns:
  assumes fits: "fill_fits page num minsize e" and "fill_inv page num minsize e its sz" "page_step page incr"
  shows "\<exists>its'. ipc_table_fill_pages page num minsize e incr its sz = Some its'
    \<and> length its' = num \<and> (\<exists>sz'. fill_inv page num minsize e its' sz')"
  using assms(2,3)
proof (induction "(num - length its) + (minsize - sz)" arbitrary: its sz incr rule: less_induct)
  case less
  show ?case
  proof (cases "length its < num")
    case True
    obtain its' sz' where p: "ipc_table_fill_period num minsize e incr 15 its sz = (its', sz')" by fastforce
    note I = fill_period_inv [OF fits less.prems p]
    have "8 * page < 2 ^ 64" using fill_fits_bounds(2) [OF fits less.prems(1) True] by simp
    then have st: "page_step page (if incr < vm_size (page * 8) then vm_size (2 * incr) else incr)"
      using less.prems(2) by (auto simp: page_step_def)
    have "(num - length its') + (minsize - sz') < (num - length its) + (minsize - sz)"
      using I True by (auto simp: fill_inv_def)
    from less.hyps [OF this _ st] I True p
    show ?thesis by (subst ipc_table_fill_pages.simps) simp
  next
    case False
    then show ?thesis
      using less.prems by (subst ipc_table_fill_pages.simps) (auto simp: fill_inv_def)
  qed
qed

lemma ipc_table_fill_returns:
  assumes fits: "fill_fits page num (mn * e) e"
  shows "\<exists>its. ipc_table_fill page num mn e = Some its \<and> length its = num
    \<and> sorted_wrt (<) (map its_size its) \<and> (\<forall>s \<in> set its. mn \<le> its_size s)"
proof -
  have b: "0 < e" "e < 2 ^ 32" "0 < page" "0 < mn" using fits by (auto simp: fill_fits_def)
  have "mn * e < 2 ^ 32 * e" using fits unfolding fill_fits_def by linarith
  then have "mn * e < 2 ^ 32 * 2 ^ 32" using b(2) by (meson less_trans mult_less_cancel1 zero_less_numeral zero_less_power)
  then have m: "vm_size (mn * e) = mn * e" by simp
  have init: "fill_inv page num (mn * e) e [] 1" using b by (simp add: fill_inv_def)
  obtain its sz where 1: "ipc_table_fill_pow2 page num (mn * e) e [] 1 = Some (its, sz)"
      "fill_inv page num (mn * e) e its sz"
    using fill_pow2_returns [OF fits init] by blast
  obtain its' where "ipc_table_fill_pages page num (mn * e) e page its sz = Some its'"
      "length its' = num" "\<exists>sz'. fill_inv page num (mn * e) e its' sz'"
    using fill_pages_returns [OF fits 1(2), of page] by (auto simp: page_step_def)
  then show ?thesis using 1 b m by (auto simp: ipc_table_fill_def fill_inv_def Let_def)
qed

lemma fill_period_numeral:
  "ipc_table_fill_period num minsize elemsize incrsize (numeral p) its sz =
     (if length its < num
      then ipc_table_fill_period num minsize elemsize incrsize (pred_numeral p)
             (its_push minsize elemsize sz its) (vm_size (sz + incrsize))
      else (its, sz))"
  by (simp add: numeral_eq_Suc)

section \<open>Properties\<close>

text \<open>
  C32. For every page size, element size up to a page, positive minimum and number of classes such that the largest size,
  bounded by the minimum plus eight pages per class, holds fewer than \<open>2^32\<close> elements, \<open>ipc_table_fill\<close> fills all \<open>num\<close>
  classes, each class is strictly larger than the one before and holds at least the minimum number of elements. Without the
  bound the 32-bit element counts wrap.
\<close>

theorem ipc_table_fill_increasing:
  assumes "0 < mn" "0 < elemsize" "elemsize \<le> page" "elemsize < 2 ^ 32" "mn * elemsize + 8 * page * Suc num < 2 ^ 32 * elemsize"
  shows "\<exists>its. ipc_table_fill page num mn elemsize = Some its \<and> length its = num
    \<and> sorted_wrt (<) (map its_size its) \<and> (\<forall>s \<in> set its. mn \<le> its_size s)"
  using assms by (intro ipc_table_fill_returns) (simp add: fill_fits_def)

theorem ipc_table_fill_increasing_witness:
  "\<exists>its. ipc_table_fill 4096 255 16 sizeof_ipc_entry = Some its \<and> length its = 255
    \<and> sorted_wrt (<) (map its_size its) \<and> (\<forall>s \<in> set its. 16 \<le> its_size s)"
  by (rule ipc_table_fill_increasing) (simp_all add: sizeof_ipc_entry_def)


end
