(* ===== verification/Ipc_Space.thy ===== *)
theory Ipc_Space
  imports Ipc_Table
begin

text \<open>
  The capability space of a task (\<open>osfmk/ipc/ipc_space.[ch]\<close>), the boolean generator it draws
  name randomness from (\<open>osfmk/prng/prng_random.c\<close>) and the wrappers of the reverse hash table on a
  space (\<open>osfmk/ipc/ipc_hash.c\<close>). A space is a record; its spin lock is not modelled, a routine
  being one step of the holder of the lock. The lemmas show that the free list of a new table is a
  chain through all of its entries whatever the generator returns, that the generator returns as
  many bits as asked for, and that a created space satisfies the invariant \<open>space_ok\<close>.
\<close>

section \<open>Boolean generator\<close>

record bool_gen =
  seed0 :: "32 word"
  seed1 :: "32 word"
  seed2 :: "32 word"
  seed3 :: "32 word"
  bg_state :: "32 word"

definition random_bool_init :: "32 word \<Rightarrow> 32 word \<Rightarrow> 32 word \<Rightarrow> 32 word \<Rightarrow> bool_gen" where
  "random_bool_init r0 r1 r2 r3 = \<lparr>seed0 = r0, seed1 = r1, seed2 = r2, seed3 = r3, bg_state = 0\<rparr>"

definition random_bool_gen_word :: "bool_gen \<Rightarrow> 32 word \<times> bool_gen" where
  "random_bool_gen_word bg =
     (let s1 = seed1 bg;
          s1 = s1 XOR push_bit 5 s1;
          s1 = s1 XOR drop_bit 7 s1;
          s1 = s1 XOR push_bit 22 s1;
          t = seed2 bg + seed3 bg + bg_state bg;
          bg = bg\<lparr>seed1 := s1, seed2 := seed3 bg, bg_state := (if t <s 0 then 1 else 0),
                  seed3 := t AND 2147483647, seed0 := seed0 bg + 1411392427\<rparr>
      in (seed0 bg + seed1 bg + seed3 bg, bg))"

fun random_bool_gen_entropy :: "nat \<Rightarrow> bool_gen \<Rightarrow> 32 word list \<times> bool_gen" where
  "random_bool_gen_entropy 0 bg = ([], bg)"
| "random_bool_gen_entropy (Suc count) bg =
     (let (w, bg) = random_bool_gen_word bg;
          (ws, bg) = random_bool_gen_entropy count bg
      in (w # ws, bg))"

text \<open>The first index from \<open>index\<close> on whose word still has bits, or the length of the buffer.\<close>

function skip_empty :: "32 word list \<Rightarrow> nat \<Rightarrow> nat" where
  "skip_empty buffer index =
     (if index < length buffer \<and> buffer ! index = 0 then skip_empty buffer (index + 1) else index)"
  by auto
termination by (relation "measure (\<lambda>(b, i). length b - i)") auto

declare skip_empty.simps [simp del]

fun random_bool_gen_loop ::
  "nat \<Rightarrow> bool_gen \<Rightarrow> 32 word list \<Rightarrow> nat \<Rightarrow> 32 word \<Rightarrow> (32 word \<times> bool_gen \<times> 32 word list) option" where
  "random_bool_gen_loop 0 bg buffer index rbits = Some (rbits, bg, buffer)"
| "random_bool_gen_loop (Suc numbits) bg buffer index rbits = do {
     let index = skip_empty buffer index;
     let (buffer, bg, index) =
       (if index = length buffer
        then (case random_bool_gen_entropy (length buffer) bg of (b, g) \<Rightarrow> (b, g, 0))
        else (buffer, bg, index));
     w \<leftarrow> arr_get buffer index;
     buffer \<leftarrow> arr_set buffer index (drop_bit 1 w);
     random_bool_gen_loop numbits bg buffer index ((w AND 1) OR push_bit 1 rbits)
   }"

definition random_bool_gen_bits ::
  "bool_gen \<Rightarrow> 32 word list \<Rightarrow> nat \<Rightarrow> (32 word \<times> bool_gen \<times> 32 word list) option" where
  "random_bool_gen_bits bg buffer numbits = random_bool_gen_loop numbits bg buffer 0 0"

section \<open>Spaces\<close>

definition IS_REFS_MAX :: "32 word" where
  "IS_REFS_MAX = 0x0fffffff"

definition IS_INACTIVE :: "32 word" where
  "IS_INACTIVE = 0x40000000"

definition IS_GROWING :: "32 word" where
  "IS_GROWING = 0x20000000"

definition IS_ENTROPY_CNT :: nat where
  "IS_ENTROPY_CNT = 1"

definition NUM_SEQ_ENTRIES :: nat where
  "NUM_SEQ_ENTRIES = 8"

record ipc_space =
  is_bits :: "32 word"
  is_table_size :: nat
  is_table_hashed :: nat
  is_table_free :: nat
  is_table :: ipc_table
  is_table_next :: nat
  is_task :: ptr
  is_label :: "64 word"
  is_low_mod :: nat
  is_high_mod :: nat
  is_bool_gen :: bool_gen
  is_entropy :: "32 word list"
  is_node_id :: int

definition is_active :: "ipc_space \<Rightarrow> bool" where
  "is_active sp \<longleftrightarrow> is_bits sp AND IS_INACTIVE \<noteq> IS_INACTIVE"

definition is_mark_inactive :: "ipc_space \<Rightarrow> ipc_space option" where
  "is_mark_inactive sp = do {
     kassert (is_active sp);
     Some (sp\<lparr>is_bits := is_bits sp OR IS_INACTIVE\<rparr>)
   }"

definition is_growing :: "ipc_space \<Rightarrow> bool" where
  "is_growing sp \<longleftrightarrow> is_bits sp AND IS_GROWING = IS_GROWING"

definition is_start_growing :: "ipc_space \<Rightarrow> ipc_space option" where
  "is_start_growing sp = do {
     kassert (\<not> is_growing sp);
     Some (sp\<lparr>is_bits := is_bits sp OR IS_GROWING\<rparr>)
   }"

definition is_done_growing :: "ipc_space \<Rightarrow> ipc_space option" where
  "is_done_growing sp = do {
     kassert (is_growing sp);
     Some (sp\<lparr>is_bits := is_bits sp AND NOT IS_GROWING\<rparr>)
   }"

definition is_refs :: "ipc_space \<Rightarrow> 32 word" where
  "is_refs sp = is_bits sp AND IS_REFS_MAX"

definition is_reference :: "ipc_space \<Rightarrow> ipc_space option" where
  "is_reference sp = do {
     kassert (0 < is_refs sp \<and> is_refs sp < IS_REFS_MAX);
     Some (sp\<lparr>is_bits := is_bits sp + 1\<rparr>)
   }"

text \<open>\<open>Some None\<close>: the last reference went away and the space was freed.\<close>

definition is_release :: "ipc_space \<Rightarrow> ipc_space option option" where
  "is_release sp = do {
     kassert (0 < is_refs sp);
     let old = is_bits sp;
     let sp = sp\<lparr>is_bits := is_bits sp - 1\<rparr>;
     if old AND IS_REFS_MAX = 1
     then do { kassert (\<not> is_active sp); Some None }
     else Some (Some sp)
   }"

definition ipc_space_get_rollpoint :: "ipc_space \<Rightarrow> (32 word \<times> ipc_space) option" where
  "ipc_space_get_rollpoint sp = do {
     (r, bg, e) \<leftarrow> random_bool_gen_bits (is_bool_gen sp) (is_entropy sp) 2;
     Some (r, sp\<lparr>is_bool_gen := bg, is_entropy := e\<rparr>)
   }"

definition freelist_entry :: "mach_port_index_t \<Rightarrow> ipc_entry" where
  "freelist_entry nxt = \<lparr>ie_object = IO_NULL, ie_bits = IE_BITS_GEN_MASK, ie_dist = 0, ie_index = 0,
     ie_request = nxt\<rparr>"

partial_function (option) rand_freelist_loop ::
  "bool \<Rightarrow> nat \<Rightarrow> ipc_space \<Rightarrow> ipc_table \<Rightarrow> nat \<Rightarrow> nat \<Rightarrow> nat \<Rightarrow> (ipc_space \<times> ipc_table \<times> nat) option" where
  "rand_freelist_loop at_start tot sp table cur bottom top1 =
     (if bottom \<le> top1 then do {
        (which, sp) \<leftarrow>
          (if at_start \<and> tot < NUM_SEQ_ENTRIES then Some (0, sp)
           else do {
             (r, bg, e) \<leftarrow> random_bool_gen_bits (is_bool_gen sp) (is_entropy sp) 1;
             Some (r, sp\<lparr>is_bool_gen := bg, is_entropy := e\<rparr>)
           });
        let nxt = (if which \<noteq> 0 then top1 else bottom);
        table \<leftarrow> arr_set table cur (freelist_entry nxt);
        if which \<noteq> 0
        then rand_freelist_loop at_start (tot + 1) sp table nxt bottom (top1 - 1)
        else rand_freelist_loop at_start (tot + 1) sp table nxt (bottom + 1) top1
      } else Some (sp, table, cur))"

definition ipc_space_rand_freelist ::
  "ipc_space \<Rightarrow> ipc_table \<Rightarrow> nat \<Rightarrow> nat \<Rightarrow> (ipc_space \<times> ipc_table) option" where
  "ipc_space_rand_freelist sp table bottom top1 = do {
     let at_start = (bottom = 0);
     (sp, table, cur) \<leftarrow> rand_freelist_loop at_start 0 sp table bottom (bottom + 1) (top1 - 1);
     table \<leftarrow> arr_set table cur (freelist_entry 0);
     table \<leftarrow> (if at_start
       then do { e \<leftarrow> arr_get table 0; arr_set table 0 (e\<lparr>ie_bits := 0\<rparr>) }
       else Some table);
     Some (sp, table)
   }"

text \<open>
  \<open>ipc_space_create\<close>: \<open>its\<close> is the array \<open>ipc_table_entries\<close> and \<open>initial\<close> an index of it; \<open>mem_sp\<close>
  and \<open>mem_table\<close> say whether the two allocations succeed; \<open>sp0\<close> is the uninitialised memory of the
  new space and \<open>seed\<close> what \<open>read_frandom\<close> stores. \<open>memset\<close> clears the new table.
\<close>

definition null_entry :: ipc_entry where
  "null_entry = \<lparr>ie_object = IO_NULL, ie_bits = 0, ie_dist = 0, ie_index = 0, ie_request = 0\<rparr>"

definition ipc_space_create ::
  "ipc_table_size list \<Rightarrow> bool \<Rightarrow> bool \<Rightarrow> ipc_space \<Rightarrow> bool_gen \<Rightarrow> nat \<Rightarrow> 64 word
     \<Rightarrow> (kern_return_t \<times> ipc_space option) option" where
  "ipc_space_create its mem_sp mem_table sp0 seed initial label =
     (if \<not> mem_sp then Some (KERN_RESOURCE_SHORTAGE, None)
      else if \<not> mem_table then Some (KERN_RESOURCE_SHORTAGE, None)
      else do {
        i \<leftarrow> arr_get its initial;
        let new_size = its_size i;
        let table = replicate new_size null_entry;
        let sp = sp0\<lparr>is_entropy := replicate IS_ENTROPY_CNT 0, is_bool_gen := seed\<rparr>;
        (sp, table) \<leftarrow> ipc_space_rand_freelist sp table 0 new_size;
        Some (KERN_SUCCESS, Some (sp\<lparr>is_bits := 2, is_table_hashed := 0, is_table_size := new_size,
          is_table_free := new_size - 1, is_table := table, is_table_next := initial + 1,
          is_task := 0, is_label := label, is_low_mod := new_size, is_high_mod := 0,
          is_node_id := -1\<rparr>))
      })"

definition ipc_space_label :: "ipc_space \<Rightarrow> 64 word \<Rightarrow> kern_return_t \<times> ipc_space" where
  "ipc_space_label sp label =
     (if \<not> is_active sp then (KERN_SUCCESS, sp)
      else if is_label sp AND label \<noteq> is_label sp then (KERN_INVALID_VALUE, sp)
      else (KERN_SUCCESS, sp\<lparr>is_label := label\<rparr>))"

definition ipc_space_add_label :: "ipc_space \<Rightarrow> 64 word \<Rightarrow> kern_return_t \<times> ipc_space" where
  "ipc_space_add_label sp label =
     (if \<not> is_active sp then (KERN_SUCCESS, sp)
      else (KERN_SUCCESS, sp\<lparr>is_label := is_label sp OR label\<rparr>))"

definition IPC_LABEL_SPECIAL :: "64 word" where
  "IPC_LABEL_SPECIAL = 3"

definition ipc_space_create_special ::
  "bool \<Rightarrow> ipc_space \<Rightarrow> kern_return_t \<times> ipc_space option" where
  "ipc_space_create_special mem_sp sp0 =
     (if \<not> mem_sp then (KERN_RESOURCE_SHORTAGE, None)
      else (KERN_SUCCESS, Some (sp0\<lparr>is_bits := IS_INACTIVE OR 1, is_table := [], is_task := 0,
        is_label := IPC_LABEL_SPECIAL, is_table_next := 0, is_low_mod := 0, is_high_mod := 0,
        is_node_id := -1\<rparr>)))"

section \<open>The reverse hash table of a space\<close>

definition ipc_hash_lookup ::
  "ipc_space \<Rightarrow> ptr \<Rightarrow> (mach_port_name_t \<times> mach_port_index_t) option option" where
  "ipc_hash_lookup sp obj = ipc_hash_table_lookup (is_table sp) (is_table_size sp) obj"

definition ipc_hash_insert :: "ipc_space \<Rightarrow> ptr \<Rightarrow> mach_port_name_t \<Rightarrow> ipc_space option" where
  "ipc_hash_insert sp obj name = do {
     let index = MACH_PORT_INDEX name;
     let sp = sp\<lparr>is_table_hashed := is_table_hashed sp + 1\<rparr>;
     t \<leftarrow> ipc_hash_table_insert (is_table sp) (is_table_size sp) obj index;
     Some (sp\<lparr>is_table := t\<rparr>)
   }"

definition ipc_hash_delete :: "ipc_space \<Rightarrow> ptr \<Rightarrow> mach_port_name_t \<Rightarrow> ipc_space option" where
  "ipc_hash_delete sp obj name = do {
     let index = MACH_PORT_INDEX name;
     let sp = sp\<lparr>is_table_hashed := is_table_hashed sp - 1\<rparr>;
     t \<leftarrow> ipc_hash_table_delete (is_table sp) (is_table_size sp) obj index;
     Some (sp\<lparr>is_table := t\<rparr>)
   }"


lemma freelist_entry_sel [simp]:
  "ie_object (freelist_entry nxt) = IO_NULL" "ie_bits (freelist_entry nxt) = IE_BITS_GEN_MASK"
  "ie_dist (freelist_entry nxt) = 0" "ie_index (freelist_entry nxt) = 0" "ie_request (freelist_entry nxt) = nxt"
  by (simp_all add: freelist_entry_def)

section \<open>Lemmas on the generator\<close>

lemma skip_empty_le: "index \<le> length buffer \<Longrightarrow> skip_empty buffer index \<le> length buffer"
  by (induction buffer index rule: skip_empty.induct) (subst skip_empty.simps, auto)

lemma random_bool_gen_entropy_length: "length (fst (random_bool_gen_entropy n bg)) = n"
  by (induction n arbitrary: bg) (auto simp: Let_def split: prod.splits, metis fst_conv)

lemma collect_bit:
  assumes "take_bit n r = (r :: 32 word)"
  shows "take_bit (Suc n) ((w AND 1) OR push_bit 1 r) = (w AND 1) OR push_bit 1 r"
proof (rule bit_word_eqI)
  fix k assume "k < LENGTH(32)"
  have "bit r j \<longrightarrow> j < n" for j using assms by (metis bit_take_bit_iff)
  then show "bit (take_bit (Suc n) ((w AND 1) OR push_bit 1 r)) k = bit ((w AND 1) OR push_bit 1 r) k"
    by (cases k) (auto simp: bit_simps mult.commute [of r 2] bit_double_iff)
qed

lemma random_bool_gen_loop_returns:
  assumes "index \<le> length buffer" "0 < length buffer" "take_bit m r = r"
  shows "\<exists>r' bg' buffer'. random_bool_gen_loop n bg buffer index r = Some (r', bg', buffer')
    \<and> length buffer' = length buffer \<and> take_bit (m + n) r' = r'"
  using assms
proof (induction n arbitrary: bg buffer index r m)
  case 0
  then show ?case by simp
next
  case (Suc n)
  let ?i = "skip_empty buffer index"
  obtain b g where e: "random_bool_gen_entropy (length buffer) bg = (b, g)" by fastforce
  then have b: "length b = length buffer" using random_bool_gen_entropy_length [of "length buffer" bg] by simp
  show ?case
  proof (cases "?i = length buffer")
    case True
    have "\<exists>r' bg' buffer'. random_bool_gen_loop n g (b[0 := drop_bit 1 (b ! 0)]) 0 ((b ! 0 AND 1) OR push_bit 1 r)
        = Some (r', bg', buffer') \<and> length buffer' = length b \<and> take_bit (Suc m + n) r' = r'"
      using Suc.IH [OF _ _ collect_bit [OF Suc.prems(3)], of 0 "b[0 := drop_bit 1 (b ! 0)]"] Suc.prems(2) b
      by (metis le0 length_list_update)
    then show ?thesis using True e b Suc.prems(2) by (auto simp: Let_def)
  next
    case False
    then have lt: "?i < length buffer" using skip_empty_le [OF Suc.prems(1)] by simp
    have "\<exists>r' bg' buffer'. random_bool_gen_loop n bg (buffer[?i := drop_bit 1 (buffer ! ?i)]) ?i
          ((buffer ! ?i AND 1) OR push_bit 1 r)
        = Some (r', bg', buffer') \<and> length buffer' = length buffer \<and> take_bit (Suc m + n) r' = r'"
      using Suc.IH [OF _ _ collect_bit [OF Suc.prems(3)], of ?i "buffer[?i := drop_bit 1 (buffer ! ?i)]"]
        Suc.prems(2) lt by (metis le_eq_less_or_eq length_list_update)
    then show ?thesis using False lt by (auto simp: Let_def)
  qed
qed

lemma random_bool_gen_bits_returns:
  assumes "0 < length buffer"
  shows "\<exists>r bg' buffer'. random_bool_gen_bits bg buffer n = Some (r, bg', buffer')
    \<and> length buffer' = length buffer \<and> take_bit n r = r"
  using random_bool_gen_loop_returns [of 0 buffer 0 0 n bg] assms by (simp add: random_bool_gen_bits_def)

section \<open>Free lists\<close>

text \<open>\<open>fl_chain t a xs\<close>: following \<open>ie_next\<close> from entry \<open>a\<close> visits \<open>xs\<close> and ends.\<close>

fun fl_chain :: "ipc_table \<Rightarrow> nat \<Rightarrow> nat list \<Rightarrow> bool" where
  "fl_chain t a [] \<longleftrightarrow> ie_next (t ! a) = 0"
| "fl_chain t a (x # xs) \<longleftrightarrow> ie_next (t ! a) = x \<and> x \<noteq> 0 \<and> x < length t \<and> fl_chain t x xs"

lemma fl_chain_unique: "fl_chain t a xs \<Longrightarrow> fl_chain t a ys \<Longrightarrow> xs = ys"
proof (induction xs arbitrary: a ys)
  case Nil then show ?case by (cases ys) auto
next
  case (Cons x xs) then show ?case by (cases ys) auto
qed

lemma fl_chain_cong:
  "length t' = length t \<Longrightarrow> \<forall>i \<in> insert a (set xs). ie_next (t' ! i) = ie_next (t ! i) \<Longrightarrow>
     fl_chain t' a xs = fl_chain t a xs"
  by (induction xs arbitrary: a) auto

lemma fl_chain_update:
  assumes "j \<notin> insert a (set xs)"
  shows "fl_chain (t[j := e]) a xs = fl_chain t a xs"
  using assms by (intro fl_chain_cong) (auto, metis nth_list_update_neq)

lemma fl_chain_bounds: "fl_chain t a xs \<Longrightarrow> x \<in> set xs \<Longrightarrow> x \<noteq> 0 \<and> x < length t"
  by (induction xs arbitrary: a) auto

text \<open>The state of \<open>sp\<close> may differ from that of \<open>sp'\<close> in the generator only.\<close>

definition same_but_rng :: "ipc_space \<Rightarrow> ipc_space \<Rightarrow> bool" where
  "same_but_rng sp sp' \<longleftrightarrow> length (is_entropy sp') = length (is_entropy sp)
     \<and> sp' = sp\<lparr>is_bool_gen := is_bool_gen sp', is_entropy := is_entropy sp'\<rparr>"

lemma same_but_rng_refl [simp]: "same_but_rng sp sp"
  by (simp add: same_but_rng_def)

lemma same_but_rng_trans: "same_but_rng a b \<Longrightarrow> same_but_rng b c \<Longrightarrow> same_but_rng a c"
  by (cases a; cases b; cases c) (simp add: same_but_rng_def)

lemma rand_freelist_loop_correct:
  assumes "0 < length (is_entropy sp)" "cur \<notin> {b..tp}" "tp < length t" "cur < length t" "0 < b"
  shows "\<exists>sp' t' cur' xs. rand_freelist_loop s n sp t cur b tp = Some (sp', t', cur') \<and> same_but_rng sp sp'
    \<and> length t' = length t \<and> cur' < length t
    \<and> distinct xs \<and> set xs = {b..tp} \<and> fl_chain (t'[cur' := freelist_entry 0]) cur xs
    \<and> (\<forall>i \<in> insert cur {b..tp}. \<exists>nx. t'[cur' := freelist_entry 0] ! i = freelist_entry nx)
    \<and> (\<forall>i. i \<notin> insert cur {b..tp} \<longrightarrow> t'[cur' := freelist_entry 0] ! i = t ! i)"
  using assms
proof (induction "Suc tp - b" arbitrary: n sp t cur b tp rule: less_induct)
  case less
  show ?case
  proof (cases "b \<le> tp")
    case False
    then show ?thesis using less.prems
      by (subst rand_freelist_loop.simps) (auto simp: nth_list_update_if intro!: exI [of _ "[]"])
  next
    case True
    obtain r bg e where g: "random_bool_gen_bits (is_bool_gen sp) (is_entropy sp) 1 = Some (r, bg, e)"
        "length e = length (is_entropy sp)"
      using random_bool_gen_bits_returns [OF less.prems(1)] by blast
    define seq where "seq \<longleftrightarrow> s \<and> n < NUM_SEQ_ENTRIES"
    define wh where "wh = (if seq then 0 else r)"
    define sp1 where "sp1 = (if seq then sp else sp\<lparr>is_bool_gen := bg, is_entropy := e\<rparr>)"
    define nx where "nx = (if wh \<noteq> 0 then tp else b)"
    define b1 where "b1 = (if wh \<noteq> 0 then b else b + 1)"
    define tp1 where "tp1 = (if wh \<noteq> 0 then tp - 1 else tp)"
    let ?t1 = "t[cur := freelist_entry nx]"
    have sp1: "same_but_rng sp sp1" "0 < length (is_entropy sp1)"
      using g(2) less.prems(1) by (auto simp: sp1_def same_but_rng_def)
    have step: "rand_freelist_loop s n sp t cur b tp = rand_freelist_loop s (n + 1) sp1 ?t1 nx b1 tp1"
      using True g(1) less.prems(4)
      by (subst rand_freelist_loop.simps) (simp add: seq_def [symmetric] wh_def sp1_def nx_def b1_def tp1_def)
    have ranges: "{b..tp} = insert nx {b1..tp1}" "nx \<notin> {b1..tp1}" "nx \<noteq> 0" "Suc tp1 - b1 < Suc tp - b"
        "tp1 < length t" "0 < b1" "nx < length t" "nx \<noteq> cur" "cur \<notin> {b1..tp1}"
      using True less.prems by (auto simp: nx_def b1_def tp1_def)
    obtain sp' t' cur' xs where IH: "rand_freelist_loop s (n + 1) sp1 ?t1 nx b1 tp1 = Some (sp', t', cur')"
        "same_but_rng sp1 sp'" "length t' = length t" "cur' < length t" "distinct xs" "set xs = {b1..tp1}"
        "fl_chain (t'[cur' := freelist_entry 0]) nx xs"
        "\<forall>i \<in> insert nx {b1..tp1}. \<exists>nx. t'[cur' := freelist_entry 0] ! i = freelist_entry nx"
        "\<forall>i. i \<notin> insert nx {b1..tp1} \<longrightarrow> t'[cur' := freelist_entry 0] ! i = ?t1 ! i"
      using less.hyps [OF ranges(4) sp1(2) ranges(2), of ?t1 "n + 1", unfolded length_list_update,
          OF ranges(5,7,6)] by (elim exE conjE)
    have at: "t'[cur' := freelist_entry 0] ! cur = freelist_entry nx"
      using IH(9) ranges(8,9) less.prems(4) by simp
    have "fl_chain (t'[cur' := freelist_entry 0]) cur (nx # xs)"
      using at IH(3,7) ranges(3,7) by (simp add: freelist_entry_def)
    moreover have "t'[cur' := freelist_entry 0] ! i = t ! i" if "i \<notin> insert cur {b..tp}" for i
      using IH(9) that ranges(1) by simp
    moreover have "\<exists>k. t'[cur' := freelist_entry 0] ! i = freelist_entry k" if "i \<in> insert cur {b..tp}" for i
      using at IH(8) that ranges(1) by auto
    ultimately show ?thesis
      unfolding step IH(1) using IH(2-6) ranges(1,2) same_but_rng_trans [OF sp1(1) IH(2)]
      by (intro exI [of _ sp'] exI [of _ t'] exI [of _ cur'] exI [of _ "nx # xs"]) auto
  qed
qed

lemma ipc_space_rand_freelist_returns:
  assumes "0 < length (is_entropy sp)" "bottom < tp" "tp \<le> length t"
  shows "\<exists>sp' t' xs. ipc_space_rand_freelist sp t bottom tp = Some (sp', t') \<and> same_but_rng sp sp'
    \<and> length t' = length t \<and> distinct xs \<and> set xs = {bottom<..<tp} \<and> fl_chain t' bottom xs
    \<and> (\<forall>i \<in> {bottom..<tp}. \<exists>nx. t' ! i = (if i = 0 then (freelist_entry nx)\<lparr>ie_bits := 0\<rparr> else freelist_entry nx))
    \<and> (\<forall>i. i \<notin> {bottom..<tp} \<longrightarrow> t' ! i = t ! i)"
proof -
  have r: "{bottom<..<tp} = {bottom + 1..tp - 1}" "{bottom..<tp} = insert bottom {bottom + 1..tp - 1}"
    using assms(2) by auto
  have pre: "bottom \<notin> {bottom + 1..tp - 1}" "tp - 1 < length t" "bottom < length t" "0 < bottom + 1"
    using assms(2,3) by auto
  obtain sp' t' cur' xs where L: "rand_freelist_loop (bottom = 0) 0 sp t bottom (bottom + 1) (tp - 1) = Some (sp', t', cur')"
      "same_but_rng sp sp'" "length t' = length t" "cur' < length t" "distinct xs" "set xs = {bottom + 1..tp - 1}"
      "fl_chain (t'[cur' := freelist_entry 0]) bottom xs"
      "\<forall>i \<in> insert bottom {bottom + 1..tp - 1}. \<exists>nx. t'[cur' := freelist_entry 0] ! i = freelist_entry nx"
      "\<forall>i. i \<notin> insert bottom {bottom + 1..tp - 1} \<longrightarrow> t'[cur' := freelist_entry 0] ! i = t ! i"
    using rand_freelist_loop_correct [OF assms(1) pre, of "bottom = 0" 0] by (elim exE conjE)
  let ?t = "t'[cur' := freelist_entry 0]"
  define t2 where "t2 = (if bottom = 0 then ?t[0 := (?t ! 0)\<lparr>ie_bits := 0\<rparr>] else ?t)"
  have n: "0 < length t" using assms by linarith
  have "ipc_space_rand_freelist sp t bottom tp = Some (sp', t2)"
    using L(1,3,4) n by (simp add: ipc_space_rand_freelist_def t2_def)
  moreover have "fl_chain t2 bottom xs"
    using L(7) fl_chain_cong [of t2 ?t bottom xs] L(3) n by (auto simp: t2_def nth_list_update)
  moreover have "\<exists>nx. t2 ! i = (if i = 0 then (freelist_entry nx)\<lparr>ie_bits := 0\<rparr> else freelist_entry nx)"
    if "i \<in> {bottom..<tp}" for i
    using L(8) that r(2) L(3) n assms by (auto simp: t2_def nth_list_update split: if_splits)
  moreover have "t2 ! i = t ! i" if "i \<notin> {bottom..<tp}" for i
    using L(9) that r(2) by (auto simp: t2_def)
  moreover have "length t2 = length t" using L(3) by (simp add: t2_def)
  ultimately show ?thesis using L(2,5,6) r(1) by blast
qed

section \<open>The invariant of a space\<close>

text \<open>
  \<open>space_inv sp xs pend H\<close>: \<open>sp\<close> is a well-formed space whose free list is \<open>xs\<close>; the entries of \<open>pend\<close>
  have been claimed and not yet given a type, those of \<open>H\<close> are hashed, and the counters
  \<open>is_table_size\<close>, \<open>is_table_free\<close>, \<open>is_table_hashed\<close> agree with the table. \<open>space_ok\<close> adds that exactly
  the pure send rights are hashed; it holds whenever the lock of the space is free.
\<close>

definition free_entry :: "ipc_entry \<Rightarrow> bool" where
  "free_entry e \<longleftrightarrow> ie_object e = IO_NULL \<and> ie_bits e AND NOT (IE_BITS_GEN_MASK OR IE_BITS_ROLL_MASK) = 0"

definition entry_type :: "ipc_table \<Rightarrow> nat \<Rightarrow> 32 word" where
  "entry_type t i = IE_BITS_TYPE (ie_bits (t ! i))"

definition send_entries :: "ipc_table \<Rightarrow> nat set" where
  "send_entries t = {i. i < length t \<and> entry_type t i = MACH_PORT_TYPE_SEND}"

definition space_inv :: "ipc_space \<Rightarrow> nat list \<Rightarrow> nat set \<Rightarrow> nat set \<Rightarrow> bool" where
  "space_inv sp xs pend H \<longleftrightarrow>
     is_table_size sp = length (is_table sp) \<and> hash_table_ok (is_table sp)
     \<and> fl_chain (is_table sp) 0 xs \<and> distinct xs \<and> is_table_free sp = length xs
     \<and> (\<forall>x \<in> set xs. free_entry (is_table sp ! x))
     \<and> set xs \<inter> pend = {} \<and> pend \<subseteq> {0<..<length (is_table sp)}
     \<and> ie_object (is_table sp ! 0) = IO_NULL \<and> ie_bits (is_table sp ! 0) = 0
     \<and> (\<forall>i \<in> {0<..<length (is_table sp)}. entry_type (is_table sp) i = MACH_PORT_TYPE_NONE \<longleftrightarrow> i \<in> set xs \<union> pend)
     \<and> hashed (is_table sp) = H \<and> is_table_hashed sp = card H
     \<and> is_low_mod sp \<le> length (is_table sp) \<and> is_high_mod sp < length (is_table sp)
     \<and> 0 < length (is_entropy sp)"

definition space_ok :: "ipc_space \<Rightarrow> nat list \<Rightarrow> nat set \<Rightarrow> bool" where
  "space_ok sp xs pend \<longleftrightarrow> space_inv sp xs pend (send_entries (is_table sp))"

lemma ipc_space_create_returns:
  assumes "initial < length its" "0 < its_size (its ! initial)" "its_size (its ! initial) \<le> IPC_ENTRY_DIST_MAX + 1"
  shows "\<exists>sp xs. ipc_space_create its True True sp0 seed initial label = Some (KERN_SUCCESS, Some sp)
    \<and> space_ok sp xs {} \<and> set xs = {0<..<its_size (its ! initial)} \<and> is_active sp \<and> \<not> is_growing sp \<and> is_refs sp = 2
    \<and> is_label sp = label"
proof -
  let ?n = "its_size (its ! initial)"
  let ?sp = "sp0\<lparr>is_entropy := replicate IS_ENTROPY_CNT 0, is_bool_gen := seed\<rparr>"
  obtain sp' t' xs where R: "ipc_space_rand_freelist ?sp (replicate ?n null_entry) 0 ?n = Some (sp', t')"
      "same_but_rng ?sp sp'" "length t' = ?n" "distinct xs" "set xs = {0<..<?n}" "fl_chain t' 0 xs"
      "\<forall>i \<in> {0..<?n}. \<exists>nx. t' ! i = (if i = 0 then (freelist_entry nx)\<lparr>ie_bits := 0\<rparr> else freelist_entry nx)"
    using ipc_space_rand_freelist_returns [of ?sp 0 ?n "replicate ?n null_entry"] assms(2)
    by (auto simp: IS_ENTROPY_CNT_def)
  have ent: "ie_object (t' ! i) = IO_NULL" "ie_index (t' ! i) = 0"
      "ie_bits (t' ! i) = (if i = 0 then 0 else IE_BITS_GEN_MASK)" if i: "i < ?n" for i
  proof -
    obtain nx where "t' ! i = (if i = 0 then (freelist_entry nx)\<lparr>ie_bits := 0\<rparr> else freelist_entry nx)"
      using bspec [OF R(7), of i] i by auto
    then show "ie_object (t' ! i) = IO_NULL" "ie_index (t' ! i) = 0"
      "ie_bits (t' ! i) = (if i = 0 then 0 else IE_BITS_GEN_MASK)" by auto
  qed
  have types: "entry_type t' i = MACH_PORT_TYPE_NONE" if "i < ?n" for i
    using ent(3) [OF that] by (simp add: entry_type_def ie_bits_defs mach_port_type_consts)
  have "hash_table_ok t'"
    using ent(2) R(3) assms by (auto simp: hash_table_ok_def rh_ok_def rh_distinct_def rh_slot_def)
  moreover have "hashed t' = {}" using ent(2) R(3) by (auto simp: hashed_def)
  moreover have "send_entries t' = {}"
    using types R(3) by (auto simp: send_entries_def mach_port_type_consts)
  moreover have "length xs = ?n - 1" using distinct_card [OF R(4)] R(5) by simp
  moreover have "is_entropy sp' \<noteq> []" using R(2) by (auto simp: same_but_rng_def IS_ENTROPY_CNT_def)
  moreover have "\<forall>x \<in> set xs. free_entry (t' ! x)"
    using ent R(5) by (auto simp: free_entry_def ie_bits_defs)
  ultimately have ok: "space_ok (sp'\<lparr>is_bits := 2, is_table_hashed := 0, is_table_size := ?n,
      is_table_free := ?n - 1, is_table := t', is_table_next := initial + 1,
      is_task := 0, is_label := label, is_low_mod := ?n, is_high_mod := 0, is_node_id := -1\<rparr>) xs {}"
    (is "space_ok ?sp' xs {}")
    using R(3-6) ent [of 0] types assms by (simp add: space_ok_def space_inv_def)
  have "ipc_space_create its True True sp0 seed initial label = Some (KERN_SUCCESS, Some ?sp')"
    using R(1) assms(1) by (simp add: ipc_space_create_def Let_def)
  moreover have "is_active ?sp'" "\<not> is_growing ?sp'" "is_refs ?sp' = 2" "is_label ?sp' = label"
    by (simp_all add: is_active_def is_growing_def is_refs_def IS_INACTIVE_def IS_GROWING_def IS_REFS_MAX_def)
  ultimately show ?thesis using ok R(5) by blast
qed

lemma and_or_absorb: "a AND (a OR b) = (a :: 'a :: len word)"
  by (rule bit_word_eqI) (auto simp: bit_simps)

section \<open>Properties\<close>

text \<open>
  C34. The boolean generator returns for every request on a non-empty pool, keeps the size of the
  pool and returns a value of at most \<open>numbits\<close> bits.
\<close>

theorem random_bool_gen_bits_range:
  assumes "0 < length buffer"
  shows "\<exists>r bg' buffer'. random_bool_gen_bits bg buffer numbits = Some (r, bg', buffer')
    \<and> length buffer' = length buffer \<and> unat r < 2 ^ numbits"
proof -
  obtain r bg' buffer' where r: "random_bool_gen_bits bg buffer numbits = Some (r, bg', buffer')"
      "length buffer' = length buffer" "take_bit numbits r = r"
    using random_bool_gen_bits_returns [OF assms] by blast
  from arg_cong [OF r(3), of unat] have "unat r < 2 ^ numbits"
    by (simp add: unsigned_take_bit_eq take_bit_nat_eq_self_iff)
  with r show ?thesis by blast
qed

definition sample_gen :: bool_gen where
  "sample_gen = \<lparr>seed0 = 1, seed1 = 2, seed2 = 3, seed3 = 4, bg_state = 0\<rparr>"

theorem random_bool_gen_bits_range_witness:
  "\<exists>r bg' buffer'. random_bool_gen_bits sample_gen [0] 2 = Some (r, bg', buffer')
    \<and> length buffer' = length [0 :: 32 word] \<and> unat r < 2 ^ 2"
  by (rule random_bool_gen_bits_range) simp

text \<open>
  C29. Whatever the generator returns, \<open>ipc_space_rand_freelist\<close> links the entries of the range into
  one chain that starts at its first entry, visits every other entry of the range exactly once and
  ends, and it touches no entry outside the range.
\<close>

theorem ipc_space_rand_freelist_permutes:
  assumes "0 < length (is_entropy sp)" "bottom < tp" "tp \<le> length t"
  shows "\<exists>sp' t' xs. ipc_space_rand_freelist sp t bottom tp = Some (sp', t') \<and> same_but_rng sp sp'
    \<and> length t' = length t \<and> distinct xs \<and> set xs = {bottom<..<tp} \<and> fl_chain t' bottom xs
    \<and> (\<forall>i. i \<notin> {bottom..<tp} \<longrightarrow> t' ! i = t ! i)"
  using ipc_space_rand_freelist_returns [OF assms] by (elim exE conjE) (intro exI conjI, assumption+)

text \<open>
  C28. A space created with an initial class of between 1 and \<open>IPC_ENTRY_DIST_MAX + 1\<close> entries is
  well formed, holds no right, has every entry but the reserved one on its free list, two references,
  is active and not growing and carries the given label.
\<close>

theorem ipc_space_create_ok:
  assumes "initial < length its" "0 < its_size (its ! initial)"
    "its_size (its ! initial) \<le> IPC_ENTRY_DIST_MAX + 1"
  shows "\<exists>sp xs. ipc_space_create its True True sp0 seed initial label = Some (KERN_SUCCESS, Some sp)
    \<and> space_ok sp xs {} \<and> set xs = {0<..<its_size (its ! initial)} \<and> is_active sp \<and> \<not> is_growing sp
    \<and> is_refs sp = 2 \<and> is_label sp = label"
  using ipc_space_create_returns [OF assms] .

definition sample_space :: ipc_space where
  "sample_space = \<lparr>is_bits = 2, is_table_size = 4, is_table_hashed = 2, is_table_free = 0,
     is_table = sample_table, is_table_next = 1, is_task = 0, is_label = 0, is_low_mod = 4,
     is_high_mod = 0, is_bool_gen = sample_gen, is_entropy = [0], is_node_id = -1\<rparr>"

theorem ipc_space_rand_freelist_permutes_witness:
  "\<exists>sp' t' xs. ipc_space_rand_freelist sample_space sample_table 0 4 = Some (sp', t') \<and> same_but_rng sample_space sp'
    \<and> length t' = length sample_table \<and> distinct xs \<and> set xs = {0<..<4} \<and> fl_chain t' 0 xs
    \<and> (\<forall>i. i \<notin> {0..<4} \<longrightarrow> t' ! i = sample_table ! i)"
  by (rule ipc_space_rand_freelist_permutes) (simp_all add: sample_space_def sample_table_def)

theorem ipc_space_create_ok_witness:
  "\<exists>sp xs. ipc_space_create [\<lparr>its_size = 21\<rparr>, \<lparr>its_size = 42\<rparr>] True True sample_space sample_gen 0 7
      = Some (KERN_SUCCESS, Some sp)
    \<and> space_ok sp xs {} \<and> set xs = {0<..<its_size ([\<lparr>its_size = 21\<rparr>, \<lparr>its_size = 42\<rparr>] ! 0)} \<and> is_active sp \<and> \<not> is_growing sp
    \<and> is_refs sp = 2 \<and> is_label sp = 7"
  by (rule ipc_space_create_ok) (simp_all add: IPC_ENTRY_DIST_MAX_def)

text \<open>
  C37. Labels of an active space only grow: a successful \<open>ipc_space_label\<close> or \<open>ipc_space_add_label\<close>
  keeps every bit of the old label, and a label that would drop one is refused with
  \<open>KERN_INVALID_VALUE\<close> and no change.
\<close>

theorem ipc_space_labels_grow:
  "is_label sp AND is_label (snd (ipc_space_label sp label)) = is_label sp
   \<and> is_label sp AND is_label (snd (ipc_space_add_label sp label)) = is_label sp
   \<and> (is_active sp \<and> is_label sp AND label \<noteq> is_label sp \<longleftrightarrow> ipc_space_label sp label = (KERN_INVALID_VALUE, sp))"
  by (simp add: ipc_space_label_def ipc_space_add_label_def and_or_absorb)

end
