(* ===== verification/Ipc_Entry.thy ===== *)
theory Ipc_Entry
  imports Ipc_Space
begin

text \<open>
  Allocation of entries in a space (\<open>osfmk/ipc/ipc_entry.c\<close>): lookup of a name, the free list
  operations, allocation with and without a chosen name, deallocation and growth of the table. An
  entry pointer is an index into \<open>is_table\<close>. Every routine returns an option whose \<open>None\<close> is a
  failed assertion or an access outside the table.

  \<open>ipc_entry_grow_table\<close> drops the lock of the space while it copies, and other threads run. The argument \<open>env\<close> says what they do.
  In round \<open>k\<close> of the copy, \<open>env (2 * k + 1) sp\<close> has the old table as the unlocked reads of that round see it, each entry at the time it is read
  and possibly in the middle of being changed, and \<open>env (2 * k + 2) sp\<close> is the space when the lock is taken again. \<open>env 0\<close> is what
  happens in the window at the end, and while a thread waits for another one that grows the table. The rescan loop is what
  has to repair the copy. The parameter \<open>mem\<close> says whether the allocation of the new table succeeds and \<open>its\<close> is the array
  \<open>ipc_table_entries\<close>. Statistics counters and wakeups are not modelled.
\<close>

section \<open>Operations\<close>

definition ipc_entry_lookup :: "ipc_space \<Rightarrow> mach_port_name_t \<Rightarrow> mach_port_index_t option option" where
  "ipc_entry_lookup sp name = do {
     kassert (is_active sp);
     let index = MACH_PORT_INDEX name;
     if index < is_table_size sp then do {
       entry \<leftarrow> arr_get (is_table sp) index;
       if IE_BITS_GEN (ie_bits entry) \<noteq> MACH_PORT_GEN name
          \<or> IE_BITS_TYPE (ie_bits entry) = MACH_PORT_TYPE_NONE
       then Some None else Some (Some index)
     } else Some None
   }"

fun entries_hold_loop :: "ipc_table \<Rightarrow> nat \<Rightarrow> nat \<Rightarrow> nat \<Rightarrow> kern_return_t option" where
  "entries_hold_loop table tsize 0 next_free = Some KERN_SUCCESS"
| "entries_hold_loop table tsize (Suc needed) next_free = do {
     e \<leftarrow> arr_get table next_free;
     let next_free = ie_next e;
     if next_free = 0 then Some KERN_NO_SPACE
     else do {
       kassert (next_free < tsize);
       e \<leftarrow> arr_get table next_free;
       kassert (ie_object e = IO_NULL);
       entries_hold_loop table tsize needed next_free
     }
   }"

definition ipc_entries_hold :: "ipc_space \<Rightarrow> nat \<Rightarrow> kern_return_t option" where
  "ipc_entries_hold sp entries_needed =
     (if is_table_size sp * 7 div 8 < is_table_hashed sp + entries_needed then Some KERN_NO_SPACE
      else do {
        kassert (is_active sp);
        entries_hold_loop (is_table sp) (is_table_size sp) entries_needed 0
      })"

definition ipc_entry_modified :: "ipc_space \<Rightarrow> mach_port_name_t \<Rightarrow> mach_port_index_t \<Rightarrow> ipc_space option" where
  "ipc_entry_modified sp name entry = do {
     let index = MACH_PORT_INDEX name;
     kassert (index < is_table_size sp);
     kassert (entry = index);
     kassert (is_low_mod sp \<le> is_table_size sp);
     kassert (is_high_mod sp < is_table_size sp);
     let sp = (if index < is_low_mod sp then sp\<lparr>is_low_mod := index\<rparr> else sp);
     Some (if is_high_mod sp < index then sp\<lparr>is_high_mod := index\<rparr> else sp)
   }"

definition ipc_entry_claim ::
  "ipc_space \<Rightarrow> ((kern_return_t \<times> mach_port_name_t \<times> mach_port_index_t) \<times> ipc_space) option" where
  "ipc_entry_claim sp = do {
     head \<leftarrow> arr_get (is_table sp) 0;
     let first_free = ie_next head;
     kassert (first_free \<noteq> 0);
     entry \<leftarrow> arr_get (is_table sp) first_free;
     table \<leftarrow> arr_set (is_table sp) 0 (head\<lparr>ie_next := ie_next entry\<rparr>);
     let sp = sp\<lparr>is_table := table, is_table_free := is_table_free sp - 1\<rparr>;
     kassert (ie_next entry < is_table_size sp);
     let gen = ipc_entry_new_gen (ie_bits entry);
     (gen, sp) \<leftarrow>
       (if ipc_entry_gen_rolled (ie_bits entry) gen
        then do { (roll, sp) \<leftarrow> ipc_space_get_rollpoint sp; Some (ipc_entry_new_rollpoint roll, sp) }
        else Some (gen, sp));
     table \<leftarrow> arr_set (is_table sp) first_free (entry\<lparr>ie_bits := gen, ie_request := IE_REQ_NONE\<rparr>);
     let sp = sp\<lparr>is_table := table\<rparr>;
     let new_name = MACH_PORT_MAKE first_free gen;
     kassert (MACH_PORT_VALID new_name);
     Some ((KERN_SUCCESS, new_name, first_free), sp)
   }"

definition ipc_entry_dealloc :: "ipc_space \<Rightarrow> mach_port_name_t \<Rightarrow> mach_port_index_t \<Rightarrow> ipc_space option" where
  "ipc_entry_dealloc sp name entry = do {
     kassert (is_active sp);
     e \<leftarrow> arr_get (is_table sp) entry;
     kassert (ie_object e = IO_NULL);
     kassert (ie_request e = IE_REQ_NONE);
     let index = MACH_PORT_INDEX name;
     kassert (index < is_table_size sp);
     kassert (entry = index);
     kassert (IE_BITS_GEN (ie_bits e) = MACH_PORT_GEN name);
     head \<leftarrow> arr_get (is_table sp) 0;
     table \<leftarrow> arr_set (is_table sp) entry
       (e\<lparr>ie_bits := ie_bits e AND (IE_BITS_GEN_MASK OR IE_BITS_ROLL_MASK), ie_next := ie_next head\<rparr>);
     head \<leftarrow> arr_get table 0;
     table \<leftarrow> arr_set table 0 (head\<lparr>ie_next := index\<rparr>);
     ipc_entry_modified (sp\<lparr>is_table := table, is_table_free := is_table_free sp + 1\<rparr>) name entry
   }"

section \<open>Growth\<close>

text \<open>The search for the first class that holds \<open>target\<close> entries.\<close>

partial_function (option) grow_search ::
  "ipc_table_size list \<Rightarrow> nat \<Rightarrow> nat \<Rightarrow> nat \<Rightarrow> nat \<Rightarrow> (nat \<times> nat \<times> nat) option" where
  "grow_search its target psize i tsize =
     (if psize \<noteq> tsize \<and> tsize < target then do {
        n \<leftarrow> arr_get its (i + 1);
        grow_search its target tsize (i + 1) (its_size n)
      } else Some (psize, i, tsize))"

text \<open>One iteration of the scan: entry \<open>i\<close> of the new table is brought in line with the old one.\<close>

definition grow_hashable :: "ipc_entry \<Rightarrow> bool" where
  "grow_hashable entry \<longleftrightarrow>
     ie_object entry \<noteq> IO_NULL \<and> IE_BITS_TYPE (ie_bits entry) = MACH_PORT_TYPE_SEND"

definition grow_copy_entry :: "ipc_table \<Rightarrow> nat \<Rightarrow> ipc_table \<Rightarrow> nat \<Rightarrow> ipc_table option" where
  "grow_copy_entry otable tsize table i = do {
     entry \<leftarrow> arr_get table i;
     osnap \<leftarrow> arr_get otable i;
     if ie_object entry \<noteq> ie_object osnap
        \<or> IE_BITS_TYPE (ie_bits entry) \<noteq> IE_BITS_TYPE (ie_bits osnap)
     then do {
       table \<leftarrow> (if grow_hashable entry then ipc_hash_table_delete table tsize (ie_object entry) i
                else Some table);
       entry \<leftarrow> arr_get table i;
       let entry = entry\<lparr>ie_object := ie_object osnap, ie_bits := ie_bits osnap, ie_request := ie_request osnap\<rparr>;
       table \<leftarrow> arr_set table i entry;
       if grow_hashable entry then ipc_hash_table_insert table tsize (ie_object entry) i
       else Some table
     } else
       arr_set table i (entry\<lparr>ie_bits := ie_bits osnap, ie_request := ie_request osnap\<rparr>)
   }"

fun grow_scan :: "ipc_table \<Rightarrow> nat \<Rightarrow> nat list \<Rightarrow> ipc_table \<Rightarrow> ipc_table option" where
  "grow_scan otable tsize [] table = Some table"
| "grow_scan otable tsize (i # is) table = do {
     table \<leftarrow> grow_copy_entry otable tsize table i;
     grow_scan otable tsize is table
   }"

fun grow_find_end :: "nat \<Rightarrow> nat \<Rightarrow> ipc_table \<Rightarrow> nat \<Rightarrow> nat option" where
  "grow_find_end 0 osize table free_index = Some free_index"
| "grow_find_end (Suc sanity) osize table free_index = do {
     e \<leftarrow> arr_get table free_index;
     if ie_object e \<noteq> IO_NULL then Some free_index
     else let i = ie_next e in
       if i = 0 \<or> osize \<le> i then Some free_index
       else grow_find_end sanity osize table i
   }"


text \<open>The loop at label \<open>rescan\<close>: \<open>Inl\<close> when the space died in the window, \<open>Inr\<close> when the copy is done.\<close>

partial_function (option) grow_rescan ::
  "(nat \<Rightarrow> ipc_space \<Rightarrow> ipc_space) \<Rightarrow> nat \<Rightarrow> nat \<Rightarrow> nat \<Rightarrow> nat \<Rightarrow> nat \<Rightarrow> ipc_table \<Rightarrow> ipc_space
     \<Rightarrow> (ipc_space + ipc_table \<times> nat \<times> ipc_space) option" where
  "grow_rescan env k osize tsize low_mod hi_mod table sp = do {
     let otable = is_table (env (2 * k + 1) sp);
     table \<leftarrow> grow_scan otable tsize [low_mod..<Suc hi_mod] table;
     ohead \<leftarrow> arr_get otable 0;
     head \<leftarrow> arr_get table 0;
     table \<leftarrow> arr_set table 0 (head\<lparr>ie_next := ie_next ohead\<rparr>);
     free_index \<leftarrow> grow_find_end osize osize table 0;
     let sp = env (2 * k + 2) sp;
     if \<not> is_active sp then Some (Inl sp)
     else if is_low_mod sp < osize then do {
       kassert (0 < is_high_mod sp);
       grow_rescan env (k + 1) osize tsize (is_low_mod sp) (is_high_mod sp) table
         (sp\<lparr>is_low_mod := osize, is_high_mod := 0\<rparr>)
     } else Some (Inr (table, free_index, sp))
   }"

text \<open>The part of \<open>ipc_entry_grow_table\<close> from the decision to grow to class \<open>i\<close> on.\<close>

definition grow_to ::
  "ipc_table_size list \<Rightarrow> bool \<Rightarrow> (nat \<Rightarrow> ipc_space \<Rightarrow> ipc_space) \<Rightarrow> bool \<Rightarrow> nat \<Rightarrow> nat \<Rightarrow> ipc_space
     \<Rightarrow> (kern_return_t \<times> ipc_space) option" where
  "grow_to its mem env targeted osize i sp = do {
     n \<leftarrow> arr_get its i;
     nn \<leftarrow> arr_get its (i + 1);
     let tsize = its_size n;
     let nsize = its_size nn;
     kassert (osize < tsize \<and> tsize \<le> nsize);
     sp \<leftarrow> is_start_growing sp;
     let sp = sp\<lparr>is_low_mod := osize, is_high_mod := 0\<rparr>;
     if \<not> mem then do {
       sp \<leftarrow> is_done_growing (env 0 sp);
       Some (KERN_RESOURCE_SHORTAGE, sp)
     } else do {
       (sp, table) \<leftarrow> ipc_space_rand_freelist sp (replicate tsize null_entry) osize tsize;
       let table = replicate osize null_entry @ drop osize table;
       r \<leftarrow> grow_rescan env 0 osize tsize 0 (osize - 1) table sp;
       case r of
         Inl sp \<Rightarrow> do { sp \<leftarrow> is_done_growing sp; Some (KERN_SUCCESS, env 0 sp) }
       | Inr (table, free_index, sp) \<Rightarrow> do {
           e \<leftarrow> arr_get table free_index;
           kassert (ie_next e = 0 \<and> ie_object e = IO_NULL);
           table \<leftarrow> arr_set table free_index (e\<lparr>ie_next := osize\<rparr>);
           kassert (is_table_next sp = i \<or> targeted);
           kassert (is_table_size sp = osize);
           sp \<leftarrow> is_done_growing (sp\<lparr>is_table := table, is_table_size := tsize, is_table_next := i + 1,
             is_table_free := is_table_free sp + (tsize - osize)\<rparr>);
           Some (KERN_SUCCESS, env 0 sp)
         }
     }
   }"

definition ipc_entry_grow_table ::
  "ipc_table_size list \<Rightarrow> bool \<Rightarrow> (nat \<Rightarrow> ipc_space \<Rightarrow> ipc_space) \<Rightarrow> nat option \<Rightarrow> ipc_space
     \<Rightarrow> (kern_return_t \<times> ipc_space) option" where
  "ipc_entry_grow_table its mem env tgt sp = do {
     kassert (is_active sp);
     if is_growing sp then Some (KERN_SUCCESS, env 0 sp)
     else do {
       let i = is_table_next sp;
       n \<leftarrow> arr_get its i;
       oits \<leftarrow> arr_get its (i - 1);
       let osize = its_size oits;
       case tgt of
         None \<Rightarrow>
           if osize = its_size n then Some (KERN_NO_SPACE, sp)
           else grow_to its mem env False osize i sp
       | Some target \<Rightarrow>
           if target \<le> osize then Some (KERN_SUCCESS, sp)
           else do {
             (psize, i, tsize) \<leftarrow> grow_search its target osize i (its_size n);
             if psize = tsize then Some (KERN_NO_SPACE, sp)
             else if osize = tsize then Some (KERN_NO_SPACE, sp)
             else grow_to its mem env True osize i sp
           }
     }
   }"

section \<open>Allocation\<close>

partial_function (option) ipc_entry_alloc ::
  "ipc_table_size list \<Rightarrow> bool \<Rightarrow> (nat \<Rightarrow> ipc_space \<Rightarrow> ipc_space) \<Rightarrow> ipc_space
     \<Rightarrow> ((kern_return_t \<times> mach_port_name_t \<times> mach_port_index_t) \<times> ipc_space) option" where
  "ipc_entry_alloc its mem env sp =
     (if \<not> is_active sp then Some ((KERN_INVALID_TASK, 0, 0), sp)
      else do {
        kr \<leftarrow> ipc_entries_hold sp 1;
        if kr = KERN_SUCCESS then ipc_entry_claim sp
        else do {
          (kr, sp) \<leftarrow> ipc_entry_grow_table its mem env None sp;
          if kr \<noteq> KERN_SUCCESS then Some ((kr, 0, 0), sp)
          else ipc_entry_alloc its mem env sp
        }
      })"

text \<open>The predecessor of \<open>index\<close> on the free list.\<close>

partial_function (option) alloc_name_find :: "ipc_table \<Rightarrow> nat \<Rightarrow> nat \<Rightarrow> nat option" where
  "alloc_name_find table index free_index = do {
     e \<leftarrow> arr_get table free_index;
     if ie_next e \<noteq> index then alloc_name_find table index (ie_next e) else Some free_index
   }"

definition alloc_name_in_table ::
  "ipc_space \<Rightarrow> mach_port_index_t \<Rightarrow> mach_port_gen_t \<Rightarrow> ((kern_return_t \<times> mach_port_index_t) \<times> ipc_space) option" where
  "alloc_name_in_table sp index gen = do {
     entry \<leftarrow> arr_get (is_table sp) index;
     if index = 0 then do {
       kassert (IE_BITS_TYPE (ie_bits entry) = 0);
       kassert (IE_BITS_GEN (ie_bits entry) = 0);
       Some ((KERN_FAILURE, 0), sp)
     } else if IE_BITS_TYPE (ie_bits entry) \<noteq> 0 then
       if IE_BITS_GEN (ie_bits entry) = gen then Some ((KERN_SUCCESS, index), sp)
       else Some ((KERN_FAILURE, 0), sp)
     else do {
       free_index \<leftarrow> alloc_name_find (is_table sp) index 0;
       p \<leftarrow> arr_get (is_table sp) free_index;
       table \<leftarrow> arr_set (is_table sp) free_index (p\<lparr>ie_next := ie_next entry\<rparr>);
       sp \<leftarrow> ipc_entry_modified (sp\<lparr>is_table := table, is_table_free := is_table_free sp - 1\<rparr>)
              (MACH_PORT_MAKE free_index (IE_BITS_GEN (ie_bits p))) free_index;
       entry \<leftarrow> arr_get (is_table sp) index;
       table \<leftarrow> arr_set (is_table sp) index (entry\<lparr>ie_bits := gen, ie_request := IE_REQ_NONE\<rparr>);
       kassert (ie_object entry = IO_NULL);
       Some ((KERN_SUCCESS, index), sp\<lparr>is_table := table\<rparr>)
     }
   }"

partial_function (option) alloc_name_loop ::
  "ipc_table_size list \<Rightarrow> bool \<Rightarrow> (nat \<Rightarrow> ipc_space \<Rightarrow> ipc_space) \<Rightarrow> mach_port_index_t \<Rightarrow> mach_port_gen_t
     \<Rightarrow> ipc_space \<Rightarrow> ((kern_return_t \<times> mach_port_index_t) \<times> ipc_space) option" where
  "alloc_name_loop its mem env index gen sp =
     (if \<not> is_active sp then Some ((KERN_INVALID_TASK, 0), sp)
      else if index < is_table_size sp then alloc_name_in_table sp index gen
      else do {
        (kr, sp) \<leftarrow> ipc_entry_grow_table its mem env (Some (index + 1)) sp;
        if kr \<noteq> KERN_SUCCESS then Some ((kr, 0), sp)
        else alloc_name_loop its mem env index gen sp
      })"

definition ipc_entry_alloc_name ::
  "ipc_table_size list \<Rightarrow> bool \<Rightarrow> (nat \<Rightarrow> ipc_space \<Rightarrow> ipc_space) \<Rightarrow> mach_port_name_t \<Rightarrow> ipc_space
     \<Rightarrow> ((kern_return_t \<times> mach_port_index_t) \<times> ipc_space) option" where
  "ipc_entry_alloc_name its mem env name sp = do {
     mx \<leftarrow> ipc_table_max_entries its;
     if mx < MACH_PORT_INDEX name then Some ((KERN_NO_SPACE, 0), sp)
     else do {
       kassert (MACH_PORT_VALID name);
       alloc_name_loop its mem env (MACH_PORT_INDEX name) (MACH_PORT_GEN name) sp
     }
   }"


section \<open>Lemmas on generation bits\<close>

text \<open>\<open>gen_only b\<close>: a word without type, user references or extension bit, as free entries hold it.\<close>

definition gen_only :: "32 word \<Rightarrow> bool" where
  "gen_only b \<longleftrightarrow> b AND NOT (IE_BITS_GEN_MASK OR IE_BITS_ROLL_MASK) = 0"

lemma gen_only_fields:
  assumes "gen_only b"
  shows "IE_BITS_TYPE b = MACH_PORT_TYPE_NONE" "IE_BITS_UREFS b = 0"
proof -
  have "b AND m = 0" if "m AND NOT (IE_BITS_GEN_MASK OR IE_BITS_ROLL_MASK) = m" for m
    using assms and_submask [OF that, of b] by (simp add: gen_only_def)
  then show "IE_BITS_TYPE b = MACH_PORT_TYPE_NONE" "IE_BITS_UREFS b = 0"
    by (simp_all add: IE_BITS_TYPE_def IE_BITS_UREFS_def ie_bits_masks MACH_PORT_TYPE_NONE_def)
qed

lemma take_bit_24_iff: "take_bit 24 w = 0 \<longleftrightarrow> 2 ^ 24 dvd unat (w :: 32 word)"
proof -
  have "unat (take_bit 24 w) = unat w mod 2 ^ 24"
    unfolding unsigned_take_bit_eq by (rule take_bit_eq_mod)
  then show ?thesis by (metis dvd_eq_mod_eq_0 unat_0 unsigned_word_eqI)
qed

lemma take_bit_24_mod:
  assumes "take_bit 24 a = 0" "take_bit 24 d = 0"
  shows "take_bit 24 (a mod d :: 32 word) = 0"
  using assms unfolding take_bit_24_iff unat_mod by (simp add: dvd_mod)

lemma take_bit_24_masks:
  "take_bit 24 (b AND IE_BITS_GEN_MASK) = 0" "take_bit 24 (IE_BITS_ROLL b) = 0"
proof -
  have "take_bit 24 (b AND push_bit 24 (mask 8)) = 0"
    by (rule bit_word_eqI) (auto simp: bit_simps)
  then show "take_bit 24 (b AND IE_BITS_GEN_MASK) = 0" by (simp add: IE_BITS_GEN_MASK_def mask_consts)
  have "take_bit 24 (push_bit 8 (b AND push_bit 22 (mask 2)) XOR push_bit 24 (mask 8)) = 0"
    by (rule bit_word_eqI) (auto simp: bit_simps)
  moreover have "(0xc00000 :: 32 word) = push_bit 22 (mask 2)" by (simp add: mask_eq_exp_minus_1)
  ultimately show "take_bit 24 (IE_BITS_ROLL b) = 0"
    by (simp add: IE_BITS_ROLL_def ie_bits_masks mask_consts)
qed

lemma gen_only_iff: "gen_only b \<longleftrightarrow> take_bit 22 b = 0"
proof -
  have "NOT (IE_BITS_GEN_MASK OR IE_BITS_ROLL_MASK) = mask 22"
    by (simp add: ie_bits_masks mask_eq_exp_minus_1)
  then show ?thesis by (simp add: gen_only_def take_bit_eq_mask)
qed

lemma gen_only_new_gen: "gen_only (ipc_entry_new_gen b)"
proof -
  have "take_bit 24 (((b + IE_BITS_GEN_ONE) AND IE_BITS_GEN_MASK) mod IE_BITS_ROLL b) = 0"
    by (intro take_bit_24_mod take_bit_24_masks)
  from arg_cong [OF this, of "take_bit 22"]
  have "take_bit 22 (((b + IE_BITS_GEN_ONE) AND IE_BITS_GEN_MASK) mod IE_BITS_ROLL b) = 0"
    by (simp only: take_bit_take_bit take_bit_of_0) simp
  moreover have "take_bit 22 (b AND IE_BITS_ROLL_MASK) = 0"
  proof -
    have "take_bit 22 (b AND push_bit 22 (mask 2)) = 0" by (rule bit_word_eqI) (auto simp: bit_simps)
    then show ?thesis by (simp add: ie_bits_masks mask_eq_exp_minus_1)
  qed
  ultimately show ?thesis by (simp add: gen_only_iff ipc_entry_new_gen_def Let_def)
qed

lemma gen_only_rollpoint: "gen_only (ipc_entry_new_rollpoint r)"
proof -
  have "take_bit 22 (push_bit 22 r) = (0 :: 32 word)" by (rule bit_word_eqI) (auto simp: bit_simps)
  then show ?thesis by (simp add: gen_only_iff ipc_entry_new_rollpoint_def Let_def ie_bits_masks)
qed

lemma gen_only_masked [simp]: "gen_only (b AND (IE_BITS_GEN_MASK OR IE_BITS_ROLL_MASK))"
  by (simp add: gen_only_def ie_bits_masks and.assoc)

lemma gen_only_MACH_PORT_GEN [simp]: "gen_only (MACH_PORT_GEN name)"
proof -
  have "take_bit 22 (push_bit 24 w) = (0 :: 32 word)" for w by (rule bit_word_eqI) (auto simp: bit_simps)
  then show ?thesis by (simp add: gen_only_iff MACH_PORT_GEN_def)
qed

lemma MACH_PORT_MAKE_VALID:
  assumes "0 < i" "i < 2 ^ 24 - 1"
  shows "MACH_PORT_VALID (MACH_PORT_MAKE i g)"
proof -
  have "MACH_PORT_INDEX (MACH_PORT_MAKE i g) = i" using assms by simp
  moreover have "MACH_PORT_INDEX MACH_PORT_NULL = 0" "MACH_PORT_INDEX MACH_PORT_DEAD = 2 ^ 24 - 1"
    by (simp_all add: MACH_PORT_INDEX_def MACH_PORT_NULL_def MACH_PORT_DEAD_def mask_eq_exp_minus_1)
  ultimately show ?thesis using assms by (metis MACH_PORT_VALID_def less_irrefl)
qed

section \<open>Updates of single entries\<close>

text \<open>A table may change outside the hash fields as long as hashed entries keep their objects.\<close>

lemma rh_ok_cong:
  assumes len: "length t' = length t"
    and hash: "\<And>i. i < length t \<Longrightarrow> ie_index (t' ! i) = ie_index (t ! i) \<and> ie_dist (t' ! i) = ie_dist (t ! i)"
    and obj: "\<And>j. j \<in> hashed t \<Longrightarrow> ie_object (t' ! j) = ie_object (t ! j)"
    and ok: "rh_ok t"
  shows "rh_ok t'" "hashed t' = hashed t"
proof -
  have obj': "ie_object (t' ! ie_index (t ! i)) = ie_object (t ! ie_index (t ! i))"
    if "i < length t" "0 < ie_index (t ! i)" for i
    by (rule obj) (use that in \<open>auto simp: hashed_def\<close>)
  have path: "probe_path t' h k = probe_path t h k" for h k
    using hash len by (cases "length t = 0") (auto simp: probe_path_def)
  have "rh_slot t' i" if "i < length t" for i
    using rh_okD [OF ok that refl] hash [OF that] obj' [OF that] len
    by (simp add: rh_slot_def Let_def path slot_home_def)
  moreover have "rh_distinct t'"
    unfolding rh_distinct_def len using hash obj'
    by (intro allI impI) (rule rh_ok_inj [OF ok], simp_all)
  ultimately show "rh_ok t'" using len by (simp add: rh_ok_def)
  show "hashed t' = hashed t"
    unfolding hashed_def len set_eq_iff mem_Collect_eq using hash by metis
qed

lemma hash_ok_entry_update:
  assumes "hash_table_ok t" "i < length t" "ie_index e = ie_index (t ! i)" "ie_dist e = ie_dist (t ! i)"
    and "i \<in> hashed t \<Longrightarrow> ie_object e = ie_object (t ! i)"
  shows "hash_table_ok (t[i := e])" "hashed (t[i := e]) = hashed t"
proof -
  have ok: "rh_ok t" using assms(1) by (simp add: hash_table_ok_def)
  have "rh_ok (t[i := e])" "hashed (t[i := e]) = hashed t"
    by (rule rh_ok_cong [OF _ _ _ ok]; use assms(2-5) in \<open>auto simp: nth_list_update_if\<close>)+
  then show "hash_table_ok (t[i := e])" "hashed (t[i := e]) = hashed t"
    using assms(1) by (auto simp: hash_table_ok_def)
qed

lemma space_invD:
  assumes "space_inv sp xs pend H"
  shows "is_table_size sp = length (is_table sp)" "hash_table_ok (is_table sp)" "fl_chain (is_table sp) 0 xs"
    "distinct xs" "is_table_free sp = length xs" "\<And>x. x \<in> set xs \<Longrightarrow> free_entry (is_table sp ! x)"
    "set xs \<inter> pend = {}" "pend \<subseteq> {0<..<length (is_table sp)}"
    "ie_object (is_table sp ! 0) = IO_NULL" "ie_bits (is_table sp ! 0) = 0"
    "\<And>i. 0 < i \<Longrightarrow> i < length (is_table sp) \<Longrightarrow>
       entry_type (is_table sp) i = MACH_PORT_TYPE_NONE \<longleftrightarrow> i \<in> set xs \<union> pend"
    "hashed (is_table sp) = H" "is_table_hashed sp = card H"
    "is_low_mod sp \<le> length (is_table sp)" "is_high_mod sp < length (is_table sp)" "is_entropy sp \<noteq> []"
  using assms by (auto simp: space_inv_def)

lemma space_inv_length:
  assumes "space_inv sp xs pend H"
  shows "0 < length (is_table sp)" "length (is_table sp) \<le> IPC_ENTRY_DIST_MAX + 1"
  using space_invD(2) [OF assms] by (auto simp: hash_table_ok_def)

lemma space_inv_index:
  assumes "space_inv sp xs pend H" "i < length (is_table sp)"
  shows "i < 2 ^ 24 - 1" "MACH_PORT_INDEX (MACH_PORT_MAKE i g) = i"
proof -
  show i: "i < 2 ^ 24 - 1"
    using space_inv_length(2) [OF assms(1)] assms(2) by (simp add: IPC_ENTRY_DIST_MAX_def)
  show "MACH_PORT_INDEX (MACH_PORT_MAKE i g) = i" by (rule MACH_PORT_INDEX_MAKE) (use i in simp)
qed

lemma free_entry_iff: "free_entry e \<longleftrightarrow> ie_object e = IO_NULL \<and> gen_only (ie_bits e)"
  by (simp add: free_entry_def gen_only_def)

lemma space_inv_free:
  assumes "space_inv sp xs pend H" "x \<in> set xs"
  shows "0 < x" "x < length (is_table sp)" "x \<notin> pend"
    "ie_object (is_table sp ! x) = IO_NULL" "gen_only (ie_bits (is_table sp ! x))"
proof -
  show x: "0 < x" "x < length (is_table sp)"
    using fl_chain_bounds [OF space_invD(3) [OF assms(1)] assms(2)] by auto
  show "x \<notin> pend" using space_invD(7) [OF assms(1)] assms(2) by auto
  show "ie_object (is_table sp ! x) = IO_NULL" "gen_only (ie_bits (is_table sp ! x))"
    using space_invD(6) [OF assms] by (auto simp: free_entry_iff)
qed

lemma space_inv_hashed_less: "space_inv sp xs pend H \<Longrightarrow> i \<in> H \<Longrightarrow> 0 < i \<and> i < length (is_table sp)"
  using hashed_less [of "is_table sp" i] space_invD(2,12) [of sp xs pend H]
  by (auto simp: hash_table_ok_def hashed_def)

lemma space_inv_finite: "space_inv sp xs pend H \<Longrightarrow> finite H"
  by (rule finite_subset [of _ "{..<length (is_table sp)}"]) (use space_inv_hashed_less in auto)

text \<open>
  What an operation leaves alone: the visible part of the entries outside \<open>S\<close> (all but the hash
  fields, and the link of the reserved entry) and the fields that are not counters of the table.
\<close>

definition vis :: "ipc_entry \<Rightarrow> ptr \<times> 32 word \<times> nat" where
  "vis e = (ie_object e, ie_bits e, ie_request e)"

definition space_frame :: "nat set \<Rightarrow> ipc_space \<Rightarrow> ipc_space \<Rightarrow> bool" where
  "space_frame S sp sp' \<longleftrightarrow> length (is_table sp') = length (is_table sp)
     \<and> (\<forall>i. 0 < i \<longrightarrow> i < length (is_table sp) \<longrightarrow> i \<notin> S \<longrightarrow> vis (is_table sp' ! i) = vis (is_table sp ! i))
     \<and> is_bits sp' = is_bits sp \<and> is_table_next sp' = is_table_next sp \<and> is_task sp' = is_task sp
     \<and> is_label sp' = is_label sp"

lemma space_frame_refl [simp]: "space_frame S sp sp"
  by (simp add: space_frame_def)

lemma space_frame_trans:
  "space_frame S a b \<Longrightarrow> space_frame S' b c \<Longrightarrow> S \<subseteq> T \<Longrightarrow> S' \<subseteq> T \<Longrightarrow> space_frame T a c"
  unfolding space_frame_def by (metis subsetD)

lemma space_frameD:
  "space_frame S sp sp' \<Longrightarrow> 0 < i \<Longrightarrow> i < length (is_table sp) \<Longrightarrow> i \<notin> S \<Longrightarrow>
     ie_object (is_table sp' ! i) = ie_object (is_table sp ! i) \<and> ie_bits (is_table sp' ! i) = ie_bits (is_table sp ! i)
     \<and> ie_request (is_table sp' ! i) = ie_request (is_table sp ! i)"
  by (auto simp: space_frame_def vis_def)

lemma space_inv_types:
  assumes inv: "space_inv sp xs pend H" and i: "i \<in> set xs \<union> pend"
  shows "entry_type (is_table sp) i = MACH_PORT_TYPE_NONE"
proof -
  have "0 < i \<and> i < length (is_table sp)"
  proof (cases "i \<in> set xs")
    case True
    then show ?thesis using space_inv_free(1,2) [OF inv] by simp
  next
    case False
    then show ?thesis using i space_invD(8) [OF inv] by auto
  qed
  then show ?thesis using space_invD(11) [OF inv] i by simp
qed

lemma send_entries_frame:
  assumes inv: "space_inv sp xs pend H" "space_inv sp' xs' pend' H'" and frame: "space_frame S sp sp'"
    and S: "\<And>i. i \<in> S \<Longrightarrow> 0 < i \<Longrightarrow> i < length (is_table sp) \<Longrightarrow>
      entry_type (is_table sp') i = MACH_PORT_TYPE_SEND \<longleftrightarrow> entry_type (is_table sp) i = MACH_PORT_TYPE_SEND"
  shows "send_entries (is_table sp') = send_entries (is_table sp)"
proof -
  have len: "length (is_table sp') = length (is_table sp)" using frame by (simp add: space_frame_def)
  have "entry_type (is_table sp') i = MACH_PORT_TYPE_SEND \<longleftrightarrow> entry_type (is_table sp) i = MACH_PORT_TYPE_SEND"
    if "i < length (is_table sp)" for i
    using S [of i] space_frameD [OF frame, of i] that space_invD(10) [OF inv(1)] space_invD(10) [OF inv(2)]
    by (cases "i = 0"; cases "i \<in> S") (auto simp: entry_type_def)
  then show ?thesis using len by (auto simp: send_entries_def)
qed

section \<open>Lookup and hold\<close>

lemma ipc_entry_lookup_eq:
  assumes "space_inv sp xs pend H" "is_active sp"
  shows "ipc_entry_lookup sp name = Some (if MACH_PORT_INDEX name < length (is_table sp)
      \<and> IE_BITS_GEN (ie_bits (is_table sp ! MACH_PORT_INDEX name)) = MACH_PORT_GEN name
      \<and> entry_type (is_table sp) (MACH_PORT_INDEX name) \<noteq> MACH_PORT_TYPE_NONE
    then Some (MACH_PORT_INDEX name) else None)"
  using space_invD(1) [OF assms(1)] assms(2) by (auto simp: ipc_entry_lookup_def entry_type_def Let_def)

lemma entries_hold_loop_eq:
  assumes "fl_chain t a xs" "a < length t" "\<forall>x \<in> set xs. ie_object (t ! x) = IO_NULL"
  shows "entries_hold_loop t (length t) n a = Some (if n \<le> length xs then KERN_SUCCESS else KERN_NO_SPACE)"
  using assms
proof (induction n arbitrary: a xs)
  case 0 then show ?case by simp
next
  case (Suc n)
  then show ?case by (cases xs) auto
qed

lemma ipc_entries_hold_eq:
  assumes ok: "space_inv sp xs pend H" and "is_active sp"
  shows "ipc_entries_hold sp n = Some (if is_table_hashed sp + n \<le> is_table_size sp * 7 div 8 \<and> n \<le> length xs
    then KERN_SUCCESS else KERN_NO_SPACE)"
  using entries_hold_loop_eq [OF space_invD(3) [OF ok] space_inv_length(1) [OF ok], of n] space_inv_free(4) [OF ok]
    space_invD(1) [OF ok] assms(2)
  by (auto simp: ipc_entries_hold_def)

section \<open>Names are not reused at once\<close>

lemma GEN_MASK_not: "IE_BITS_GEN_MASK = NOT (mask 24)"
  by (simp add: ie_bits_masks mask_eq_exp_minus_1)

lemma unat_gen_mask: "unat (x AND IE_BITS_GEN_MASK) = 2 ^ 24 * (unat x div 2 ^ 24)"
proof -
  have "x AND NOT (mask 24) = push_bit 24 (drop_bit 24 x)"
    by (rule bit_word_eqI) (auto simp: bit_simps)
  moreover have "unat (push_bit 24 (drop_bit 24 x)) = take_bit 32 (push_bit 24 (drop_bit 24 (take_bit 32 (unat x))))"
    by (simp only: unsigned_push_bit_eq unsigned_drop_bit_eq) simp
  moreover have "unat x < 2 ^ 32" using unsigned_less [of x] by simp
  then have "2 ^ 24 * (unat x div 2 ^ 24) < 2 ^ 32" using times_div_less_eq_dividend [of "2 ^ 24" "unat x"] by linarith
  ultimately show ?thesis
    using \<open>unat x < 2 ^ 32\<close> unfolding GEN_MASK_not
    by (simp only: take_bit_eq_mod push_bit_eq_mult drop_bit_eq_div mod_less mult.commute)
qed

lemma high_part_add:
  fixes K :: nat
  assumes "0 < K"
  shows "K * ((u + 4 * K) mod (K * 256) div K) = (K * (u div K) + 4 * K) mod (K * 256)"
proof -
  have "(u + 4 * K) mod (K * 256) div K = (u div K + 4) mod 256"
    using assms by (simp add: mod_mult2_eq add.commute)
  moreover have "(K * (u div K) + 4 * K) mod (K * 256) = K * ((u div K + 4) mod 256)"
    using mult_mod_right [of K "u div K + 4" 256] by (simp add: algebra_simps)
  ultimately show ?thesis by simp
qed

lemma gen_field_add:
  "unat ((b + IE_BITS_GEN_ONE) AND IE_BITS_GEN_MASK) = (unat (IE_BITS_GEN b) + 2 ^ 26) mod 2 ^ 32"
proof -
  have "unat (b + IE_BITS_GEN_ONE) = (unat b + 2 ^ 26) mod 2 ^ 32"
    by (simp add: unat_word_ariths IE_BITS_GEN_ONE_def)
  moreover have "2 ^ 24 * ((u + 2 ^ 26) mod 2 ^ 32 div 2 ^ 24) = (2 ^ 24 * (u div 2 ^ 24) + 2 ^ 26) mod (2 ^ 32 :: nat)" for u
    using high_part_add [of "2 ^ 24" u] by simp
  ultimately show ?thesis by (simp add: unat_gen_mask IE_BITS_GEN_def)
qed

lemma IE_BITS_ROLL_bounds: "0x3f000000 \<le> unat (IE_BITS_ROLL b)"
proof -
  have "IE_BITS_ROLL b AND push_bit 24 (mask 6) = push_bit 24 (mask 6)"
  proof -
    have "(push_bit 8 (b AND push_bit 22 (mask 2)) XOR push_bit 24 (mask 8)) AND push_bit 24 (mask 6) = push_bit 24 (mask 6)"
      by (rule bit_word_eqI) (auto simp: bit_simps)
    moreover have "(0xc00000 :: 32 word) = push_bit 22 (mask 2)" by (simp add: mask_eq_exp_minus_1)
    ultimately show ?thesis by (simp only: IE_BITS_ROLL_def) (simp add: ie_bits_masks mask_consts)
  qed
  then have "push_bit 24 (mask 6) \<le> IE_BITS_ROLL b" by (metis word_and_le2)
  then show ?thesis by (simp add: word_le_nat_alt mask_eq_exp_minus_1)
qed

lemma gen_mask_id: "take_bit 24 x = 0 \<Longrightarrow> x AND IE_BITS_GEN_MASK = x"
proof -
  assume a: "take_bit 24 x = 0"
  have "\<not> bit x k" if "k < 24" for k using arg_cong [OF a, of "\<lambda>w. bit w k"] that by (simp add: bit_take_bit_iff)
  then have "bit (x AND NOT (mask 24)) k = bit x k" if "k < LENGTH(32)" for k
    using that by (cases "k < 24") (auto simp: bit_simps)
  then show ?thesis unfolding GEN_MASK_not by (rule bit_word_eqI)
qed

lemma IE_BITS_GEN_new_gen: "IE_BITS_GEN (ipc_entry_new_gen b) =
    ((b + IE_BITS_GEN_ONE) AND IE_BITS_GEN_MASK) mod IE_BITS_ROLL b"
proof -
  have "(b AND IE_BITS_ROLL_MASK) AND IE_BITS_GEN_MASK = 0" by (simp add: ie_bits_masks and.assoc)
  moreover have "(((b + IE_BITS_GEN_ONE) AND IE_BITS_GEN_MASK) mod IE_BITS_ROLL b) AND IE_BITS_GEN_MASK
      = ((b + IE_BITS_GEN_ONE) AND IE_BITS_GEN_MASK) mod IE_BITS_ROLL b"
    by (intro gen_mask_id take_bit_24_mod take_bit_24_masks)
  ultimately show ?thesis
    by (simp add: IE_BITS_GEN_def ipc_entry_new_gen_def Let_def bit.conj_disj_distrib2)
qed

lemma shift_mod_neq:
  fixes g :: nat
  assumes "g < 2 ^ 32" "2 ^ 26 < R"
  shows "(g + 2 ^ 26) mod 2 ^ 32 mod R \<noteq> g"
proof (cases "g + 2 ^ 26 < 2 ^ 32")
  case True
  show ?thesis
  proof
    assume "(g + 2 ^ 26) mod 2 ^ 32 mod R = g"
    then have g: "(g + 2 ^ 26) mod R = g" using True by simp
    then have "R * ((g + 2 ^ 26) div R) = 2 ^ 26"
      by (metis add_diff_cancel_left' minus_mod_eq_mult_div)
    then show False using assms(2) by (cases "(g + 2 ^ 26) div R") auto
  qed
next
  case False
  then have "(g + 2 ^ 26) mod 2 ^ 32 = g + 2 ^ 26 - 2 ^ 32" using assms(1) by (simp add: mod_if)
  then have "(g + 2 ^ 26) mod 2 ^ 32 < g" using assms(1) False by simp
  then show ?thesis using mod_less_eq_dividend [of "(g + 2 ^ 26) mod 2 ^ 32" R] by linarith
qed

lemma new_gen_differs: "IE_BITS_GEN (ipc_entry_new_gen b) \<noteq> IE_BITS_GEN b"
proof
  assume "IE_BITS_GEN (ipc_entry_new_gen b) = IE_BITS_GEN b"
  then have "unat (((b + IE_BITS_GEN_ONE) AND IE_BITS_GEN_MASK) mod IE_BITS_ROLL b) = unat (IE_BITS_GEN b)"
    by (simp add: IE_BITS_GEN_new_gen)
  then have "(unat (IE_BITS_GEN b) + 2 ^ 26) mod 2 ^ 32 mod unat (IE_BITS_ROLL b) = unat (IE_BITS_GEN b)"
    by (simp only: unat_mod gen_field_add)
  moreover have "unat (IE_BITS_GEN b) < 2 ^ 32" using unsigned_less [of "IE_BITS_GEN b"] by simp
  ultimately show False using shift_mod_neq IE_BITS_ROLL_bounds [of b] by fastforce
qed

lemma rollpoint_gen: "IE_BITS_GEN (ipc_entry_new_rollpoint r) = 0x03000000"
  by (simp add: IE_BITS_GEN_def ipc_entry_new_rollpoint_def Let_def ie_bits_masks bit.conj_disj_distrib2 and.assoc)

lemma rolled_differs:
  assumes "ipc_entry_gen_rolled b (ipc_entry_new_gen b)"
  shows "IE_BITS_GEN b \<noteq> 0x03000000"
proof
  assume g: "IE_BITS_GEN b = 0x03000000"
  have "unat (IE_BITS_GEN (ipc_entry_new_gen b)) = 0x07000000 mod unat (IE_BITS_ROLL b)"
    unfolding IE_BITS_GEN_new_gen unat_mod gen_field_add g by simp
  then have "unat (IE_BITS_GEN (ipc_entry_new_gen b)) = 0x07000000"
    using IE_BITS_ROLL_bounds [of b] by simp
  then show False
    using assms g by (simp add: ipc_entry_gen_rolled_def IE_BITS_GEN_def word_less_nat_alt)
qed

section \<open>Claim\<close>

lemma ipc_space_get_rollpoint_returns:
  assumes "is_entropy sp \<noteq> []"
  shows "\<exists>r bg e. ipc_space_get_rollpoint sp = Some (r, sp\<lparr>is_bool_gen := bg, is_entropy := e\<rparr>)
    \<and> length e = length (is_entropy sp)"
proof -
  obtain r bg e where "random_bool_gen_bits (is_bool_gen sp) (is_entropy sp) 2 = Some (r, bg, e)"
      "length e = length (is_entropy sp)"
    using random_bool_gen_bits_returns [of "is_entropy sp" "is_bool_gen sp" 2] assms by auto
  then show ?thesis
    by (intro exI [of _ r] exI [of _ bg] exI [of _ e]) (simp add: ipc_space_get_rollpoint_def)
qed

text \<open>Taking \<open>x\<close> off the head of the free list.\<close>

definition claim_table :: "ipc_table \<Rightarrow> nat \<Rightarrow> 32 word \<Rightarrow> ipc_table" where
  "claim_table t x gen = t[0 := (t ! 0)\<lparr>ie_next := ie_next (t ! x)\<rparr>,
     x := (t ! x)\<lparr>ie_bits := gen, ie_request := IE_REQ_NONE\<rparr>]"

definition claim_space :: "ipc_space \<Rightarrow> nat \<Rightarrow> 32 word \<Rightarrow> bool_gen \<Rightarrow> 32 word list \<Rightarrow> ipc_space" where
  "claim_space sp x gen bg e = sp\<lparr>is_table := claim_table (is_table sp) x gen,
     is_table_free := is_table_free sp - 1, is_bool_gen := bg, is_entropy := e\<rparr>"

lemma ipc_entry_claim_eq:
  assumes ok: "space_inv sp (x # xs) pend H"
  shows "\<exists>gen bg e. ipc_entry_claim sp = Some ((KERN_SUCCESS, MACH_PORT_MAKE x gen, x), claim_space sp x gen bg e)
    \<and> gen_only gen \<and> length e = length (is_entropy sp) \<and> IE_BITS_GEN gen \<noteq> IE_BITS_GEN (ie_bits (is_table sp ! x))"
proof -
  let ?t = "is_table sp"
  have n: "0 < length ?t" and size: "is_table_size sp = length ?t"
    using space_inv_length [OF ok] space_invD(1) [OF ok] by auto
  have ch: "ie_next (?t ! 0) = x" "x \<noteq> 0" "x < length ?t" "fl_chain ?t x xs"
    using space_invD(3) [OF ok] by auto
  have nxt: "ie_next (?t ! x) < length ?t" using ch(4) n by (cases xs) auto
  have valid: "MACH_PORT_VALID (MACH_PORT_MAKE x g)" for g
    by (rule MACH_PORT_MAKE_VALID) (use ch space_inv_index(1) [OF ok ch(3)] in auto)
  let ?sp = "sp\<lparr>is_table := ?t[0 := (?t ! 0)\<lparr>ie_next := ie_next (?t ! x)\<rparr>], is_table_free := is_table_free sp - 1\<rparr>"
  let ?g = "ipc_entry_new_gen (ie_bits (?t ! x))"
  show ?thesis
  proof (cases "ipc_entry_gen_rolled (ie_bits (?t ! x)) ?g")
    case True
    obtain r bg e where r: "ipc_space_get_rollpoint ?sp = Some (r, ?sp\<lparr>is_bool_gen := bg, is_entropy := e\<rparr>)"
        "length e = length (is_entropy sp)"
      using ipc_space_get_rollpoint_returns [of ?sp] space_invD(16) [OF ok] by auto
    have "ipc_entry_claim sp = Some ((KERN_SUCCESS, MACH_PORT_MAKE x (ipc_entry_new_rollpoint r), x),
        claim_space sp x (ipc_entry_new_rollpoint r) bg e)"
      using True r(1) n ch nxt valid size
      by (cases sp) (simp add: ipc_entry_claim_def claim_space_def claim_table_def Let_def)
    moreover have "IE_BITS_GEN (ipc_entry_new_rollpoint r) \<noteq> IE_BITS_GEN (ie_bits (?t ! x))"
      using rolled_differs [OF True] by (simp add: rollpoint_gen)
    ultimately show ?thesis using r(2) gen_only_rollpoint by blast
  next
    case False
    then have "ipc_entry_claim sp = Some ((KERN_SUCCESS, MACH_PORT_MAKE x ?g, x),
        claim_space sp x ?g (is_bool_gen sp) (is_entropy sp))"
      using n ch nxt valid size
      by (cases sp) (simp add: ipc_entry_claim_def claim_space_def claim_table_def Let_def)
    then show ?thesis using gen_only_new_gen new_gen_differs by blast
  qed
qed

text \<open>A chain from \<open>x\<close> is a chain from the reserved entry once that links to the same successor.\<close>

lemma fl_chain_rehead:
  assumes "fl_chain t x xs" "0 < length t" "ie_next e = ie_next (t ! x)"
  shows "fl_chain (t[0 := e]) 0 xs"
proof (cases xs)
  case (Cons y ys)
  have "0 \<notin> insert y (set ys)" using fl_chain_bounds [OF assms(1)] Cons by auto
  then show ?thesis using assms Cons fl_chain_update [of 0 y ys t e] by auto
qed (use assms in simp)

lemma claim_table_ok:
  assumes ok: "space_inv sp (x # xs) pend H" and gen: "gen_only gen" and t: "t = is_table sp"
    and t': "t' = claim_table t x gen"
  shows "length t' = length t" "hash_table_ok t'" "hashed t' = hashed t" "fl_chain t' 0 xs"
    "\<And>i. i \<noteq> 0 \<Longrightarrow> i \<noteq> x \<Longrightarrow> t' ! i = t ! i"
    "t' ! x = (t ! x)\<lparr>ie_bits := gen, ie_request := IE_REQ_NONE\<rparr>"
    "ie_object (t' ! 0) = ie_object (t ! 0)" "ie_bits (t' ! 0) = ie_bits (t ! 0)"
    "\<And>i. i < length t \<Longrightarrow> entry_type t' i = entry_type t i"
proof -
  note F = space_inv_free [OF ok, of x, simplified, folded t]
  have ch: "ie_next (t ! 0) = x" "x \<noteq> 0" "x < length t" "fl_chain t x xs"
    using space_invD(3) [OF ok] t by auto
  have n: "0 < length t" using space_inv_length(1) [OF ok] t by simp
  show len: "length t' = length t" by (simp add: t' claim_table_def)
  show nth: "\<And>i. i \<noteq> 0 \<Longrightarrow> i \<noteq> x \<Longrightarrow> t' ! i = t ! i"
    and x: "t' ! x = (t ! x)\<lparr>ie_bits := gen, ie_request := IE_REQ_NONE\<rparr>"
    and zero: "ie_object (t' ! 0) = ie_object (t ! 0)" "ie_bits (t' ! 0) = ie_bits (t ! 0)"
    using ch n by (simp_all add: t' claim_table_def)
  let ?t1 = "t[0 := (t ! 0)\<lparr>ie_next := ie_next (t ! x)\<rparr>]"
  note H1 = hash_ok_entry_update [OF space_invD(2) [OF ok, folded t] n, of "(t ! 0)\<lparr>ie_next := ie_next (t ! x)\<rparr>", simplified]
  have "hash_table_ok (?t1[x := (?t1 ! x)\<lparr>ie_bits := gen, ie_request := IE_REQ_NONE\<rparr>])"
     "hashed (?t1[x := (?t1 ! x)\<lparr>ie_bits := gen, ie_request := IE_REQ_NONE\<rparr>]) = hashed ?t1"
    by (rule hash_ok_entry_update [OF H1(1)]; use ch in simp)+
  then show "hash_table_ok t'" "hashed t' = hashed t"
    using H1(2) ch by (simp_all add: t' claim_table_def)
  have xs: "x \<notin> set xs" using space_invD(4) [OF ok] by simp
  have "fl_chain ?t1 0 xs" 
    using fl_chain_rehead [OF ch(4) n] by simp
  then show "fl_chain t' 0 xs"
    using fl_chain_update [of x 0 xs ?t1] xs ch(2) by (simp add: t' claim_table_def)
  show "\<And>i. i < length t \<Longrightarrow> entry_type t' i = entry_type t i"
    using nth x zero F(5) gen gen_only_fields(1) by (metis entry_type_def ipc_entry.ext_inject ipc_entry.surjective ipc_entry.update_convs(2) ipc_entry.update_convs(5))
qed

lemma ipc_entry_claim_ok:
  assumes ok: "space_inv sp (x # xs) pend H"
  shows "\<exists>name sp'. ipc_entry_claim sp = Some ((KERN_SUCCESS, name, x), sp') \<and> space_inv sp' xs (insert x pend) H
    \<and> MACH_PORT_INDEX name = x \<and> MACH_PORT_VALID name \<and> space_frame {x} sp sp'
    \<and> send_entries (is_table sp') = send_entries (is_table sp)
    \<and> ie_object (is_table sp' ! x) = IO_NULL \<and> ie_request (is_table sp' ! x) = IE_REQ_NONE
    \<and> gen_only (ie_bits (is_table sp' ! x)) \<and> IE_BITS_GEN (ie_bits (is_table sp' ! x)) = MACH_PORT_GEN name
    \<and> MACH_PORT_GEN name \<noteq> IE_BITS_GEN (ie_bits (is_table sp ! x))"
proof -
  obtain gen bg e where C: "ipc_entry_claim sp = Some ((KERN_SUCCESS, MACH_PORT_MAKE x gen, x), claim_space sp x gen bg e)"
      and gen: "gen_only gen" and e: "length e = length (is_entropy sp)"
      and differ: "IE_BITS_GEN gen \<noteq> IE_BITS_GEN (ie_bits (is_table sp ! x))"
    using ipc_entry_claim_eq [OF ok] by blast
  let ?sp' = "claim_space sp x gen bg e"
  note T = claim_table_ok [OF ok gen refl refl]
  note F = space_inv_free [OF ok, of x, simplified]
  have t': "is_table ?sp' = claim_table (is_table sp) x gen" by (simp add: claim_space_def)
  have valid: "MACH_PORT_VALID (MACH_PORT_MAKE x gen)"
    by (rule MACH_PORT_MAKE_VALID) (use F space_inv_index(1) [OF ok F(2)] in auto)
  have "x \<notin> set xs" "distinct xs" using space_invD(4) [OF ok] by auto
  moreover have "free_entry (claim_table (is_table sp) x gen ! y)" if "y \<in> set xs" for y
    using T(5) [of y] space_invD(6) [OF ok, of y] space_inv_free(1) [OF ok, of y] that \<open>x \<notin> set xs\<close>
    by (cases "y = x") auto
  ultimately have "space_inv ?sp' xs (insert x pend) H"
    unfolding space_inv_def t' using T space_invD [OF ok] F e by (auto simp: claim_space_def)
  moreover have "send_entries (claim_table (is_table sp) x gen) = send_entries (is_table sp)"
    using T(1,9) by (auto simp: send_entries_def)
  moreover have "space_frame {x} sp ?sp'"
    using T(1,5) by (simp add: space_frame_def claim_space_def)
  moreover have "MACH_PORT_INDEX (MACH_PORT_MAKE x gen) = x" by (rule space_inv_index(2) [OF ok F(2)])
  ultimately show ?thesis using C T(6) F(4) gen valid t' differ by auto
qed

section \<open>Updating, hashing and releasing an entry in use\<close>

lemma space_inv_update:
  assumes inv: "space_inv sp xs pend H" and i: "0 < i" "i < length (is_table sp)" "i \<notin> set xs"
    and hash: "ie_index e = ie_index (is_table sp ! i)" "ie_dist e = ie_dist (is_table sp ! i)"
    and obj: "i \<in> H \<Longrightarrow> ie_object e = ie_object (is_table sp ! i)"
    and pend': "pend' = (if IE_BITS_TYPE (ie_bits e) = MACH_PORT_TYPE_NONE then insert i pend else pend - {i})"
  shows "space_inv (sp\<lparr>is_table := (is_table sp)[i := e]\<rparr>) xs pend' H"
    and "space_frame {i} sp (sp\<lparr>is_table := (is_table sp)[i := e]\<rparr>)"
proof -
  let ?t = "is_table sp" and ?t' = "(is_table sp)[i := e]"
  note D = space_invD [OF inv]
  have ok: "hash_table_ok ?t'" "hashed ?t' = H"
    using hash_ok_entry_update [OF D(2) i(2) hash] obj D(12) by simp_all
  have ch: "fl_chain ?t' 0 xs" using D(3) i fl_chain_update [of i 0 xs] by simp
  have nth: "?t' ! j = (if j = i then e else ?t ! j)" for j using i(2) by auto
  have free: "\<forall>x \<in> set xs. free_entry (?t' ! x)" using D(6) i(3) by (auto simp: nth)
  have types: "\<forall>j \<in> {0<..<length ?t}. entry_type ?t' j = MACH_PORT_TYPE_NONE \<longleftrightarrow> j \<in> set xs \<union> pend'"
    using D(11) i(3) by (auto simp: entry_type_def nth pend')
  show "space_inv (sp\<lparr>is_table := ?t'\<rparr>) xs pend' H"
    unfolding space_inv_def using D ok ch free types i by (auto simp: nth pend')
  show "space_frame {i} sp (sp\<lparr>is_table := ?t'\<rparr>)" by (simp add: space_frame_def nth)
qed

lemma ipc_entry_modified_ok:
  assumes inv: "space_inv sp xs pend H" and i: "MACH_PORT_INDEX name = i" "i < length (is_table sp)"
  shows "\<exists>sp'. ipc_entry_modified sp name i = Some sp' \<and> space_inv sp' xs pend H \<and> space_frame {} sp sp'
    \<and> is_table sp' = is_table sp"
  using space_invD [OF inv] i
  by (auto simp: ipc_entry_modified_def Let_def space_inv_def space_frame_def)

text \<open>A space whose table was replaced by one with the same visible entries and another hashed set.\<close>

lemma space_inv_rehash:
  assumes inv: "space_inv sp xs pend H" and same: "same_entries (is_table sp) t'" and ok: "rh_ok t'"
    and H': "hashed t' = H'" "c = card H'"
  shows "space_inv (sp\<lparr>is_table_hashed := c, is_table := t'\<rparr>) xs pend H'"
    and "space_frame {} sp (sp\<lparr>is_table_hashed := c, is_table := t'\<rparr>)"
proof -
  note D = space_invD [OF inv]
  have len: "length t' = length (is_table sp)" using same by (rule same_entries_length)
  have nth: "ie_object (t' ! i) = ie_object (is_table sp ! i) \<and> ie_bits (t' ! i) = ie_bits (is_table sp ! i)
      \<and> ie_request (t' ! i) = ie_request (is_table sp ! i)" if "i < length (is_table sp)" for i
    using same that by (simp add: same_entries_def)
  have n: "0 < length (is_table sp)" by (rule space_inv_length [OF inv])
  have xs: "x < length (is_table sp)" if "x \<in> set xs" for x using space_inv_free(2) [OF inv that] .
  have "fl_chain t' 0 xs"
    using D(3) fl_chain_cong [OF len, of 0 xs] nth xs n by auto
  moreover have "free_entry (t' ! x)" if "x \<in> set xs" for x
    using D(6) [OF that] nth [OF xs [OF that]] by (simp add: free_entry_def)
  moreover have "entry_type t' i = entry_type (is_table sp) i" if "i < length (is_table sp)" for i
    using nth [OF that] by (simp add: entry_type_def)
  moreover have "hash_table_ok t'" using D(2) ok len by (auto simp: hash_table_ok_def)
  ultimately show "space_inv (sp\<lparr>is_table_hashed := c, is_table := t'\<rparr>) xs pend H'"
    unfolding space_inv_def using D nth [OF n] len H' by auto
  show "space_frame {} sp (sp\<lparr>is_table_hashed := c, is_table := t'\<rparr>)"
    using nth len by (simp add: space_frame_def vis_def)
qed

lemma ipc_hash_insert_ok:
  assumes inv: "space_inv sp xs pend H" and i: "MACH_PORT_INDEX name = i" "0 < i" "i < length (is_table sp)" "i \<notin> H"
    and obj: "ie_object (is_table sp ! i) = obj" "obj \<noteq> IO_NULL"
    and new: "\<forall>j \<in> H. ie_object (is_table sp ! j) \<noteq> obj"
  shows "\<exists>sp'. ipc_hash_insert sp obj name = Some sp' \<and> space_inv sp' xs pend (insert i H) \<and> space_frame {} sp sp'
    \<and> same_entries (is_table sp) (is_table sp')"
proof -
  note D = space_invD [OF inv]
  have fin: "finite H" by (rule space_inv_finite [OF inv])
  obtain t' where t': "ipc_hash_table_insert (is_table sp) (length (is_table sp)) obj i = Some t'" "rh_ok t'"
      "same_entries (is_table sp) t'" "hashed t' = insert i H"
    using ipc_hash_table_insert_correct [of "is_table sp" i obj] D(2,12) i obj new by (auto simp: hash_table_ok_def)
  have "is_table_hashed sp + 1 = card (insert i H)" using D(13) i(4) fin by simp
  from space_inv_rehash [OF inv t'(3,2,4) this] show ?thesis
    using t'(1,3) D(1) i(1) by (simp add: ipc_hash_insert_def)
qed

lemma ipc_hash_delete_ok:
  assumes inv: "space_inv sp xs pend H" and i: "MACH_PORT_INDEX name = i" "i \<in> H"
    and obj: "ie_object (is_table sp ! i) = obj"
  shows "\<exists>sp'. ipc_hash_delete sp obj name = Some sp' \<and> space_inv sp' xs pend (H - {i}) \<and> space_frame {} sp sp'
    \<and> same_entries (is_table sp) (is_table sp')"
proof -
  note D = space_invD [OF inv]
  have fin: "finite H" by (rule space_inv_finite [OF inv])
  obtain t' where t': "ipc_hash_table_delete (is_table sp) (length (is_table sp)) obj i = Some t'" "rh_ok t'"
      "same_entries (is_table sp) t'" "hashed t' = H - {i}"
    using ipc_hash_table_delete_correct [of "is_table sp" i obj] D(2,12) i obj by (auto simp: hash_table_ok_def)
  have "is_table_hashed sp - 1 = card (H - {i})" using D(13) i(2) fin by simp
  from space_inv_rehash [OF inv t'(3,2,4) this] show ?thesis
    using t'(1,3) D(1) i(1) by (simp add: ipc_hash_delete_def)
qed

lemma ipc_hash_lookup_ok:
  assumes inv: "space_inv sp xs pend H" and obj: "obj \<noteq> IO_NULL"
  shows "ipc_hash_lookup sp obj = Some (map_option (\<lambda>j. (MACH_PORT_MAKE j (IE_BITS_GEN (ie_bits (is_table sp ! j))), j))
      (hash_find (is_table sp) obj))"
    and "hash_find (is_table sp) obj = Some j \<longleftrightarrow> j \<in> H \<and> ie_object (is_table sp ! j) = obj"
    and "hash_find (is_table sp) obj = None \<longleftrightarrow> (\<forall>j \<in> H. ie_object (is_table sp ! j) \<noteq> obj)"
  using space_invD [OF inv] obj hash_find_Some [of "is_table sp" obj j]
  by (simp_all add: ipc_hash_lookup_def hash_table_ok_def ipc_hash_table_lookup_correct hash_find_None)


lemma ipc_entry_dealloc_ok:
  assumes inv: "space_inv sp xs pend H" and act: "is_active sp"
    and i: "MACH_PORT_INDEX name = i" "0 < i" "i < length (is_table sp)" "i \<notin> set xs"
    and e: "ie_object (is_table sp ! i) = IO_NULL" "ie_request (is_table sp ! i) = IE_REQ_NONE"
      "IE_BITS_GEN (ie_bits (is_table sp ! i)) = MACH_PORT_GEN name"
  shows "\<exists>sp'. ipc_entry_dealloc sp name i = Some sp' \<and> space_inv sp' (i # xs) (pend - {i}) H
    \<and> space_frame {i} sp sp'"
proof -
  let ?t = "is_table sp"
  let ?b = "ie_bits (?t ! i) AND (IE_BITS_GEN_MASK OR IE_BITS_ROLL_MASK)"
  let ?e = "(?t ! i)\<lparr>ie_bits := ?b, ie_next := ie_next (?t ! 0)\<rparr>"
  let ?t1 = "?t[i := ?e]"
  let ?t2 = "?t1[0 := (?t ! 0)\<lparr>ie_next := i\<rparr>]"
  let ?sp = "sp\<lparr>is_table := ?t2, is_table_free := is_table_free sp + 1\<rparr>"
  note D = space_invD [OF inv]
  have n: "0 < length ?t" by (rule space_inv_length [OF inv])
  note H1 = hash_ok_entry_update [OF D(2) i(3), of ?e, simplified]
  have ok: "hash_table_ok ?t2" "hashed ?t2 = H"
    using hash_ok_entry_update [OF H1(1), of 0 "(?t ! 0)\<lparr>ie_next := i\<rparr>"] H1(2) D(12) i(2) n by auto
  have nth: "?t2 ! j = (if j = 0 then (?t ! 0)\<lparr>ie_next := i\<rparr> else if j = i then ?e else ?t ! j)" for j
    using n i by (auto simp: nth_list_update)
  have xs: "0 \<notin> set xs" using fl_chain_bounds [OF D(3)] by auto
  have "fl_chain ?t2 i xs"
  proof (cases xs)
    case Nil then show ?thesis using D(3) i by (simp add: nth)
  next
    case (Cons y ys)
    have "fl_chain ?t2 y ys = fl_chain ?t y ys"
      using Cons i(4) xs by (intro fl_chain_cong) (auto simp: nth)
    then show ?thesis using D(3) Cons i by (auto simp: nth)
  qed
  then have ch: "fl_chain ?t2 0 (i # xs)" using i by (simp add: nth)
  have free: "\<forall>x \<in> set (i # xs). free_entry (?t2 ! x)"
    using D(6) xs e(1) i by (auto simp: nth free_entry_iff)
  have types: "\<forall>j \<in> {0<..<length ?t}. entry_type ?t2 j = MACH_PORT_TYPE_NONE \<longleftrightarrow> j \<in> set (i # xs) \<union> (pend - {i})"
    using D(11) i by (auto simp: entry_type_def nth gen_only_fields)
  have inv': "space_inv ?sp (i # xs) (pend - {i}) H"
    unfolding space_inv_def using D ok ch free types i by (auto simp: nth)
  have "space_frame {i} sp ?sp" by (simp add: space_frame_def nth)
  moreover obtain sp' where "ipc_entry_modified ?sp name i = Some sp'" "space_inv sp' (i # xs) (pend - {i}) H"
      "space_frame {} ?sp sp'"
    using ipc_entry_modified_ok [OF inv' i(1)] i(3) by auto
  moreover have "ipc_entry_dealloc sp name i = ipc_entry_modified ?sp name i"
    using act e i n D(1) by (simp add: ipc_entry_dealloc_def Let_def)
  ultimately show ?thesis using space_frame_trans [of "{i}" sp ?sp "{}" sp' "{i}"] by auto
qed

section \<open>Allocation of a name\<close>

lemma alloc_name_find_correct:
  assumes "fl_chain t a xs" "a < length t" "x \<in> set xs" "distinct xs" "x \<noteq> a"
  shows "\<exists>p ys zs. alloc_name_find t x a = Some p \<and> xs = ys @ x # zs \<and> p = last (a # ys)"
  using assms
proof (induction xs arbitrary: a)
  case (Cons y ys)
  show ?case
  proof (cases "y = x")
    case True
    then show ?thesis
      using Cons.prems by (subst alloc_name_find.simps) (auto intro!: exI [of _ "[]"])
  next
    case False
    have "fl_chain t y ys" "y < length t" "x \<in> set ys" "distinct ys" using Cons.prems False by auto
    from Cons.IH [OF this] False obtain p us zs where
      "alloc_name_find t x y = Some p" "ys = us @ x # zs" "p = last (y # us)" by auto
    moreover from this have "alloc_name_find t x a = Some p"
      using Cons.prems False by (subst alloc_name_find.simps) simp
    ultimately show ?thesis by (intro exI [of _ p] exI [of _ "y # us"] exI [of _ zs]) auto
  qed
qed simp

text \<open>Unlinking: the chain with \<open>x\<close> taken out.\<close>

lemma fl_chain_unlink:
  assumes "fl_chain t a (ys @ x # zs)" "distinct (a # ys @ x # zs)" "a < length t"
    "p = last (a # ys)"
  shows "fl_chain (t[p := (t ! p)\<lparr>ie_next := ie_next (t ! x)\<rparr>]) a (ys @ zs)" "p < length t"
proof -
  have "p < length t \<and> fl_chain (t[p := (t ! p)\<lparr>ie_next := ie_next (t ! x)\<rparr>]) a (ys @ zs)"
    using assms
  proof (induction ys arbitrary: a)
    case Nil
    then have pa: "p = a" by simp
    show ?case
    proof (cases zs)
      case (Cons z us)
      have "fl_chain (t[a := (t ! a)\<lparr>ie_next := ie_next (t ! x)\<rparr>]) z us = fl_chain t z us"
        by (rule fl_chain_update) (use Nil Cons in auto)
      then show ?thesis using Nil Cons pa by auto
    qed (use Nil pa in auto)
  next
    case (Cons y ys)
    have "fl_chain t y (ys @ x # zs)" "distinct (y # ys @ x # zs)" "y < length t" "p = last (y # ys)"
      using Cons.prems by auto
    note IH = Cons.IH [OF this]
    have "p \<in> set (y # ys)" using Cons.prems(4) by (metis last_ConsR last_in_set list.discI)
    then have "p \<noteq> a" using Cons.prems(2) by auto
    then show ?case using IH Cons.prems by auto
  qed
  then show "fl_chain (t[p := (t ! p)\<lparr>ie_next := ie_next (t ! x)\<rparr>]) a (ys @ zs)" "p < length t" by auto
qed

lemma space_inv_unlink:
  assumes inv: "space_inv sp (ys @ x # zs) pend H" and p: "p = last (0 # ys)"
  shows "space_inv (sp\<lparr>is_table := (is_table sp)[p := (is_table sp ! p)\<lparr>ie_next := ie_next (is_table sp ! x)\<rparr>],
      is_table_free := is_table_free sp - 1\<rparr>) (ys @ zs) (insert x pend) H" (is "space_inv ?sp _ _ _")
    and "p < length (is_table sp)" "p \<noteq> x" "p \<in> insert 0 (set ys)"
proof -
  let ?t = "is_table sp"
  note D = space_invD [OF inv]
  note F = space_inv_free [OF inv]
  have n: "0 < length ?t" by (rule space_inv_length [OF inv])
  have dist: "distinct (0 # ys @ x # zs)" using D(4) F(1) by auto
  show pin: "p \<in> insert 0 (set ys)" using p by (cases ys rule: rev_cases) auto
  then show px: "p \<noteq> x" using dist by auto
  show pl: "p < length ?t" by (rule fl_chain_unlink [OF D(3) dist n p])
  let ?e = "(?t ! p)\<lparr>ie_next := ie_next (?t ! x)\<rparr>"
  have ok: "hash_table_ok (?t[p := ?e])" "hashed (?t[p := ?e]) = H"
    using hash_ok_entry_update [OF D(2) pl, of ?e] D(12) by auto
  have nth: "?t[p := ?e] ! j = (if j = p then ?e else ?t ! j)" for j using pl by auto
  have vis: "ie_object (?t[p := ?e] ! j) = ie_object (?t ! j)" "ie_bits (?t[p := ?e] ! j) = ie_bits (?t ! j)" for j
    by (auto simp: nth)
  have free: "\<forall>y \<in> set (ys @ zs). free_entry (?t[p := ?e] ! y)"
    using D(6) by (auto simp: free_entry_def vis)
  have types: "\<forall>j \<in> {0<..<length ?t}. entry_type (?t[p := ?e]) j = MACH_PORT_TYPE_NONE \<longleftrightarrow> j \<in> set (ys @ zs) \<union> insert x pend"
    using D(11) by (auto simp: entry_type_def vis)
  show "space_inv ?sp (ys @ zs) (insert x pend) H"
    unfolding space_inv_def
    using D ok fl_chain_unlink(1) [OF D(3) dist n p] free types F(1,2) [of x] dist by (auto simp: vis)
qed

lemma alloc_name_in_table_free:
  assumes inv: "space_inv sp xs pend H" and x: "x \<in> set xs" and gen: "gen_only gen"
  shows "\<exists>sp' xs'. alloc_name_in_table sp x gen = Some ((KERN_SUCCESS, x), sp')
    \<and> space_inv sp' xs' (insert x pend) H \<and> set xs' = set xs - {x} \<and> space_frame (set xs) sp sp'
    \<and> ie_object (is_table sp' ! x) = IO_NULL \<and> ie_request (is_table sp' ! x) = IE_REQ_NONE
    \<and> ie_bits (is_table sp' ! x) = gen"
proof -
  let ?t = "is_table sp"
  note D = space_invD [OF inv]
  note F = space_inv_free [OF inv x]
  have n: "0 < length ?t" by (rule space_inv_length [OF inv])
  obtain p ys zs where p: "alloc_name_find ?t x 0 = Some p" "xs = ys @ x # zs" "p = last (0 # ys)"
    using alloc_name_find_correct [OF D(3) n x D(4)] F(1) by auto
  note U = space_inv_unlink [OF inv [unfolded p(2)] p(3)]
  let ?sp1 = "sp\<lparr>is_table := ?t[p := (?t ! p)\<lparr>ie_next := ie_next (?t ! x)\<rparr>], is_table_free := is_table_free sp - 1\<rparr>"
  have ix: "MACH_PORT_INDEX (MACH_PORT_MAKE p (IE_BITS_GEN (ie_bits (?t ! p)))) = p"
    by (rule space_inv_index(2) [OF inv U(2)])
  obtain sp2 where m: "ipc_entry_modified ?sp1 (MACH_PORT_MAKE p (IE_BITS_GEN (ie_bits (?t ! p)))) p = Some sp2"
      "space_inv sp2 (ys @ zs) (insert x pend) H" "space_frame {} ?sp1 sp2" "is_table sp2 = is_table ?sp1"
    using ipc_entry_modified_ok [OF U(1) ix] U(2) by auto
  let ?e = "(?t ! x)\<lparr>ie_bits := gen, ie_request := IE_REQ_NONE\<rparr>"
  have xn: "x \<notin> set (ys @ zs)" using D(4) p(2) by auto
  have sp2x: "is_table sp2 ! x = ?t ! x" "length (is_table sp2) = length ?t" using m(4) U(3) by auto
  have up: "space_inv (sp2\<lparr>is_table := (is_table sp2)[x := ?e]\<rparr>) (ys @ zs) (insert x pend) H"
      "space_frame {x} sp2 (sp2\<lparr>is_table := (is_table sp2)[x := ?e]\<rparr>)"
    using space_inv_update [OF m(2), of x ?e "insert x pend"] F(1,2) xn sp2x gen gen_only_fields(1) by auto
  have "space_frame (set xs) sp ?sp1" using U(2,4) p(2) by (auto simp: space_frame_def nth_list_update)
  then have "space_frame (set xs) sp (sp2\<lparr>is_table := (is_table sp2)[x := ?e]\<rparr>)"
    using space_frame_trans [OF _ m(3), of "set xs" sp "set xs"] space_frame_trans [OF _ up(2), of "set xs" sp "set xs"] x
    by auto
  moreover have "alloc_name_in_table sp x gen = Some ((KERN_SUCCESS, x), sp2\<lparr>is_table := (is_table sp2)[x := ?e]\<rparr>)"
    using F p(1) U(2) m(1) sp2x gen_only_fields(1) [OF F(5)]
    by (simp add: alloc_name_in_table_def MACH_PORT_TYPE_NONE_def)
  moreover have "set (ys @ zs) = set xs - {x}" using p(2) xn by auto
  ultimately show ?thesis using up(1) sp2x F(2,4)
    by (intro exI [of _ "sp2\<lparr>is_table := (is_table sp2)[x := ?e]\<rparr>"] exI [of _ "ys @ zs"] conjI) simp_all
qed


section \<open>The contract of the allocator\<close>

text \<open>
  A client of the free list claims entries one at a time and gives back those it does not use. The
  state keeps the list of free entries in the order they will be handed out and the set of entries
  claimed and not yet released.
\<close>

locale entry_allocator =
  fixes ok :: "'s \<Rightarrow> nat list \<Rightarrow> nat set \<Rightarrow> bool"
    and claim :: "'s \<Rightarrow> (nat \<times> 's) option" and release :: "'s \<Rightarrow> nat \<Rightarrow> 's option"
  assumes claim_law: "ok s (x # xs) P \<Longrightarrow> \<exists>s'. claim s = Some (x, s') \<and> ok s' xs (insert x P)"
    and release_law: "ok s xs P \<Longrightarrow> x \<in> P \<Longrightarrow> \<exists>s'. release s x = Some s' \<and> ok s' (x # xs) (P - {x})"
    and free_law: "ok s xs P \<Longrightarrow> distinct xs \<and> set xs \<inter> P = {}"
begin

fun claims :: "nat \<Rightarrow> 's \<Rightarrow> (nat list \<times> 's) option" where
  "claims 0 s = Some ([], s)"
| "claims (Suc n) s = do { (x, s) \<leftarrow> claim s; (xs, s) \<leftarrow> claims n s; Some (x # xs, s) }"

fun releases :: "nat list \<Rightarrow> 's \<Rightarrow> 's option" where
  "releases [] s = Some s"
| "releases (x # xs) s = do { s \<leftarrow> releases xs s; release s x }"

lemma claims_ok:
  assumes "ok s xs P" "n \<le> length xs"
  shows "\<exists>s'. claims n s = Some (take n xs, s') \<and> ok s' (drop n xs) (set (take n xs) \<union> P)"
  using assms
proof (induction n arbitrary: s xs P)
  case (Suc n)
  then obtain x ys where xs: "xs = x # ys" by (cases xs) auto
  obtain s' where s': "claim s = Some (x, s')" "ok s' ys (insert x P)" using claim_law Suc.prems xs by blast
  then show ?case using Suc.IH [OF s'(2)] Suc.prems xs by auto
qed simp

lemma releases_ok:
  assumes "ok s ys P" "set xs \<subseteq> P" "distinct xs"
  shows "\<exists>s'. releases xs s = Some s' \<and> ok s' (xs @ ys) (P - set xs)"
  using assms
proof (induction xs)
  case (Cons x xs)
  then obtain s' where s': "releases xs s = Some s'" "ok s' (xs @ ys) (P - set xs)" by auto
  then obtain s'' where "release s' x = Some s''" "ok s'' (x # xs @ ys) (P - set xs - {x})"
    using release_law [of s' "xs @ ys" "P - set xs" x] Cons.prems by auto
  moreover have "P - set xs - {x} = P - set (x # xs)" by auto
  ultimately show ?case using s'(1) by simp
qed simp

lemma claims_releases:
  assumes "ok s xs {}" "n \<le> length xs"
  shows "\<exists>s' s''. claims n s = Some (take n xs, s') \<and> releases (take n xs) s' = Some s'' \<and> ok s'' xs {}"
proof -
  obtain s' where s': "claims n s = Some (take n xs, s')" "ok s' (drop n xs) (set (take n xs))"
    using claims_ok [OF assms] by auto
  have "distinct (take n xs)" using free_law [OF assms(1)] by (simp add: distinct_take)
  with releases_ok [OF s'(2), of "take n xs"] s'(1) show ?thesis by auto
qed

end

text \<open>The two operations of a space behind that interface, and its states.\<close>

definition claim_index :: "ipc_space \<Rightarrow> (nat \<times> ipc_space) option" where
  "claim_index sp = map_option (\<lambda>((kr, name, i), sp). (i, sp)) (ipc_entry_claim sp)"

definition release_index :: "ipc_space \<Rightarrow> nat \<Rightarrow> ipc_space option" where
  "release_index sp i = ipc_entry_dealloc sp (MACH_PORT_MAKE i (IE_BITS_GEN (ie_bits (is_table sp ! i)))) i"

definition alloc_ok :: "ipc_space \<Rightarrow> nat list \<Rightarrow> nat set \<Rightarrow> bool" where
  "alloc_ok sp xs P \<longleftrightarrow> is_active sp \<and> space_inv sp xs P (hashed (is_table sp))
     \<and> (\<forall>x \<in> P. ie_object (is_table sp ! x) = IO_NULL \<and> ie_request (is_table sp ! x) = IE_REQ_NONE)"

lemma IE_BITS_GEN_idem [simp]: "IE_BITS_GEN (IE_BITS_GEN b) = IE_BITS_GEN b"
  by (simp add: IE_BITS_GEN_def and.assoc)

lemma space_frame_active: "space_frame S sp sp' \<Longrightarrow> is_active sp' = is_active sp"
  by (simp add: space_frame_def is_active_def)

interpretation freelist: entry_allocator alloc_ok claim_index release_index
proof (unfold_locales, goal_cases)
  case (1 s x xs P)
  then have inv: "space_inv s (x # xs) P (hashed (is_table s))" by (simp add: alloc_ok_def)
  obtain name s' where c: "ipc_entry_claim s = Some ((KERN_SUCCESS, name, x), s')"
      "space_inv s' xs (insert x P) (hashed (is_table s))" "space_frame {x} s s'"
      "ie_object (is_table s' ! x) = IO_NULL" "ie_request (is_table s' ! x) = IE_REQ_NONE"
    using ipc_entry_claim_ok [OF inv] by blast
  have "ie_object (is_table s' ! y) = IO_NULL \<and> ie_request (is_table s' ! y) = IE_REQ_NONE" if "y \<in> insert x P" for y
    using c(4,5) 1 that space_frameD [OF c(3), of y] space_invD(8) [OF inv]
    by (cases "y = x") (auto simp: alloc_ok_def)
  then show ?case
    using c(1,2) 1 space_frame_active [OF c(3)] space_invD(12) [OF c(2)]
    by (auto simp: claim_index_def alloc_ok_def)
next
  case (2 s xs P x)
  then have inv: "space_inv s xs P (hashed (is_table s))" by (simp add: alloc_ok_def)
  have x: "0 < x" "x < length (is_table s)" "x \<notin> set xs" using space_invD(7,8) [OF inv] 2(2) by auto
  obtain s' where r: "release_index s x = Some s'" "space_inv s' (x # xs) (P - {x}) (hashed (is_table s))"
      "space_frame {x} s s'"
    using ipc_entry_dealloc_ok [OF inv _ space_inv_index(2) [OF inv x(2), of "IE_BITS_GEN (ie_bits (is_table s ! x))"] x] 2
    by (auto simp: release_index_def alloc_ok_def)
  have "ie_object (is_table s' ! y) = IO_NULL \<and> ie_request (is_table s' ! y) = IE_REQ_NONE" if "y \<in> P - {x}" for y
    using 2(1) that space_frameD [OF r(3), of y] space_invD(8) [OF inv] by (auto simp: alloc_ok_def)
  then show ?case
    using r 2(1) space_frame_active [OF r(3)] space_invD(12) [OF r(2)] by (auto simp: alloc_ok_def)
next
  case (3 s xs P)
  then show ?case by (simp add: alloc_ok_def space_inv_def)
qed

section \<open>A concrete space\<close>

text \<open>
  Five entries: 1 and 2 hold send rights for two ports that collide in the reverse table, 3 and 4 are
  free.
\<close>

definition sample_send :: "nat \<Rightarrow> 32 word \<Rightarrow> ipc_entry" where
  "sample_send i bits = \<lparr>ie_object = of_nat i * 0x1000000000, ie_bits = bits, ie_dist = 0, ie_index = 0, ie_request = 0\<rparr>"

definition small_table :: ipc_table where
  "small_table =
    [null_entry\<lparr>ie_index := 1, ie_next := 3\<rparr>, (sample_send 1 0x07010001)\<lparr>ie_dist := 1, ie_index := 2\<rparr>,
     sample_send 2 0x0b010001, freelist_entry 4, freelist_entry 0]"

definition small_space :: ipc_space where
  "small_space = sample_space\<lparr>is_table := small_table, is_table_size := 5, is_table_hashed := 2, is_table_free := 2,
     is_low_mod := 5\<rparr>"

lemma small_table_nth:
  "length small_table = 5"
  "small_table ! 0 = null_entry\<lparr>ie_index := 1, ie_next := 3\<rparr>"
  "small_table ! Suc 0 = (sample_send 1 0x07010001)\<lparr>ie_dist := 1, ie_index := 2\<rparr>"
  "small_table ! 2 = sample_send 2 0x0b010001"
  "small_table ! 3 = freelist_entry 4"
  "small_table ! 4 = freelist_entry 0"
  by (simp_all add: small_table_def)

lemma small_hash: "IH_TABLE_HASH 0x1000000000 n = 0" "IH_TABLE_HASH 0x2000000000 n = 0"
  by (simp_all add: IH_TABLE_HASH_def os_hash_kernel_pointer_def bswap32_def)

lemma less_5: "(\<forall>i < (5::nat). P i) \<longleftrightarrow> P 0 \<and> P (Suc 0) \<and> P 2 \<and> P 3 \<and> P 4"
  by (auto simp: less_Suc_eq numeral_eq_Suc)

lemma small_hashed: "hashed small_table = {1, 2}"
  by (simp add: hashed_code small_table_def sample_send_def null_entry_def)

lemma small_hash_ok: "hash_table_ok small_table"
  by (simp add: hash_table_ok_def rh_ok_def rh_distinct_def rh_slot_def Let_def less_5 small_table_nth
      slot_home_def small_hash cdist_def probe_path_def IO_NULL_def IPC_ENTRY_DIST_MAX_def sample_send_def null_entry_def)
    (simp add: small_table_def)

lemma small_types: "entry_type small_table 0 = MACH_PORT_TYPE_NONE" "entry_type small_table (Suc 0) = MACH_PORT_TYPE_SEND"
  "entry_type small_table 2 = MACH_PORT_TYPE_SEND" "entry_type small_table 3 = MACH_PORT_TYPE_NONE"
  "entry_type small_table 4 = MACH_PORT_TYPE_NONE"
  by (simp_all add: entry_type_def small_table_nth sample_send_def null_entry_def ie_bits_defs)

lemma upto_5: "{..<5} = {0, Suc 0, 2, 3, 4 :: nat}" "{0<..<5} = {Suc 0, 2, 3, 4 :: nat}"
  by auto

lemma send_entries_code [code]:
  "send_entries t = set (filter (\<lambda>i. entry_type t i = MACH_PORT_TYPE_SEND) [0..<length t])"
  by (auto simp: send_entries_def)

lemma small_send_entries: "send_entries small_table = {1, 2}"
proof -
  have "[0..<5] = [0, Suc 0, 2, 3, 4]" by (simp add: upt_rec)
  then show ?thesis by (simp add: send_entries_code small_table_nth(1) small_types)
qed

lemma small_space_inv: "space_inv small_space [3, 4] {} {1, 2}"
  unfolding space_inv_def small_space_def
  using small_hash_ok small_hashed
  by (simp add: small_table_nth upto_5 small_types free_entry_def ie_bits_masks IO_NULL_def sample_space_def null_entry_def)

lemma small_space_ok: "space_ok small_space [3, 4] {}"
  using small_space_inv by (simp add: space_ok_def small_send_entries small_space_def)

lemma small_space_active: "is_active small_space" "\<not> is_growing small_space"
  by (simp_all add: is_active_def is_growing_def small_space_def sample_space_def IS_INACTIVE_def IS_GROWING_def)

section \<open>Properties\<close>

text \<open>
  C22. Claiming from a well-formed space with a non-empty free list returns the entry at its head
  under a valid name, keeps the space well formed with the rest of the list, changes no entry in
  use, and the name differs from the one the entry had when it was last in use: a stale name of the
  previous holder does not resolve to the new right.
\<close>

theorem ipc_entry_claim_fresh_name:
  assumes "space_ok sp (x # xs) pend"
  shows "\<exists>name sp'. ipc_entry_claim sp = Some ((KERN_SUCCESS, name, x), sp') \<and> space_ok sp' xs (insert x pend)
    \<and> MACH_PORT_INDEX name = x \<and> MACH_PORT_VALID name \<and> space_frame {x} sp sp'
    \<and> name \<noteq> MACH_PORT_MAKE x (IE_BITS_GEN (ie_bits (is_table sp ! x)))"
proof -
  obtain name sp' where c: "ipc_entry_claim sp = Some ((KERN_SUCCESS, name, x), sp')"
      "space_inv sp' xs (insert x pend) (send_entries (is_table sp))" "MACH_PORT_INDEX name = x" "MACH_PORT_VALID name"
      "space_frame {x} sp sp'" "send_entries (is_table sp') = send_entries (is_table sp)"
      "MACH_PORT_GEN name \<noteq> IE_BITS_GEN (ie_bits (is_table sp ! x))"
    using ipc_entry_claim_ok [OF assms [unfolded space_ok_def]] by blast
  have "name \<noteq> MACH_PORT_MAKE x (IE_BITS_GEN (ie_bits (is_table sp ! x)))"
    using c(7) by (metis MACH_PORT_GEN_MAKE IE_BITS_GEN_idem)
  with c show ?thesis by (auto simp: space_ok_def)
qed

theorem ipc_entry_claim_fresh_name_witness:
  "\<exists>name sp'. ipc_entry_claim small_space = Some ((KERN_SUCCESS, name, 3), sp') \<and> space_ok sp' [4] (insert 3 {})
    \<and> MACH_PORT_INDEX name = 3 \<and> MACH_PORT_VALID name \<and> space_frame {3} small_space sp'
    \<and> name \<noteq> MACH_PORT_MAKE 3 (IE_BITS_GEN (ie_bits (is_table small_space ! 3)))"
  by (rule ipc_entry_claim_fresh_name) (rule small_space_ok)

text \<open>
  C16. \<open>ipc_entries_hold\<close> is a promise: after it has succeeded for \<open>n\<close> entries on an active space, \<open>n\<close>
  claims in a row succeed and return the first \<open>n\<close> entries of the free list, all different; giving
  them back in the reverse order with \<open>ipc_entry_dealloc\<close> restores the free list.
\<close>

theorem ipc_entries_hold_claims:
  assumes "alloc_ok sp xs {}" "ipc_entries_hold sp n = Some KERN_SUCCESS"
  shows "\<exists>sp' sp''. freelist.claims n sp = Some (take n xs, sp') \<and> distinct (take n xs) \<and> n \<le> length xs
    \<and> freelist.releases (take n xs) sp' = Some sp'' \<and> alloc_ok sp'' xs {}"
proof -
  have "n \<le> length xs"
    using assms ipc_entries_hold_eq [of sp xs "{}" "hashed (is_table sp)" n]
    by (auto simp: alloc_ok_def split: if_splits)
  then show ?thesis
    using freelist.claims_releases [OF assms(1)] freelist.free_law [OF assms(1)] by (metis distinct_take)
qed

lemma small_alloc_ok: "alloc_ok small_space [3, 4] {}"
  using small_space_inv small_space_active
  by (simp add: alloc_ok_def small_space_def small_hashed)

theorem ipc_entries_hold_claims_witness:
  "\<exists>sp' sp''. freelist.claims 2 small_space = Some (take 2 [3, 4], sp') \<and> distinct (take 2 [3, 4 :: nat]) \<and> 2 \<le> length [3, 4 :: nat]
    \<and> freelist.releases (take 2 [3, 4]) sp' = Some sp'' \<and> alloc_ok sp'' [3, 4] {}"
proof (rule ipc_entries_hold_claims [OF small_alloc_ok])
  show "ipc_entries_hold small_space 2 = Some KERN_SUCCESS"
    using ipc_entries_hold_eq [OF small_space_inv small_space_active(1), of 2]
    by (simp add: small_space_def)
qed

text \<open>
  C27. Asking for a specific name inside the table of a well-formed space: the reserved entry and an
  entry in use under another generation fail, an entry in use under the same name is returned as it
  is, and a free entry is unlinked from wherever it stands on the free list and given exactly the
  requested generation; the walk along the free list ends.
\<close>

theorem ipc_entry_alloc_name_cases:
  assumes ok: "space_ok sp xs {}" and x: "x < length (is_table sp)"
  shows "\<exists>r sp' xs' P. alloc_name_in_table sp x (MACH_PORT_GEN name) = Some (r, sp') \<and> space_ok sp' xs' P
    \<and> (if x = 0 \<or> entry_type (is_table sp) x \<noteq> MACH_PORT_TYPE_NONE
           \<and> IE_BITS_GEN (ie_bits (is_table sp ! x)) \<noteq> MACH_PORT_GEN name
       then r = (KERN_FAILURE, 0) \<and> sp' = sp
       else if entry_type (is_table sp) x \<noteq> MACH_PORT_TYPE_NONE then r = (KERN_SUCCESS, x) \<and> sp' = sp
       else r = (KERN_SUCCESS, x) \<and> P = {x} \<and> set xs' = set xs - {x} \<and> space_frame (set xs) sp sp'
         \<and> ie_bits (is_table sp' ! x) = MACH_PORT_GEN name)"
proof (cases "x = 0 \<or> entry_type (is_table sp) x \<noteq> MACH_PORT_TYPE_NONE")
  case True
  have "ie_bits (is_table sp ! 0) = 0" using space_invD(10) [OF ok [unfolded space_ok_def]] .
  then show ?thesis
    using True ok x by (auto simp: alloc_name_in_table_def entry_type_def MACH_PORT_TYPE_NONE_def ie_bits_defs)
next
  case False
  note inv = ok [unfolded space_ok_def]
  have xs: "x \<in> set xs" using space_invD(11) [OF inv _ x] False by auto
  obtain sp' xs' where a: "alloc_name_in_table sp x (MACH_PORT_GEN name) = Some ((KERN_SUCCESS, x), sp')"
      "space_inv sp' xs' {x} (send_entries (is_table sp))" "set xs' = set xs - {x}" "space_frame (set xs) sp sp'"
      "ie_bits (is_table sp' ! x) = MACH_PORT_GEN name"
    using alloc_name_in_table_free [OF inv xs gen_only_MACH_PORT_GEN] by blast
  have "send_entries (is_table sp') = send_entries (is_table sp)"
    using send_entries_frame [OF inv a(2,4)] space_inv_types [OF inv] space_inv_types [OF a(2)] a(3) xs by auto
  with a False show ?thesis by (auto simp: space_ok_def)
qed

theorem ipc_entry_alloc_name_cases_witness:
  "\<exists>r sp' xs' P. alloc_name_in_table small_space 4 (MACH_PORT_GEN 0x457) = Some (r, sp') \<and> space_ok sp' xs' P
    \<and> (if 4 = (0::nat) \<or> entry_type (is_table small_space) 4 \<noteq> MACH_PORT_TYPE_NONE
           \<and> IE_BITS_GEN (ie_bits (is_table small_space ! 4)) \<noteq> MACH_PORT_GEN 0x457
       then r = (KERN_FAILURE, 0) \<and> sp' = small_space
       else if entry_type (is_table small_space) 4 \<noteq> MACH_PORT_TYPE_NONE then r = (KERN_SUCCESS, 4) \<and> sp' = small_space
       else r = (KERN_SUCCESS, 4) \<and> P = {4} \<and> set xs' = set [3, 4] - {4} \<and> space_frame (set [3, 4]) small_space sp'
         \<and> ie_bits (is_table sp' ! 4) = MACH_PORT_GEN 0x457)"
  by (rule ipc_entry_alloc_name_cases [OF small_space_ok]) (simp add: small_space_def small_table_nth)

end
