(* ===== verification/Ipc_Grow.thy ===== *)
theory Ipc_Grow
  imports Ipc_Entry
begin

text \<open>
  Growth of a capability table. \<open>ipc_entry_grow_table\<close> of \<open>Ipc_Entry\<close> copies the entries into a larger
  table, rebuilds the reverse hash for the new size and appends the new entries to the free list. It copies without the lock,
  so that what it reads may be out of date or inconsistent, and rescans the range of entries that other threads marked as modified.
  The lemmas show that whatever these threads do, as long as they mark what they modify and stop some time, the grown space is well formed and
  holds the rights that they left under the names that they left; and what allocation does when the space is full.
\<close>

section \<open>Copying entries\<close>

lemma vis_iff: "vis a = vis b \<longleftrightarrow> ie_object a = ie_object b \<and> ie_bits a = ie_bits b \<and> ie_request a = ie_request b"
  by (auto simp: vis_def)

lemma same_entries_vis: "same_entries t t' \<longleftrightarrow> length t' = length t \<and> (\<forall>i < length t. vis (t' ! i) = vis (t ! i))"
  by (auto simp: same_entries_def vis_def)

lemma grow_hashable_vis: "vis a = vis b \<Longrightarrow> grow_hashable a = grow_hashable b"
  by (simp add: vis_iff grow_hashable_def)

lemma rh_order_cong:
  assumes len: "length t' = length t"
    and hash: "\<And>i. i < length t \<Longrightarrow> ie_index (t' ! i) = ie_index (t ! i) \<and> ie_dist (t' ! i) = ie_dist (t ! i)"
    and obj: "\<And>j. j \<in> hashed t \<Longrightarrow> ie_object (t' ! j) = ie_object (t ! j)"
    and ok: "rh_order t"
  shows "rh_order t'" "hashed t' = hashed t"
proof -
  have obj': "ie_object (t' ! ie_index (t ! i)) = ie_object (t ! ie_index (t ! i))"
    if "i < length t" "0 < ie_index (t ! i)" for i
    by (rule obj) (use that in \<open>auto simp: hashed_def\<close>)
  have path: "probe_path t' h k = probe_path t h k" for h k
    using hash len by (cases "length t = 0") (auto simp: probe_path_def)
  have "rh_slot t' i" if "i < length t" for i
    using rh_orderD [OF ok that refl] hash [OF that] obj' [OF that] len
    by (simp add: rh_slot_def Let_def path slot_home_def)
  then show "rh_order t'" using len hash rh_order_inj [OF ok] by (simp add: rh_order_def)
  show "hashed t' = hashed t"
    unfolding hashed_def len set_eq_iff mem_Collect_eq using hash by metis
qed

text \<open>
  The new table at any time of the copy: its first \<open>n\<close> entries may be anything, but exactly those that look like send rights are
  hashed, the hash is ordered, and the new part is still that of \<open>T0\<close>.
\<close>

definition copying :: "nat \<Rightarrow> ipc_table \<Rightarrow> ipc_table \<Rightarrow> bool" where
  "copying n T0 T \<longleftrightarrow> length T = length T0 \<and> rh_order T \<and> hashed T = {j. j < n \<and> grow_hashable (T ! j)} \<and> \<not> grow_hashable (T ! 0)
     \<and> (\<forall>j < length T0. n \<le> j \<longrightarrow> vis (T ! j) = vis (T0 ! j))"

lemma grow_unhash:
  assumes c: "copying n T0 T" and k: "k < n" "n \<le> length T0" "length T0 \<le> IPC_ENTRY_DIST_MAX + 1"
  shows "\<exists>T1. (if grow_hashable (T ! k) then ipc_hash_table_delete T (length T0) (ie_object (T ! k)) k else Some T) = Some T1
    \<and> rh_order T1 \<and> same_entries T T1 \<and> hashed T1 = hashed T - {k}"
proof (cases "grow_hashable (T ! k)")
  case True
  have "rh_order T" "k \<in> hashed T" "length T = length T0" using c k True by (auto simp: copying_def)
  then show ?thesis using ipc_hash_table_delete_order [of T k] True k(3) by auto
qed (use c in \<open>auto simp: copying_def\<close>)

lemma grow_rehash:
  assumes T: "rh_order T" "k \<notin> hashed T" "k < length T" and k: "grow_hashable (T ! k) \<Longrightarrow> k \<noteq> 0"
  shows "\<exists>T1. (if grow_hashable (T ! k) then ipc_hash_table_insert T (length T) (ie_object (T ! k)) k else Some T) = Some T1
    \<and> rh_order T1 \<and> same_entries T T1 \<and> hashed T1 = hashed T \<union> (if grow_hashable (T ! k) then {k} else {})"
  using ipc_hash_table_insert_order [OF T(1) _ T(3,2), of "ie_object (T ! k)"] assms by (auto simp: grow_hashable_def)

lemma grow_copy_entry_ok:
  assumes c: "copying n T0 T" and k: "k < n" "n \<le> length T0" "length T0 \<le> IPC_ENTRY_DIST_MAX + 1"
    and v: "k < length v" "grow_hashable (v ! k) \<Longrightarrow> k \<noteq> 0"
  shows "\<exists>T'. grow_copy_entry v (length T0) T k = Some T' \<and> copying n T0 T'
    \<and> (\<forall>j < length T0. vis (T' ! j) = vis (if j = k then v ! k else T ! j))"
proof -
  have C: "length T = length T0" "rh_order T" "hashed T = {j. j < n \<and> grow_hashable (T ! j)}" "\<not> grow_hashable (T ! 0)"
      "\<And>j. j < length T0 \<Longrightarrow> n \<le> j \<Longrightarrow> vis (T ! j) = vis (T0 ! j)"
    using c by (auto simp: copying_def)
  have kT: "k < length T" using k C(1) by linarith
  have fin: "copying n T0 T'" if T': "length T' = length T" "rh_order T'" "\<And>j. j < length T0 \<Longrightarrow> vis (T' ! j) = vis (if j = k then v ! k else T ! j)"
      "hashed T' = (hashed T - {k}) \<union> (if grow_hashable (v ! k) then {k} else {})" for T'
  proof -
    have g: "grow_hashable (T' ! j) = grow_hashable (if j = k then v ! k else T ! j)" if "j < length T0" for j
      by (rule grow_hashable_vis [OF T'(3) [OF that]])
    have "hashed T' = {j. j < n \<and> grow_hashable (T' ! j)}" unfolding T'(4) C(3) using g k by (auto split: if_splits)
    moreover have "\<not> grow_hashable (T' ! 0)" using g [of 0] k v(2) C(4) by (cases "k = 0"; cases T0) (use less_le_trans [OF k(1,2)] in auto)
    ultimately show ?thesis unfolding copying_def using T'(1-3) C(1,5) k(1) by simp
  qed
  show ?thesis
  proof (cases "ie_object (T ! k) \<noteq> ie_object (v ! k) \<or> IE_BITS_TYPE (ie_bits (T ! k)) \<noteq> IE_BITS_TYPE (ie_bits (v ! k))")
    case True
    obtain T1 where T1: "(if grow_hashable (T ! k) then ipc_hash_table_delete T (length T0) (ie_object (T ! k)) k else Some T) = Some T1"
        "rh_order T1" "same_entries T T1" "hashed T1 = hashed T - {k}"
      using grow_unhash [OF c k] by blast
    let ?e = "(T1 ! k)\<lparr>ie_object := ie_object (v ! k), ie_bits := ie_bits (v ! k), ie_request := ie_request (v ! k)\<rparr>"
    let ?T2 = "T1[k := ?e]"
    have len: "length T1 = length T" by (rule same_entries_length [OF T1(3)])
    have T2: "rh_order ?T2" "hashed ?T2 = hashed T1"
      by (rule rh_order_cong [OF _ _ _ T1(2)]; use kT len T1(4) in \<open>auto simp: nth_list_update_if\<close>)+
    have nth: "?T2 ! k = ?e" "grow_hashable ?e = grow_hashable (v ! k)" "ie_object ?e = ie_object (v ! k)" using kT len by (simp_all add: grow_hashable_def)
    obtain T3 where T3: "(if grow_hashable (?T2 ! k) then ipc_hash_table_insert ?T2 (length ?T2) (ie_object (?T2 ! k)) k else Some ?T2) = Some T3"
        "rh_order T3" "same_entries ?T2 T3" "hashed T3 = hashed ?T2 \<union> (if grow_hashable (?T2 ! k) then {k} else {})"
      using grow_rehash [OF T2(1), of k] T2(2) T1(4) kT len v(2) nth by auto
    have "(if grow_hashable ?e then ipc_hash_table_insert ?T2 (length T0) (ie_object ?e) k else Some ?T2) = Some T3"
      using T3(1) unfolding nth(1) by (simp only: length_list_update len C(1))
    then have "grow_copy_entry v (length T0) T k = Some T3"
      using True T1(1) kT len v(1) C(1) by (simp add: grow_copy_entry_def Let_def)
    moreover have vis: "vis (T3 ! j) = vis (if j = k then v ! k else T ! j)" if j: "j < length T0" for j
    proof -
      have "vis (T3 ! j) = vis (?T2 ! j)" using T3(3) j len C(1) by (simp add: same_entries_vis)
      also have "\<dots> = vis (if j = k then v ! k else T1 ! j)" using kT len by (simp add: nth_list_update_if vis_iff)
      also have "\<dots> = vis (if j = k then v ! k else T ! j)" using T1(3) j C(1) by (simp add: same_entries_vis)
      finally show ?thesis .
    qed
    moreover have "copying n T0 T3"
      by (rule fin) (use T3 T2(2) T1(4) vis nth len same_entries_length [OF T3(3)] in auto)
    ultimately show ?thesis by blast
  next
    case False
    let ?T' = "T[k := (T ! k)\<lparr>ie_bits := ie_bits (v ! k), ie_request := ie_request (v ! k)\<rparr>]"
    have "grow_copy_entry v (length T0) T k = Some ?T'" using False kT v(1) by (simp add: grow_copy_entry_def)
    moreover have vis: "vis (?T' ! j) = vis (if j = k then v ! k else T ! j)" for j
      using False kT by (simp add: nth_list_update_if vis_iff)
    have T': "rh_order ?T'" "hashed ?T' = hashed T"
      by (rule rh_order_cong [OF _ _ _ C(2)]; use kT in \<open>auto simp: nth_list_update_if\<close>)+
    have "grow_hashable (v ! k) = grow_hashable (T ! k)" using False by (simp add: grow_hashable_def)
    then have "copying n T0 ?T'"
      by (intro fin) (use T' vis C(3) k in auto)
    ultimately show ?thesis using vis by blast
  qed
qed

lemma grow_scan_ok:
  assumes "copying n T0 T" and n: "n \<le> length T0" "length T0 \<le> IPC_ENTRY_DIST_MAX + 1" "length v = n" and v0: "\<not> grow_hashable (v ! 0)"
    and b: "b \<le> n"
  shows "\<exists>T'. grow_scan v (length T0) [a..<b] T = Some T' \<and> copying n T0 T'
    \<and> (\<forall>j < length T0. vis (T' ! j) = vis (if a \<le> j \<and> j < b then v ! j else T ! j))"
  using assms(1)
proof (induction "b - a" arbitrary: a T)
  case 0
  then show ?case by auto
next
  case (Suc d)
  have d: "d = b - Suc a" using Suc.hyps(2) by linarith
  have a: "a < b" "a < n" using Suc.hyps(2) b by linarith+
  have "grow_hashable (v ! a) \<Longrightarrow> a \<noteq> 0" using v0 by (cases a) auto
  then obtain T1 where T1: "grow_copy_entry v (length T0) T a = Some T1" "copying n T0 T1"
      "\<forall>j < length T0. vis (T1 ! j) = vis (if j = a then v ! a else T ! j)"
    using grow_copy_entry_ok [OF Suc.prems(1) a(2) n(1,2), of v] a(2) n(3) by blast
  obtain T' where T': "grow_scan v (length T0) [Suc a..<b] T1 = Some T'" "copying n T0 T'"
      "\<forall>j < length T0. vis (T' ! j) = vis (if Suc a \<le> j \<and> j < b then v ! j else T1 ! j)"
    using Suc.hyps(1) [OF d T1(2)] by blast
  have "vis (T' ! j) = vis (if a \<le> j \<and> j < b then v ! j else T ! j)" if "j < length T0" for j
    using T'(3) T1(3) that a(1) by (cases "j = a") auto
  then show ?case using T1(1) T'(1,2) a(1) by (simp add: upt_conv_Cons)
qed

lemma grow_find_end_ok:
  assumes "fl_chain t a xs" "a < length t" "\<forall>x \<in> set xs. x < osize" "osize \<le> length t" "length xs < n"
    "\<forall>x \<in> set (a # xs). ie_object (t ! x) = IO_NULL"
  shows "grow_find_end n osize t a = Some (last (a # xs))"
  using assms
proof (induction xs arbitrary: a n)
  case Nil
  then obtain m where "n = Suc m" by (cases n) auto
  then show ?case using Nil by simp
next
  case (Cons x xs)
  then obtain m where n: "n = Suc m" by (cases n) auto
  have "grow_find_end m osize t x = Some (last (x # xs))" using Cons n by auto
  then show ?case using Cons.prems n by auto
qed

lemma grow_find_end_total:
  "a < osize \<Longrightarrow> osize \<le> length t \<Longrightarrow> \<exists>f. grow_find_end s osize t a = Some f \<and> f < osize"
  by (induction s arbitrary: a) (auto simp: Let_def)

lemma hashed_object: "rh_ok t \<Longrightarrow> j \<in> hashed t \<Longrightarrow> ie_object (t ! j) \<noteq> IO_NULL"
  by (auto simp: hashed_def dest: rh_okD(2))

lemma fl_chain_extend:
  "fl_chain t a xs \<Longrightarrow> length t \<le> length T \<Longrightarrow> \<forall>i \<in> insert a (set xs). ie_next (T ! i) = ie_next (t ! i) \<Longrightarrow>
     fl_chain T a xs"
  by (induction xs arbitrary: a) auto

lemma fl_chain_last: "fl_chain t a xs \<Longrightarrow> ie_next (t ! last (a # xs)) = 0"
  by (induction xs arbitrary: a) auto

lemma fl_chain_link:
  assumes "fl_chain t a xs" "fl_chain t y ys" "distinct (a # xs)" "a < length t" "y \<noteq> 0" "y < length t"
    "last (a # xs) \<notin> insert y (set ys)" "ie_next e = y"
  shows "fl_chain (t[last (a # xs) := e]) a (xs @ y # ys)"
  using assms
proof (induction xs arbitrary: a)
  case Nil
  then show ?case using fl_chain_update [of a y ys t] by auto
next
  case (Cons x xs)
  have "last (x # xs) \<noteq> a" using Cons.prems(3) by (metis distinct.simps(2) last_in_set list.discI)
  then show ?case using Cons by auto
qed

lemma bit_IS_GROWING: "bit IS_GROWING k \<longleftrightarrow> k = 29"
proof -
  have "IS_GROWING = push_bit 29 1" by (simp add: IS_GROWING_def)
  moreover have "bit (push_bit 29 1 :: 32 word) k \<longleftrightarrow> k = 29"
    by (simp only: bit_push_bit_iff bit_1_iff possible_bit_word) auto
  ultimately show ?thesis by simp
qed

lemma growing_roundtrip:
  assumes "\<not> is_growing sp"
  shows "(is_bits sp OR IS_GROWING) AND IS_GROWING = IS_GROWING"
    "(is_bits sp OR IS_GROWING) AND NOT IS_GROWING = is_bits sp"
proof -
  show "(is_bits sp OR IS_GROWING) AND IS_GROWING = IS_GROWING"
    by (rule bit_word_eqI) (auto simp: bit_simps)
  have "\<not> bit (is_bits sp) 29"
  proof
    assume "bit (is_bits sp) 29"
    then have "is_bits sp AND IS_GROWING = IS_GROWING"
      by (intro bit_word_eqI) (auto simp: bit_and_iff bit_IS_GROWING)
    with assms show False by (simp add: is_growing_def)
  qed
  then show "(is_bits sp OR IS_GROWING) AND NOT IS_GROWING = is_bits sp"
    by (intro bit_word_eqI) (auto simp: bit_and_iff bit_or_iff bit_not_iff bit_IS_GROWING)
qed

text \<open>The new table, copied from \<open>t\<close> and linked to the free list of its new part.\<close>

lemma grow_table_ok:
  assumes ok: "space_ok sp xs pend" and t: "t = is_table sp" and T: "copying (length t) T0 T" "\<And>j. j < length t \<Longrightarrow> vis (T ! j) = vis (t ! j)"
    and len: "length t < length T0" "length T0 \<le> IPC_ENTRY_DIST_MAX + 1"
    and new: "fl_chain T0 (length t) ys" "distinct ys" "set ys = {length t<..<length T0}"
      "\<forall>i \<in> {length t..<length T0}. \<exists>nx. T0 ! i = freelist_entry nx"
    and T': "T' = T[last (0 # xs) := (T ! last (0 # xs))\<lparr>ie_next := length t\<rparr>]"
  shows "space_ok (sp\<lparr>is_table := T', is_table_size := length T0, is_table_next := m,
      is_table_free := is_table_free sp + (length T0 - length t), is_bits := b\<rparr>) (xs @ length t # ys) pend"
proof -
  let ?l = "last (0 # xs)" and ?n = "length t" and ?N = "length T0"
  note D = space_invD [OF ok [unfolded space_ok_def], folded t]
  note F = space_inv_free [OF ok [unfolded space_ok_def], folded t]
  have lenT: "length T = ?N" and ordT: "rh_order T" and HT: "hashed T = {j. j < ?n \<and> grow_hashable (T ! j)}"
    and fresh: "\<And>j. ?n \<le> j \<Longrightarrow> j < ?N \<Longrightarrow> vis (T ! j) = vis (T0 ! j)"
    using T(1) by (auto simp: copying_def)
  note old = T(2)
  have n: "0 < ?n" using space_inv_length(1) [OF ok [unfolded space_ok_def]] t by simp
  have xl: "x < ?n" if "x \<in> set (0 # xs)" for x using F(2) that n by auto
  have l: "?l \<in> set (0 # xs)" by (metis last_in_set list.discI)
  have ln: "?l < ?n" by (rule xl [OF l])
  have next_old: "ie_next (T ! j) = ie_next (t ! j)" if "j < ?n" for j using old [OF that] by (simp add: vis_iff)
  have ch1: "fl_chain T 0 xs"
    by (rule fl_chain_extend [OF D(3)]) (use next_old xl lenT len in auto)
  have "fl_chain T ?n ys = fl_chain T0 ?n ys"
    by (rule fl_chain_cong [OF lenT]) (use fresh new(3) len in \<open>auto simp: vis_iff\<close>)
  then have ch2: "fl_chain T ?n ys" using new(1) by simp
  have d0: "distinct (0 # xs)" using D(4) F(1) by auto
  have ch: "fl_chain T' 0 (xs @ ?n # ys)"
    unfolding T' by (rule fl_chain_link [OF ch1 ch2 d0]) (use n len lenT ln new(3) in auto)
  have nthT: "T' ! j = (if j = ?l then (T ! ?l)\<lparr>ie_next := ?n\<rparr> else T ! j)" for j
    using ln len lenT by (simp add: T')
  have obj: "ie_object (T' ! j) = ie_object (T ! j)" "ie_bits (T' ! j) = ie_bits (T ! j)"
      "ie_index (T' ! j) = ie_index (T ! j)" "ie_dist (T' ! j) = ie_dist (T ! j)" for j
    by (simp_all add: nthT)
  have lenT': "length T' = ?N" by (simp add: T' lenT)
  have oldT: "ie_object (T' ! j) = ie_object (t ! j)" "ie_bits (T' ! j) = ie_bits (t ! j)" if "j < ?n" for j
    using old [OF that] by (simp_all add: obj vis_iff)
  have freshT: "ie_object (T' ! j) = IO_NULL" "ie_bits (T' ! j) = IE_BITS_GEN_MASK" if "?n \<le> j" "j < ?N" for j
    using fresh [OF that] bspec [OF new(4), of j] that by (auto simp: obj vis_iff)
  have genm: "gen_only IE_BITS_GEN_MASK" by (simp add: gen_only_def ie_bits_masks)
  have typeT: "entry_type T' j = (if j < ?n then entry_type t j else MACH_PORT_TYPE_NONE)" if "j < ?N" for j
    using oldT [of j] freshT [of j] that gen_only_fields(1) [OF genm] by (simp add: entry_type_def)
  have gh: "grow_hashable (t ! j) \<longleftrightarrow> entry_type t j = MACH_PORT_TYPE_SEND" if "j < ?n" for j
    using that D(12) hashed_object [of t j] D(2)
    by (auto simp: grow_hashable_def entry_type_def send_entries_def hash_table_ok_def)
  have H: "hashed T = send_entries t" using HT gh grow_hashable_vis [OF old] by (auto simp: send_entries_def)
  have "inj_on (\<lambda>j. ie_object (T ! j)) (hashed T) = inj_on (\<lambda>j. ie_object (t ! j)) (hashed t)"
    unfolding H D(12) by (rule inj_on_cong) (use old in \<open>auto simp: send_entries_def vis_iff\<close>)
  then have okT: "rh_ok T" using ordT D(2) by (simp add: rh_ok_order hash_table_ok_def)
  have "rh_ok T'" "hashed T' = hashed T"
    by (rule rh_ok_cong [OF _ _ _ okT]; use obj lenT lenT' in simp)+
  then have hashT: "hash_table_ok T'" "hashed T' = hashed T"
    using len lenT' n by (auto simp: hash_table_ok_def)
  have S: "send_entries T' = send_entries t"
    using typeT len lenT' by (auto simp: send_entries_def split: if_splits)
  have free: "free_entry (T' ! x)" if "x \<in> set (xs @ ?n # ys)" for x
  proof (cases "x < ?n")
    case True
    then have "x \<in> set xs" using that new(3) by auto
    then show ?thesis using F(4,5) oldT [OF True] by (simp add: free_entry_iff)
  next
    case False
    then have "x < ?N" using that new(3) len xl by auto
    then show ?thesis using freshT [of x] False genm by (simp add: free_entry_iff)
  qed
  have types: "\<forall>i \<in> {0<..<?N}. entry_type T' i = MACH_PORT_TYPE_NONE \<longleftrightarrow> i \<in> set (xs @ ?n # ys) \<union> pend"
    using typeT D(8,11) new(3) xl by (auto simp: subset_iff)
  have "x < ?n" if "x \<in> set xs" for x using xl that by simp
  then have "distinct (xs @ ?n # ys)" using D(4) new(2,3) by fastforce
  moreover have "length (xs @ ?n # ys) = is_table_free sp + (?N - ?n)"
    using D(5) distinct_card [OF new(2)] new(3) len(1) by simp
  moreover have "set (xs @ ?n # ys) \<inter> pend = {}" using D(7,8) new(3) by auto
  moreover have "pend \<subseteq> {0<..<?N}" "0 < ?N" using D(8) len(1) by auto
  ultimately show ?thesis
    unfolding space_ok_def space_inv_def
    using D(9,10,13-16) ch free types hashT H S lenT' len oldT [of 0] n t by simp
qed

section \<open>Copying while other threads run\<close>

text \<open>
  The space as growth leaves it unlocked, and what other threads may do to it until the lock is taken again. The growing thread sees the table \<open>v\<close>.
  An entry that lies outside the range of modified entries has its old value before, during and after; an entry in that range may have been read as anything, also
  as a mixture of an old and a new value. The head of the free list changes only if an entry does. Entry 0 is never a right. The well-formedness of the
  space, the size of its table and the growing bit are kept, since there is at most one thread that grows it; the space may have died.
\<close>

definition growing_state :: "nat set \<Rightarrow> ipc_space \<Rightarrow> bool" where
  "growing_state pend sp \<longleftrightarrow> (\<exists>xs. space_ok sp xs pend) \<and> is_active sp \<and> is_growing sp
     \<and> is_low_mod sp = length (is_table sp) \<and> is_high_mod sp = 0"

definition unmarked :: "ipc_space \<Rightarrow> nat \<Rightarrow> bool" where
  "unmarked sp j \<longleftrightarrow> j < is_low_mod sp \<or> is_high_mod sp < j"

definition marks_changes :: "nat set \<Rightarrow> ipc_space \<Rightarrow> ipc_table \<Rightarrow> ipc_space \<Rightarrow> bool" where
  "marks_changes pend sp v sp' \<longleftrightarrow> (let n = length (is_table sp) in
     length v = n \<and> ie_object (v ! 0) = IO_NULL \<and> ie_bits (v ! 0) = 0 \<and> is_growing sp'
     \<and> (is_active sp' \<longrightarrow> (\<exists>xs. space_ok sp' xs pend) \<and> length (is_table sp') = n \<and> is_table_next sp' = is_table_next sp
          \<and> (is_low_mod sp' < n \<longrightarrow> 0 < is_high_mod sp')
          \<and> (\<forall>j. 0 < j \<longrightarrow> j < n \<longrightarrow> unmarked sp' j \<longrightarrow> vis (v ! j) = vis (is_table sp ! j) \<and> vis (is_table sp' ! j) = vis (is_table sp ! j))
          \<and> (is_low_mod sp' = n \<longrightarrow> ie_next (v ! 0) = ie_next (is_table sp ! 0) \<and> ie_next (is_table sp' ! 0) = ie_next (is_table sp ! 0))))"

definition disciplined :: "nat set \<Rightarrow> (nat \<Rightarrow> ipc_space \<Rightarrow> ipc_space) \<Rightarrow> bool" where
  "disciplined pend env \<longleftrightarrow>
     (\<forall>k sp. growing_state pend sp \<longrightarrow> marks_changes pend sp (is_table (env (2 * k + 1) sp)) (env (2 * k + 2) sp))"

text \<open>From round \<open>K\<close> on no entry is modified.\<close>

definition quiet_after :: "(nat \<Rightarrow> ipc_space \<Rightarrow> ipc_space) \<Rightarrow> nat \<Rightarrow> bool" where
  "quiet_after env K \<longleftrightarrow> (\<forall>k \<ge> K. \<forall>sp. is_low_mod (env (2 * k + 2) sp) = is_low_mod sp)"

text \<open>The space as the growing thread finds it at the end of round \<open>k + m\<close>, when it copies from \<open>sp\<close> in round \<open>k\<close>.\<close>

fun relocked :: "(nat \<Rightarrow> ipc_space \<Rightarrow> ipc_space) \<Rightarrow> nat \<Rightarrow> ipc_space \<Rightarrow> nat \<Rightarrow> ipc_space" where
  "relocked env k sp 0 = env (2 * k + 2) sp"
| "relocked env k sp (Suc m) =
     (let sp' = env (2 * k + 2) sp in relocked env (k + 1) (sp'\<lparr>is_low_mod := length (is_table sp'), is_high_mod := 0\<rparr>) m)"

lemma space_ok_mods:
  "space_ok sp xs pend \<Longrightarrow> low \<le> length (is_table sp) \<Longrightarrow> high < length (is_table sp) \<Longrightarrow>
    space_ok (sp\<lparr>is_low_mod := low, is_high_mod := high\<rparr>) xs pend"
  by (simp add: space_ok_def space_inv_def)

lemma growing_state_next:
  assumes "growing_state pend sp" "marks_changes pend sp v sp'" "is_active sp'"
  shows "growing_state pend (sp'\<lparr>is_low_mod := length (is_table sp), is_high_mod := 0\<rparr>)"
proof -
  obtain xs where "space_ok sp' xs pend" "length (is_table sp') = length (is_table sp)" "is_growing sp'"
    using assms by (auto simp: marks_changes_def Let_def)
  then show ?thesis
    using assms(3) space_ok_mods [of sp' xs pend "length (is_table sp')" 0] space_inv_length(1) [of sp' xs pend]
    by (auto simp: growing_state_def space_ok_def is_active_def is_growing_def)
qed

text \<open>The copy agrees with the space outside of the range that is still to be scanned.\<close>

definition copied_outside :: "nat \<Rightarrow> nat \<Rightarrow> nat \<Rightarrow> ipc_table \<Rightarrow> ipc_table \<Rightarrow> ipc_table \<Rightarrow> bool" where
  "copied_outside n low hi T0 t T \<longleftrightarrow> copying n T0 T \<and> ie_object (T ! 0) = IO_NULL \<and> ie_bits (T ! 0) = 0
     \<and> (\<forall>j. 0 < j \<longrightarrow> j < n \<longrightarrow> j < low \<or> hi < j \<longrightarrow> vis (T ! j) = vis (t ! j))"

lemma copying_rebase:
  assumes "copying n T0 T" "T \<noteq> []" "0 < n"
  shows "copying n T0 (T[0 := (T ! 0)\<lparr>ie_next := x\<rparr>])"
proof -
  let ?T = "T[0 := (T ! 0)\<lparr>ie_next := x\<rparr>]"
  have T: "length T = length T0" "rh_order T" using assms(1) by (auto simp: copying_def)
  have "rh_order ?T" "hashed ?T = hashed T"
    by (rule rh_order_cong [OF _ _ _ T(2)]; use assms(2) in \<open>auto simp: nth_list_update_if\<close>)+
  moreover have "grow_hashable (?T ! j) = grow_hashable (T ! j)" for j
    using assms(2) by (simp add: nth_list_update_if grow_hashable_def)
  ultimately show ?thesis using assms T(1) by (simp add: copying_def)
qed

lemma grow_round:
  assumes st: "growing_state pend sp" and mc: "marks_changes pend sp v sp'" and c: "copied_outside n low hi T0 (is_table sp) T"
    and n: "n = length (is_table sp)" "n < length T0" "length T0 \<le> IPC_ENTRY_DIST_MAX + 1" "hi < n"
  shows "\<exists>T1 T2 fi. grow_scan v (length T0) [low..<Suc hi] T = Some T1 \<and> T1 \<noteq> [] \<and> T2 = T1[0 := (T1 ! 0)\<lparr>ie_next := ie_next (v ! 0)\<rparr>]
    \<and> grow_find_end n n T2 0 = Some fi
    \<and> (is_active sp' \<longrightarrow> copied_outside n (is_low_mod sp') (is_high_mod sp') T0 (is_table sp') T2
         \<and> (is_low_mod sp' = n \<longrightarrow> (\<forall>j < n. vis (T2 ! j) = vis (is_table sp' ! j))))"
proof -
  have v: "length v = n" "ie_object (v ! 0) = IO_NULL" "ie_bits (v ! 0) = 0" and n0: "0 < n"
    using mc n by (auto simp: marks_changes_def Let_def)
  have C: "copying n T0 T" "ie_object (T ! 0) = IO_NULL" "ie_bits (T ! 0) = 0"
      "\<And>j. 0 < j \<Longrightarrow> j < n \<Longrightarrow> j < low \<or> hi < j \<Longrightarrow> vis (T ! j) = vis (is_table sp ! j)"
    using c by (auto simp: copied_outside_def)
  obtain T1 where T1: "grow_scan v (length T0) [low..<Suc hi] T = Some T1" "copying n T0 T1"
      "\<forall>j < length T0. vis (T1 ! j) = vis (if low \<le> j \<and> j < Suc hi then v ! j else T ! j)"
    using grow_scan_ok [OF C(1) _ n(3) v(1), of "Suc hi" low] n v(2) by (auto simp: grow_hashable_def)
  let ?T2 = "T1[0 := (T1 ! 0)\<lparr>ie_next := ie_next (v ! 0)\<rparr>]"
  have len: "length T1 = length T0" using T1(2) by (simp add: copying_def)
  then have ne: "T1 \<noteq> []" using n by auto
  obtain fi where fi: "grow_find_end n n ?T2 0 = Some fi" using grow_find_end_total [of 0 n ?T2 n] n0 n len by auto
  have "0 < length T0" using n by linarith
  then have T10: "vis (T1 ! 0) = vis (if low \<le> 0 \<and> 0 < Suc hi then v ! 0 else T ! 0)" using T1(3) by blast
  have head: "ie_object (?T2 ! 0) = IO_NULL" "ie_bits (?T2 ! 0) = 0" "ie_next (?T2 ! 0) = ie_next (v ! 0)"
    using T10 C(2,3) v ne by (auto simp: vis_iff split: if_splits)
  have "copied_outside n (is_low_mod sp') (is_high_mod sp') T0 (is_table sp') ?T2
      \<and> (is_low_mod sp' = n \<longrightarrow> (\<forall>j < n. vis (?T2 ! j) = vis (is_table sp' ! j)))" if act: "is_active sp'"
  proof -
    obtain xs where A: "space_ok sp' xs pend"
        "\<And>j. 0 < j \<Longrightarrow> j < n \<Longrightarrow> unmarked sp' j \<Longrightarrow> vis (v ! j) = vis (is_table sp ! j) \<and> vis (is_table sp' ! j) = vis (is_table sp ! j)"
        "is_low_mod sp' = n \<longrightarrow> ie_next (v ! 0) = ie_next (is_table sp' ! 0)"
      using mc act n(1) by (auto simp: marks_changes_def Let_def)
    have out: "vis (?T2 ! j) = vis (is_table sp' ! j)" if "0 < j" "j < n" "unmarked sp' j" for j
      using A(2) [OF that] T1(3) C(4) [OF that(1,2)] that n(2) by auto
    then have "copied_outside n (is_low_mod sp') (is_high_mod sp') T0 (is_table sp') ?T2"
      using copying_rebase [OF T1(2) ne n0] head by (simp add: copied_outside_def unmarked_def)
    moreover have "vis (?T2 ! j) = vis (is_table sp' ! j)" if "is_low_mod sp' = n" "j < n" for j
    proof (cases "j = 0")
      case True
      then show ?thesis
        using head A(3) that space_invD(9,10) [OF A(1) [unfolded space_ok_def]] by (simp add: vis_def)
    qed (use out [of j] that in \<open>simp add: unmarked_def\<close>)
    ultimately show ?thesis by blast
  qed
  then show ?thesis using T1(1) ne fi by blast
qed

text \<open>What the loop returns, when it ends with the space \<open>spl\<close>.\<close>

definition rescan_result :: "nat set \<Rightarrow> nat \<Rightarrow> ipc_table \<Rightarrow> ipc_space \<Rightarrow> ipc_space + ipc_table \<times> nat \<times> ipc_space \<Rightarrow> bool" where
  "rescan_result pend n T0 spl r \<longleftrightarrow>
     (if is_active spl then \<exists>T fi. r = Inr (T, fi, spl) \<and> (\<exists>xs. space_ok spl xs pend) \<and> copying n T0 T \<and> is_growing spl
        \<and> length (is_table spl) = n \<and> (\<forall>j < n. vis (T ! j) = vis (is_table spl ! j)) \<and> grow_find_end n n T 0 = Some fi
      else r = Inl spl \<and> is_growing spl)"

lemma grow_rescan_ok:
  assumes env: "disciplined pend env" "quiet_after env K"
    and n: "n < length T0" "length T0 \<le> IPC_ENTRY_DIST_MAX + 1"
    and "growing_state pend sp" "n = length (is_table sp)" "copied_outside n low hi T0 (is_table sp) T" "hi < n"
  shows "\<exists>m r. grow_rescan env k n (length T0) low hi T sp = Some r \<and> rescan_result pend n T0 (relocked env k sp m) r
    \<and> (is_table_next (relocked env k sp m) = is_table_next sp \<or> \<not> is_active (relocked env k sp m))"
  using assms(5-8)
proof (induction "K - k" arbitrary: k sp low hi T rule: less_induct)
  case less
  let ?v = "is_table (env (2 * k + 1) sp)" and ?sp = "env (2 * k + 2) sp"
  have mc: "marks_changes pend sp ?v ?sp" using env(1) less.prems(1) by (simp add: disciplined_def)
  have n0: "0 < n" using less.prems(4) by simp
  obtain T1 T2 fi where R: "grow_scan ?v (length T0) [low..<Suc hi] T = Some T1" "T1 \<noteq> []" "T2 = T1[0 := (T1 ! 0)\<lparr>ie_next := ie_next (?v ! 0)\<rparr>]"
      "grow_find_end n n T2 0 = Some fi"
      "is_active ?sp \<longrightarrow> copied_outside n (is_low_mod ?sp) (is_high_mod ?sp) T0 (is_table ?sp) T2
         \<and> (is_low_mod ?sp = n \<longrightarrow> (\<forall>j < n. vis (T2 ! j) = vis (is_table ?sp ! j)))"
    using grow_round [OF less.prems(1) mc less.prems(3,2) n less.prems(4)] by blast
  have v: "0 < length ?v" using mc n0 less.prems(2) by (simp add: marks_changes_def Let_def)
  note step = grow_rescan.simps [of env k n "length T0" low hi T sp]
  show ?case
  proof (cases "is_active ?sp")
    case False
    have "grow_rescan env k n (length T0) low hi T sp = Some (Inl ?sp)"
      unfolding step using R False v by (simp add: Let_def del: upt_Suc)
    then show ?thesis using False mc by (intro exI [of _ 0]) (simp add: rescan_result_def marks_changes_def Let_def)
  next
    case act: True
    obtain xs where A: "space_ok ?sp xs pend" "length (is_table ?sp) = n" "is_table_next ?sp = is_table_next sp" "is_growing ?sp"
        "is_low_mod ?sp < n \<longrightarrow> 0 < is_high_mod ?sp"
      using mc act less.prems(2) by (auto simp: marks_changes_def Let_def)
    have mods: "is_low_mod ?sp \<le> n" "is_high_mod ?sp < n" using space_invD(14,15) [OF A(1) [unfolded space_ok_def]] A(2) by auto
    show ?thesis
    proof (cases "is_low_mod ?sp < n")
      case False
      have "grow_rescan env k n (length T0) low hi T sp = Some (Inr (T2, fi, ?sp))"
        unfolding step using R act False v by (simp add: Let_def del: upt_Suc)
      moreover have "rescan_result pend n T0 ?sp (Inr (T2, fi, ?sp))"
        using R(4,5) act A False mods(1) by (auto simp: rescan_result_def copied_outside_def)
      ultimately show ?thesis using A(3) by (intro exI [of _ 0]) auto
    next
      case True
      let ?s2 = "?sp\<lparr>is_low_mod := n, is_high_mod := 0\<rparr>"
      have "\<not> K \<le> k" using env(2) True less.prems(1,2) by (force simp: quiet_after_def growing_state_def)
      then have dec: "K - Suc k < K - k" by linarith
      have gs: "growing_state pend ?s2" using growing_state_next [OF less.prems(1) mc act] less.prems(2) by simp
      have co: "copied_outside n (is_low_mod ?sp) (is_high_mod ?sp) T0 (is_table ?s2) T2" using R(5) act by simp
      have len: "n = length (is_table ?s2)" using A(2) by simp
      obtain m r where m: "grow_rescan env (Suc k) n (length T0) (is_low_mod ?sp) (is_high_mod ?sp) T2 ?s2 = Some r"
          "rescan_result pend n T0 (relocked env (Suc k) ?s2 m) r"
          "is_table_next (relocked env (Suc k) ?s2 m) = is_table_next ?s2 \<or> \<not> is_active (relocked env (Suc k) ?s2 m)"
        using less.hyps [OF dec gs len co mods(2)] by blast
      have "grow_rescan env k n (length T0) low hi T sp = Some r"
        unfolding step using R act True v A(5) m(1) by (simp add: Let_def del: upt_Suc)
      then show ?thesis using m(2,3) A(2,3) by (intro exI [of _ "Suc m"]) (simp add: Let_def)
    qed
  qed
qed

text \<open>The end of the growth: the new part is linked to the end of the free list.\<close>

definition grown_space :: "ipc_table \<Rightarrow> nat \<Rightarrow> nat \<Rightarrow> ipc_space \<Rightarrow> ipc_space" where
  "grown_space T fi i sp = (let n = length (is_table sp) in
     sp\<lparr>is_table := T[fi := (T ! fi)\<lparr>ie_next := n\<rparr>], is_table_size := length T, is_table_next := i + 1,
       is_table_free := is_table_free sp + (length T - n), is_bits := is_bits sp AND NOT IS_GROWING\<rparr>)"

lemma free_list_short:
  assumes "space_ok sp xs pend"
  shows "length xs < length (is_table sp)" "\<forall>x \<in> set (0 # xs). x < length (is_table sp) \<and> ie_object (is_table sp ! x) = IO_NULL"
proof -
  note inv = assms [unfolded space_ok_def]
  have n: "0 < length (is_table sp)" by (rule space_inv_length [OF inv])
  have "set xs \<subseteq> {0<..<length (is_table sp)}" using space_inv_free(1,2) [OF inv] by auto
  then have "card (set xs) \<le> length (is_table sp) - 1" using card_mono [of "{0<..<length (is_table sp)}" "set xs"] by simp
  then show "length xs < length (is_table sp)" using distinct_card [OF space_invD(4) [OF inv]] n by linarith
  show "\<forall>x \<in> set (0 # xs). x < length (is_table sp) \<and> ie_object (is_table sp ! x) = IO_NULL"
    using space_inv_free(2,4) [OF inv] space_invD(9) [OF inv] n by auto
qed

lemma grow_finish:
  assumes ok: "space_ok sp xs pend" and n: "n = length (is_table sp)"
    and T': "copying n T0 T" "\<forall>j < n. vis (T ! j) = vis (is_table sp ! j)"
    and fi: "grow_find_end n n T 0 = Some fi"
    and len: "n < length T0" "length T0 \<le> IPC_ENTRY_DIST_MAX + 1"
    and new: "fl_chain T0 n ys" "distinct ys" "set ys = {n<..<length T0}" "\<forall>i \<in> {n..<length T0}. \<exists>nx. T0 ! i = freelist_entry nx"
  shows "fi = last (0 # xs)" "fi < n" "ie_next (T ! fi) = 0" "ie_object (T ! fi) = IO_NULL"
    "space_ok (grown_space T fi i sp) (xs @ n # ys) pend"
proof -
  note D = space_invD [OF ok [unfolded space_ok_def]]
  note S = free_list_short [OF ok, folded n] and T = T'(1) T'(2) [rule_format]
  have lenT: "length T = length T0" using T(1) by (simp add: copying_def)
  have "fl_chain T 0 xs"
    by (rule fl_chain_extend [OF D(3)]) (use T(2) S lenT len n in \<open>auto simp: vis_iff\<close>)
  then have "grow_find_end n n T 0 = Some (last (0 # xs))"
    by (rule grow_find_end_ok) (use S T(2) lenT len n in \<open>auto simp: vis_iff\<close>)
  then show fil: "fi = last (0 # xs)" using fi by (simp del: last.simps)
  have mem: "fi \<in> set (0 # xs)" unfolding fil by (metis last_in_set list.discI)
  then show fin: "fi < n" using S(2) by blast
  have "ie_next (is_table sp ! fi) = 0" unfolding fil by (rule fl_chain_last [OF D(3)])
  then show "ie_next (T ! fi) = 0" using T(2) [OF fin] by (simp add: vis_iff)
  show "ie_object (T ! fi) = IO_NULL" using T(2) [OF fin] S(2) mem by (auto simp: vis_iff)
  show "space_ok (grown_space T fi i sp) (xs @ n # ys) pend"
    unfolding grown_space_def Let_def n [symmetric] lenT fil unfolding n
    by (rule grow_table_ok [OF ok refl]) (use T len new n in auto)
qed

definition grow_start :: "ipc_space \<Rightarrow> ipc_space" where
  "grow_start sp = sp\<lparr>is_bits := is_bits sp OR IS_GROWING, is_low_mod := length (is_table sp), is_high_mod := 0\<rparr>"

text \<open>The new table before anything is copied.\<close>

lemma grow_new_table:
  assumes "0 < n" "n < N" "is_entropy sp \<noteq> []"
  shows "\<exists>sp' T ys. ipc_space_rand_freelist sp (replicate N null_entry) n N = Some (sp', T) \<and> same_but_rng sp sp' \<and> length T = N
    \<and> (let T0 = replicate n null_entry @ drop n T in length T0 = N \<and> fl_chain T0 n ys \<and> distinct ys \<and> set ys = {n<..<N}
        \<and> (\<forall>i \<in> {n..<N}. \<exists>nx. T0 ! i = freelist_entry nx) \<and> copied_outside n 0 (n - 1) T0 t T0)"
proof -
  obtain sp' T ys where R: "ipc_space_rand_freelist sp (replicate N null_entry) n N = Some (sp', T)" "same_but_rng sp sp'"
      "length T = N" "distinct ys" "set ys = {n<..<N}" "fl_chain T n ys"
      "\<forall>j \<in> {n..<N}. \<exists>nx. T ! j = (if j = 0 then (freelist_entry nx)\<lparr>ie_bits := 0\<rparr> else freelist_entry nx)"
    using ipc_space_rand_freelist_returns [of sp n N "replicate N null_entry"] assms by auto
  define T0 where "T0 = replicate n null_entry @ drop n T"
  have T0: "length T0 = N" "\<forall>j < n. T0 ! j = null_entry" "\<And>j. n \<le> j \<Longrightarrow> j < N \<Longrightarrow> T0 ! j = T ! j"
    using R(3) assms(2) by (auto simp: T0_def nth_append)
  have f: "\<forall>i \<in> {n..<N}. \<exists>nx. T0 ! i = freelist_entry nx"
    using R(7) T0(3) assms(1) by (metis atLeastLessThan_iff not_le)
  have "ie_index (T0 ! j) = 0" if "j < N" for j
    using T0(2) bspec [OF f, of j] that by (cases "j < n") (auto simp: null_entry_def)
  then have "rh_order T0" "hashed T0 = {}" using T0(1) by (auto simp: rh_order_def rh_slot_def hashed_def)
  then have "copied_outside n 0 (n - 1) T0 t T0"
    using T0(1,2) assms(1,2) by (auto simp: copied_outside_def copying_def grow_hashable_def null_entry_def)
  moreover have "fl_chain T0 n ys" using fl_chain_cong [of T0 T n ys] R(3,5,6) T0(1,3) assms(2) by auto
  ultimately show ?thesis
    using R T0(1) f unfolding T0_def [symmetric] Let_def by (intro exI [of _ sp'] exI [of _ T] exI [of _ ys]) (simp add: T0_def [symmetric])
qed

text \<open>What growth to \<open>N\<close> entries makes of the space \<open>spl\<close>, as it is when the copy is complete.\<close>

definition grown :: "nat set \<Rightarrow> nat \<Rightarrow> ipc_space \<Rightarrow> ipc_space \<Rightarrow> bool" where
  "grown pend N spl sp' \<longleftrightarrow> (let n = length (is_table spl) in
     (\<exists>ys. set ys = {n<..<N} \<and> (\<forall>xs. space_ok spl xs pend \<longrightarrow> space_ok sp' (xs @ n # ys) pend
         \<and> (\<forall>j < n. j \<notin> set (0 # xs) \<longrightarrow> vis (is_table sp' ! j) = vis (is_table spl ! j))))
     \<and> length (is_table sp') = N \<and> is_bits sp' = is_bits spl AND NOT IS_GROWING \<and> is_table_hashed sp' = is_table_hashed spl)"

definition growth :: "nat set \<Rightarrow> nat \<Rightarrow> nat \<Rightarrow> (nat \<Rightarrow> ipc_space \<Rightarrow> ipc_space) \<Rightarrow> ipc_space
    \<Rightarrow> (kern_return_t \<times> ipc_space) option \<Rightarrow> bool" where
  "growth pend n N env spl r \<longleftrightarrow>
     (if is_active spl then (\<exists>xs. space_ok spl xs pend) \<and> length (is_table spl) = n \<and> (\<exists>sp'. r = Some (KERN_SUCCESS, env 0 sp') \<and> grown pend N spl sp')
      else r = Some (KERN_SUCCESS, env 0 (spl\<lparr>is_bits := is_bits spl AND NOT IS_GROWING\<rparr>)))"

lemma is_active_bit: "is_active sp \<longleftrightarrow> \<not> bit (is_bits sp) 30"
proof -
  have IA: "IS_INACTIVE = push_bit 30 1" by (simp add: IS_INACTIVE_def)
  have b: "bit IS_INACTIVE k \<longleftrightarrow> k = 30" for k
    unfolding IA by (simp only: bit_push_bit_iff bit_1_iff possible_bit_word) auto
  have "is_bits sp AND IS_INACTIVE = IS_INACTIVE" if "bit (is_bits sp) 30"
    by (rule bit_word_eqI) (use that in \<open>auto simp: bit_and_iff b\<close>)
  moreover have "bit (is_bits sp) 30" if "is_bits sp AND IS_INACTIVE = IS_INACTIVE"
    using arg_cong [OF that, of "\<lambda>w. bit w 30"] by (simp add: bit_and_iff b)
  ultimately show ?thesis by (auto simp: is_active_def)
qed

lemma is_active_growing: "is_bits sp' = is_bits sp OR IS_GROWING \<Longrightarrow> is_active sp' = is_active sp"
  by (simp add: is_active_bit bit_or_iff bit_IS_GROWING)

lemma grow_start_growing:
  assumes "space_ok sp xs pend" "is_active sp" "\<not> is_growing sp" "same_but_rng (grow_start sp) sp0"
  shows "space_ok sp0 xs pend" "growing_state pend sp0" "is_table sp0 = is_table sp" "is_table_next sp0 = is_table_next sp"
    "is_table_hashed sp0 = is_table_hashed sp" "is_bits sp0 = is_bits sp OR IS_GROWING"
proof -
  obtain bg en where sp0: "sp0 = (grow_start sp)\<lparr>is_bool_gen := bg, is_entropy := en\<rparr>" "length en = length (is_entropy sp)"
    using assms(4) by (auto simp: same_but_rng_def grow_start_def)
  show ok: "space_ok sp0 xs pend" "is_table sp0 = is_table sp" "is_table_next sp0 = is_table_next sp"
    using assms(1) space_inv_length(1) [OF assms(1) [unfolded space_ok_def]]
    by (auto simp: sp0 grow_start_def space_ok_def space_inv_def)
  show "is_table_hashed sp0 = is_table_hashed sp" "is_bits sp0 = is_bits sp OR IS_GROWING" by (simp_all add: sp0 grow_start_def)
  show "growing_state pend sp0"
    using ok assms(2) is_active_growing [of sp0 sp] growing_roundtrip(1) [OF assms(3)]
    by (auto simp: growing_state_def is_growing_def sp0(1) grow_start_def)
qed

lemma grow_to_ok:
  assumes ok: "space_ok sp xs pend" and act: "is_active sp" "\<not> is_growing sp"
    and i: "i + 1 < length its" "length (is_table sp) < its_size (its ! i)" "its_size (its ! i) \<le> its_size (its ! (i + 1))"
      "its_size (its ! i) \<le> IPC_ENTRY_DIST_MAX + 1" "is_table_next sp = i \<or> tg"
    and env: "disciplined pend env" "quiet_after env K"
  shows "\<exists>sp0 m. same_but_rng (grow_start sp) sp0
    \<and> growth pend (length (is_table sp)) (its_size (its ! i)) env (relocked env 0 sp0 m) (grow_to its True env tg (length (is_table sp)) i sp)"
proof -
  let ?n = "length (is_table sp)" and ?N = "its_size (its ! i)"
  note D = space_invD [OF ok [unfolded space_ok_def]]
  have n: "0 < ?n" by (rule space_inv_length [OF ok [unfolded space_ok_def]])
  have en: "is_entropy (grow_start sp) \<noteq> []" using D(16) by (simp add: grow_start_def)
  obtain sp0 T ys where R: "ipc_space_rand_freelist (grow_start sp) (replicate ?N null_entry) ?n ?N = Some (sp0, T)"
      "same_but_rng (grow_start sp) sp0" "length T = ?N"
      and T0': "let T0 = replicate ?n null_entry @ drop ?n T in length T0 = ?N \<and> fl_chain T0 ?n ys \<and> distinct ys \<and> set ys = {?n<..<?N}
        \<and> (\<forall>i \<in> {?n..<?N}. \<exists>nx. T0 ! i = freelist_entry nx) \<and> copied_outside ?n 0 (?n - 1) T0 (is_table sp) T0"
    using grow_new_table [OF n i(2) en, of "is_table sp"] by blast
  define T0 where "T0 = replicate ?n null_entry @ drop ?n T"
  have T0: "length T0 = ?N" "fl_chain T0 ?n ys" "distinct ys" "set ys = {?n<..<?N}" "\<forall>i \<in> {?n..<?N}. \<exists>nx. T0 ! i = freelist_entry nx"
      "copied_outside ?n 0 (?n - 1) T0 (is_table sp) T0"
    using T0' unfolding Let_def T0_def [symmetric] by blast+
  note G = grow_start_growing [OF ok act R(2)]
  have bounds: "?n < length T0" "length T0 \<le> IPC_ENTRY_DIST_MAX + 1" using T0(1) i by simp_all
  have co: "copied_outside ?n 0 (?n - 1) T0 (is_table sp0) T0" using T0(6) G(3) by simp
  obtain m r where m: "grow_rescan env 0 ?n (length T0) 0 (?n - 1) T0 sp0 = Some r" "rescan_result pend ?n T0 (relocked env 0 sp0 m) r"
      "is_table_next (relocked env 0 sp0 m) = is_table_next sp0 \<or> \<not> is_active (relocked env 0 sp0 m)"
    using grow_rescan_ok [OF env bounds G(2) _ co, of 0] G(3) n by auto
  let ?spl = "relocked env 0 sp0 m"
  have st: "is_start_growing sp = Some (sp\<lparr>is_bits := is_bits sp OR IS_GROWING\<rparr>)"
    using act by (simp add: is_start_growing_def)
  have red: "grow_to its True env tg ?n i sp = (case r of
         Inl sp \<Rightarrow> do { sp \<leftarrow> is_done_growing sp; Some (KERN_SUCCESS, env 0 sp) }
       | Inr (table, free_index, sp) \<Rightarrow> do {
           e \<leftarrow> arr_get table free_index;
           kassert (ie_next e = 0 \<and> ie_object e = IO_NULL);
           table \<leftarrow> arr_set table free_index (e\<lparr>ie_next := ?n\<rparr>);
           kassert (is_table_next sp = i \<or> tg);
           kassert (is_table_size sp = ?n);
           sp \<leftarrow> is_done_growing (sp\<lparr>is_table := table, is_table_size := ?N, is_table_next := i + 1,
             is_table_free := is_table_free sp + (?N - ?n)\<rparr>);
           Some (KERN_SUCCESS, env 0 sp)
         })"
    using i st R(1) m(1) T0(1) unfolding grow_to_def
    by (cases r) (simp_all add: Let_def grow_start_def [symmetric] T0_def [symmetric] split: prod.split)
  have "growth pend ?n ?N env ?spl (grow_to its True env tg ?n i sp)"
  proof (cases "is_active ?spl")
    case False
    then have rs: "r = Inl ?spl" "is_growing ?spl" using m(2) unfolding rescan_result_def by simp_all
    then show ?thesis unfolding red growth_def using False by (simp add: is_done_growing_def)
  next
    case True
    obtain T fi xs' where F: "r = Inr (T, fi, ?spl)" "space_ok ?spl xs' pend" "copying ?n T0 T" "is_growing ?spl" "?n = length (is_table ?spl)"
        "\<forall>j < ?n. vis (T ! j) = vis (is_table ?spl ! j)" "grow_find_end ?n ?n T 0 = Some fi"
      using m(2) True unfolding rescan_result_def by (simp only: if_True) metis
    note fin = grow_finish [OF _ F(5,3,6,7), unfolded T0(1), OF _ i(2,4) T0(2-5)]
    have lenT: "length T = ?N" using F(3) T0(1) by (simp add: copying_def)
    have "grow_to its True env tg ?n i sp = Some (KERN_SUCCESS, env 0 (grown_space T fi i ?spl))"
      unfolding red F(1)
      using fin(2-4) [OF F(2)] m(3) True G(4) i(2,5) F(4) F(5) [symmetric] lenT space_invD(1) [OF F(2) [unfolded space_ok_def]]
      by (simp add: grown_space_def Let_def is_done_growing_def is_growing_def)
    moreover have "grown pend ?N ?spl (grown_space T fi i ?spl)"
      unfolding grown_def Let_def F(5) [symmetric]
    proof (intro conjI exI [of _ ys] allI impI)
      fix xs j assume x: "space_ok ?spl xs pend"
      show "space_ok (grown_space T fi i ?spl) (xs @ ?n # ys) pend" by (rule fin(5) [OF x])
      have "fi \<in> set (0 # xs)" unfolding fin(1) [OF x] by (metis last_in_set list.discI)
      moreover assume j: "j < ?n" "j \<notin> set (0 # xs)"
      ultimately have "fi \<noteq> j" by blast
      then show "vis (is_table (grown_space T fi i ?spl) ! j) = vis (is_table ?spl ! j)"
        using F(6) j by (simp add: grown_space_def Let_def)
    qed (use T0(4) lenT in \<open>simp_all add: grown_space_def Let_def\<close>)
    ultimately show ?thesis using True F(2,5) by (auto simp: growth_def)
  qed
  then show ?thesis using R(2) by blast
qed

text \<open>A space whose class in \<open>its\<close> has a larger successor of at most \<open>IPC_ENTRY_DIST_MAX + 1\<close> entries.\<close>

definition can_grow :: "ipc_table_size list \<Rightarrow> ipc_space \<Rightarrow> bool" where
  "can_grow its sp \<longleftrightarrow> (let i = is_table_next sp in
     0 < i \<and> i + 1 < length its \<and> its_size (its ! (i - 1)) = length (is_table sp)
     \<and> length (is_table sp) < its_size (its ! i) \<and> its_size (its ! i) \<le> its_size (its ! (i + 1))
     \<and> its_size (its ! i) \<le> IPC_ENTRY_DIST_MAX + 1)"

text \<open>A space of the largest class.\<close>

definition at_max :: "ipc_table_size list \<Rightarrow> ipc_space \<Rightarrow> bool" where
  "at_max its sp \<longleftrightarrow> (let i = is_table_next sp in
     0 < i \<and> i < length its \<and> its_size (its ! (i - 1)) = length (is_table sp) \<and> its_size (its ! i) = length (is_table sp))"

lemma ipc_entry_grow_table_max:
  "is_active sp \<Longrightarrow> \<not> is_growing sp \<Longrightarrow> at_max its sp \<Longrightarrow> ipc_entry_grow_table its mem env None sp = Some (KERN_NO_SPACE, sp)"
  by (auto simp: ipc_entry_grow_table_def at_max_def Let_def)

lemma grow_start_done:
  "is_active sp \<Longrightarrow> \<not> is_growing sp \<Longrightarrow>
    is_done_growing (grow_start sp) = Some (sp\<lparr>is_low_mod := length (is_table sp), is_high_mod := 0\<rparr>)"
  using growing_roundtrip [of sp] by (cases sp) (simp add: is_done_growing_def is_growing_def grow_start_def)

lemma ipc_entry_grow_table_nomem:
  assumes "is_active sp" "\<not> is_growing sp" "can_grow its sp"
  shows "ipc_entry_grow_table its False (\<lambda>k s. s) None sp
    = Some (KERN_RESOURCE_SHORTAGE, sp\<lparr>is_low_mod := length (is_table sp), is_high_mod := 0\<rparr>)"
proof -
  have "is_start_growing sp = Some (sp\<lparr>is_bits := is_bits sp OR IS_GROWING\<rparr>)" using assms by (simp add: is_start_growing_def)
  then show ?thesis
    using assms grow_start_done [of sp]
    by (auto simp: ipc_entry_grow_table_def grow_to_def can_grow_def Let_def grow_start_def)
qed

lemma ipc_entry_grow_table_growth:
  assumes "space_ok sp xs pend" "is_active sp" "\<not> is_growing sp" "can_grow its sp" "disciplined pend env" "quiet_after env K"
  shows "\<exists>sp0 m. same_but_rng (grow_start sp) sp0
    \<and> growth pend (length (is_table sp)) (its_size (its ! is_table_next sp)) env (relocked env 0 sp0 m)
        (ipc_entry_grow_table its True env None sp)"
proof -
  have "ipc_entry_grow_table its True env None sp = grow_to its True env False (length (is_table sp)) (is_table_next sp) sp"
    using assms(2-4) by (auto simp: ipc_entry_grow_table_def can_grow_def Let_def)
  then show ?thesis
    using grow_to_ok [OF assms(1-3) _ _ _ _ _ assms(5,6), of "is_table_next sp" its False] assms(4) by (auto simp: can_grow_def Let_def)
qed

text \<open>Without interference.\<close>

lemma disciplined_id: "disciplined pend (\<lambda>k s. s)"
  unfolding disciplined_def growing_state_def marks_changes_def Let_def
  using space_invD(9,10) by (auto simp: space_ok_def)

lemma quiet_id: "quiet_after (\<lambda>k s. s) 0"
  by (simp add: quiet_after_def)

lemma relocked_id: "growing_state pend sp \<Longrightarrow> relocked (\<lambda>k s. s) k sp m = sp"
proof (induction m arbitrary: k)
  case (Suc m)
  then have "sp\<lparr>is_low_mod := length (is_table sp), is_high_mod := 0\<rparr> = sp" by (cases sp) (auto simp: growing_state_def)
  then show ?case using Suc by (simp add: Let_def)
qed simp

lemma ipc_entry_grow_table_ok:
  assumes ok: "space_ok sp xs pend" and act: "is_active sp" "\<not> is_growing sp" and grow: "can_grow its sp"
  shows "\<exists>sp' ys. ipc_entry_grow_table its True (\<lambda>k s. s) None sp = Some (KERN_SUCCESS, sp')
    \<and> space_ok sp' (xs @ length (is_table sp) # ys) pend \<and> set ys = {length (is_table sp)<..<its_size (its ! is_table_next sp)}
    \<and> length (is_table sp') = its_size (its ! is_table_next sp) \<and> is_bits sp' = is_bits sp
    \<and> is_table_hashed sp' = is_table_hashed sp
    \<and> (\<forall>j < length (is_table sp). j \<notin> set (0 # xs) \<longrightarrow> vis (is_table sp' ! j) = vis (is_table sp ! j))"
proof -
  obtain sp0 m where g: "same_but_rng (grow_start sp) sp0"
      "growth pend (length (is_table sp)) (its_size (its ! is_table_next sp)) (\<lambda>k s. s) (relocked (\<lambda>k s. s) 0 sp0 m)
        (ipc_entry_grow_table its True (\<lambda>k s. s) None sp)"
    using ipc_entry_grow_table_growth [OF assms disciplined_id quiet_id] by blast
  note G = grow_start_growing [OF ok act g(1)]
  obtain sp' where sp': "ipc_entry_grow_table its True (\<lambda>k s. s) None sp = Some (KERN_SUCCESS, sp')"
      "grown pend (its_size (its ! is_table_next sp)) sp0 sp'"
    using g(2) G(2) unfolding relocked_id [OF G(2)] growth_def by (auto simp: growing_state_def)
  have "is_bits sp0 AND NOT IS_GROWING = is_bits sp" using growing_roundtrip(2) [OF act(2)] G(6) by simp
  then show ?thesis using sp' G(1,5) unfolding grown_def Let_def G(3) by auto
qed

lemma grown_keeps_rights:
  assumes ok: "space_ok sp xs {}" and act: "is_active sp" and g: "grown {} N sp sp'" "length (is_table sp) < N"
  shows "ipc_entry_lookup sp' name = ipc_entry_lookup sp name"
    "j < length (is_table sp) \<Longrightarrow> entry_type (is_table sp) j \<noteq> MACH_PORT_TYPE_NONE \<Longrightarrow> vis (is_table sp' ! j) = vis (is_table sp ! j)"
proof -
  let ?n = "length (is_table sp)"
  obtain ys where ys: "set ys = {?n<..<N}" "space_ok sp' (xs @ ?n # ys) {}"
      "\<forall>j < ?n. j \<notin> set (0 # xs) \<longrightarrow> vis (is_table sp' ! j) = vis (is_table sp ! j)"
    using g(1) ok by (auto simp: grown_def Let_def)
  have sp': "length (is_table sp') = N" "is_bits sp' = is_bits sp AND NOT IS_GROWING" using g(1) by (simp_all add: grown_def Let_def)
  note inv = ok [unfolded space_ok_def] and inv' = ys(2) [unfolded space_ok_def]
  have zero: "entry_type (is_table s) 0 = MACH_PORT_TYPE_NONE" if "space_inv s zs {} H" for s zs H
    using space_invD(10) [OF that] by (simp add: entry_type_def ie_bits_defs)
  show used: "vis (is_table sp' ! j) = vis (is_table sp ! j)" if "j < ?n" "entry_type (is_table sp) j \<noteq> MACH_PORT_TYPE_NONE" for j
    using ys(3) that zero [OF inv] space_inv_types [OF inv, of j] by (cases "j \<in> set (0 # xs)") auto
  have free: "entry_type (is_table sp') j = MACH_PORT_TYPE_NONE"
    if "0 < j" "j < N" "j < ?n \<longrightarrow> entry_type (is_table sp) j = MACH_PORT_TYPE_NONE" for j
  proof (rule space_inv_types [OF inv'])
    show "j \<in> set (xs @ ?n # ys) \<union> {}"
      using that ys(1) space_invD(11) [OF inv, of j] by (cases "j < ?n") auto
  qed
  let ?j = "MACH_PORT_INDEX name"
  have act': "is_active sp'" using act sp'(2) by (simp add: is_active_bit bit_and_iff)
  have "entry_type (is_table sp') ?j = entry_type (is_table sp) ?j \<and> ie_bits (is_table sp' ! ?j) = ie_bits (is_table sp ! ?j)"
    if "?j < ?n" "entry_type (is_table sp) ?j \<noteq> MACH_PORT_TYPE_NONE"
    using used [OF that] by (simp add: entry_type_def vis_iff)
  then show "ipc_entry_lookup sp' name = ipc_entry_lookup sp name"
    unfolding ipc_entry_lookup_eq [OF inv act] ipc_entry_lookup_eq [OF inv' act']
    using g(2) sp'(1) zero [OF inv] zero [OF inv'] free [of ?j]
    by (cases "?j < ?n \<and> entry_type (is_table sp) ?j \<noteq> MACH_PORT_TYPE_NONE"; cases "?j = 0") auto
qed

section \<open>Freeing an entry during growth\<close>

text \<open>\<open>ipc_entry_dealloc\<close> marks the entry that it frees: it is one of the things that other threads may do.\<close>

lemma ipc_entry_modified_marks: "ipc_entry_modified sp name i = Some sp' \<Longrightarrow> is_low_mod sp' \<le> i \<and> i \<le> is_high_mod sp'"
  by (auto simp: ipc_entry_modified_def Option.bind_eq_Some_conv Let_def split: if_splits)

lemma ipc_entry_dealloc_marks:
  assumes "ipc_entry_dealloc sp name i = Some sp'"
  shows "is_low_mod sp' \<le> i" "i \<le> is_high_mod sp'"
  using assms unfolding ipc_entry_dealloc_def
  by (auto simp: Option.bind_eq_Some_conv Let_def dest!: ipc_entry_modified_marks)

lemma dealloc_marks_changes:
  assumes st: "growing_state {} sp" and v: "length v = length (is_table sp)" "ie_object (v ! 0) = IO_NULL" "ie_bits (v ! 0) = 0"
      "\<And>j. 0 < j \<Longrightarrow> j < length (is_table sp) \<Longrightarrow> j \<noteq> i \<Longrightarrow> vis (v ! j) = vis (is_table sp ! j)"
    and i: "MACH_PORT_INDEX name = i" "0 < i" "i < length (is_table sp)" "entry_type (is_table sp) i = MACH_PORT_TYPE_DEAD_NAME"
    and e: "ie_object (is_table sp ! i) = IO_NULL" "ie_request (is_table sp ! i) = IE_REQ_NONE"
      "IE_BITS_GEN (ie_bits (is_table sp ! i)) = MACH_PORT_GEN name"
  shows "\<exists>sp'. ipc_entry_dealloc sp name i = Some sp' \<and> marks_changes {} sp v sp'"
proof -
  obtain xs where ok: "space_ok sp xs {}" and act: "is_active sp" "is_growing sp" using st by (auto simp: growing_state_def)
  note inv = ok [unfolded space_ok_def]
  have "i \<notin> set xs" using space_invD(11) [OF inv i(2,3)] i(4) by (auto simp: ie_bits_defs)
  then obtain sp' where sp': "ipc_entry_dealloc sp name i = Some sp'" "space_inv sp' (i # xs) {} (send_entries (is_table sp))"
      "space_frame {i} sp sp'"
    using ipc_entry_dealloc_ok [OF inv act(1) i(1-3) _ e] by auto
  have len: "length (is_table sp') = length (is_table sp)" using sp'(3) by (simp add: space_frame_def)
  have "send_entries (is_table sp') = send_entries (is_table sp)"
    by (rule send_entries_frame [OF inv sp'(2,3)])
      (use i(2-4) len space_inv_types [OF sp'(2), of i] in \<open>auto simp: ie_bits_defs\<close>)
  then have ok': "space_ok sp' (i # xs) {}" using sp'(2) by (simp add: space_ok_def)
  note mk = ipc_entry_dealloc_marks [OF sp'(1)]
  have "marks_changes {} sp v sp'"
    unfolding marks_changes_def Let_def
    using v(1-3) ok' len sp'(3) mk i(2,3) act(2) v(4)
    by (auto simp: space_frame_def is_growing_def unmarked_def)
  then show ?thesis using sp'(1) by blast
qed

section \<open>A space without free entries\<close>

text \<open>Two send rights, a dead name and a receive right, and nothing free.\<close>

definition busy_table :: ipc_table where
  "busy_table = small_table[0 := (small_table ! 0)\<lparr>ie_next := 0\<rparr>, 3 := (freelist_entry 0)\<lparr>ie_bits := 0x07100001\<rparr>,
     4 := (freelist_entry 0)\<lparr>ie_bits := 0x0b020000, ie_object := 0x3000000000\<rparr>]"

definition busy_space :: ipc_space where
  "busy_space = small_space\<lparr>is_table := busy_table, is_table_free := 0\<rparr>"

definition small_classes :: "ipc_table_size list" where
  "small_classes = [\<lparr>its_size = 5\<rparr>, \<lparr>its_size = 21\<rparr>, \<lparr>its_size = 42\<rparr>]"

lemma busy_table_nth:
  "length busy_table = 5" "busy_table ! 0 = null_entry\<lparr>ie_index := 1, ie_next := 0\<rparr>"
  "busy_table ! Suc 0 = (sample_send 1 0x07010001)\<lparr>ie_dist := 1, ie_index := 2\<rparr>" "busy_table ! 2 = sample_send 2 0x0b010001"
  "busy_table ! 3 = (freelist_entry 0)\<lparr>ie_bits := 0x07100001\<rparr>"
  "busy_table ! 4 = (freelist_entry 0)\<lparr>ie_bits := 0x0b020000, ie_object := 0x3000000000\<rparr>"
  by (simp_all add: busy_table_def small_table_nth)

lemma busy_hash: "hash_table_ok busy_table" "hashed busy_table = {1, 2}"
proof -
  have "rh_ok busy_table" "hashed busy_table = hashed small_table"
    by (rule rh_ok_cong [of _ small_table]; use small_hash_ok in
      \<open>auto simp: busy_table_def small_table_nth small_hashed hash_table_ok_def nth_list_update_if null_entry_def\<close>)+
  then show "hash_table_ok busy_table" "hashed busy_table = {1, 2}"
    using busy_table_nth(1) by (auto simp: hash_table_ok_def small_hashed IPC_ENTRY_DIST_MAX_def)
qed

lemma busy_types: "entry_type busy_table 0 = MACH_PORT_TYPE_NONE" "entry_type busy_table (Suc 0) = MACH_PORT_TYPE_SEND"
  "entry_type busy_table 2 = MACH_PORT_TYPE_SEND" "entry_type busy_table 3 = MACH_PORT_TYPE_DEAD_NAME"
  "entry_type busy_table 4 = MACH_PORT_TYPE_RECEIVE"
  by (simp_all add: entry_type_def busy_table_nth sample_send_def null_entry_def ie_bits_defs)

lemma busy_space_ok: "space_ok busy_space [] {}"
proof -
  have "[0..<5] = [0, Suc 0, 2, 3, 4]" by (simp add: upt_rec)
  then have "send_entries busy_table = {1, 2}" by (simp add: send_entries_code busy_table_nth(1) busy_types ie_bits_defs)
  then show ?thesis
    unfolding space_ok_def space_inv_def busy_space_def small_space_def using busy_hash
    by (simp add: busy_table_nth upto_5 busy_types ie_bits_defs sample_space_def null_entry_def)
qed

lemma busy_space_active: "is_active busy_space" "\<not> is_growing busy_space" "can_grow small_classes busy_space"
  using small_space_active
  by (simp_all add: busy_space_def is_active_def is_growing_def can_grow_def small_classes_def small_space_def sample_space_def
      busy_table_nth(1) IPC_ENTRY_DIST_MAX_def)

text \<open>
  A thread that frees the dead name 3 while the table is copied. The copying thread reads the entry half way: as a send right for the
  port of entry 1.
\<close>

definition dead_name_at :: "ipc_space \<Rightarrow> nat \<Rightarrow> bool" where
  "dead_name_at sp i \<longleftrightarrow> i < length (is_table sp) \<and> entry_type (is_table sp) i = MACH_PORT_TYPE_DEAD_NAME
     \<and> ie_object (is_table sp ! i) = IO_NULL \<and> ie_request (is_table sp ! i) = IE_REQ_NONE"

definition freeing_env :: "nat \<Rightarrow> ipc_space \<Rightarrow> ipc_space" where
  "freeing_env k sp =
     (if dead_name_at sp 3 then
        if k = 1 then sp\<lparr>is_table := (is_table sp)[3 := sample_send 1 0x07010001]\<rparr>
        else if k = 2 then the (ipc_entry_dealloc sp (MACH_PORT_MAKE 3 (IE_BITS_GEN (ie_bits (is_table sp ! 3)))) 3)
        else sp
      else sp)"

lemma freeing_env_disciplined: "disciplined {} freeing_env"
  unfolding disciplined_def
proof (intro allI impI)
  fix k sp assume st: "growing_state {} sp"
  let ?name = "MACH_PORT_MAKE 3 (IE_BITS_GEN (ie_bits (is_table sp ! 3)))" and ?v = "(is_table sp)[3 := sample_send 1 0x07010001]"
  have head: "ie_object (is_table sp ! 0) = IO_NULL" "ie_bits (is_table sp ! 0) = 0"
    using st space_invD(9,10) by (auto simp: growing_state_def space_ok_def)
  show "marks_changes {} sp (is_table (freeing_env (2 * k + 1) sp)) (freeing_env (2 * k + 2) sp)"
  proof (cases "k = 0 \<and> dead_name_at sp 3")
    case True
    then have "\<exists>sp'. ipc_entry_dealloc sp ?name 3 = Some sp' \<and> marks_changes {} sp ?v sp'"
      by (intro dealloc_marks_changes [OF st]) (use head in \<open>auto simp: dead_name_at_def\<close>)
    then show ?thesis using True by (auto simp: freeing_env_def)
  next
    case False
    then have "freeing_env (2 * k + 1) sp = sp" "freeing_env (2 * k + 2) sp = sp" by (auto simp: freeing_env_def)
    then show ?thesis using disciplined_id [of "{}"] st by (simp add: disciplined_def)
  qed
qed

lemma freeing_env_quiet: "quiet_after freeing_env 1"
  by (simp add: quiet_after_def freeing_env_def)

lemma ipc_entry_alloc_grow_once:
  assumes "space_ok sp xs {}" "is_active sp" "\<not> is_growing sp" "can_grow its sp" "ipc_entries_hold sp 1 = Some KERN_NO_SPACE"
    and "is_table_hashed sp + 1 \<le> its_size (its ! is_table_next sp) * 7 div 8"
  shows "\<exists>name sp' xs'. let i = hd (xs @ [length (is_table sp)]) in
    ipc_entry_alloc its True (\<lambda>k s. s) sp = Some ((KERN_SUCCESS, name, i), sp')
    \<and> length (is_table sp') = its_size (its ! is_table_next sp)
    \<and> space_ok sp' xs' {i} \<and> MACH_PORT_INDEX name = i \<and> MACH_PORT_VALID name
    \<and> (\<forall>j < length (is_table sp). j \<notin> set (0 # xs) \<longrightarrow> vis (is_table sp' ! j) = vis (is_table sp ! j))"
proof -
  let ?n = "length (is_table sp)"
  obtain sp1 ys where g: "ipc_entry_grow_table its True (\<lambda>k s. s) None sp = Some (KERN_SUCCESS, sp1)"
      "space_ok sp1 (xs @ ?n # ys) {}" "length (is_table sp1) = its_size (its ! is_table_next sp)" "is_bits sp1 = is_bits sp"
      "\<forall>j < ?n. j \<notin> set (0 # xs) \<longrightarrow> vis (is_table sp1 ! j) = vis (is_table sp ! j)" "is_table_hashed sp1 = is_table_hashed sp"
    using ipc_entry_grow_table_ok [OF assms(1-4)] by blast
  note inv1 = g(2) [unfolded space_ok_def]
  obtain i zs where zs: "xs @ ?n # ys = i # zs" "i = hd (xs @ [?n])" by (cases xs) auto
  have act1: "is_active sp1" using assms(2) g(4) by (simp add: is_active_def)
  have hold1: "ipc_entries_hold sp1 1 = Some KERN_SUCCESS"
    using ipc_entries_hold_eq [OF inv1 act1, of 1] assms(6) g(3,6) space_invD(1) [OF inv1] by simp
  obtain name sp' where c: "ipc_entry_claim sp1 = Some ((KERN_SUCCESS, name, i), sp')"
      "space_inv sp' zs (insert i {}) (send_entries (is_table sp1))" "MACH_PORT_INDEX name = i" "MACH_PORT_VALID name"
      "space_frame {i} sp1 sp'" "send_entries (is_table sp') = send_entries (is_table sp1)"
    using ipc_entry_claim_ok [OF inv1 [unfolded zs(1)]] by blast
  have "ipc_entry_alloc its True (\<lambda>k s. s) sp1 = Some ((KERN_SUCCESS, name, i), sp')"
    using act1 hold1 c(1) by (subst ipc_entry_alloc.simps) simp
  then have "ipc_entry_alloc its True (\<lambda>k s. s) sp = Some ((KERN_SUCCESS, name, i), sp')"
    using assms(2) assms(5) g(1) by (subst ipc_entry_alloc.simps) simp
  moreover have "vis (is_table sp' ! j) = vis (is_table sp ! j)" if j: "j < ?n" "j \<notin> set (0 # xs)" for j
  proof -
    have "j \<noteq> i" using j zs(2) by (cases xs) auto
    then show ?thesis using g(5) j c(5) g(3) assms(4) by (auto simp: space_frame_def can_grow_def Let_def)
  qed
  moreover have "length (is_table sp') = its_size (its ! is_table_next sp)" using c(5) g(3) by (simp add: space_frame_def)
  ultimately show ?thesis unfolding Let_def zs(2) [symmetric] using c(2-4,6) by (auto simp: space_ok_def)
qed

section \<open>Properties\<close>

text \<open>
  C5. Growth of the table of a well-formed active space to a class of at most 4096 entries, when there is memory for the new table, while other threads use the space.
  These may change entries as long as they record every entry they change in the range of modified entries, what is read of a changed entry meanwhile may be anything, and
  from some round on no entry changes (\<open>disciplined\<close>, \<open>quiet_after\<close>). Then growth returns and no assertion fails. If the space is still active, the grown space is well formed,
  and it holds what the space \<open>spl\<close> held when the copy was complete: the new entries are appended to its free list, every entry in use
  has its object, bits and request under its index, so every name denotes the right that it denoted in \<open>spl\<close>, and the rebuilt reverse hash has exactly the send rights. If the space died,
  only the growing bit is cleared.
\<close>

theorem ipc_entry_grow_table_keeps_rights:
  assumes "space_ok sp xs {}" "is_active sp" "\<not> is_growing sp" "can_grow its sp" "disciplined {} env" "quiet_after env K"
  shows "\<exists>sp0 m. same_but_rng (grow_start sp) sp0 \<and> (let spl = relocked env 0 sp0 m in
    if is_active spl then \<exists>xs ys sp'. ipc_entry_grow_table its True env None sp = Some (KERN_SUCCESS, env 0 sp')
      \<and> space_ok spl xs {} \<and> space_ok sp' (xs @ length (is_table sp) # ys) {}
      \<and> length (is_table sp') = its_size (its ! is_table_next sp)
      \<and> (\<forall>name. ipc_entry_lookup sp' name = ipc_entry_lookup spl name)
      \<and> (\<forall>j < length (is_table sp). entry_type (is_table spl) j \<noteq> MACH_PORT_TYPE_NONE \<longrightarrow>
           vis (is_table sp' ! j) = vis (is_table spl ! j))
    else ipc_entry_grow_table its True env None sp
      = Some (KERN_SUCCESS, env 0 (spl\<lparr>is_bits := is_bits spl AND NOT IS_GROWING\<rparr>)))"
proof -
  obtain sp0 m where g: "same_but_rng (grow_start sp) sp0"
      "growth {} (length (is_table sp)) (its_size (its ! is_table_next sp)) env (relocked env 0 sp0 m) (ipc_entry_grow_table its True env None sp)"
    using ipc_entry_grow_table_growth [OF assms] by blast
  let ?spl = "relocked env 0 sp0 m"
  show ?thesis
  proof (intro exI conjI)
    show "let spl = ?spl in
      if is_active spl then \<exists>xs ys sp'. ipc_entry_grow_table its True env None sp = Some (KERN_SUCCESS, env 0 sp')
        \<and> space_ok spl xs {} \<and> space_ok sp' (xs @ length (is_table sp) # ys) {}
        \<and> length (is_table sp') = its_size (its ! is_table_next sp)
        \<and> (\<forall>name. ipc_entry_lookup sp' name = ipc_entry_lookup spl name)
        \<and> (\<forall>j < length (is_table sp). entry_type (is_table spl) j \<noteq> MACH_PORT_TYPE_NONE \<longrightarrow>
             vis (is_table sp' ! j) = vis (is_table spl ! j))
      else ipc_entry_grow_table its True env None sp
        = Some (KERN_SUCCESS, env 0 (spl\<lparr>is_bits := is_bits spl AND NOT IS_GROWING\<rparr>))"
    proof (cases "is_active ?spl")
      case False
      then show ?thesis using g(2) unfolding Let_def growth_def by simp
    next
      case True
      obtain xs sp' where A: "space_ok ?spl xs {}" "length (is_table ?spl) = length (is_table sp)"
          "ipc_entry_grow_table its True env None sp = Some (KERN_SUCCESS, env 0 sp')" "grown {} (its_size (its ! is_table_next sp)) ?spl sp'"
        using g(2) True unfolding growth_def by (simp only: if_True) blast
      obtain ys where "space_ok sp' (xs @ length (is_table sp) # ys) {}" "length (is_table sp') = its_size (its ! is_table_next sp)"
        using A(1,2,4) unfolding grown_def Let_def by auto
      moreover have "length (is_table ?spl) < its_size (its ! is_table_next sp)" using assms(4) A(2) by (simp add: can_grow_def Let_def)
      note grown_keeps_rights [OF A(1) True A(4) this, unfolded A(2)]
      ultimately show ?thesis unfolding Let_def using True A(1,3) by (simp only: if_True) blast
    qed
  qed (rule g(1))
qed

theorem ipc_entry_grow_table_keeps_rights_witness:
  "\<exists>sp0 m. same_but_rng (grow_start busy_space) sp0 \<and> (let spl = relocked freeing_env 0 sp0 m in
    if is_active spl then \<exists>xs ys sp'. ipc_entry_grow_table small_classes True freeing_env None busy_space = Some (KERN_SUCCESS, freeing_env 0 sp')
      \<and> space_ok spl xs {} \<and> space_ok sp' (xs @ length (is_table busy_space) # ys) {}
      \<and> length (is_table sp') = its_size (small_classes ! is_table_next busy_space)
      \<and> (\<forall>name. ipc_entry_lookup sp' name = ipc_entry_lookup spl name)
      \<and> (\<forall>j < length (is_table busy_space). entry_type (is_table spl) j \<noteq> MACH_PORT_TYPE_NONE \<longrightarrow>
           vis (is_table sp' ! j) = vis (is_table spl ! j))
    else ipc_entry_grow_table small_classes True freeing_env None busy_space
      = Some (KERN_SUCCESS, freeing_env 0 (spl\<lparr>is_bits := is_bits spl AND NOT IS_GROWING\<rparr>)))"
  by (rule ipc_entry_grow_table_keeps_rights [OF busy_space_ok busy_space_active freeing_env_disciplined freeing_env_quiet])

text \<open>
  C17. What \<open>ipc_entry_alloc\<close> does on a well-formed active space that has no room, because its free list is empty or because its table is hashed to
  more than 7/8, when no other thread uses the space meanwhile and the classes do not shrink and stay at 4096 entries at most.
  If the table is of the largest class it fails with \<open>KERN_NO_SPACE\<close> and changes nothing; without memory it fails with \<open>KERN_RESOURCE_SHORTAGE\<close> and changes nothing but the
  range of modified entries; otherwise, when the new size leaves room in the hash, it grows the table once and
  returns a valid name for the first free entry, or the first new one if there was none, and changes no entry in use.
\<close>

theorem ipc_entry_alloc_grows:
  assumes "space_ok sp xs {}" "is_active sp" "\<not> is_growing sp" "xs = [] \<or> length (is_table sp) * 7 div 8 \<le> is_table_hashed sp"
    and "can_grow its sp \<or> at_max its sp" "is_table_hashed sp + 1 \<le> its_size (its ! is_table_next sp) * 7 div 8 \<or> at_max its sp"
  shows "if at_max its sp then ipc_entry_alloc its mem (\<lambda>k s. s) sp = Some ((KERN_NO_SPACE, 0, 0), sp)
    else if \<not> mem then ipc_entry_alloc its mem (\<lambda>k s. s) sp
      = Some ((KERN_RESOURCE_SHORTAGE, 0, 0), sp\<lparr>is_low_mod := length (is_table sp), is_high_mod := 0\<rparr>)
    else \<exists>name sp' xs'. let i = hd (xs @ [length (is_table sp)]) in
      ipc_entry_alloc its mem (\<lambda>k s. s) sp = Some ((KERN_SUCCESS, name, i), sp')
      \<and> length (is_table sp') = its_size (its ! is_table_next sp)
      \<and> space_ok sp' xs' {i} \<and> MACH_PORT_INDEX name = i \<and> MACH_PORT_VALID name
      \<and> (\<forall>j < length (is_table sp). j \<notin> set (0 # xs) \<longrightarrow> vis (is_table sp' ! j) = vis (is_table sp ! j))"
proof -
  note inv = assms(1) [unfolded space_ok_def]
  have hold0: "ipc_entries_hold sp 1 = Some KERN_NO_SPACE"
    using ipc_entries_hold_eq [OF inv assms(2), of 1] assms(4) space_invD(1) [OF inv] by auto
  note fails = ipc_entry_alloc.simps [of its mem "\<lambda>k s. s" sp]
  show ?thesis
  proof (cases "at_max its sp")
    case True
    then show ?thesis using fails assms(2) hold0 ipc_entry_grow_table_max [OF assms(2,3), of its mem "\<lambda>k s. s"] by simp
  next
    case False
    have "can_grow its sp" using assms(5) False by blast
    then show ?thesis
      using False fails assms(2,6) hold0 ipc_entry_grow_table_nomem [OF assms(2,3), of its]
        ipc_entry_alloc_grow_once [OF assms(1-3) _ hold0, of its] by (cases mem) simp_all
  qed
qed

theorem ipc_entry_alloc_grows_witness:
  "ipc_entry_alloc [\<lparr>its_size = 5\<rparr>, \<lparr>its_size = 5\<rparr>] True (\<lambda>k s. s) busy_space = Some ((KERN_NO_SPACE, 0, 0), busy_space)
   \<and> (\<exists>sp'. ipc_entry_alloc small_classes False (\<lambda>k s. s) busy_space = Some ((KERN_RESOURCE_SHORTAGE, 0, 0), sp'))
   \<and> (\<exists>name sp' xs'. ipc_entry_alloc small_classes True (\<lambda>k s. s) busy_space = Some ((KERN_SUCCESS, name, 5), sp')
      \<and> length (is_table sp') = 21 \<and> space_ok sp' xs' {5} \<and> MACH_PORT_INDEX name = 5 \<and> MACH_PORT_VALID name
      \<and> (\<forall>j < 5. j \<noteq> 0 \<longrightarrow> vis (is_table sp' ! j) = vis (is_table busy_space ! j)))"
proof -
  have b: "length (is_table busy_space) = 5" "is_table_next busy_space = 1" "is_table_hashed busy_space = 2"
    by (simp_all add: busy_space_def small_space_def sample_space_def busy_table_nth(1))
  have m: "\<not> at_max small_classes busy_space" "at_max [\<lparr>its_size = 5\<rparr>, \<lparr>its_size = 5\<rparr>] busy_space"
    by (simp_all add: at_max_def b small_classes_def)
  note A = ipc_entry_alloc_grows [OF busy_space_ok busy_space_active(1,2)]
  show ?thesis
    using A [of "[\<lparr>its_size = 5\<rparr>, \<lparr>its_size = 5\<rparr>]" True] A [of small_classes False] A [of small_classes True] m b busy_space_active(3)
    by (simp add: small_classes_def Let_def)
qed

end
