(* ===== verification/Ipc_Kern.thy ===== *)
theory Ipc_Kern
  imports Ipc_Grow
begin

text \<open>
  The objects of Mach IPC and the state the right and port routines share: ports
  (\<open>osfmk/ipc/ipc_port.h\<close>), port sets, the reference counts of \<open>osfmk/ipc/ipc_object.h\<close> and the
  notification calls of \<open>osfmk/ipc/ipc_notify.c\<close>.

  A kernel state maps the addresses of spaces, ports and port sets to their contents. Following a
  pointer to an object that was freed is \<open>None\<close>. Calls that leave the modelled code (the
  notification stubs generated from \<open>notify.defs\<close>, guard exceptions, the message queue, turnstiles
  and importance) are appended to \<open>ks_log\<close> in the order the code makes them. What the modelled
  routines read of the rest of the kernel is the record \<open>kenv\<close>.

  Locks are not modelled: a routine is one atomic step, from the locks its conditions require to the
  locks it returns with.
\<close>

section \<open>Objects\<close>

definition IO_BITS_KOTYPE :: "32 word" where
  "IO_BITS_KOTYPE = 0x000003ff"

definition IO_BITS_KOBJECT :: "32 word" where
  "IO_BITS_KOBJECT = 0x00000800"

definition IO_BITS_KOLABEL :: "32 word" where
  "IO_BITS_KOLABEL = 0x00000400"

definition IO_BITS_OTYPE :: "32 word" where
  "IO_BITS_OTYPE = 0x7fff0000"

definition IO_BITS_ACTIVE :: "32 word" where
  "IO_BITS_ACTIVE = 0x80000000"

definition IOT_PORT :: "32 word" where
  "IOT_PORT = 0"

definition IOT_PORT_SET :: "32 word" where
  "IOT_PORT_SET = 1"

definition IO_MAX_REFERENCES :: "32 word" where
  "IO_MAX_REFERENCES = 0x7fffffff"

definition io_active :: "32 word \<Rightarrow> bool" where
  "io_active bits \<longleftrightarrow> bits AND IO_BITS_ACTIVE \<noteq> 0"

definition io_otype :: "32 word \<Rightarrow> 32 word" where
  "io_otype bits = drop_bit 16 (bits AND IO_BITS_OTYPE)"

definition io_kotype :: "32 word \<Rightarrow> 32 word" where
  "io_kotype bits = bits AND IO_BITS_KOTYPE"

definition io_is_kobject :: "32 word \<Rightarrow> bool" where
  "io_is_kobject bits \<longleftrightarrow> bits AND IO_BITS_KOBJECT \<noteq> 0"

definition io_is_kolabeled :: "32 word \<Rightarrow> bool" where
  "io_is_kolabeled bits \<longleftrightarrow> bits AND IO_BITS_KOLABEL \<noteq> 0"

definition io_makebits :: "bool \<Rightarrow> 32 word \<Rightarrow> 32 word \<Rightarrow> 32 word" where
  "io_makebits active otype kotype =
     (if active then IO_BITS_ACTIVE else 0) OR push_bit 16 otype OR kotype"

text \<open>
  The reference counts. \<open>io_reference\<close> and \<open>io_release\<close> panic on a count that is zero or saturated;
  the compare-and-swap loop is one atomic step, and its exit on a saturated count is never reached
  after the check.
\<close>

definition io_reference :: "32 word \<Rightarrow> 32 word option" where
  "io_reference references =
     (if references = 0 \<or> IO_MAX_REFERENCES \<le> references then panic else Some (references + 1))"

definition io_release :: "32 word \<Rightarrow> 32 word option" where
  "io_release references =
     (if references = 0 \<or> IO_MAX_REFERENCES \<le> references then panic else Some (references - 1))"

section \<open>Ports\<close>

text \<open>
  A slot of a request table. \<open>ipr_soright\<close> and \<open>ipr_next\<close> are the two members of the union \<open>notify\<close>;
  the code reads \<open>ipr_next\<close> only of slots on the free list and \<open>ipr_soright\<close> only of slots with a
  name, and writes the member before it changes the role of the slot, so they are two fields here.
  The head of the table (slot 0) holds the free list \<open>ipr_next\<close> and the size class \<open>ipr_size\<close>, an index into
  \<open>ipc_table_requests\<close>; the list of slots keeps an unused element at 0. \<open>ipr_addr\<close> is the address of
  the table, which \<open>ipc_port_request_grow\<close> compares.
\<close>

record ipc_port_request =
  ipr_soright :: ptr
  ipr_next :: nat
  ipr_name :: mach_port_name_t

record ipr_table =
  ipr_addr :: ptr
  ipr_free :: nat
  ipr_size :: nat
  ipr_slots :: "ipc_port_request list"

definition IPR_SOR_SPARM_MASK :: "64 word" where
  "IPR_SOR_SPARM_MASK = 1"

definition IPR_SOR_SPREQ_MASK :: "64 word" where
  "IPR_SOR_SPREQ_MASK = 2"

definition IPR_SOR_SPBIT_MASK :: "64 word" where
  "IPR_SOR_SPBIT_MASK = 3"

definition IPR_SOR_SPARMED :: "ptr \<Rightarrow> bool" where
  "IPR_SOR_SPARMED sor \<longleftrightarrow> sor AND IPR_SOR_SPARM_MASK \<noteq> 0"

definition IPR_SOR_SPREQ :: "ptr \<Rightarrow> bool" where
  "IPR_SOR_SPREQ sor \<longleftrightarrow> sor AND IPR_SOR_SPREQ_MASK \<noteq> 0"

definition IPR_SOR_PORT :: "ptr \<Rightarrow> ptr" where
  "IPR_SOR_PORT sor = sor AND NOT IPR_SOR_SPBIT_MASK"

definition IPR_SOR_MAKE :: "ptr \<Rightarrow> 64 word \<Rightarrow> ptr" where
  "IPR_SOR_MAKE p m = p OR m"

text \<open>
  A port. \<open>ip_data\<close> is the union of the receiving space, the destination port and the timestamp;
  \<open>ip_kdata\<close> the union whose importance member the modelled code uses; \<open>ip_premsg\<close> the preallocated
  message of \<open>kdata2\<close>. Of the message queue the record keeps the receiver name, the set
  membership, the reply context, the sequence number and the two fields of \<open>imq_full\<close>.
\<close>

record ipc_port =
  ip_io_bits :: "32 word"
  ip_references :: "32 word"
  ip_receiver_name :: mach_port_name_t
  ip_in_pset :: "64 word"
  ip_reply_context :: "32 word"
  ip_seqno :: "32 word"
  ip_msgcount :: "16 word"
  ip_qlimit :: "16 word"
  ip_data :: "64 word"
  ip_kdata :: ptr
  ip_nsrequest :: ptr
  ip_pdrequest :: ptr
  ip_requests :: "ipr_table option"
  ip_premsg :: ptr
  ip_context :: "64 word"
  ip_sprequests :: bool
  ip_spimportant :: bool
  ip_impdonation :: bool
  ip_tempowner :: bool
  ip_guarded :: bool
  ip_strict_guard :: bool
  ip_specialreply :: bool
  ip_sync_bootstrap_checkin :: bool
  ip_immovable_receive :: bool
  ip_no_grant :: bool
  ip_immovable_send :: bool
  ip_tg_block_tracking :: bool
  ip_pinned :: bool
  ip_impcount :: "16 word"
  ip_mscount :: "32 word"
  ip_srights :: "32 word"
  ip_sorights :: "32 word"

abbreviation ip_receiver :: "ipc_port \<Rightarrow> ptr" where
  "ip_receiver \<equiv> ip_data"

abbreviation ip_destination :: "ipc_port \<Rightarrow> ptr" where
  "ip_destination \<equiv> ip_data"

abbreviation ip_imp_task :: "ipc_port \<Rightarrow> ptr" where
  "ip_imp_task \<equiv> ip_kdata"

definition IP_NULL :: ptr where
  "IP_NULL = 0"

definition IP_DEAD :: ptr where
  "IP_DEAD = NOT 0"

definition IP_VALID :: "ptr \<Rightarrow> bool" where
  "IP_VALID port \<longleftrightarrow> port \<noteq> IP_NULL \<and> port \<noteq> IP_DEAD"

definition IP_BIT_PREALLOC :: "32 word" where
  "IP_BIT_PREALLOC = 0x00008000"

definition IP_BIT_FILTER_MSG :: "32 word" where
  "IP_BIT_FILTER_MSG = 0x00001000"

definition ip_active :: "ipc_port \<Rightarrow> bool" where
  "ip_active port \<longleftrightarrow> io_active (ip_io_bits port)"

definition IP_PREALLOC :: "ipc_port \<Rightarrow> bool" where
  "IP_PREALLOC port \<longleftrightarrow> ip_io_bits port AND IP_BIT_PREALLOC \<noteq> 0"

definition ip_is_control :: "ipc_port \<Rightarrow> bool" where
  "ip_is_control port \<longleftrightarrow> io_is_kobject (ip_io_bits port)
     \<and> (io_kotype (ip_io_bits port) = 2 \<or> io_kotype (ip_io_bits port) = 1)"

definition ip_full :: "ipc_port \<Rightarrow> bool" where
  "ip_full port \<longleftrightarrow> ip_qlimit port \<le> ip_msgcount port"

definition require_ip_active :: "ipc_port \<Rightarrow> unit option" where
  "require_ip_active port = (if ip_active port then Some () else panic)"

text \<open>A port set: its object header. The membership lists belong to the wait queues.\<close>

record ipc_pset =
  ips_bits :: "32 word"
  ips_references :: "32 word"

definition ips_active :: "ipc_pset \<Rightarrow> bool" where
  "ips_active pset \<longleftrightarrow> io_active (ips_bits pset)"

section \<open>Kernel state\<close>

datatype guard_reason =
    kGUARD_EXC_DESTROY | kGUARD_EXC_MOD_REFS | kGUARD_EXC_SET_CONTEXT | kGUARD_EXC_UNGUARDED
  | kGUARD_EXC_INCORRECT_GUARD | kGUARD_EXC_IMMOVABLE | kGUARD_EXC_STRICT_REPLY | kGUARD_EXC_MSG_FILTERED
  | kGUARD_EXC_INVALID_RIGHT | kGUARD_EXC_INVALID_NAME | kGUARD_EXC_INVALID_VALUE
  | kGUARD_EXC_INVALID_ARGUMENT | kGUARD_EXC_RIGHT_EXISTS | kGUARD_EXC_KERN_NO_SPACE
  | kGUARD_EXC_KERN_FAILURE | kGUARD_EXC_KERN_RESOURCE | kGUARD_EXC_SEND_INVALID_REPLY
  | kGUARD_EXC_SEND_INVALID_VOUCHER | kGUARD_EXC_SEND_INVALID_RIGHT | kGUARD_EXC_RCV_INVALID_NAME
  | kGUARD_EXC_RCV_GUARDED_DESC | kGUARD_EXC_MOD_REFS_NON_FATAL | kGUARD_EXC_IMMOVABLE_NON_FATAL

definition MPG_FLAGS_NONE :: "64 word" where
  "MPG_FLAGS_NONE = 0"

definition MPG_FLAGS_MOD_REFS_PINNED_DEALLOC :: "64 word" where
  "MPG_FLAGS_MOD_REFS_PINNED_DEALLOC = push_bit 56 1"

datatype kevent =
    mach_notify_port_deleted ptr mach_port_name_t
  | mach_notify_send_possible ptr mach_port_name_t
  | mach_notify_port_destroyed ptr ptr
  | mach_notify_no_senders ptr "32 word"
  | mach_notify_send_once ptr
  | mach_notify_dead_name ptr mach_port_name_t
  | guard_exception mach_port_name_t "64 word" "64 word" guard_reason
  | pset_remove_from_all ptr
  | pset_remove_members ptr
  | mqueue_changed ptr ptr
  | mqueue_destroy ptr
  | mqueue_deinit ptr
  | kmsg_reap_delayed
  | kmsg_free ptr
  | kobject_destroy ptr
  | clear_watchport ptr
  | send_turnstile_recompute_push ptr
  | send_turnstile_complete ptr
  | send_turnstile_prepare ptr
  | adjust_special_reply_port ptr
  | adjust_port ptr bool
  | clear_sync_rcv_thread_boost ptr
  | turnstile_prepare_lazily ptr
  | importance_hold ptr int
  | importance_drop ptr int
  | importance_release ptr
  | importance_reference ptr
  | senders_wakeup ptr nat

record kst =
  ks_space :: "ptr \<rightharpoonup> ipc_space"
  ks_port :: "ptr \<rightharpoonup> ipc_port"
  ks_pset :: "ptr \<rightharpoonup> ipc_pset"
  ks_timestamp :: "32 word"
  ks_ith_assertions :: "32 word"
  ks_log :: "kevent list"

text \<open>What the modelled code reads of the rest of the kernel.\<close>

record kenv =
  ipc_space_kernel :: ptr
  pinned_control_port_enabled :: bool
  immovable_control_port_enabled :: bool
  ctl_pinned_hard :: bool            \<comment> \<open>\<open>ipc_control_port_options & IPC_CONTROL_PORT_OPTIONS_PINNED_HARD\<close>\<close>
  ctl_immovable_hard :: bool         \<comment> \<open>\<open>\<dots> & IPC_CONTROL_PORT_OPTIONS_IMMOVABLE_HARD\<close>\<close>
  current_is_kernel_task :: bool     \<comment> \<open>\<open>current_task() == kernel_task\<close>\<close>
  current_is_importance_donor :: bool \<comment> \<open>\<open>task_is_importance_donor(current_task())\<close>\<close>
  current_imp_base :: ptr            \<comment> \<open>\<open>current_task()->task_imp_base\<close>\<close>
  task_imp_base :: "ptr \<Rightarrow> ptr"
  imp_task_is_any_receiver_type :: "ptr \<Rightarrow> bool"
  ith_knote :: ptr
  ith_msg_addr :: "64 word"
  mqueue_reaps :: bool               \<comment> \<open>result of \<open>ipc_mqueue_destroy_locked\<close>\<close>
  ikm_prealloc_inuse_port :: "ptr \<Rightarrow> ptr"
  ipc_table_requests :: "ipc_table_size list"
  ipc_table_entries :: "ipc_table_size list"
  it_entries_alloc_ok :: bool        \<comment> \<open>the allocation of a table of entries succeeds\<close>
  grow_others :: "nat \<Rightarrow> ipc_space \<Rightarrow> ipc_space" \<comment> \<open>other threads while a table of entries grows\<close>
  ikol_label :: "ptr \<Rightarrow> 64 word"     \<comment> \<open>the label of a labelled kernel object\<close>
  label_substitute :: "64 word \<Rightarrow> ptr \<Rightarrow> ptr \<Rightarrow> ptr" \<comment> \<open>substitute for a labelled port, by kind and space\<close>
  it_requests_alloc :: "nat \<Rightarrow> ptr"  \<comment> \<open>address of a new table of a size class, or 0\<close>
  current_space :: ptr
  current_is_graphics_server :: bool \<comment> \<open>the effective role of the current task is \<open>TASK_GRAPHICS_SERVER\<close>\<close>
  work_interval_port_type_render_server :: "mach_port_name_t \<Rightarrow> bool"
  ikm_saved_msg_size :: "32 word"    \<comment> \<open>\<open>IKM_SAVED_MSG_SIZE\<close>, the room of a message of the zone\<close>
  ipc_kmsg_prealloc :: "32 word \<Rightarrow> ptr" \<comment> \<open>address of a preallocated message, or 0\<close>
  send_waiters :: "ptr \<Rightarrow> nat"       \<comment> \<open>threads that wait on the send turnstile of a port\<close>

text \<open>
  A call that drops its locks on the way takes as an argument what other threads do meanwhile, by the number of the window. \<open>alone\<close>: nothing.
\<close>

abbreviation alone :: "nat \<Rightarrow> kst \<Rightarrow> kst" where
  "alone \<equiv> \<lambda>k s. s"

text \<open>The memory of a new port, zero-filled by the zone allocator.\<close>

definition zero_port :: ipc_port where
  "zero_port = \<lparr>ip_io_bits = 0, ip_references = 0, ip_receiver_name = 0, ip_in_pset = 0, ip_reply_context = 0,
     ip_seqno = 0, ip_msgcount = 0, ip_qlimit = 0, ip_data = 0, ip_kdata = 0, ip_nsrequest = 0, ip_pdrequest = 0,
     ip_requests = None, ip_premsg = 0, ip_context = 0, ip_sprequests = False, ip_spimportant = False,
     ip_impdonation = False, ip_tempowner = False, ip_guarded = False, ip_strict_guard = False,
     ip_specialreply = False, ip_sync_bootstrap_checkin = False, ip_immovable_receive = False,
     ip_no_grant = False, ip_immovable_send = False, ip_tg_block_tracking = False, ip_pinned = False, ip_impcount = 0,
     ip_mscount = 0, ip_srights = 0, ip_sorights = 0\<rparr>"

definition klog :: "kevent \<Rightarrow> kst \<Rightarrow> kst" where
  "klog e s = s\<lparr>ks_log := ks_log s @ [e]\<rparr>"

definition put_port :: "kst \<Rightarrow> ptr \<Rightarrow> ipc_port \<Rightarrow> kst" where
  "put_port s p port = s\<lparr>ks_port := (ks_port s)(p \<mapsto> port)\<rparr>"

definition put_space :: "kst \<Rightarrow> ptr \<Rightarrow> ipc_space \<Rightarrow> kst" where
  "put_space s q sp = s\<lparr>ks_space := (ks_space s)(q \<mapsto> sp)\<rparr>"

definition put_pset :: "kst \<Rightarrow> ptr \<Rightarrow> ipc_pset \<Rightarrow> kst" where
  "put_pset s p pset = s\<lparr>ks_pset := (ks_pset s)(p \<mapsto> pset)\<rparr>"

text \<open>\<open>ipc_notify.c\<close>: each routine calls the generated stub and nothing else.\<close>

definition ipc_notify_port_deleted :: "ptr \<Rightarrow> mach_port_name_t \<Rightarrow> kst \<Rightarrow> kst" where
  "ipc_notify_port_deleted port name s = klog (mach_notify_port_deleted port name) s"

definition ipc_notify_send_possible :: "ptr \<Rightarrow> mach_port_name_t \<Rightarrow> kst \<Rightarrow> kst" where
  "ipc_notify_send_possible port name s = klog (mach_notify_send_possible port name) s"

definition ipc_notify_port_destroyed :: "ptr \<Rightarrow> ptr \<Rightarrow> kst \<Rightarrow> kst" where
  "ipc_notify_port_destroyed port right s = klog (mach_notify_port_destroyed port right) s"

definition ipc_notify_no_senders :: "ptr \<Rightarrow> 32 word \<Rightarrow> kst \<Rightarrow> kst" where
  "ipc_notify_no_senders port mscount s = klog (mach_notify_no_senders port mscount) s"

definition ipc_notify_send_once :: "ptr \<Rightarrow> kst \<Rightarrow> kst" where
  "ipc_notify_send_once port s = klog (mach_notify_send_once port) s"

definition ipc_notify_dead_name :: "ptr \<Rightarrow> mach_port_name_t \<Rightarrow> kst \<Rightarrow> kst" where
  "ipc_notify_dead_name port name s = klog (mach_notify_dead_name port name) s"

definition mach_port_guard_exception ::
  "mach_port_name_t \<Rightarrow> 64 word \<Rightarrow> 64 word \<Rightarrow> guard_reason \<Rightarrow> kst \<Rightarrow> kst" where
  "mach_port_guard_exception name inguard portguard reason s =
     klog (guard_exception name inguard portguard reason) s"

definition mach_port_guard_exception_immovable ::
  "kenv \<Rightarrow> mach_port_name_t \<Rightarrow> ipc_port \<Rightarrow> 64 word \<Rightarrow> kst \<Rightarrow> kst option" where
  "mach_port_guard_exception_immovable E name port portguard s =
     (if ip_is_control port \<and> immovable_control_port_enabled E
      then Some (mach_port_guard_exception name 0 portguard
             (if ctl_immovable_hard E then kGUARD_EXC_IMMOVABLE else kGUARD_EXC_IMMOVABLE_NON_FATAL) s)
      else if \<not> ip_is_control port
      then Some (mach_port_guard_exception name 0 portguard kGUARD_EXC_IMMOVABLE s)
      else panic)"

section \<open>References to ports and port sets\<close>

text \<open>
  The last release frees the object: \<open>io_free\<close> calls \<open>ipc_port_finalize\<close>, which panics on an active
  port.
\<close>

definition ipc_port_finalize :: "ptr \<Rightarrow> kst \<Rightarrow> kst option" where
  "ipc_port_finalize p s = do {
     port \<leftarrow> ks_port s p;
     if ip_active port then panic
     else Some (klog (mqueue_deinit p) (put_port s p (port\<lparr>ip_requests := None\<rparr>)))
   }"

definition io_free_port :: "ptr \<Rightarrow> kst \<Rightarrow> kst option" where
  "io_free_port p s = do {
     s \<leftarrow> ipc_port_finalize p s;
     Some (s\<lparr>ks_port := (ks_port s)(p := None)\<rparr>)
   }"

definition ip_reference :: "ptr \<Rightarrow> kst \<Rightarrow> kst option" where
  "ip_reference p s = do {
     port \<leftarrow> ks_port s p;
     refs \<leftarrow> io_reference (ip_references port);
     Some (put_port s p (port\<lparr>ip_references := refs\<rparr>))
   }"

definition ip_release :: "ptr \<Rightarrow> kst \<Rightarrow> kst option" where
  "ip_release p s = do {
     port \<leftarrow> ks_port s p;
     refs \<leftarrow> io_release (ip_references port);
     let s = put_port s p (port\<lparr>ip_references := refs\<rparr>);
     if ip_references port = 1 then io_free_port p s else Some s
   }"

definition ips_release :: "ptr \<Rightarrow> kst \<Rightarrow> kst option" where
  "ips_release p s = do {
     pset \<leftarrow> ks_pset s p;
     refs \<leftarrow> io_release (ips_references pset);
     if ips_references pset = 1 then Some (s\<lparr>ks_pset := (ks_pset s)(p := None)\<rparr>)
     else Some (put_pset s p (pset\<lparr>ips_references := refs\<rparr>))
   }"

definition ipc_pset_destroy :: "ptr \<Rightarrow> ptr \<Rightarrow> kst \<Rightarrow> kst option" where
  "ipc_pset_destroy space p s = do {
     pset \<leftarrow> ks_pset s p;
     kassert (ips_active pset);
     let s = put_pset s p (pset\<lparr>ips_bits := ips_bits pset AND NOT IO_BITS_ACTIVE\<rparr>);
     let s = klog (pset_remove_members p) s;
     let s = klog (mqueue_changed space p) s;
     let s = klog (mqueue_deinit p) s;
     ips_release p s
   }"

section \<open>An example\<close>

text \<open>An environment and an empty state for the witnesses: four size classes of requests, nothing special.\<close>

definition example_env :: kenv where
  "example_env = \<lparr>ipc_space_kernel = 0xF0, pinned_control_port_enabled = True, immovable_control_port_enabled = True,
     ctl_pinned_hard = False, ctl_immovable_hard = False, current_is_kernel_task = False,
     current_is_importance_donor = False, current_imp_base = 0, task_imp_base = (\<lambda>_. 0),
     imp_task_is_any_receiver_type = (\<lambda>_. True), ith_knote = 0, ith_msg_addr = 0, mqueue_reaps = False,
     ikm_prealloc_inuse_port = (\<lambda>_. 0), ipc_table_requests = map ipc_table_size.make [2, 4, 8, 0],
     ipc_table_entries = map ipc_table_size.make [4, 8, 16], it_entries_alloc_ok = True, grow_others = (\<lambda>_ sp. sp),
     ikol_label = (\<lambda>_. 0), label_substitute = (\<lambda>_ p _. p), it_requests_alloc = (\<lambda>i. of_nat (0x9000 + i)),
     current_space = 0xE0, current_is_graphics_server = False, work_interval_port_type_render_server = (\<lambda>_. False),
     ikm_saved_msg_size = 168, ipc_kmsg_prealloc = (\<lambda>_. 0x8000), send_waiters = (\<lambda>_. 0)\<rparr>"

definition empty_kst :: kst where
  "empty_kst = \<lparr>ks_space = Map.empty, ks_port = Map.empty, ks_pset = Map.empty, ks_timestamp = 0,
     ks_ith_assertions = 0, ks_log = []\<rparr>"

end
