(* ===== verification/Ipc_Request.thy ===== *)
theory Ipc_Request
  imports Ipc_Kern
begin

text \<open>
  The table of dead-name and send-possible requests of a port (\<open>osfmk/ipc/ipc_port.c\<close>): allocation
  and cancellation of a slot, arming, growth of the table and the notifications sent from it. The
  routines that only touch the port they are given work on its record; \<open>ipc_port_request_grow\<close>, which
  drops the lock of the port while it allocates, works on the kernel state, and \<open>others\<close> is what other
  threads do in that window.

  \<open>ipr_ok\<close> is the invariant of a table: the free slots are threaded from the head, every other slot
  has a name. \<open>ipr_map\<close> is the table as a finite map from indices to pairs of a name and a send-once
  right. The locale \<open>request_table\<close> states the contract of the three operations against that map.
\<close>

section \<open>Operations\<close>

definition ipc_port_request_alloc ::
  "kenv \<Rightarrow> ipc_port \<Rightarrow> mach_port_name_t \<Rightarrow> ptr \<Rightarrow> bool \<Rightarrow> bool
     \<Rightarrow> ((kern_return_t \<times> nat \<times> bool) \<times> ipc_port) option" where
  "ipc_port_request_alloc E port name soright send_possible immediate = do {
     require_ip_active port;
     kassert (name \<noteq> MACH_PORT_NULL);
     kassert (soright \<noteq> IP_NULL);
     case ip_requests port of
       None \<Rightarrow> Some ((KERN_NO_SPACE, 0, False), port)
     | Some table \<Rightarrow>
         let index = ipr_free table in
         if index = 0 then Some ((KERN_NO_SPACE, 0, False), port)
         else do {
           ipr \<leftarrow> arr_get (ipr_slots table) index;
           kassert (ipr_name ipr = MACH_PORT_NULL);
           let mask = (if send_possible
                       then IPR_SOR_SPREQ_MASK OR (if immediate then IPR_SOR_SPARM_MASK else 0)
                       else 0);
           let arms = (send_possible \<and> immediate);
           let important = (arms \<and> \<not> ip_sprequests port \<and> ip_impdonation port
                            \<and> \<not> ip_spimportant port \<and> current_is_importance_donor E);
           slots \<leftarrow> arr_set (ipr_slots table) index
                     (ipr\<lparr>ipr_name := name, ipr_soright := IPR_SOR_MAKE soright mask\<rparr>);
           Some ((KERN_SUCCESS, index, important),
                 port\<lparr>ip_requests := Some (table\<lparr>ipr_free := ipr_next ipr, ipr_slots := slots\<rparr>),
                      ip_sprequests := (ip_sprequests port \<or> arms)\<rparr>)
         }
   }"

text \<open>The search for a class of at least \<open>target\<close> slots stops at the terminating class of size 0.\<close>

partial_function (option) request_grow_search ::
  "ipc_table_size list \<Rightarrow> nat \<Rightarrow> nat \<Rightarrow> nat option" where
  "request_grow_search its target i = do {
     c \<leftarrow> arr_get its i;
     if its_size c \<noteq> 0 \<and> its_size c < target then request_grow_search its target (i + 1)
     else Some i
   }"

text \<open>The new slots \<open>osize\<close>, \dots, \<open>nsize - 1\<close> are pushed on the free list in this order.\<close>

fun request_grow_push :: "nat list \<Rightarrow> nat \<Rightarrow> ipc_port_request list \<Rightarrow> (nat \<times> ipc_port_request list) option" where
  "request_grow_push [] fr ntable = Some (fr, ntable)"
| "request_grow_push (i # is) fr ntable = do {
     ipr \<leftarrow> arr_get ntable i;
     ntable \<leftarrow> arr_set ntable i (ipr\<lparr>ipr_name := MACH_PORT_NULL, ipr_next := fr\<rparr>);
     request_grow_push is i ntable
   }"

definition null_request :: ipc_port_request where
  "null_request = \<lparr>ipr_soright = 0, ipr_next = 0, ipr_name = 0\<rparr>"

text \<open>The copy of the old table (if there is one) into a new one of class \<open>its\<close>.\<close>

definition request_grow_table ::
  "kenv \<Rightarrow> ipr_table option \<Rightarrow> nat \<Rightarrow> ipr_table option" where
  "request_grow_table E otable its = do {
     c \<leftarrow> arr_get (ipc_table_requests E) its;
     let nsize = its_size c;
     let ntable = replicate nsize null_request;
     (osize, fr, ntable) \<leftarrow> (case otable of
         None \<Rightarrow> Some (1, 0, ntable)
       | Some t \<Rightarrow> do {
           oc \<leftarrow> arr_get (ipc_table_requests E) (ipr_size t);
           Some (its_size oc, ipr_free t,
                 take 1 ntable @ take (its_size oc - 1) (drop 1 (ipr_slots t)) @ drop (its_size oc) ntable)
         });
     kassert (osize < nsize);
     (fr, ntable) \<leftarrow> request_grow_push [osize..<nsize] fr ntable;
     Some \<lparr>ipr_addr = it_requests_alloc E its, ipr_free = fr, ipr_size = its, ipr_slots = ntable\<rparr>
   }"

definition ipc_port_request_grow ::
  "kenv \<Rightarrow> (kst \<Rightarrow> kst) \<Rightarrow> ptr \<Rightarrow> 32 word \<Rightarrow> kst \<Rightarrow> (kern_return_t \<times> kst) option" where
  "ipc_port_request_grow E others p tgt s = do {
     port \<leftarrow> ks_port s p;
     require_ip_active port;
     let otable = ip_requests port;
     let its = (case otable of None \<Rightarrow> 0 | Some t \<Rightarrow> ipr_size t + 1);
     osize \<leftarrow> (case otable of None \<Rightarrow> Some 0
               | Some t \<Rightarrow> map_option its_size (arr_get (ipc_table_requests E) (ipr_size t)));
     if tgt \<noteq> ITS_SIZE_NONE \<and> otable \<noteq> None \<and> unat tgt \<le> osize
     then Some (KERN_SUCCESS, s)
     else do {
       its \<leftarrow> (if tgt \<noteq> ITS_SIZE_NONE
              then request_grow_search (ipc_table_requests E) (unat tgt) its else Some its);
       c \<leftarrow> arr_get (ipc_table_requests E) its;
       if tgt \<noteq> ITS_SIZE_NONE \<and> its_size c = 0 then Some (KERN_NO_SPACE, s)
       else do {
         s \<leftarrow> ip_reference p s;
         if its_size c = 0 \<or> it_requests_alloc E its = 0 then do {
           s \<leftarrow> ip_release p s;
           Some (KERN_RESOURCE_SHORTAGE, s)
         } else do {
           let s = others s;
           port \<leftarrow> ks_port s p;
           if ip_active port \<and> map_option ipr_addr (ip_requests port) = map_option ipr_addr otable
              \<and> (case ip_requests port of None \<Rightarrow> True | Some t \<Rightarrow> ipr_size t + 1 = its)
           then do {
             ntable \<leftarrow> request_grow_table E (ip_requests port) its;
             let s = put_port s p (port\<lparr>ip_requests := Some ntable\<rparr>);
             s \<leftarrow> ip_release p s;
             Some (KERN_SUCCESS, s)
           } else do {
             s \<leftarrow> ip_release p s;
             Some (KERN_SUCCESS, s)
           }
         }
       }
     }
   }"

text \<open>
  \<open>MACH_SEND_OVERRIDE\<close> only adjusts the quality of service of the message queue, which is not modelled.
  The two options that matter are given as booleans.
\<close>

definition ipc_port_request_sparm ::
  "kenv \<Rightarrow> ipc_port \<Rightarrow> mach_port_name_t \<Rightarrow> nat \<Rightarrow> bool \<Rightarrow> bool \<Rightarrow> (bool \<times> ipc_port) option" where
  "ipc_port_request_sparm E port name index noimportance importance =
     (if index = IE_REQ_NONE then Some (False, port)
      else do {
        require_ip_active port;
        table \<leftarrow> ip_requests port;
        ipr \<leftarrow> arr_get (ipr_slots table) index;
        kassert (ipr_name ipr = name);
        if IPR_SOR_SPREQ (ipr_soright ipr) then do {
          slots \<leftarrow> arr_set (ipr_slots table) index
                    (ipr\<lparr>ipr_soright := IPR_SOR_MAKE (ipr_soright ipr) IPR_SOR_SPARM_MASK\<rparr>);
          let port = port\<lparr>ip_requests := Some (table\<lparr>ipr_slots := slots\<rparr>), ip_sprequests := True\<rparr>;
          Some (\<not> noimportance \<and> ip_impdonation port \<and> \<not> ip_spimportant port
                \<and> (importance \<or> current_is_importance_donor E), port)
        } else Some (False, port)
      })"

definition ipc_port_request_type :: "ipc_port \<Rightarrow> mach_port_name_t \<Rightarrow> nat \<Rightarrow> 32 word option" where
  "ipc_port_request_type port name index = do {
     table \<leftarrow> ip_requests port;
     kassert (index \<noteq> IE_REQ_NONE);
     ipr \<leftarrow> arr_get (ipr_slots table) index;
     kassert (ipr_name ipr = name);
     Some (if IP_VALID (IPR_SOR_PORT (ipr_soright ipr))
           then MACH_PORT_TYPE_DNREQUEST OR
             (if IPR_SOR_SPREQ (ipr_soright ipr)
              then MACH_PORT_TYPE_SPREQUEST OR
                (if \<not> IPR_SOR_SPARMED (ipr_soright ipr) then MACH_PORT_TYPE_SPREQUEST_DELAYED else 0)
              else 0)
           else 0)
   }"

definition ipc_port_request_cancel :: "ipc_port \<Rightarrow> mach_port_name_t \<Rightarrow> nat \<Rightarrow> (ptr \<times> ipc_port) option" where
  "ipc_port_request_cancel port name index = do {
     require_ip_active port;
     table \<leftarrow> ip_requests port;
     kassert (index \<noteq> IE_REQ_NONE);
     ipr \<leftarrow> arr_get (ipr_slots table) index;
     kassert (ipr_name ipr = name);
     slots \<leftarrow> arr_set (ipr_slots table) index (ipr\<lparr>ipr_name := MACH_PORT_NULL, ipr_next := ipr_free table\<rparr>);
     Some (IPR_SOR_PORT (ipr_soright ipr),
           port\<lparr>ip_requests := Some (table\<lparr>ipr_free := index, ipr_slots := slots\<rparr>)\<rparr>)
   }"

section \<open>References\<close>

lemma put_port_sel [simp]:
  "ks_port (put_port s p port) = (ks_port s)(p \<mapsto> port)" "ks_space (put_port s p port) = ks_space s"
  "ks_pset (put_port s p port) = ks_pset s" "ks_log (put_port s p port) = ks_log s"
  "ks_timestamp (put_port s p port) = ks_timestamp s" "ks_ith_assertions (put_port s p port) = ks_ith_assertions s"
  by (simp_all add: put_port_def)

lemma put_space_sel [simp]:
  "ks_space (put_space s q sp) = (ks_space s)(q \<mapsto> sp)" "ks_port (put_space s q sp) = ks_port s"
  "ks_pset (put_space s q sp) = ks_pset s" "ks_log (put_space s q sp) = ks_log s"
  "ks_timestamp (put_space s q sp) = ks_timestamp s" "ks_ith_assertions (put_space s q sp) = ks_ith_assertions s"
  by (simp_all add: put_space_def)

lemma klog_sel [simp]:
  "ks_port (klog e s) = ks_port s" "ks_space (klog e s) = ks_space s" "ks_pset (klog e s) = ks_pset s"
  "ks_log (klog e s) = ks_log s @ [e]" "ks_timestamp (klog e s) = ks_timestamp s"
  "ks_ith_assertions (klog e s) = ks_ith_assertions s"
  by (simp_all add: klog_def)

lemma put_port_put_port [simp]: "put_port (put_port s p a) p b = put_port s p b"
  by (simp add: put_port_def)

lemma put_port_id: "ks_port s p = Some port \<Longrightarrow> put_port s p port = s"
  by (simp add: put_port_def map_upd_triv)

text \<open>\<open>refs_ok\<close>: a count that neither \<open>io_reference\<close> nor \<open>io_release\<close> panics on.\<close>

definition refs_ok :: "32 word \<Rightarrow> bool" where
  "refs_ok r \<longleftrightarrow> r \<noteq> 0 \<and> r < IO_MAX_REFERENCES"

lemma ip_reference_eq:
  "ks_port s p = Some port \<Longrightarrow> refs_ok (ip_references port) \<Longrightarrow>
     ip_reference p s = Some (put_port s p (port\<lparr>ip_references := ip_references port + 1\<rparr>))"
  by (simp add: ip_reference_def io_reference_def refs_ok_def not_le)

lemma ip_release_eq:
  "ks_port s p = Some port \<Longrightarrow> refs_ok (ip_references port) \<Longrightarrow> ip_references port \<noteq> 1 \<Longrightarrow>
     ip_release p s = Some (put_port s p (port\<lparr>ip_references := ip_references port - 1\<rparr>))"
  by (simp add: ip_release_def io_release_def refs_ok_def not_le)

lemma ip_release_last:
  "ks_port s p = Some port \<Longrightarrow> ip_references port = 1 \<Longrightarrow> \<not> ip_active port \<Longrightarrow>
     ip_release p s = Some ((klog (mqueue_deinit p) s)\<lparr>ks_port := (ks_port s)(p := None)\<rparr>)"
  by (simp add: ip_release_def io_release_def IO_MAX_REFERENCES_def io_free_port_def ipc_port_finalize_def ip_active_def
      put_port_def klog_def word_le_nat_alt)

lemma ip_reference_release:
  assumes "ks_port s p = Some port" "refs_ok (ip_references port)" "refs_ok (ip_references port + 1)"
  shows "\<exists>s'. ip_reference p s = Some s' \<and> ip_release p s' = Some s"
proof -
  have "ip_references port + 1 \<noteq> 1" using assms(2) by (simp add: refs_ok_def)
  then show ?thesis
    using ip_reference_eq [OF assms(1,2)] ip_release_eq [of "put_port s p (port\<lparr>ip_references := ip_references port + 1\<rparr>)" p]
      assms by (simp add: put_port_id)
qed

section \<open>The invariant of a request table\<close>

fun rq_chain :: "ipc_port_request list \<Rightarrow> nat \<Rightarrow> nat list \<Rightarrow> bool" where
  "rq_chain slots a [] \<longleftrightarrow> a = 0"
| "rq_chain slots a (x # xs) \<longleftrightarrow> a = x \<and> x \<noteq> 0 \<and> x < length slots \<and> rq_chain slots (ipr_next (slots ! x)) xs"

definition ipr_ok :: "kenv \<Rightarrow> ipr_table \<Rightarrow> nat list \<Rightarrow> bool" where
  "ipr_ok E t fs \<longleftrightarrow> ipr_size t < length (ipc_table_requests E) \<and> ipr_slots t \<noteq> []
     \<and> length (ipr_slots t) = its_size (ipc_table_requests E ! ipr_size t)
     \<and> rq_chain (ipr_slots t) (ipr_free t) fs \<and> distinct fs
     \<and> (\<forall>i \<in> {0<..<length (ipr_slots t)}. ipr_name (ipr_slots t ! i) = MACH_PORT_NULL \<longleftrightarrow> i \<in> set fs)"

definition ipr_map :: "ipr_table \<Rightarrow> nat \<rightharpoonup> mach_port_name_t \<times> ptr" where
  "ipr_map t i = (if 0 < i \<and> i < length (ipr_slots t) \<and> ipr_name (ipr_slots t ! i) \<noteq> MACH_PORT_NULL
     then Some (ipr_name (ipr_slots t ! i), IPR_SOR_PORT (ipr_soright (ipr_slots t ! i))) else None)"

definition requests_map :: "ipc_port \<Rightarrow> nat \<rightharpoonup> mach_port_name_t \<times> ptr" where
  "requests_map port = (case ip_requests port of None \<Rightarrow> Map.empty | Some t \<Rightarrow> ipr_map t)"

definition requests_inv :: "kenv \<Rightarrow> ipc_port \<Rightarrow> bool" where
  "requests_inv E port \<longleftrightarrow> (\<forall>t. ip_requests port = Some t \<longrightarrow> (\<exists>fs. ipr_ok E t fs))"

text \<open>The free slots: those inside the table that the map does not use.\<close>

definition requests_room :: "ipc_port \<Rightarrow> nat" where
  "requests_room port = (case ip_requests port of None \<Rightarrow> 0
     | Some t \<Rightarrow> card ({0<..<length (ipr_slots t)} - dom (ipr_map t)))"

lemma requests_cong:
  assumes "ip_requests port' = ip_requests port"
  shows "requests_map port' = requests_map port" "requests_inv E port' = requests_inv E port"
    "requests_room port' = requests_room port"
  using assms by (simp_all add: requests_map_def requests_inv_def requests_room_def)

lemmas requests_refs [simp] = requests_cong [of "port\<lparr>ip_references := r\<rparr>" port for port r, simplified]

lemma rq_chain_bounds: "rq_chain slots a fs \<Longrightarrow> set fs \<subseteq> {0<..<length slots}"
  by (induction slots a fs rule: rq_chain.induct) auto

lemma rq_chain_cong:
  "length t' = length t \<Longrightarrow> (\<And>x. x \<in> set fs \<Longrightarrow> ipr_next (t' ! x) = ipr_next (t ! x)) \<Longrightarrow>
     rq_chain t' a fs = rq_chain t a fs"
  by (induction fs arbitrary: a) auto

lemma rq_chain_mono:
  "rq_chain t a fs \<Longrightarrow> length t \<le> length t' \<Longrightarrow> (\<And>x. x \<in> set fs \<Longrightarrow> ipr_next (t' ! x) = ipr_next (t ! x)) \<Longrightarrow> rq_chain t' a fs"
  by (induction fs arbitrary: a) auto

lemma rq_chain_update [simp]:
  "i \<notin> set fs \<Longrightarrow> rq_chain (t[i := e]) a fs = rq_chain t a fs"
  by (rule rq_chain_cong) (simp, metis nth_list_update_neq)

lemma rq_chain_update_next [simp]:
  "ipr_next e = ipr_next (t ! i) \<Longrightarrow> rq_chain (t[i := e]) a fs = rq_chain t a fs"
  by (cases "i < length t"; rule rq_chain_cong) (auto simp: nth_list_update_if list_update_beyond)

lemma rq_chain_unique: "rq_chain t a xs \<Longrightarrow> rq_chain t a ys \<Longrightarrow> xs = ys"
proof (induction t a xs arbitrary: ys rule: rq_chain.induct)
  case (1 slots a) then show ?case by (cases ys) auto
next
  case (2 slots a x xs) then show ?case by (cases ys) auto
qed

lemma ipr_okD:
  assumes "ipr_ok E t fs"
  shows "ipr_size t < length (ipc_table_requests E)"
    and "length (ipr_slots t) = its_size (ipc_table_requests E ! ipr_size t)"
    and "rq_chain (ipr_slots t) (ipr_free t) fs" and "distinct fs"
    and "0 < i \<Longrightarrow> i < length (ipr_slots t) \<Longrightarrow> ipr_name (ipr_slots t ! i) = MACH_PORT_NULL \<longleftrightarrow> i \<in> set fs"
    and "set fs \<subseteq> {0<..<length (ipr_slots t)}" and "ipr_slots t \<noteq> []"
  using assms rq_chain_bounds [of "ipr_slots t" "ipr_free t" fs] by (simp_all add: ipr_ok_def)

lemma ipr_map_dom: "ipr_ok E t fs \<Longrightarrow> dom (ipr_map t) = {0<..<length (ipr_slots t)} - set fs"
  by (auto simp: ipr_map_def ipr_ok_def dom_def)

lemma ipr_room: "ipr_ok E t fs \<Longrightarrow> card ({0<..<length (ipr_slots t)} - dom (ipr_map t)) = length fs"
  using ipr_okD(4,6) [of E t fs] distinct_card [of fs]
  by (simp add: ipr_map_dom double_diff Diff_Diff_Int Int_absorb1)

lemma IPR_SOR_PORT_MAKE:
  "p AND IPR_SOR_SPBIT_MASK = 0 \<Longrightarrow> m AND NOT IPR_SOR_SPBIT_MASK = 0 \<Longrightarrow> IPR_SOR_PORT (IPR_SOR_MAKE p m) = p"
proof -
  assume p: "p AND IPR_SOR_SPBIT_MASK = 0" and m: "m AND NOT IPR_SOR_SPBIT_MASK = 0"
  have "p = (p AND IPR_SOR_SPBIT_MASK) OR (p AND NOT IPR_SOR_SPBIT_MASK)"
    by (simp flip: bit.conj_disj_distrib)
  then have "p AND NOT IPR_SOR_SPBIT_MASK = p" using p by simp
  then show ?thesis using m by (simp add: IPR_SOR_PORT_def IPR_SOR_MAKE_def bit.conj_disj_distrib2)
qed

lemma request_alloc_full:
  assumes "ip_active port" "name \<noteq> MACH_PORT_NULL" "soright \<noteq> IP_NULL" "requests_inv E port" "requests_room port = 0"
  shows "ipc_port_request_alloc E port name soright sp im = Some ((KERN_NO_SPACE, 0, False), port)"
proof (cases "ip_requests port")
  case None
  then show ?thesis using assms by (simp add: ipc_port_request_alloc_def require_ip_active_def)
next
  case (Some t)
  then obtain fs where fs: "ipr_ok E t fs" using assms(4) by (auto simp: requests_inv_def)
  then have "fs = []" using assms(5) Some by (simp add: requests_room_def ipr_room)
  then have "ipr_free t = 0" using ipr_okD(3) [OF fs] by simp
  then show ?thesis using assms Some by (simp add: ipc_port_request_alloc_def require_ip_active_def)
qed

lemma sor_mask_ok:
  "(if sp then IPR_SOR_SPREQ_MASK OR (if im then IPR_SOR_SPARM_MASK else 0) else 0) AND NOT IPR_SOR_SPBIT_MASK = 0"
  by (simp add: IPR_SOR_SPREQ_MASK_def IPR_SOR_SPARM_MASK_def IPR_SOR_SPBIT_MASK_def)

lemma request_alloc_slot:
  assumes act: "ip_active port" "name \<noteq> MACH_PORT_NULL" "soright \<noteq> IP_NULL"
    and t: "ip_requests port = Some t" "ipr_ok E t (x # fs)"
  shows "\<exists>imp t'. ipc_port_request_alloc E port name soright sp im = Some ((KERN_SUCCESS, x, imp),
        port\<lparr>ip_requests := Some t', ip_sprequests := (ip_sprequests port \<or> sp \<and> im)\<rparr>)
      \<and> ipr_ok E t' fs \<and> (\<exists>m. m AND NOT IPR_SOR_SPBIT_MASK = 0 \<and> ipr_map t' = (ipr_map t)(x \<mapsto> (name, IPR_SOR_PORT (IPR_SOR_MAKE soright m)))) \<and> ipr_map t x = None \<and> x \<noteq> 0
      \<and> length (ipr_slots t') = length (ipr_slots t) \<and> (imp \<longrightarrow> sp \<and> im \<and> current_is_importance_donor E)"
proof -
  note D = ipr_okD [OF t(2)]
  let ?m = "if sp then IPR_SOR_SPREQ_MASK OR (if im then IPR_SOR_SPARM_MASK else 0) else 0"
  let ?e = "(ipr_slots t ! x)\<lparr>ipr_name := name, ipr_soright := IPR_SOR_MAKE soright ?m\<rparr>"
  let ?t' = "t\<lparr>ipr_free := ipr_next (ipr_slots t ! x), ipr_slots := (ipr_slots t)[x := ?e]\<rparr>"
  have x: "ipr_free t = x" "x \<noteq> 0" "x < length (ipr_slots t)" "rq_chain (ipr_slots t) (ipr_next (ipr_slots t ! x)) fs"
    "x \<notin> set fs" "distinct fs"
    using D(3,4) by auto
  have nm: "ipr_name (ipr_slots t ! x) = MACH_PORT_NULL" using D(5) [of x] x by simp
  have "ipr_ok E ?t' fs"
    using D(1,2,7) x act(2) D(5) by (auto simp: ipr_ok_def nth_list_update_if)
  moreover have "\<exists>m. m AND NOT IPR_SOR_SPBIT_MASK = 0 \<and> ipr_map ?t' = (ipr_map t)(x \<mapsto> (name, IPR_SOR_PORT (IPR_SOR_MAKE soright m)))"
    using x act(2) sor_mask_ok [of sp im] by (intro exI [of _ ?m]) (auto simp: ipr_map_def nth_list_update_if fun_eq_iff)
  moreover have "ipr_map t x = None" using nm by (simp add: ipr_map_def)
  ultimately show ?thesis
    using act t(1) x nm
    by (intro exI [of _ "sp \<and> im \<and> \<not> ip_sprequests port \<and> ip_impdonation port \<and> \<not> ip_spimportant port \<and> current_is_importance_donor E"]
        exI [of _ ?t'])
      (simp add: ipc_port_request_alloc_def require_ip_active_def Let_def)
qed

lemma request_alloc_ok:
  assumes act: "ip_active port" "name \<noteq> MACH_PORT_NULL" "soright \<noteq> IP_NULL" and al: "soright AND IPR_SOR_SPBIT_MASK = 0"
    and t: "ip_requests port = Some t" "ipr_ok E t (x # fs)"
  shows "\<exists>imp t'. ipc_port_request_alloc E port name soright sp im = Some ((KERN_SUCCESS, x, imp),
        port\<lparr>ip_requests := Some t', ip_sprequests := (ip_sprequests port \<or> sp \<and> im)\<rparr>)
      \<and> ipr_ok E t' fs \<and> ipr_map t' = (ipr_map t)(x \<mapsto> (name, soright)) \<and> ipr_map t x = None \<and> x \<noteq> 0
      \<and> length (ipr_slots t') = length (ipr_slots t)"
  using request_alloc_slot [OF act t, of sp im] IPR_SOR_PORT_MAKE [OF al] by fastforce

lemma request_cancel_ok:
  assumes act: "ip_active port" and t: "ip_requests port = Some t" "ipr_ok E t fs" and i: "ipr_map t i = Some (name, r)"
  shows "\<exists>t'. ipc_port_request_cancel port name i = Some (r, port\<lparr>ip_requests := Some t'\<rparr>)
      \<and> ipr_ok E t' (i # fs) \<and> ipr_map t' = (ipr_map t)(i := None)"
proof -
  note D = ipr_okD [OF t(2)]
  let ?e = "(ipr_slots t ! i)\<lparr>ipr_name := MACH_PORT_NULL, ipr_next := ipr_free t\<rparr>"
  let ?t' = "t\<lparr>ipr_free := i, ipr_slots := (ipr_slots t)[i := ?e]\<rparr>"
  have x: "0 < i" "i < length (ipr_slots t)" "ipr_name (ipr_slots t ! i) = name" "name \<noteq> MACH_PORT_NULL"
    "r = IPR_SOR_PORT (ipr_soright (ipr_slots t ! i))"
    using i by (auto simp: ipr_map_def split: if_splits)
  have nf: "i \<notin> set fs" using D(5) [of i] x by simp
  have "ipr_ok E ?t' (i # fs)"
    using D(1-4,7) x nf D(5) by (auto simp: ipr_ok_def nth_list_update_if)
  moreover have "ipr_map ?t' = (ipr_map t)(i := None)"
    using x by (auto simp: ipr_map_def nth_list_update_if fun_eq_iff)
  ultimately show ?thesis
    using act t(1) x
    by (intro exI [of _ ?t']) (simp add: ipc_port_request_cancel_def require_ip_active_def IE_REQ_NONE_def)
qed

section \<open>The contract of a request table\<close>

lemma map_upds_nth:
  "distinct xs \<Longrightarrow> length ys = length xs \<Longrightarrow> k < length xs \<Longrightarrow> (m(xs [\<mapsto>] ys)) (xs ! k) = Some (ys ! k)"
proof -
  assume a: "distinct xs" "length ys = length xs" "k < length xs"
  have "(xs ! k, ys ! k) \<in> set (rev (zip xs ys))" using a by (auto simp: in_set_conv_nth)
  then have "map_of (rev (zip xs ys)) (xs ! k) = Some (ys ! k)"
    using a by (intro map_of_is_SomeI) (simp_all add: rev_map [symmetric])
  then show ?thesis by (simp add: map_upds_def map_add_Some_iff)
qed

text \<open>
  What the users of a request table rely on: with room, a registration succeeds at an unused index
  and adds exactly one element to the map; a cancellation of a registered index returns the right
  it was registered with and makes room.
\<close>

locale request_table =
  fixes inv :: "'s \<Rightarrow> bool" and rmap :: "'s \<Rightarrow> nat \<rightharpoonup> mach_port_name_t \<times> ptr" and room :: "'s \<Rightarrow> nat"
    and good :: "mach_port_name_t \<Rightarrow> ptr \<Rightarrow> bool"
    and alloc :: "'s \<Rightarrow> mach_port_name_t \<Rightarrow> ptr \<Rightarrow> (nat \<times> 's) option"
    and cancel :: "'s \<Rightarrow> mach_port_name_t \<Rightarrow> nat \<Rightarrow> (ptr \<times> 's) option"
  assumes alloc_room: "inv s \<Longrightarrow> 0 < room s \<Longrightarrow> good n r \<Longrightarrow>
      \<exists>i s'. alloc s n r = Some (i, s') \<and> inv s' \<and> i \<noteq> 0 \<and> rmap s i = None
        \<and> rmap s' = (rmap s)(i \<mapsto> (n, r)) \<and> room s = Suc (room s')"
    and cancel_used: "inv s \<Longrightarrow> rmap s i = Some (n, r) \<Longrightarrow>
      \<exists>s'. cancel s n i = Some (r, s') \<and> inv s' \<and> rmap s' = (rmap s)(i := None) \<and> room s' = Suc (room s)"
begin

fun register :: "(mach_port_name_t \<times> ptr) list \<Rightarrow> 's \<Rightarrow> (nat list \<times> 's) option" where
  "register [] s = Some ([], s)"
| "register ((n, r) # nrs) s = do { (i, s) \<leftarrow> alloc s n r; (is, s) \<leftarrow> register nrs s; Some (i # is, s) }"

fun cancel_all :: "(mach_port_name_t \<times> nat) list \<Rightarrow> 's \<Rightarrow> (ptr list \<times> 's) option" where
  "cancel_all [] s = Some ([], s)"
| "cancel_all ((n, i) # nis) s = do { (r, s) \<leftarrow> cancel s n i; (rs, s) \<leftarrow> cancel_all nis s; Some (r # rs, s) }"

lemma register_ok:
  assumes "inv s" "length nrs \<le> room s" "\<forall>(n, r) \<in> set nrs. good n r"
  shows "\<exists>is s'. register nrs s = Some (is, s') \<and> inv s' \<and> length is = length nrs \<and> distinct is
    \<and> set is \<inter> dom (rmap s) = {} \<and> rmap s' = (rmap s)(is [\<mapsto>] nrs) \<and> room s = room s' + length nrs"
  using assms
proof (induction nrs arbitrary: s)
  case Nil then show ?case by simp
next
  case (Cons a nrs)
  obtain n r where a: "a = (n, r)" by (cases a)
  have g: "0 < room s" "good n r" and gs: "\<forall>(n, r) \<in> set nrs. good n r" using Cons.prems(2,3) a by auto
  obtain i s1 where 1: "alloc s n r = Some (i, s1)" "inv s1" "rmap s i = None" "rmap s1 = (rmap s)(i \<mapsto> (n, r))"
      "room s = Suc (room s1)"
    using alloc_room [OF Cons.prems(1) g] by blast
  have le: "length nrs \<le> room s1" using 1(5) Cons.prems(2) by simp
  obtain "is" s' where 2: "register nrs s1 = Some (is, s')" "inv s'" "length is = length nrs" "distinct is"
      "set is \<inter> dom (rmap s1) = {}" "rmap s' = (rmap s1)(is [\<mapsto>] nrs)" "room s1 = room s' + length nrs"
    using Cons.IH [OF 1(2) le gs] by blast
  have "register (a # nrs) s = Some (i # is, s')" using 1(1) 2(1) a by simp
  moreover have "i \<notin> set is" "set is \<inter> dom (rmap s) = {}" using 2(5) 1(4) by auto
  ultimately show ?case
    using 1 2 a by (intro exI [of _ "i # is"] exI [of _ s']) (simp add: domIff)
qed

lemma cancel_all_ok:
  assumes "inv s" "distinct is" "length is = length nrs" "\<forall>k < length is. rmap s (is ! k) = Some (nrs ! k)"
  shows "\<exists>s'. cancel_all (zip (map fst nrs) is) s = Some (map snd nrs, s') \<and> inv s'
    \<and> rmap s' = rmap s |` (- set is) \<and> room s' = room s + length is"
  using assms
proof (induction "is" arbitrary: s nrs)
  case Nil then show ?case by simp
next
  case (Cons i "is")
  obtain n r nrs' where nrs: "nrs = (n, r) # nrs'" using Cons.prems(3) by (cases nrs) auto
  obtain s1 where 1: "cancel s n i = Some (r, s1)" "inv s1" "rmap s1 = (rmap s)(i := None)" "room s1 = Suc (room s)"
    using cancel_used [OF Cons.prems(1), of i n r] spec [OF Cons.prems(4), of 0] nrs by auto
  have k: "rmap s1 (is ! k) = Some (nrs' ! k)" if "k < length is" for k
    using spec [OF Cons.prems(4), of "Suc k"] Cons.prems(2) that nrs 1(3) by auto
  then obtain s' where 2: "cancel_all (zip (map fst nrs') is) s1 = Some (map snd nrs', s')" "inv s'"
      "rmap s' = rmap s1 |` (- set is)" "room s' = room s1 + length is"
    using Cons.IH [of s1 nrs'] Cons.prems 1(2) nrs by auto
  show ?case
    using 1 2 nrs by (intro exI [of _ s']) (auto simp: fun_eq_iff restrict_map_def)
qed

lemma register_cancel_all:
  assumes "inv s" "length nrs \<le> room s" "\<forall>(n, r) \<in> set nrs. good n r"
  shows "\<exists>is s' s''. register nrs s = Some (is, s') \<and> length is = length nrs
    \<and> cancel_all (zip (map fst nrs) is) s' = Some (map snd nrs, s'') \<and> inv s'' \<and> rmap s'' = rmap s \<and> room s'' = room s"
proof -
  obtain "is" s' where 1: "register nrs s = Some (is, s')" "inv s'" "length is = length nrs" "distinct is"
      "set is \<inter> dom (rmap s) = {}" "rmap s' = (rmap s)(is [\<mapsto>] nrs)" "room s = room s' + length nrs"
    using register_ok [OF assms] by blast
  have look: "\<forall>k < length is. rmap s' (is ! k) = Some (nrs ! k)"
    using 1(3,4,6) by (simp add: map_upds_nth)
  obtain s'' where 2: "cancel_all (zip (map fst nrs) is) s' = Some (map snd nrs, s'')" "inv s''"
      "rmap s'' = rmap s' |` (- set is)" "room s'' = room s' + length is"
    using cancel_all_ok [OF 1(2,4,3) look] by blast
  have "rmap s'' = rmap s"
  proof
    fix j show "rmap s'' j = rmap s j"
    proof (cases "j \<in> set is")
      case True
      then have "rmap s j = None" using 1(5) by blast
      then show ?thesis using True by (simp add: 2(3) restrict_map_def)
    qed (simp add: 2(3) 1(6) restrict_map_def)
  qed
  then show ?thesis using 1 2 by auto
qed

lemma swap_ok:
  assumes "inv s" "rmap s i = Some (n, r)" "good m q"
  shows "\<exists>s1 j s2. cancel s n i = Some (r, s1) \<and> alloc s1 m q = Some (j, s2) \<and> inv s2
    \<and> rmap s2 = ((rmap s)(i := None))(j \<mapsto> (m, q)) \<and> room s2 = room s"
proof -
  obtain s1 where 1: "cancel s n i = Some (r, s1)" "inv s1" "rmap s1 = (rmap s)(i := None)" "room s1 = Suc (room s)"
    using cancel_used [OF assms(1,2)] by blast
  obtain j s2 where "alloc s1 m q = Some (j, s2)" "inv s2" "rmap s2 = (rmap s1)(j \<mapsto> (m, q))" "room s1 = Suc (room s2)"
    using alloc_room [OF 1(2) _ assms(3)] 1(4) by auto
  then show ?thesis using 1 by auto
qed

end

text \<open>The request table of a live port meets the contract, for every kind of request.\<close>

definition requests_live :: "kenv \<Rightarrow> ipc_port \<Rightarrow> bool" where
  "requests_live E port \<longleftrightarrow> ip_active port \<and> requests_inv E port"

definition good_request :: "mach_port_name_t \<Rightarrow> ptr \<Rightarrow> bool" where
  "good_request name soright \<longleftrightarrow> name \<noteq> MACH_PORT_NULL \<and> soright \<noteq> IP_NULL \<and> soright AND IPR_SOR_SPBIT_MASK = 0"

definition request_register ::
  "kenv \<Rightarrow> bool \<Rightarrow> bool \<Rightarrow> ipc_port \<Rightarrow> mach_port_name_t \<Rightarrow> ptr \<Rightarrow> (nat \<times> ipc_port) option" where
  "request_register E sp im port name soright = do {
     ((kr, i, _), port) \<leftarrow> ipc_port_request_alloc E port name soright sp im;
     if kr = KERN_SUCCESS then Some (i, port) else None
   }"

lemma ip_active_update [simp]:
  "ip_active (port\<lparr>ip_requests := t\<rparr>) = ip_active port"
  "ip_active (port\<lparr>ip_requests := t, ip_sprequests := b\<rparr>) = ip_active port"
  "ip_active (port\<lparr>ip_references := r\<rparr>) = ip_active port"
  by (simp_all add: ip_active_def)

interpretation rqt: request_table "requests_live E" requests_map requests_room good_request
  "request_register E sp im" ipc_port_request_cancel
  for E sp im
proof
  fix port n r
  assume live: "requests_live E port" and room: "0 < requests_room port" and good: "good_request n r"
  obtain t where t: "ip_requests port = Some t" using room by (cases "ip_requests port") (auto simp: requests_room_def)
  obtain fs where fs: "ipr_ok E t fs" using live t by (auto simp: requests_live_def requests_inv_def)
  have len: "length fs = requests_room port" using ipr_room [OF fs] t by (simp add: requests_room_def)
  with room obtain x fs' where x: "fs = x # fs'" by (cases fs) auto
  obtain imp t' where A: "ipc_port_request_alloc E port n r sp im = Some ((KERN_SUCCESS, x, imp),
        port\<lparr>ip_requests := Some t', ip_sprequests := (ip_sprequests port \<or> sp \<and> im)\<rparr>)"
      "ipr_ok E t' fs'" "ipr_map t' = (ipr_map t)(x \<mapsto> (n, r))" "ipr_map t x = None" "x \<noteq> 0"
    using request_alloc_ok [of port n r t E x fs' sp im] live good t fs x
    by (auto simp: requests_live_def good_request_def)
  show "\<exists>i port'. request_register E sp im port n r = Some (i, port') \<and> requests_live E port' \<and> i \<noteq> 0
      \<and> requests_map port i = None \<and> requests_map port' = (requests_map port)(i \<mapsto> (n, r))
      \<and> requests_room port = Suc (requests_room port')"
    using A live t len x ipr_room [OF A(2)]
    by (intro exI [of _ x]) (auto simp: request_register_def requests_live_def requests_inv_def requests_map_def requests_room_def)
next
  fix port i n r
  assume live: "requests_live E port" and i: "requests_map port i = Some (n, r)"
  obtain t where t: "ip_requests port = Some t" "ipr_map t i = Some (n, r)"
    using i by (auto simp: requests_map_def split: option.splits)
  obtain fs where fs: "ipr_ok E t fs" using live t by (auto simp: requests_live_def requests_inv_def)
  obtain t' where C: "ipc_port_request_cancel port n i = Some (r, port\<lparr>ip_requests := Some t'\<rparr>)" "ipr_ok E t' (i # fs)"
      "ipr_map t' = (ipr_map t)(i := None)"
    using request_cancel_ok [of port t E fs i n r] live t fs by (auto simp: requests_live_def)
  show "\<exists>port'. ipc_port_request_cancel port n i = Some (r, port') \<and> requests_live E port'
      \<and> requests_map port' = (requests_map port)(i := None) \<and> requests_room port' = Suc (requests_room port)"
    using C live t ipr_room [OF C(2)] ipr_room [OF fs]
    by (auto simp: requests_live_def requests_inv_def requests_map_def requests_room_def)
qed

section \<open>Growth of a request table\<close>

lemma request_grow_push_ok:
  assumes "rq_chain slots fr fs" "set fs \<subseteq> {0<..<m}" "0 < m" "m + n \<le> length slots" "distinct fs"
  shows "\<exists>slots'. request_grow_push [m..<m + n] fr slots = Some (if n = 0 then fr else m + n - 1, slots')
    \<and> length slots' = length slots \<and> rq_chain slots' (if n = 0 then fr else m + n - 1) (rev [m..<m + n] @ fs)
    \<and> (\<forall>i. i \<notin> {m..<m + n} \<longrightarrow> slots' ! i = slots ! i) \<and> (\<forall>i \<in> {m..<m + n}. ipr_name (slots' ! i) = MACH_PORT_NULL)"
  using assms
proof (induction n arbitrary: slots fr fs m)
  case 0 then show ?case by simp
next
  case (Suc n)
  let ?e = "(slots ! m)\<lparr>ipr_name := MACH_PORT_NULL, ipr_next := fr\<rparr>"
  let ?s = "slots[m := ?e]"
  have up: "[m..<m + Suc n] = m # [Suc m..<Suc m + n]" using upt_conv_Cons [of m "m + Suc n"] by simp
  have nm: "m \<notin> set fs" using Suc.prems(2) by auto
  have "rq_chain ?s m (m # fs)" using Suc.prems nm by auto
  moreover have "set (m # fs) \<subseteq> {0<..<Suc m}" "0 < Suc m" "Suc m + n \<le> length ?s" "distinct (m # fs)"
    using Suc.prems nm by auto
  ultimately obtain slots' where IH: "request_grow_push [Suc m..<Suc m + n] m ?s
        = Some (if n = 0 then m else Suc m + n - 1, slots')" "length slots' = length ?s"
      "rq_chain slots' (if n = 0 then m else Suc m + n - 1) (rev [Suc m..<Suc m + n] @ m # fs)"
      "\<forall>i. i \<notin> {Suc m..<Suc m + n} \<longrightarrow> slots' ! i = ?s ! i"
      "\<forall>i \<in> {Suc m..<Suc m + n}. ipr_name (slots' ! i) = MACH_PORT_NULL"
    using Suc.IH [of ?s m "m # fs" "Suc m"] by blast
  have m: "slots' ! m = ?e" using IH(4) Suc.prems(4) by simp
  have eq: "(if n = 0 then m else Suc m + n - 1) = m + Suc n - 1" by simp
  have "request_grow_push [m..<m + Suc n] fr slots = Some (m + Suc n - 1, slots')"
    using IH(1) Suc.prems(4) unfolding up eq by (simp del: upt_Suc)
  moreover have "rq_chain slots' (m + Suc n - 1) (rev [m..<m + Suc n] @ fs)"
    using IH(3) unfolding up eq by simp
  moreover have "slots' ! i = slots ! i" if "i \<notin> {m..<m + Suc n}" for i
    using IH(4) that by auto
  moreover have "ipr_name (slots' ! i) = MACH_PORT_NULL" if "i \<in> {m..<m + Suc n}" for i
    using IH(5) m that by (cases "i = m") auto
  ultimately show ?case using IH(2) by (intro exI [of _ slots']) simp
qed

text \<open>The size classes of the request tables, as \<open>ipc_table_init\<close> leaves them: increasing, with a class of size 0 last.\<close>

definition request_classes :: "ipc_table_size list \<Rightarrow> bool" where
  "request_classes its \<longleftrightarrow> its \<noteq> [] \<and> its_size (last its) = 0 \<and> sorted_wrt (<) (map its_size (butlast its))
     \<and> (\<forall>c \<in> set (butlast its). 1 < its_size c)"

lemma request_classesD:
  assumes "request_classes its" "i < length its" "its_size (its ! i) \<noteq> 0"
  shows "Suc i < length its" "1 < its_size (its ! i)"
    and "its_size (its ! Suc i) \<noteq> 0 \<Longrightarrow> its_size (its ! i) < its_size (its ! Suc i)"
proof -
  have l: "its_size (its ! j) = 0" if "j = length its - 1" for j
    using assms(1) that last_conv_nth [of its] by (auto simp: request_classes_def)
  show Si: "Suc i < length its" using l [of i] assms(2,3) by (cases "i = length its - 1") auto
  have b: "butlast its ! j = its ! j" if "j < length its - 1" for j using that by (simp add: nth_butlast)
  have "butlast its ! i \<in> set (butlast its)" using Si by (intro nth_mem) simp
  then show "1 < its_size (its ! i)" using assms(1) b [of i] Si by (simp add: request_classes_def)
  assume n: "its_size (its ! Suc i) \<noteq> 0"
  then have S: "Suc i < length its - 1" using l [of "Suc i"] Si by (cases "Suc i = length its - 1") auto
  have "sorted_wrt (<) (map its_size (butlast its))" using assms(1) by (simp add: request_classes_def)
  from sorted_wrt_nth_less [OF this, of i "Suc i"]
  show "its_size (its ! i) < its_size (its ! Suc i)" using S b by (simp add: nth_butlast)
qed

text \<open>The old table inside the new one.\<close>

lemma request_grow_copy:
  assumes "length old = m" "0 < m" "m \<le> n"
  defines "new \<equiv> take 1 (replicate n null_request) @ take (m - 1) (drop 1 old) @ drop m (replicate n null_request)"
  shows "length new = n" "0 < i \<Longrightarrow> i < m \<Longrightarrow> new ! i = old ! i"
  using assms by (auto simp: new_def nth_append)

lemma request_grow_table_ok:
  assumes t: "ipr_ok E t fs" and cl: "request_classes (ipc_table_requests E)"
    and c: "its_size (ipc_table_requests E ! Suc (ipr_size t)) \<noteq> 0"
  shows "\<exists>t' fs'. request_grow_table E (Some t) (Suc (ipr_size t)) = Some t' \<and> ipr_ok E t' fs' \<and> ipr_map t' = ipr_map t
    \<and> length fs' = length fs + (its_size (ipc_table_requests E ! Suc (ipr_size t)) - length (ipr_slots t))
    \<and> length (ipr_slots t) < its_size (ipc_table_requests E ! Suc (ipr_size t))"
proof -
  note D = ipr_okD [OF t]
  let ?its = "ipc_table_requests E" let ?m = "length (ipr_slots t)" let ?n = "its_size (?its ! Suc (ipr_size t))"
  define new where "new = take 1 (replicate ?n null_request) @ take (?m - 1) (drop 1 (ipr_slots t)) @ drop ?m (replicate ?n null_request)"
  have m: "its_size (?its ! ipr_size t) = ?m" "0 < ?m" using D(2,7) length_greater_0_conv [of "ipr_slots t"] by (simp_all del: length_greater_0_conv)
  have cd: "Suc (ipr_size t) < length ?its" "?m < ?n"
    using request_classesD [OF cl D(1)] m c by simp_all
  have new: "length new = ?n" "\<And>i. 0 < i \<Longrightarrow> i < ?m \<Longrightarrow> new ! i = ipr_slots t ! i"
    using request_grow_copy [OF refl m(2), of ?n] cd(2) unfolding new_def by (simp_all only: less_imp_le)
  have ch: "rq_chain new (ipr_free t) fs"
    by (rule rq_chain_mono [OF D(3)]) (use new cd D(6) in auto)
  obtain ntable where N: "request_grow_push [?m..<?m + (?n - ?m)] (ipr_free t) new = Some (?n - 1, ntable)"
      "length ntable = ?n" "rq_chain ntable (?n - 1) (rev [?m..<?n] @ fs)"
      "\<forall>i. i \<notin> {?m..<?n} \<longrightarrow> ntable ! i = new ! i" "\<forall>i \<in> {?m..<?n}. ipr_name (ntable ! i) = MACH_PORT_NULL"
    using request_grow_push_ok [OF ch, of ?m "?n - ?m"] D(4,6) m cd new(1) by auto
  let ?t' = "\<lparr>ipr_addr = it_requests_alloc E (Suc (ipr_size t)), ipr_free = ?n - 1, ipr_size = Suc (ipr_size t), ipr_slots = ntable\<rparr>"
  have old: "ntable ! i = ipr_slots t ! i" if "0 < i" "i < ?m" for i using N(4) new(2) that by simp
  have "request_grow_table E (Some t) (Suc (ipr_size t)) = Some ?t'"
    using N(1) cd m D(1) by (simp add: request_grow_table_def new_def Let_def)
  moreover have "ipr_ok E ?t' (rev [?m..<?n] @ fs)"
    unfolding ipr_ok_def
  proof (intro conjI ballI)
    fix i assume i: "i \<in> {0<..<length (ipr_slots ?t')}"
    show "(ipr_name (ipr_slots ?t' ! i) = MACH_PORT_NULL) = (i \<in> set (rev [?m..<?n] @ fs))"
      using i N(2,5) old [of i] D(5) [of i] D(6) by (cases "i < ?m") auto
  next
    show "distinct (rev [?m..<?n] @ fs)" using D(4,6) by (auto dest: subsetD)
    show "ipr_slots ?t' \<noteq> []" using N(2) cd(2) by (metis gr_implies_not0 ipr_table.select_convs(4) list.size(3))
  qed (use N(2,3) cd in simp_all)
  moreover have "ipr_map ?t' i = ipr_map t i" for i
    using N(2,5) old [of i] cd by (cases "i < ?m") (auto simp: ipr_map_def)
  ultimately show ?thesis using cd by (intro exI [of _ ?t'] exI [of _ "rev [?m..<?n] @ fs"]) (simp add: fun_eq_iff)
qed

lemma request_grow_first_ok:
  assumes cl: "request_classes (ipc_table_requests E)" and i: "i < length (ipc_table_requests E)"
    and c: "its_size (ipc_table_requests E ! i) \<noteq> 0"
  shows "\<exists>t' fs'. request_grow_table E None i = Some t' \<and> ipr_ok E t' fs' \<and> ipr_map t' = Map.empty \<and> fs' \<noteq> []"
proof -
  let ?n = "its_size (ipc_table_requests E ! i)"
  have n: "1 < ?n" using request_classesD(2) [OF cl i] c by simp
  obtain ntable where N: "request_grow_push [1..<1 + (?n - 1)] 0 (replicate ?n null_request) = Some (?n - 1, ntable)"
      "length ntable = ?n" "rq_chain ntable (?n - 1) (rev [1..<?n])" "\<forall>i \<in> {1..<?n}. ipr_name (ntable ! i) = MACH_PORT_NULL"
    using request_grow_push_ok [of "replicate ?n null_request" 0 "[]" 1 "?n - 1"] n by auto
  let ?t' = "\<lparr>ipr_addr = it_requests_alloc E i, ipr_free = ?n - 1, ipr_size = i, ipr_slots = ntable\<rparr>"
  have "request_grow_table E None i = Some ?t'"
    using N(1) n i by (simp add: request_grow_table_def Let_def)
  moreover have "ipr_ok E ?t' (rev [1..<?n])" using N(2-4) n i by (auto simp: ipr_ok_def)
  moreover have "ipr_map ?t' = Map.empty" using N(2,4) by (auto simp: ipr_map_def fun_eq_iff)
  ultimately show ?thesis using n by (intro exI [of _ ?t'] exI [of _ "rev [1..<?n]"]) simp
qed

text \<open>The class after the one a port has.\<close>

definition next_class :: "ipc_port \<Rightarrow> nat" where
  "next_class port = (case ip_requests port of None \<Rightarrow> 0 | Some t \<Rightarrow> Suc (ipr_size t))"

lemma request_grow_next:
  assumes cl: "request_classes (ipc_table_requests E)" and inv: "requests_inv E port"
    and c: "its_size (ipc_table_requests E ! next_class port) \<noteq> 0"
  shows "\<exists>t'. request_grow_table E (ip_requests port) (next_class port) = Some t'
    \<and> requests_inv E (port\<lparr>ip_requests := Some t'\<rparr>) \<and> requests_map (port\<lparr>ip_requests := Some t'\<rparr>) = requests_map port
    \<and> requests_room port < requests_room (port\<lparr>ip_requests := Some t'\<rparr>)"
proof (cases "ip_requests port")
  case None
  have "0 < length (ipc_table_requests E)" using cl by (simp add: request_classes_def)
  then show ?thesis
    using request_grow_first_ok [OF cl, of 0] c None ipr_room [of E]
    by (fastforce simp: next_class_def requests_inv_def requests_map_def requests_room_def)
next
  case (Some t)
  then obtain fs where fs: "ipr_ok E t fs" using inv by (auto simp: requests_inv_def)
  obtain t' fs' where t': "request_grow_table E (Some t) (Suc (ipr_size t)) = Some t'" "ipr_ok E t' fs'"
      "ipr_map t' = ipr_map t" "length fs < length fs'"
    using request_grow_table_ok [OF fs cl] c Some by (auto simp: next_class_def)
  then show ?thesis
    using Some ipr_room [OF fs] ipr_room [OF t'(2)]
    by (auto simp: next_class_def requests_inv_def requests_map_def requests_room_def)
qed

lemma next_class_bound:
  assumes "request_classes (ipc_table_requests E)" "requests_inv E port"
  shows "next_class port < length (ipc_table_requests E)"
    "\<And>t. ip_requests port = Some t \<Longrightarrow> its_size (ipc_table_requests E ! ipr_size t) = length (ipr_slots t)
        \<and> ipr_size t < length (ipc_table_requests E)"
proof -
  show 1: "its_size (ipc_table_requests E ! ipr_size t) = length (ipr_slots t) \<and> ipr_size t < length (ipc_table_requests E)"
    if "ip_requests port = Some t" for t
    using assms(2) that by (auto simp: requests_inv_def ipr_ok_def)
  show "next_class port < length (ipc_table_requests E)"
  proof (cases "ip_requests port")
    case None then show ?thesis using assms(1) by (simp add: next_class_def request_classes_def)
  next
    case (Some t)
    then have "ipr_slots t \<noteq> []" using assms(2) by (auto simp: requests_inv_def ipr_ok_def)
    then show ?thesis
      using request_classesD(1) [OF assms(1), of "ipr_size t"] 1 [OF Some] Some by (simp add: next_class_def)
  qed
qed

lemma ipc_port_request_grow_eq:
  assumes p: "ks_port s p = Some port" and act: "ip_active port" and r: "refs_ok (ip_references port)"
    and cl: "request_classes (ipc_table_requests E)" and inv: "requests_inv E port"
    and c: "its_size (ipc_table_requests E ! next_class port) \<noteq> 0" "it_requests_alloc E (next_class port) \<noteq> 0"
  defines "s1 \<equiv> put_port s p (port\<lparr>ip_references := ip_references port + 1\<rparr>)"
  assumes p1: "ks_port (others s1) p = Some port1"
  shows "ipc_port_request_grow E others p ITS_SIZE_NONE s =
    (if ip_active port1 \<and> map_option ipr_addr (ip_requests port1) = map_option ipr_addr (ip_requests port)
        \<and> (case ip_requests port1 of None \<Rightarrow> True | Some t \<Rightarrow> ipr_size t + 1 = next_class port)
     then do {
       t \<leftarrow> request_grow_table E (ip_requests port1) (next_class port);
       s \<leftarrow> ip_release p (put_port (others s1) p (port1\<lparr>ip_requests := Some t\<rparr>));
       Some (KERN_SUCCESS, s)
     } else do { s \<leftarrow> ip_release p (others s1); Some (KERN_SUCCESS, s) })"
proof -
  have its: "(case ip_requests port of None \<Rightarrow> 0 | Some t \<Rightarrow> ipr_size t + 1) = next_class port"
    by (simp add: next_class_def split: option.split)
  have osz: "(case ip_requests port of None \<Rightarrow> Some 0
      | Some t \<Rightarrow> map_option its_size (arr_get (ipc_table_requests E) (ipr_size t))) \<noteq> None"
    using next_class_bound(2) [OF cl inv] by (auto split: option.split)
  have "ip_reference p s = Some s1" using ip_reference_eq [OF p r] by (simp add: s1_def)
  then show ?thesis
    using p act c p1 osz next_class_bound(1) [OF cl inv]
    by (auto simp: ipc_port_request_grow_def require_ip_active_def its next_class_def [symmetric] Let_def cong: option.case_cong)
qed

text \<open>
  C15. \<open>ipc_port_request_grow\<close> drops the lock of the port while it allocates: other threads may do anything
  to the state (\<open>others\<close>), as long as the port is still there with a well-formed table and valid
  references. Then it returns \<open>KERN_SUCCESS\<close>, has kept every registered request (those the other threads
  registered in the meantime included), leaves no fewer free slots, and strictly more when nobody
  replaced the table.
\<close>

theorem ipc_port_request_grow_keeps_requests:
  assumes p: "ks_port s p = Some port" and act: "ip_active port" and r: "refs_ok (ip_references port)"
    and cl: "request_classes (ipc_table_requests E)" and inv: "requests_inv E port"
    and c: "its_size (ipc_table_requests E ! next_class port) \<noteq> 0" "it_requests_alloc E (next_class port) \<noteq> 0"
    and p1: "ks_port (others (put_port s p (port\<lparr>ip_references := ip_references port + 1\<rparr>))) p = Some port1"
    and port1: "requests_inv E port1" "refs_ok (ip_references port1)" "ip_references port1 \<noteq> 1"
  shows "\<exists>s' port'. ipc_port_request_grow E others p ITS_SIZE_NONE s = Some (KERN_SUCCESS, s')
    \<and> ks_port s' p = Some port' \<and> ip_references port' = ip_references port1 - 1
    \<and> requests_inv E port' \<and> requests_map port' = requests_map port1 \<and> requests_room port1 \<le> requests_room port'
    \<and> (ip_active port1 \<and> ip_requests port1 = ip_requests port \<longrightarrow> requests_room port1 < requests_room port')"
proof (cases "ip_active port1 \<and> map_option ipr_addr (ip_requests port1) = map_option ipr_addr (ip_requests port)
    \<and> (case ip_requests port1 of None \<Rightarrow> True | Some t \<Rightarrow> ipr_size t + 1 = next_class port)")
  case True
  then have n: "next_class port1 = next_class port"
    by (cases "ip_requests port1"; cases "ip_requests port") (auto simp: next_class_def)
  obtain t where t: "request_grow_table E (ip_requests port1) (next_class port) = Some t"
      "requests_inv E (port1\<lparr>ip_requests := Some t\<rparr>)" "requests_map (port1\<lparr>ip_requests := Some t\<rparr>) = requests_map port1"
      "requests_room port1 < requests_room (port1\<lparr>ip_requests := Some t\<rparr>)"
    using request_grow_next [OF cl port1(1)] c n by auto
  show ?thesis
    using t port1(2,3) by (simp add: ipc_port_request_grow_eq [where others = others, OF assms(1-8)] True
        requests_cong [of "port1\<lparr>ip_requests := Some t, ip_references := r\<rparr>" "port1\<lparr>ip_requests := Some t\<rparr>" for r]
        ip_release_eq [where port = "port1\<lparr>ip_requests := Some t\<rparr>"])
next
  case False
  then have "\<not> (ip_active port1 \<and> ip_requests port1 = ip_requests port)"
    by (auto simp: next_class_def split: option.splits)
  then show ?thesis
    using port1 by (simp add: ipc_port_request_grow_eq [where others = others, OF assms(1-8)] False ip_release_eq [OF p1])
qed

definition example_port :: ipc_port where
  "example_port = zero_port\<lparr>ip_io_bits := io_makebits True IOT_PORT 0, ip_references := 2, ip_data := 0x10,
     ip_receiver_name := 0x103\<rparr>"

definition example_requests :: ipc_port where
  "example_requests = example_port\<lparr>ip_requests := Some \<lparr>ipr_addr = 0x9000, ipr_free = 2, ipr_size = 1,
     ipr_slots = [null_request, \<lparr>ipr_soright = 0x5000, ipr_next = 0, ipr_name = 0x203\<rparr>,
                  null_request\<lparr>ipr_next := 3\<rparr>, null_request]\<rparr>\<rparr>"

lemma example_active [simp]: "ip_active example_port" "ip_active example_requests"
  by (simp_all add: example_requests_def example_port_def ip_active_def io_active_def io_makebits_def IO_BITS_ACTIVE_def IOT_PORT_def)

lemma example_request_classes: "request_classes (ipc_table_requests example_env)"
  by (simp add: example_env_def request_classes_def ipc_table_size.make_def)

lemma example_requests_sel:
  "ip_references example_requests = 2" "next_class example_requests = 2" "refs_ok 2" "refs_ok 3"
  "its_size (ipc_table_requests example_env ! 2) = 8" "it_requests_alloc example_env 2 = 0x9002"
  by (simp_all add: example_requests_def example_port_def next_class_def refs_ok_def IO_MAX_REFERENCES_def
      word_less_nat_alt example_env_def ipc_table_size.make_def)

lemma example_requests_inv: "requests_inv example_env example_requests" "requests_inv example_env example_port"
proof -
  have "{0<..<Suc (Suc (Suc (Suc 0)))} = {1, 2, 3}" by auto
  then have "ipr_ok example_env (the (ip_requests example_requests)) [2, 3]"
    by (simp add: ipr_ok_def example_requests_def example_env_def ipc_table_size.make_def null_request_def
        MACH_PORT_NULL_def)
  then show "requests_inv example_env example_requests"
    by (auto simp: requests_inv_def example_requests_def)
  show "requests_inv example_env example_port" by (simp add: requests_inv_def example_port_def zero_port_def)
qed

theorem ipc_port_request_grow_keeps_requests_witness:
  "\<exists>s' port'. ipc_port_request_grow example_env id 0x1000 ITS_SIZE_NONE (put_port empty_kst 0x1000 example_requests)
      = Some (KERN_SUCCESS, s') \<and> ks_port s' 0x1000 = Some port' \<and> requests_map port' = requests_map example_requests
    \<and> requests_room example_requests < requests_room port'"
proof -
  have "ks_port (put_port empty_kst 0x1000 example_requests) 0x1000 = Some example_requests"
    "ks_port (id (put_port (put_port empty_kst 0x1000 example_requests) 0x1000
        (example_requests\<lparr>ip_references := ip_references example_requests + 1\<rparr>))) 0x1000
     = Some (example_requests\<lparr>ip_references := 3\<rparr>)"
    by (simp_all add: example_requests_sel)
  from ipc_port_request_grow_keeps_requests [where E = example_env and others = id, OF this(1) _ _ _ _ _ _ this(2)]
  show ?thesis by (auto simp: example_requests_sel example_request_classes example_requests_inv)
qed

text \<open>
  C36. When the target skips a size class, the growth of an existing table is discarded: the check that
  nobody else has grown the table compares with the next class, so the routine allocates a table of the class it found,
  frees it again and returns \<open>KERN_SUCCESS\<close> with the state unchanged.
\<close>

theorem ipc_port_request_grow_skips_class:
  assumes p: "ks_port s p = Some port" "ip_active port" and r: "refs_ok (ip_references port)" "refs_ok (ip_references port + 1)"
    and t: "ip_requests port = Some t" "ipr_size t < length (ipc_table_requests E)"
    and tgt: "tgt \<noteq> ITS_SIZE_NONE" "its_size (ipc_table_requests E ! ipr_size t) < unat tgt"
    and c: "request_grow_search (ipc_table_requests E) (unat tgt) (ipr_size t + 1) = Some its" "its \<noteq> ipr_size t + 1"
      "its < length (ipc_table_requests E)" "its_size (ipc_table_requests E ! its) \<noteq> 0" "it_requests_alloc E its \<noteq> 0"
  shows "ipc_port_request_grow E id p tgt s = Some (KERN_SUCCESS, s)"
proof -
  obtain s1 where s1: "ip_reference p s = Some s1" "ip_release p s1 = Some s"
    using ip_reference_release [OF p(1) r] by blast
  moreover have "ks_port s1 p = Some (port\<lparr>ip_references := ip_references port + 1\<rparr>)"
    using ip_reference_eq [OF p(1) r(1)] s1(1) by auto
  ultimately show ?thesis
    using p t tgt c by (simp add: ipc_port_request_grow_def require_ip_active_def)
qed

theorem ipc_port_request_grow_skips_class_witness:
  "ipc_port_request_grow example_env id 0x1000 6 (put_port empty_kst 0x1000 (example_requests\<lparr>ip_requests :=
     Some \<lparr>ipr_addr = 0x9000, ipr_free = 1, ipr_size = 0, ipr_slots = [null_request, null_request]\<rparr>\<rparr>))
   = Some (KERN_SUCCESS, put_port empty_kst 0x1000 (example_requests\<lparr>ip_requests :=
     Some \<lparr>ipr_addr = 0x9000, ipr_free = 1, ipr_size = 0, ipr_slots = [null_request, null_request]\<rparr>\<rparr>))"
  by (rule ipc_port_request_grow_skips_class [where its = 2])
    (auto simp: refs_ok_def IO_MAX_REFERENCES_def example_requests_def example_port_def example_env_def ITS_SIZE_NONE_def
      ipc_table_size.make_def word_less_nat_alt request_grow_search.simps ip_active_def io_active_def io_makebits_def
      IO_BITS_ACTIVE_def IOT_PORT_def)

text \<open>
  C24. Register any list of requests for which the table has room, then cancel them by the names and
  indices they were given: no step fails, each cancellation returns the port it was registered with, and the table
  maps and holds what it did before.
\<close>

theorem request_register_cancel_roundtrip:
  assumes "requests_live E port" "length nrs \<le> requests_room port" "\<forall>(name, soright) \<in> set nrs. good_request name soright"
  shows "\<exists>is port' port''. request_table.register (request_register E sp im) nrs port = Some (is, port')
    \<and> length is = length nrs
    \<and> request_table.cancel_all ipc_port_request_cancel (zip (map fst nrs) is) port' = Some (map snd nrs, port'')
    \<and> requests_live E port'' \<and> requests_map port'' = requests_map port \<and> requests_room port'' = requests_room port"
  by (rule rqt.register_cancel_all [OF assms])

lemma example_room: "requests_room example_requests = 2"
proof -
  have "{0<..<Suc (Suc (Suc (Suc 0)))} - dom (ipr_map (the (ip_requests example_requests))) = {2, 3}"
    by (auto simp: ipr_map_def example_requests_def null_request_def MACH_PORT_NULL_def dom_def nth_Cons' split: if_splits)
  then show ?thesis by (simp add: requests_room_def example_requests_def)
qed

theorem request_register_cancel_roundtrip_witness:
  "\<exists>is port' port''. request_table.register (request_register example_env True True) [(0x303, 0x6000), (0x403, 0x7000)]
      example_requests = Some (is, port')
    \<and> request_table.cancel_all ipc_port_request_cancel (zip [0x303, 0x403] is) port' = Some ([0x6000, 0x7000], port'')
    \<and> requests_map port'' = requests_map example_requests"
  using request_register_cancel_roundtrip [of example_env example_requests "[(0x303, 0x6000), (0x403, 0x7000)]" True True]
  by (auto simp: requests_live_def example_requests_inv example_room good_request_def MACH_PORT_NULL_def IP_NULL_def
      IPR_SOR_SPBIT_MASK_def)

text \<open>
  C35. Replacing a request in place, as \<open>ipc_right_request_alloc\<close> does under the lock of the port (cancel,
  then allocate, asserting success), cannot fail even in a full table, and changes exactly that request.
\<close>

theorem request_swap_never_fails:
  assumes "requests_live E port" "requests_map port i = Some (name, r)" "good_request name' soright"
  shows "\<exists>port1 j imp port2. ipc_port_request_cancel port name i = Some (r, port1)
    \<and> ipc_port_request_alloc E port1 name' soright sp im = Some ((KERN_SUCCESS, j, imp), port2) \<and> requests_live E port2
    \<and> requests_map port2 = ((requests_map port)(i := None))(j \<mapsto> (name', soright)) \<and> requests_room port2 = requests_room port"
proof -
  obtain port1 j port2 where *: "ipc_port_request_cancel port name i = Some (r, port1)"
      "request_register E sp im port1 name' soright = Some (j, port2)" "requests_live E port2"
      "requests_map port2 = ((requests_map port)(i := None))(j \<mapsto> (name', soright))" "requests_room port2 = requests_room port"
    using rqt.swap_ok [OF assms, of sp im] by blast
  then obtain imp where "ipc_port_request_alloc E port1 name' soright sp im = Some ((KERN_SUCCESS, j, imp), port2)"
    by (auto simp: request_register_def split: bind_splits if_splits)
  with * show ?thesis by blast
qed

theorem request_swap_never_fails_witness:
  "\<exists>port1 j imp port2. ipc_port_request_cancel example_requests 0x203 1 = Some (0x5000, port1)
    \<and> ipc_port_request_alloc example_env port1 0x303 0x6000 True False = Some ((KERN_SUCCESS, j, imp), port2)
    \<and> requests_map port2 j = Some (0x303, 0x6000)"
proof -
  have "requests_map example_requests 1 = Some (0x203, 0x5000)"
    by (simp add: requests_map_def ipr_map_def example_requests_def MACH_PORT_NULL_def IPR_SOR_PORT_def IPR_SOR_SPBIT_MASK_def)
  from request_swap_never_fails [where E = example_env and name' = "0x303" and soright = "0x6000" and sp = True and im = False, OF _ this]
  show ?thesis
    by (auto simp: requests_live_def example_requests_inv good_request_def MACH_PORT_NULL_def IP_NULL_def IPR_SOR_SPBIT_MASK_def)
qed

end
