(* ===== verification/Ipc_Port.thy ===== *)
theory Ipc_Port
  imports Ipc_Request
begin

text \<open>
  Ports (\<open>osfmk/ipc/ipc_port.c\<close>): notification requests, the receiver, creation and destruction, the
  chain of ports in transit with the importance counts along it, and naked send, send-once and
  receive rights. The circularity check is the one of \<open>osfmk/ipc/ipc_importance.c\<close>, which is the code
  \<open>ipc_port_check_circularity\<close> runs in a kernel with importance inheritance.

  Every routine takes the address of the port and the kernel state. The sync-IPC linkage of special
  reply ports, watchports and turnstiles are events of the log. The counts \<open>ip_srights\<close>, \<open>ip_sorights\<close> and
  \<open>ip_mscount\<close> are 32-bit and \<open>ip_impcount\<close> is 16-bit; increments wrap as they do in the code.
\<close>

section \<open>Requests and notifications\<close>

definition ipc_port_timestamp :: "kst \<Rightarrow> 32 word \<times> kst" where
  "ipc_port_timestamp s = (ks_timestamp s, s\<lparr>ks_timestamp := ks_timestamp s + 1\<rparr>)"

definition ipc_port_pdrequest :: "ptr \<Rightarrow> ptr \<Rightarrow> kst \<Rightarrow> (ptr \<times> kst) option" where
  "ipc_port_pdrequest p notify s = do {
     port \<leftarrow> ks_port s p;
     require_ip_active port;
     Some (ip_pdrequest port, put_port s p (port\<lparr>ip_pdrequest := notify\<rparr>))
   }"

definition ipc_port_nsrequest :: "ptr \<Rightarrow> 32 word \<Rightarrow> ptr \<Rightarrow> kst \<Rightarrow> (ptr \<times> kst) option" where
  "ipc_port_nsrequest p sync notify s = do {
     port \<leftarrow> ks_port s p;
     require_ip_active port;
     let previous = ip_nsrequest port;
     let mscount = ip_mscount port;
     if ip_srights port = 0 \<and> sync \<le> mscount \<and> notify \<noteq> IP_NULL
     then Some (previous, ipc_notify_no_senders notify mscount (put_port s p (port\<lparr>ip_nsrequest := IP_NULL\<rparr>)))
     else Some (previous, put_port s p (port\<lparr>ip_nsrequest := notify\<rparr>))
   }"

definition ipc_port_clear_receiver :: "kenv \<Rightarrow> ptr \<Rightarrow> bool \<Rightarrow> kst \<Rightarrow> (bool \<times> kst) option" where
  "ipc_port_clear_receiver E p should_destroy s = do {
     port \<leftarrow> ks_port s p;
     let (port, s) = (if ip_in_pset port \<noteq> 0
                      then (port\<lparr>ip_in_pset := 0\<rparr>, klog (pset_remove_from_all p) s) else (port, s));
     let s = klog (mqueue_changed (if ip_receiver_name port \<noteq> MACH_PORT_NULL then ip_receiver port else 0) p) s;
     let port = port\<lparr>ip_mscount := 0, ip_seqno := 0, ip_context := 0, ip_guarded := False,
                     ip_strict_guard := False, ip_immovable_receive := False\<rparr>;
     if should_destroy then do {
       let (now, s) = ipc_port_timestamp s;
       let port = port\<lparr>ip_io_bits := ip_io_bits port AND NOT IO_BITS_ACTIVE,
                       ip_data := (ip_data port AND NOT (mask 32)) OR ucast now, ip_msgcount := 0\<rparr>;
       Some (mqueue_reaps E, klog (mqueue_destroy p) (put_port s p port))
     } else
       Some (False, put_port s p (port\<lparr>ip_receiver_name := MACH_PORT_NULL, ip_data := IP_NULL\<rparr>))
   }"

section \<open>Creation\<close>

definition IPC_PORT_INIT_NONE :: "32 word" where
  "IPC_PORT_INIT_NONE = 0"

definition IPC_PORT_INIT_MAKE_SEND_RIGHT :: "32 word" where
  "IPC_PORT_INIT_MAKE_SEND_RIGHT = 1"

definition IPC_PORT_INIT_MESSAGE_QUEUE :: "32 word" where
  "IPC_PORT_INIT_MESSAGE_QUEUE = 2"

definition IPC_PORT_INIT_SPECIAL_REPLY :: "32 word" where
  "IPC_PORT_INIT_SPECIAL_REPLY = 4"

definition IPC_PORT_INIT_FILTER_MESSAGE :: "32 word" where
  "IPC_PORT_INIT_FILTER_MESSAGE = 8"

definition IPC_PORT_INIT_TG_BLOCK_TRACKING :: "32 word" where
  "IPC_PORT_INIT_TG_BLOCK_TRACKING = 0x10"

text \<open>
  \<open>ipc_mqueue_init\<close> sets the queue limit to \<open>MACH_PORT_QLIMIT_DEFAULT\<close>, 5, whatever the kind of the queue;
  the wait queue it initialises is not modelled.
\<close>

definition ipc_port_init :: "ipc_port \<Rightarrow> ptr \<Rightarrow> 32 word \<Rightarrow> mach_port_name_t \<Rightarrow> ipc_port" where
  "ipc_port_init port space flags name =
     (let port = port\<lparr>ip_data := space, ip_receiver_name := name\<rparr>;
          port = (if flags AND IPC_PORT_INIT_MAKE_SEND_RIGHT \<noteq> 0
                  then port\<lparr>ip_srights := 1, ip_mscount := 1\<rparr> else port);
          port = (if flags AND IPC_PORT_INIT_FILTER_MESSAGE \<noteq> 0
                  then port\<lparr>ip_io_bits := ip_io_bits port OR IP_BIT_FILTER_MSG\<rparr> else port);
          port = port\<lparr>ip_tg_block_tracking := (flags AND IPC_PORT_INIT_TG_BLOCK_TRACKING \<noteq> 0)\<rparr>;
          port = (if flags AND IPC_PORT_INIT_SPECIAL_REPLY \<noteq> 0
                  then port\<lparr>ip_specialreply := True, ip_immovable_receive := True\<rparr> else port)
      in port\<lparr>ip_seqno := 0, ip_msgcount := 0, ip_qlimit := 5, ip_reply_context := 0\<rparr>)"

section \<open>Notifications\<close>

text \<open>The send-possible scan stops when the port is found dead; a claimed slot keeps its name.\<close>

fun spnotify_scan :: "nat list \<Rightarrow> ptr \<Rightarrow> kst \<Rightarrow> kst option" where
  "spnotify_scan [] p s = Some s"
| "spnotify_scan (i # is) p s = do {
     port \<leftarrow> ks_port s p;
     if \<not> ip_active port then Some s
     else do {
       requests \<leftarrow> ip_requests port;
       ipr \<leftarrow> arr_get (ipr_slots requests) i;
       let soright = IPR_SOR_PORT (ipr_soright ipr);
       if MACH_PORT_VALID (ipr_name ipr) \<and> IPR_SOR_SPARMED (ipr_soright ipr) \<and> IP_VALID soright
       then do {
         slots \<leftarrow> arr_set (ipr_slots requests) i (ipr\<lparr>ipr_soright := IP_NULL\<rparr>);
         let s = put_port s p (port\<lparr>ip_requests := Some (requests\<lparr>ipr_slots := slots\<rparr>)\<rparr>);
         spnotify_scan is p (ipc_notify_send_possible soright (ipr_name ipr) s)
       } else spnotify_scan is p s
     }
   }"

fun dnnotify_scan :: "ipc_port_request list \<Rightarrow> kst \<Rightarrow> kst" where
  "dnnotify_scan [] s = s"
| "dnnotify_scan (ipr # iprs) s =
     dnnotify_scan iprs
       (if MACH_PORT_VALID (ipr_name ipr) \<and> IP_VALID (IPR_SOR_PORT (ipr_soright ipr))
        then ipc_notify_dead_name (IPR_SOR_PORT (ipr_soright ipr)) (ipr_name ipr) s else s)"

definition ipc_port_dnnotify :: "kenv \<Rightarrow> ptr \<Rightarrow> kst \<Rightarrow> kst option" where
  "ipc_port_dnnotify E p s = do {
     port \<leftarrow> ks_port s p;
     kassert (\<not> ip_active port);
     case ip_requests port of
       None \<Rightarrow> Some s
     | Some requests \<Rightarrow> do {
         c \<leftarrow> arr_get (ipc_table_requests E) (ipr_size requests);
         kassert (its_size c \<le> length (ipr_slots requests));
         Some (dnnotify_scan (take (its_size c - 1) (drop 1 (ipr_slots requests))) s)
       }
   }"

section \<open>Destruction\<close>

text \<open>
  The importance assertions a destroyed port gives up: \<open>destroy_assertions\<close> is the first importance
  block of \<open>ipc_port_destroy\<close>, \<open>drop_assertions\<close> the code behind its label of that name.
\<close>

definition destroy_assertions ::
  "bool \<Rightarrow> ipc_port \<Rightarrow> (ptr \<times> 16 word \<times> ipc_port) option" where
  "destroy_assertions top1 port =
     (if ip_tempowner port then do {
        kassert top1;
        let release_imp_task = ip_imp_task port;
        Some (if release_imp_task \<noteq> 0 then (release_imp_task, ip_impcount port, port\<lparr>ip_kdata := 0\<rparr>)
              else (0, 0, port))
      } else
        Some (0, ip_impcount port, if ip_pdrequest port \<noteq> IP_NULL then port\<lparr>ip_tempowner := True\<rparr> else port))"

definition drop_assertions :: "kenv \<Rightarrow> bool \<Rightarrow> ptr \<Rightarrow> 16 word \<Rightarrow> kst \<Rightarrow> kst option" where
  "drop_assertions E top1 release_imp_task assertcnt s =
     (if release_imp_task \<noteq> 0 then do {
        s \<leftarrow> (if 0 < assertcnt then do {
                kassert top1;
                kassert (imp_task_is_any_receiver_type E release_imp_task);
                Some (klog (importance_drop release_imp_task (uint assertcnt)) (s\<lparr>ks_ith_assertions := 0\<rparr>))
              } else Some s);
        Some (klog (importance_release release_imp_task) s)
      }
      else if 0 < assertcnt \<and> top1 then
        let s = s\<lparr>ks_ith_assertions := 0\<rparr> in
        Some (if imp_task_is_any_receiver_type E (current_imp_base E)
              then klog (importance_drop (current_imp_base E) (uint assertcnt)) s else s)
      else Some s)"

text \<open>The two ways a port goes: sent to its backup, or marked dead and torn down.\<close>

definition destroy_to_backup :: "kenv \<Rightarrow> ptr \<Rightarrow> bool \<Rightarrow> ptr \<Rightarrow> kst \<Rightarrow> kst option" where
  "destroy_to_backup E p special_reply pdrequest s = do {
     (_, s) \<leftarrow> ipc_port_clear_receiver E p False s;
     port \<leftarrow> ks_port s p;
     kassert (ip_in_pset port = 0);
     kassert (ip_mscount port = 0);
     let s = put_port s p (port\<lparr>ip_pdrequest := IP_NULL\<rparr>);
     let s = klog (clear_watchport p) s;
     let s = klog (send_turnstile_recompute_push p) s;
     let s = (if special_reply then klog (adjust_special_reply_port p) s else s);
     Some (ipc_notify_port_destroyed pdrequest p s)
   }"

definition destroy_dead :: "kenv \<Rightarrow> ptr \<Rightarrow> bool \<Rightarrow> kst \<Rightarrow> kst option" where
  "destroy_dead E p special_reply s = do {
     (reap_msgs, s) \<leftarrow> ipc_port_clear_receiver E p True s;
     port \<leftarrow> ks_port s p;
     kassert (ip_in_pset port = 0);
     kassert (ip_mscount port = 0);
     let s = klog (clear_watchport p) s;
     let nsrequest = ip_nsrequest port;
     s \<leftarrow> (if IP_PREALLOC port then do {
             let kmsg = ip_premsg port;
             kassert (kmsg \<noteq> 0);
             let inuse_port = ikm_prealloc_inuse_port E kmsg;
             let s = put_port s p (port\<lparr>ip_io_bits := ip_io_bits port AND NOT IP_BIT_PREALLOC, ip_premsg := 0\<rparr>);
             let s = klog (send_turnstile_recompute_push p) s;
             if inuse_port \<noteq> IP_NULL then do { kassert (inuse_port = p); Some s }
             else Some (klog (kmsg_free kmsg) s)
           } else Some (klog (send_turnstile_recompute_push p) s));
     let s = (if special_reply then klog (adjust_special_reply_port p) s else s);
     let s = (if nsrequest \<noteq> IP_NULL then ipc_notify_send_once nsrequest s else s);
     let s = (if reap_msgs then klog kmsg_reap_delayed s else s);
     let s = klog (mqueue_deinit p) s;
     s \<leftarrow> ipc_port_dnnotify E p s;
     let s = klog (kobject_destroy p) s;
     ip_release p s
   }"

definition ipc_port_destroy :: "kenv \<Rightarrow> ptr \<Rightarrow> kst \<Rightarrow> kst option" where
  "ipc_port_destroy E p s = do {
     port \<leftarrow> ks_port s p;
     let special_reply = ip_specialreply port;
     let top1 = (ks_ith_assertions s = 0);
     require_ip_active port;
     let port = port\<lparr>ip_reply_context := 0\<rparr>;
     let pdrequest = ip_pdrequest port;
     if special_reply \<and> (pdrequest \<noteq> IP_NULL \<or> ip_tempowner port) then panic
     else do {
       (release_imp_task, assertcnt, port) \<leftarrow> destroy_assertions top1 port;
       let s = put_port s p port;
       let s = (if top1 then s\<lparr>ks_ith_assertions := ucast assertcnt\<rparr> else s);
       s \<leftarrow> (if pdrequest \<noteq> IP_NULL then destroy_to_backup E p special_reply pdrequest s
             else destroy_dead E p special_reply s);
       drop_assertions E top1 release_imp_task assertcnt s
     }
   }"

section \<open>Ports in transit\<close>

text \<open>
  The walk along \<open>ip_destination\<close> to the first port that is not in transit. It returns whether it took
  a reference on that port. A cyclic chain would make it run forever, which is \<open>None\<close>.
\<close>

partial_function (option) ipc_port_destination_chain_lock ::
  "ptr \<Rightarrow> kst \<Rightarrow> ((bool \<times> ptr) \<times> kst) option" where
  "ipc_port_destination_chain_lock p s = do {
     port \<leftarrow> ks_port s p;
     if \<not> ip_active port then do {
       s \<leftarrow> ip_reference p s;
       Some ((True, p), s)
     }
     else if ip_receiver_name port \<noteq> MACH_PORT_NULL \<or> ip_destination port = IP_NULL
     then Some ((False, p), s)
     else ipc_port_destination_chain_lock (ip_destination port) s
   }"

definition ipc_port_impcount_delta :: "ipc_port \<Rightarrow> int \<Rightarrow> int \<times> ipc_port" where
  "ipc_port_impcount_delta port delta =
     (if \<not> ip_active port then (0, port)
      else if 0 \<le> delta then (delta, port\<lparr>ip_impcount := ip_impcount port + of_int delta\<rparr>)
      else let absdelta = 0 - delta in
        if absdelta \<le> uint (ip_impcount port)
        then (delta, port\<lparr>ip_impcount := ip_impcount port - of_int absdelta\<rparr>)
        else (0 - uint (ip_impcount port), port\<lparr>ip_impcount := 0\<rparr>))"

text \<open>The loop of \<open>ipc_port_importance_delta_internal\<close> that unlocks the chain down to its base.\<close>

partial_function (option) importance_delta_chain :: "ptr \<Rightarrow> ptr \<Rightarrow> int \<Rightarrow> kst \<Rightarrow> (int \<times> kst) option" where
  "importance_delta_chain base p delta s = do {
     port \<leftarrow> ks_port s p;
     let (delta, port) = ipc_port_impcount_delta port delta;
     let s = put_port s p port;
     if p = base then Some (delta, s)
     else do {
       kassert (\<not> ip_tempowner port);
       importance_delta_chain base (ip_destination port) delta s
     }
   }"

text \<open>The task at the base of a chain that takes the boosts, or 0.\<close>

definition importance_base_task :: "kenv \<Rightarrow> ipc_port \<Rightarrow> kst \<Rightarrow> ptr option" where
  "importance_base_task E base s =
     (if ip_active base then
        if ip_tempowner base then Some (ip_imp_task base)
        else if ip_receiver_name base \<noteq> MACH_PORT_NULL then do {
          space \<leftarrow> ks_space s (ip_receiver base);
          Some (if is_task space \<noteq> 0 \<and> imp_task_is_any_receiver_type E (task_imp_base E (is_task space))
                then task_imp_base E (is_task space) else 0)
        } else Some 0
      else Some 0)"

datatype ipid_option = IPID_OPTION_NORMAL | IPID_OPTION_SENDPOSSIBLE

definition ipc_port_importance_delta_internal ::
  "kenv \<Rightarrow> ptr \<Rightarrow> ipid_option \<Rightarrow> int \<Rightarrow> kst \<Rightarrow> ((bool \<times> int \<times> ptr) \<times> kst) option" where
  "ipc_port_importance_delta_internal E p options delta s =
     (if delta = 0 then Some ((False, 0, 0), s)
      else do {
        port \<leftarrow> ks_port s p;
        let in_transit = (ip_active port \<and> ip_destination port \<noteq> IP_NULL \<and> ip_receiver_name port = MACH_PORT_NULL);
        ((took_base_ref, base), s) \<leftarrow>
          (if in_transit then ipc_port_destination_chain_lock p s else Some ((False, p), s));
        (delta, s) \<leftarrow> (case options of
            IPID_OPTION_SENDPOSSIBLE \<Rightarrow> do {
              kassert (delta = 1);
              port \<leftarrow> ks_port s p;
              if ip_sprequests port \<and> \<not> ip_spimportant port
              then Some (delta, put_port s p (port\<lparr>ip_spimportant := True\<rparr>)) else Some (0, s)
            }
          | IPID_OPTION_NORMAL \<Rightarrow> Some (delta, s));
        (delta, s) \<leftarrow> importance_delta_chain base p delta s;
        bport \<leftarrow> ks_port s base;
        imp_task \<leftarrow> importance_base_task E bport s;
        let s = (if imp_task \<noteq> 0 then klog (importance_reference imp_task) s else s);
        s \<leftarrow> (if in_transit \<and> took_base_ref then ip_release base s else Some s);
        Some ((in_transit, delta, imp_task), s)
      })"

definition ipc_port_importance_delta ::
  "kenv \<Rightarrow> ptr \<Rightarrow> ipid_option \<Rightarrow> int \<Rightarrow> kst \<Rightarrow> (bool \<times> kst) option" where
  "ipc_port_importance_delta E p options delta s = do {
     ((dropped, delta, imp_task), s) \<leftarrow> ipc_port_importance_delta_internal E p options delta s;
     if imp_task = 0 \<or> delta = 0 then Some (dropped, s)
     else do {
       kassert (imp_task_is_any_receiver_type E imp_task);
       let s = (if 0 < delta then klog (importance_hold imp_task delta) s
                else klog (importance_drop imp_task (- delta)) s);
       Some (True, klog (importance_release imp_task) s)
     }
   }"

definition ipc_port_spnotify :: "kenv \<Rightarrow> ptr \<Rightarrow> kst \<Rightarrow> kst option" where
  "ipc_port_spnotify E p s = do {
     port \<leftarrow> ks_port s p;
     if \<not> ip_sprequests port then Some s
     else do {
       s \<leftarrow> (if ip_spimportant port then do {
               (_, s) \<leftarrow> ipc_port_importance_delta E p IPID_OPTION_NORMAL (-1)
                           (put_port s p (port\<lparr>ip_spimportant := False\<rparr>));
               Some s
             } else Some s);
       port \<leftarrow> ks_port s p;
       if \<not> ip_sprequests port then Some s
       else do {
         let s = put_port s p (port\<lparr>ip_sprequests := False\<rparr>);
         if ip_active port then do {
           requests \<leftarrow> ip_requests port;
           c \<leftarrow> arr_get (ipc_table_requests E) (ipr_size requests);
           spnotify_scan [1..<its_size c] p s
         } else Some s
       }
     }
   }"

text \<open>
  \<open>ipc_importance_check_circularity\<close>. The quick check under \<open>ip_lock_try\<close> and the search under the
  multiple lock decide the same thing, whether \<open>dest\<close> leads to \<open>port\<close>; \<open>quick\<close> says whether the lock of
  \<open>dest\<close> was free. \<open>imp_lock_held\<close> is kept because assertions mention it.
\<close>

partial_function (option) circular_unlock :: "ptr \<Rightarrow> kst \<Rightarrow> unit option" where
  "circular_unlock base s =
     (if base = IP_NULL then Some ()
      else do {
        bport \<leftarrow> ks_port s base;
        require_ip_active bport;
        kassert (ip_receiver_name bport = MACH_PORT_NULL);
        circular_unlock (ip_destination bport) s
      })"

partial_function (option) circularity_chain :: "ptr \<Rightarrow> ptr \<Rightarrow> int \<Rightarrow> kst \<Rightarrow> kst option" where
  "circularity_chain base dest assertcnt s = do {
     dport \<leftarrow> ks_port s dest;
     let (_, dport) = ipc_port_impcount_delta dport assertcnt;
     let s = put_port s dest dport;
     if dest = base then Some s
     else do {
       require_ip_active dport;
       kassert (ip_receiver_name dport = MACH_PORT_NULL);
       kassert (ip_destination dport \<noteq> IP_NULL);
       kassert (\<not> ip_tempowner dport);
       circularity_chain base (ip_destination dport) assertcnt s
     }
   }"

definition not_circular :: "kenv \<Rightarrow> ptr \<Rightarrow> ptr \<Rightarrow> ptr \<Rightarrow> bool \<Rightarrow> bool \<Rightarrow> kst \<Rightarrow> kst option" where
  "not_circular E p dest base took_base_ref imp_lock_held s = do {
     port \<leftarrow> ks_port s p;
     dport \<leftarrow> ks_port s dest;
     require_ip_active port;
     kassert (ip_receiver_name port = MACH_PORT_NULL);
     kassert (ip_destination port = IP_NULL);
     let s = klog (clear_watchport p) s;
     let port = (if ip_specialreply dport \<and> ip_sync_bootstrap_checkin dport
                 then port\<lparr>ip_sync_bootstrap_checkin := True\<rparr> else port);
     s \<leftarrow> ip_reference dest s;
     kassert (ip_tempowner port);
     let release_imp_task = ip_imp_task port;
     let assertcnt = uint (ip_impcount port);
     let s = put_port s p (port\<lparr>ip_data := dest, ip_kdata := 0, ip_tempowner := False\<rparr>);
     s \<leftarrow> circularity_chain base dest assertcnt s;
     bport \<leftarrow> ks_port s base;
     kassert (\<not> ip_active bport \<or> ip_receiver_name bport \<noteq> MACH_PORT_NULL \<or> ip_destination bport = IP_NULL);
     imp_task \<leftarrow> (if ip_active bport \<and> 0 < assertcnt then do {
                    kassert imp_lock_held;
                    kassert (ip_tempowner bport \<and> ip_imp_task bport \<noteq> 0
                             \<longrightarrow> imp_task_is_any_receiver_type E (ip_imp_task bport));
                    importance_base_task E bport s
                  } else Some 0);
     let s = (if imp_task \<noteq> 0 then klog (importance_reference imp_task) s else s);
     s \<leftarrow> (if took_base_ref then ip_release base s else Some s);
     kassert (imp_task \<noteq> 0 \<or> release_imp_task \<noteq> 0 \<longrightarrow> imp_lock_held);
     let transfer_assertions = (imp_task \<noteq> release_imp_task);
     let s = (if imp_task \<noteq> 0 \<and> transfer_assertions then klog (importance_hold imp_task assertcnt) s else s);
     let s = (if release_imp_task \<noteq> 0 \<and> transfer_assertions
              then klog (importance_drop release_imp_task assertcnt) s else s);
     let s = (if imp_task \<noteq> 0 then klog (importance_release imp_task) s else s);
     Some (if release_imp_task \<noteq> 0 then klog (importance_release release_imp_task) s else s)
   }"

definition ipc_port_check_circularity ::
  "kenv \<Rightarrow> bool \<Rightarrow> ptr \<Rightarrow> ptr \<Rightarrow> kst \<Rightarrow> (bool \<times> kst) option" where
  "ipc_port_check_circularity E quick p dest s = do {
     kassert (p \<noteq> IP_NULL);
     kassert (dest \<noteq> IP_NULL);
     if p = dest then Some (True, s)
     else do {
       let s = klog (send_turnstile_prepare dest) s;
       port \<leftarrow> ks_port s p;
       dport \<leftarrow> ks_port s dest;
       let imp_lock_held = (ip_impdonation port \<or> 0 < ip_impcount port);
       if quick \<and> (\<not> ip_active dport \<or> ip_receiver_name dport \<noteq> MACH_PORT_NULL \<or> ip_destination dport = IP_NULL)
       then do {
         s \<leftarrow> not_circular E p dest dest False imp_lock_held s;
         Some (False, s)
       } else do {
         ((took_base_ref, base), s) \<leftarrow> ipc_port_destination_chain_lock dest s;
         if p = base then do {
           port \<leftarrow> ks_port s p;
           require_ip_active port;
           kassert (ip_receiver_name port = MACH_PORT_NULL);
           kassert (ip_destination port = IP_NULL);
           kassert (\<not> took_base_ref);
           circular_unlock dest s;
           Some (True, klog (send_turnstile_complete dest) s)
         } else do {
           s \<leftarrow> not_circular E p dest base took_base_ref True s;
           Some (False, s)
         }
       }
     }
   }"

section \<open>Naked rights\<close>

definition ipc_port_make_send_locked :: "ptr \<Rightarrow> kst \<Rightarrow> (ptr \<times> kst) option" where
  "ipc_port_make_send_locked p s = do {
     port \<leftarrow> ks_port s p;
     require_ip_active port;
     s \<leftarrow> ip_reference p (put_port s p (port\<lparr>ip_mscount := ip_mscount port + 1, ip_srights := ip_srights port + 1\<rparr>));
     Some (p, s)
   }"

definition ipc_port_make_send :: "ptr \<Rightarrow> kst \<Rightarrow> (ptr \<times> kst) option" where
  "ipc_port_make_send p s =
     (if \<not> IP_VALID p then Some (p, s)
      else do {
        port \<leftarrow> ks_port s p;
        if ip_active port then ipc_port_make_send_locked p s
        else Some (IP_DEAD, s)
      })"

definition ipc_port_copy_send_locked :: "ptr \<Rightarrow> kst \<Rightarrow> kst option" where
  "ipc_port_copy_send_locked p s = do {
     port \<leftarrow> ks_port s p;
     kassert (0 < ip_srights port);
     ip_reference p (put_port s p (port\<lparr>ip_srights := ip_srights port + 1\<rparr>))
   }"

definition ipc_port_copy_send :: "ptr \<Rightarrow> kst \<Rightarrow> (ptr \<times> kst) option" where
  "ipc_port_copy_send p s =
     (if \<not> IP_VALID p then Some (p, s)
      else do {
        port \<leftarrow> ks_port s p;
        if ip_active port then do {
          s \<leftarrow> ipc_port_copy_send_locked p s;
          Some (p, s)
        } else Some (IP_DEAD, s)
      })"

definition ipc_port_release_send_and_unlock :: "ptr \<Rightarrow> kst \<Rightarrow> kst option" where
  "ipc_port_release_send_and_unlock p s = do {
     port \<leftarrow> ks_port s p;
     kassert (0 < ip_srights port);
     let port = port\<lparr>ip_srights := ip_srights port - 1\<rparr>;
     if \<not> ip_active port then ip_release p (put_port s p port)
     else if ip_srights port = 0 \<and> ip_nsrequest port \<noteq> IP_NULL then do {
       let nsrequest = ip_nsrequest port;
       let mscount = ip_mscount port;
       s \<leftarrow> ip_release p (put_port s p (port\<lparr>ip_nsrequest := IP_NULL\<rparr>));
       Some (ipc_notify_no_senders nsrequest mscount s)
     }
     else ip_release p (put_port s p port)
   }"

definition ipc_port_release_send :: "ptr \<Rightarrow> kst \<Rightarrow> kst option" where
  "ipc_port_release_send p s = (if IP_VALID p then ipc_port_release_send_and_unlock p s else Some s)"

definition ipc_port_make_sonce_locked :: "ptr \<Rightarrow> kst \<Rightarrow> (ptr \<times> kst) option" where
  "ipc_port_make_sonce_locked p s = do {
     port \<leftarrow> ks_port s p;
     require_ip_active port;
     s \<leftarrow> ip_reference p (put_port s p (port\<lparr>ip_sorights := ip_sorights port + 1\<rparr>));
     Some (p, s)
   }"

definition ipc_port_make_sonce :: "ptr \<Rightarrow> kst \<Rightarrow> (ptr \<times> kst) option" where
  "ipc_port_make_sonce p s =
     (if \<not> IP_VALID p then Some (p, s)
      else do {
        port \<leftarrow> ks_port s p;
        if ip_active port then ipc_port_make_sonce_locked p s
        else Some (IP_DEAD, s)
      })"

definition ipc_port_release_sonce :: "ptr \<Rightarrow> kst \<Rightarrow> kst option" where
  "ipc_port_release_sonce p s =
     (if \<not> IP_VALID p then Some s
      else do {
        let s = klog (adjust_special_reply_port p) s;
        port \<leftarrow> ks_port s p;
        kassert (0 < ip_sorights port);
        ip_release p (put_port s p (port\<lparr>ip_sorights := ip_sorights port - 1\<rparr>))
      })"

definition ipc_port_release_receive :: "kenv \<Rightarrow> ptr \<Rightarrow> kst \<Rightarrow> kst option" where
  "ipc_port_release_receive E p s =
     (if \<not> IP_VALID p then Some s
      else do {
        port \<leftarrow> ks_port s p;
        require_ip_active port;
        kassert (ip_receiver_name port = MACH_PORT_NULL);
        let dest = ip_destination port;
        s \<leftarrow> ipc_port_destroy E p s;
        if dest \<noteq> IP_NULL then ip_release dest (klog (send_turnstile_complete dest) s)
        else Some s
      })"

text \<open>Ports in special spaces; \<open>p\<close> is the address the zone allocator returns, 0 when it has no memory.\<close>

definition ipc_port_alloc_special :: "ptr \<Rightarrow> ptr \<Rightarrow> 32 word \<Rightarrow> kst \<Rightarrow> ptr \<times> kst" where
  "ipc_port_alloc_special p space flags s =
     (if p = IP_NULL then (IP_NULL, s)
      else (p, put_port s p (ipc_port_init
              (zero_port\<lparr>ip_references := 1, ip_io_bits := io_makebits True IOT_PORT 0\<rparr>) space flags 1)))"

definition ipc_port_dealloc_special :: "kenv \<Rightarrow> ptr \<Rightarrow> ptr \<Rightarrow> kst \<Rightarrow> kst option" where
  "ipc_port_dealloc_special E p space s = do {
     port \<leftarrow> ks_port s p;
     require_ip_active port;
     kassert (ip_receiver port = space);
     ipc_port_destroy E p (put_port s p (port\<lparr>ip_receiver_name := MACH_PORT_NULL, ip_data := 0,
                                              ip_mscount := 0, ip_seqno := 0\<rparr>))
   }"

end
