(* ===== verification/Ipc_Right.thy ===== *)
theory Ipc_Right
  imports Ipc_Port
begin

text \<open>
  Operations on the rights of a space (\<open>osfmk/ipc/ipc_right.c\<close>). A routine takes the address of the
  space, the name, the index of the entry and the kernel state, as the code takes \<open>space\<close>, \<open>name\<close> and
  \<open>entry\<close>. The cases of the large \<open>switch\<close> statements are definitions of their own, composed by the
  routine. A jump to a common label (\<open>invalid_right\<close>, \<open>invalid_value\<close>, \<open>dead_name\<close>, \dots) is a call of the
  definition that models the code behind the label.

  A \<open>mach_port_delta_t\<close> is a 32-bit word compared with the signed orders.
\<close>

section \<open>Access to entries\<close>

definition get_entry :: "ptr \<Rightarrow> nat \<Rightarrow> kst \<Rightarrow> ipc_entry option" where
  "get_entry space i s = do { sp \<leftarrow> ks_space s space; arr_get (is_table sp) i }"

definition on_space :: "(ipc_space \<Rightarrow> ipc_space option) \<Rightarrow> ptr \<Rightarrow> kst \<Rightarrow> kst option" where
  "on_space f space s = do { sp \<leftarrow> ks_space s space; sp \<leftarrow> f sp; Some (put_space s space sp) }"

definition set_entry :: "ptr \<Rightarrow> nat \<Rightarrow> ipc_entry \<Rightarrow> kst \<Rightarrow> kst option" where
  "set_entry space i e = on_space (\<lambda>sp. do { t \<leftarrow> arr_set (is_table sp) i e; Some (sp\<lparr>is_table := t\<rparr>) }) space"

definition entry_modified :: "ptr \<Rightarrow> mach_port_name_t \<Rightarrow> nat \<Rightarrow> kst \<Rightarrow> kst option" where
  "entry_modified space name i = on_space (\<lambda>sp. ipc_entry_modified sp name i) space"

definition entry_dealloc :: "ptr \<Rightarrow> mach_port_name_t \<Rightarrow> nat \<Rightarrow> kst \<Rightarrow> kst option" where
  "entry_dealloc space name i = on_space (\<lambda>sp. ipc_entry_dealloc sp name i) space"

definition hash_insert :: "ptr \<Rightarrow> ptr \<Rightarrow> mach_port_name_t \<Rightarrow> kst \<Rightarrow> kst option" where
  "hash_insert space p name = on_space (\<lambda>sp. ipc_hash_insert sp p name) space"

definition hash_delete :: "ptr \<Rightarrow> ptr \<Rightarrow> mach_port_name_t \<Rightarrow> kst \<Rightarrow> kst option" where
  "hash_delete space p name = on_space (\<lambda>sp. ipc_hash_delete sp p name) space"

definition assert_active :: "ptr \<Rightarrow> kst \<Rightarrow> unit option" where
  "assert_active space s = do { sp \<leftarrow> ks_space s space; kassert (is_active sp) }"

section \<open>Lookup\<close>

definition ipc_right_lookup_write ::
  "ptr \<Rightarrow> mach_port_name_t \<Rightarrow> kst \<Rightarrow> (kern_return_t \<times> nat) option" where
  "ipc_right_lookup_write space name s = do {
     kassert (space \<noteq> 0);
     sp \<leftarrow> ks_space s space;
     if \<not> is_active sp then Some (KERN_INVALID_TASK, 0)
     else do {
       entry \<leftarrow> ipc_entry_lookup sp name;
       case entry of None \<Rightarrow> Some (KERN_INVALID_NAME, 0) | Some i \<Rightarrow> Some (KERN_SUCCESS, i)
     }
   }"

definition ipc_right_lookup_two_write ::
  "ptr \<Rightarrow> mach_port_name_t \<Rightarrow> mach_port_name_t \<Rightarrow> kst \<Rightarrow> ((kern_return_t \<times> nat \<times> nat) \<times> kst) option" where
  "ipc_right_lookup_two_write space name1 name2 s = do {
     kassert (space \<noteq> 0);
     sp \<leftarrow> ks_space s space;
     if \<not> is_active sp then Some ((KERN_INVALID_TASK, 0, 0), s)
     else do {
       entry1 \<leftarrow> ipc_entry_lookup sp name1;
       case entry1 of
         None \<Rightarrow> Some ((KERN_INVALID_NAME, 0, 0), mach_port_guard_exception name1 0 0 kGUARD_EXC_INVALID_NAME s)
       | Some i1 \<Rightarrow> do {
           entry2 \<leftarrow> ipc_entry_lookup sp name2;
           case entry2 of
             None \<Rightarrow> Some ((KERN_INVALID_NAME, 0, 0), mach_port_guard_exception name2 0 0 kGUARD_EXC_INVALID_NAME s)
           | Some i2 \<Rightarrow> Some ((KERN_SUCCESS, i1, i2), s)
         }
     }
   }"

definition ipc_right_reverse ::
  "ptr \<Rightarrow> ptr \<Rightarrow> kst \<Rightarrow> (mach_port_name_t \<times> nat) option option" where
  "ipc_right_reverse space p s = do {
     sp \<leftarrow> ks_space s space;
     kassert (is_active sp);
     port \<leftarrow> ks_port s p;
     kassert (io_otype (ip_io_bits port) = IOT_PORT);
     require_ip_active port;
     if ip_receiver port = space then do {
       let name = ip_receiver_name port;
       kassert (name \<noteq> MACH_PORT_NULL);
       entry \<leftarrow> ipc_entry_lookup sp name;
       i \<leftarrow> entry;
       e \<leftarrow> arr_get (is_table sp) i;
       kassert (ie_bits e AND MACH_PORT_TYPE_RECEIVE \<noteq> 0);
       kassert (ie_object e = p);
       Some (Some (name, i))
     } else do {
       found \<leftarrow> ipc_hash_lookup sp p;
       case found of
         None \<Rightarrow> Some None
       | Some (name, i) \<Rightarrow> do {
           e \<leftarrow> arr_get (is_table sp) i;
           kassert (IE_BITS_TYPE (ie_bits e) = MACH_PORT_TYPE_SEND);
           kassert (ie_object e = p);
           Some (Some (name, i))
         }
     }
   }"

section \<open>Requests on rights\<close>

definition ipc_right_request_cancel ::
  "ptr \<Rightarrow> ptr \<Rightarrow> mach_port_name_t \<Rightarrow> nat \<Rightarrow> kst \<Rightarrow> (ptr \<times> kst) option" where
  "ipc_right_request_cancel space p name i s = do {
     port \<leftarrow> ks_port s p;
     e \<leftarrow> get_entry space i s;
     require_ip_active port;
     kassert (p = ie_object e);
     if ie_request e = IE_REQ_NONE then Some (IP_NULL, s)
     else do {
       (previous, port) \<leftarrow> ipc_port_request_cancel port name (ie_request e);
       s \<leftarrow> set_entry space i (e\<lparr>ie_request := IE_REQ_NONE\<rparr>) (put_port s p port);
       s \<leftarrow> entry_modified space name i s;
       Some (previous, s)
     }
   }"

definition ipc_right_request_cancel_macro ::
  "ptr \<Rightarrow> ptr \<Rightarrow> mach_port_name_t \<Rightarrow> nat \<Rightarrow> kst \<Rightarrow> (ptr \<times> kst) option" where
  "ipc_right_request_cancel_macro space p name i s = do {
     e \<leftarrow> get_entry space i s;
     if ie_request e = IE_REQ_NONE then Some (IP_NULL, s)
     else ipc_right_request_cancel space p name i s
   }"

definition ipc_right_inuse :: "ipc_entry \<Rightarrow> bool" where
  "ipc_right_inuse entry \<longleftrightarrow> IE_BITS_TYPE (ie_bits entry) \<noteq> MACH_PORT_TYPE_NONE"

definition IPC_OBJECT_COPYIN_FLAGS_NONE :: "32 word" where
  "IPC_OBJECT_COPYIN_FLAGS_NONE = 0"

definition IPC_OBJECT_COPYIN_FLAGS_ALLOW_IMMOVABLE_SEND :: "32 word" where
  "IPC_OBJECT_COPYIN_FLAGS_ALLOW_IMMOVABLE_SEND = 1"

definition IPC_OBJECT_COPYIN_FLAGS_SOFT_FAIL_IMMOVABLE_SEND :: "32 word" where
  "IPC_OBJECT_COPYIN_FLAGS_SOFT_FAIL_IMMOVABLE_SEND = 2"

definition IPC_OBJECT_COPYIN_FLAGS_ALLOW_DEAD_SEND_ONCE :: "32 word" where
  "IPC_OBJECT_COPYIN_FLAGS_ALLOW_DEAD_SEND_ONCE = 4"

definition IPC_OBJECT_COPYIN_FLAGS_DEADOK :: "32 word" where
  "IPC_OBJECT_COPYIN_FLAGS_DEADOK = 8"

text \<open>
  \<open>ipc_right_check\<close>: \<open>False\<close> when the port is alive; otherwise the entry becomes a dead name, and a
  request that was still registered adds the user reference its notification carries.
\<close>

definition ipc_right_check ::
  "ptr \<Rightarrow> ptr \<Rightarrow> mach_port_name_t \<Rightarrow> nat \<Rightarrow> 32 word \<Rightarrow> kst \<Rightarrow> (bool \<times> kst) option" where
  "ipc_right_check space p name i flags s = do {
     assert_active space s;
     e \<leftarrow> get_entry space i s;
     kassert (p = ie_object e);
     port \<leftarrow> ks_port s p;
     if ip_active port \<or> (flags AND IPC_OBJECT_COPYIN_FLAGS_ALLOW_DEAD_SEND_ONCE \<noteq> 0
          \<and> ie_request e = IE_REQ_NONE \<and> ie_bits e AND MACH_PORT_TYPE_SEND_ONCE \<noteq> 0)
     then Some (False, s)
     else do {
       let bits = ie_bits e;
       kassert (bits AND MACH_PORT_TYPE_RECEIVE = 0);
       kassert (0 < IE_BITS_UREFS bits);
       port \<leftarrow> (if bits AND MACH_PORT_TYPE_SEND \<noteq> 0 then do {
                 kassert (IE_BITS_TYPE bits = MACH_PORT_TYPE_SEND);
                 kassert (0 < ip_srights port);
                 Some (port\<lparr>ip_srights := ip_srights port - 1\<rparr>)
               } else do {
                 kassert (IE_BITS_TYPE bits = MACH_PORT_TYPE_SEND_ONCE);
                 kassert (IE_BITS_UREFS bits = 1);
                 kassert (0 < ip_sorights port);
                 Some (port\<lparr>ip_sorights := ip_sorights port - 1\<rparr>)
               });
       let s = put_port s p port;
       s \<leftarrow> (if bits AND MACH_PORT_TYPE_SEND \<noteq> 0 then hash_delete space p name s else Some s);
       e \<leftarrow> get_entry space i s;
       let bits = (bits AND NOT IE_BITS_TYPE_MASK) OR MACH_PORT_TYPE_DEAD_NAME;
       bits \<leftarrow> (if ie_request e \<noteq> IE_REQ_NONE then do {
                 t \<leftarrow> ipc_port_request_type port name (ie_request e);
                 Some (if t \<noteq> 0 \<and> IE_BITS_UREFS bits < MACH_PORT_UREFS_MAX then bits + 1 else bits)
               } else Some bits);
       s \<leftarrow> set_entry space i (e\<lparr>ie_request := IE_REQ_NONE, ie_bits := bits, ie_object := IO_NULL\<rparr>) s;
       s \<leftarrow> entry_modified space name i s;
       Some (True, s)
     }
   }"

text \<open>
  \<open>ipc_right_request_alloc\<close>. One turn of its loop returns either a result or, after growing the request
  table, the state to try again from. \<open>others\<close> is what other threads do while the locks are dropped
  for the growth; it may differ in every turn.
\<close>

definition request_alloc_live ::
  "kenv \<Rightarrow> (kst \<Rightarrow> kst) \<Rightarrow> ptr \<Rightarrow> mach_port_name_t \<Rightarrow> nat \<Rightarrow> ptr \<Rightarrow> bool \<Rightarrow> bool \<Rightarrow> ptr \<Rightarrow> kst
     \<Rightarrow> ((kern_return_t \<times> ptr) option \<times> kst) option" where
  "request_alloc_live E others space name i p immediate send_possible notify s = do {
     e \<leftarrow> get_entry space i s;
     port \<leftarrow> ks_port s p;
     let prev_request = ie_request e;
     let fire = (send_possible \<and> immediate
         \<and> (ie_bits e AND MACH_PORT_TYPE_SEND_ONCE \<noteq> 0 \<or> ip_receiver port = ipc_space_kernel E \<or> \<not> ip_full port));
     (previous, port) \<leftarrow> (if prev_request \<noteq> IE_REQ_NONE then ipc_port_request_cancel port name prev_request
                          else Some (IP_NULL, port));
     let s = put_port s p port;
     if notify = IP_NULL \<or> fire then do {
       s \<leftarrow> set_entry space i (e\<lparr>ie_request := IE_REQ_NONE\<rparr>) s;
       s \<leftarrow> entry_modified space name i s;
       Some (Some (KERN_SUCCESS, previous),
             if notify = IP_NULL then s else ipc_notify_send_possible notify name s)
     } else do {
       ((kr, new_request, needboost), port) \<leftarrow> ipc_port_request_alloc E port name notify send_possible immediate;
       let s = put_port s p port;
       if kr \<noteq> KERN_SUCCESS then do {
         kassert (previous = IP_NULL);
         (kr, s) \<leftarrow> ipc_port_request_grow E others p ITS_SIZE_NONE s;
         if kr \<noteq> KERN_SUCCESS then Some (Some (kr, IP_NULL), s) else Some (None, s)
       } else do {
         kassert (new_request \<noteq> IE_REQ_NONE);
         s \<leftarrow> set_entry space i (e\<lparr>ie_request := new_request\<rparr>) s;
         s \<leftarrow> entry_modified space name i s;
         s \<leftarrow> (if needboost then map_option snd (ipc_port_importance_delta E p IPID_OPTION_SENDPOSSIBLE 1 s)
               else Some s);
         Some (Some (KERN_SUCCESS, previous), s)
       }
     }
   }"

definition request_alloc_dead ::
  "ptr \<Rightarrow> mach_port_name_t \<Rightarrow> nat \<Rightarrow> ptr \<Rightarrow> bool \<Rightarrow> bool \<Rightarrow> ptr \<Rightarrow> kst \<Rightarrow> ((kern_return_t \<times> ptr) \<times> kst) option" where
  "request_alloc_dead space name i p immediate send_possible notify s = do {
     e \<leftarrow> get_entry space i s;
     if (send_possible \<or> immediate) \<and> notify \<noteq> IP_NULL \<and> ie_bits e AND MACH_PORT_TYPE_DEAD_NAME \<noteq> 0
     then do {
       let urefs = IE_BITS_UREFS (ie_bits e);
       kassert (0 < urefs);
       s \<leftarrow> set_entry space i
             (if urefs < MACH_PORT_UREFS_MAX then e\<lparr>ie_bits := ie_bits e + 1\<rparr> else e) s;
       s \<leftarrow> entry_modified space name i s;
       s \<leftarrow> (if p \<noteq> IP_NULL then ip_release p s else Some s);
       Some ((KERN_SUCCESS, IP_NULL), ipc_notify_dead_name notify name s)
     } else do {
       let kr = (if ie_bits e AND MACH_PORT_TYPE_PORT_OR_DEAD \<noteq> 0 then KERN_INVALID_ARGUMENT
                 else KERN_INVALID_RIGHT);
       s \<leftarrow> (if p \<noteq> IP_NULL then ip_release p s else Some s);
       Some ((kr, IP_NULL), s)
     }
   }"

definition request_alloc_turn ::
  "kenv \<Rightarrow> (kst \<Rightarrow> kst) \<Rightarrow> ptr \<Rightarrow> mach_port_name_t \<Rightarrow> bool \<Rightarrow> bool \<Rightarrow> ptr \<Rightarrow> kst
     \<Rightarrow> ((kern_return_t \<times> ptr) option \<times> kst) option" where
  "request_alloc_turn E others space name immediate send_possible notify s = do {
     (kr, i) \<leftarrow> ipc_right_lookup_write space name s;
     if kr \<noteq> KERN_SUCCESS then Some (Some (kr, IP_NULL), s)
     else do {
       e \<leftarrow> get_entry space i s;
       if notify = IP_NULL \<and> ie_request e = IE_REQ_NONE then Some (Some (KERN_SUCCESS, IP_NULL), s)
       else if ie_bits e AND MACH_PORT_TYPE_PORT_RIGHTS \<noteq> 0 then do {
         let p = ie_object e;
         kassert (p \<noteq> IP_NULL);
         (dead, s) \<leftarrow> ipc_right_check space p name i IPC_OBJECT_COPYIN_FLAGS_NONE s;
         if \<not> dead then request_alloc_live E others space name i p immediate send_possible notify s
         else do {
           (r, s) \<leftarrow> request_alloc_dead space name i p immediate send_possible notify s;
           Some (Some r, s)
         }
       } else do {
         (r, s) \<leftarrow> request_alloc_dead space name i IP_NULL immediate send_possible notify s;
         Some (Some r, s)
       }
     }
   }"

partial_function (option) ipc_right_request_alloc ::
  "kenv \<Rightarrow> (nat \<Rightarrow> kst \<Rightarrow> kst) \<Rightarrow> ptr \<Rightarrow> mach_port_name_t \<Rightarrow> bool \<Rightarrow> bool \<Rightarrow> ptr \<Rightarrow> nat \<Rightarrow> kst
     \<Rightarrow> ((kern_return_t \<times> ptr) \<times> kst) option" where
  "ipc_right_request_alloc E others space name immediate send_possible notify k s = do {
     (r, s) \<leftarrow> request_alloc_turn E (others k) space name immediate send_possible notify s;
     case r of
       Some res \<Rightarrow> Some (res, s)
     | None \<Rightarrow> ipc_right_request_alloc E others space name immediate send_possible notify (k + 1) s
   }"

section \<open>Releasing rights\<close>

text \<open>
  Dropping one send right of a port: when it was the last, the no-senders request is taken out of the
  port and returned with the make-send count.
\<close>

definition drop_sright :: "ptr \<Rightarrow> kst \<Rightarrow> ((ptr \<times> 32 word) \<times> kst) option" where
  "drop_sright p s = do {
     port \<leftarrow> ks_port s p;
     let port = port\<lparr>ip_srights := ip_srights port - 1\<rparr>;
     if ip_srights port = 0 \<and> ip_nsrequest port \<noteq> IP_NULL
     then Some ((ip_nsrequest port, ip_mscount port), put_port s p (port\<lparr>ip_nsrequest := IP_NULL\<rparr>))
     else Some ((IP_NULL, 0), put_port s p port)
   }"

definition send_no_senders :: "ptr \<times> 32 word \<Rightarrow> kst \<Rightarrow> kst" where
  "send_no_senders ns s = (if fst ns \<noteq> IP_NULL then ipc_notify_no_senders (fst ns) (snd ns) s else s)"

definition send_port_deleted :: "ptr \<Rightarrow> mach_port_name_t \<Rightarrow> kst \<Rightarrow> kst" where
  "send_port_deleted request name s = (if request \<noteq> IP_NULL then ipc_notify_port_deleted request name s else s)"

text \<open>
  The part \<open>ipc_right_terminate\<close> and \<open>ipc_right_destroy\<close> share: the right of the given type to the live
  port \<open>p\<close> goes away.
\<close>

definition drop_right ::
  "kenv \<Rightarrow> ptr \<Rightarrow> ptr \<Rightarrow> 32 word \<Rightarrow> (ipc_port \<Rightarrow> bool) \<Rightarrow> kst \<Rightarrow> ((ptr \<times> 32 word) \<times> kst) option" where
  "drop_right E space p type recv_assert s = do {
     port \<leftarrow> ks_port s p;
     (ns, s) \<leftarrow> (if type AND MACH_PORT_TYPE_SEND \<noteq> 0 then do {
                   kassert (0 < ip_srights port);
                   drop_sright p s
                 } else Some ((IP_NULL, 0), s));
     port \<leftarrow> ks_port s p;
     s \<leftarrow> (if type AND MACH_PORT_TYPE_RECEIVE \<noteq> 0 then do {
             kassert (recv_assert port);
             ipc_port_destroy E p s
           }
           else if type AND MACH_PORT_TYPE_SEND_ONCE \<noteq> 0 then do {
             kassert (0 < ip_sorights port);
             Some (ipc_notify_send_once p (put_port s p (port\<lparr>ip_reply_context := 0\<rparr>)))
           }
           else do {
             kassert (ip_receiver port \<noteq> space);
             ip_release p s
           });
     Some (ns, s)
   }"

definition ipc_right_terminate :: "kenv \<Rightarrow> ptr \<Rightarrow> mach_port_name_t \<Rightarrow> nat \<Rightarrow> kst \<Rightarrow> kst option" where
  "ipc_right_terminate E space name i s = do {
     sp \<leftarrow> ks_space s space;
     e \<leftarrow> arr_get (is_table sp) i;
     let type = IE_BITS_TYPE (ie_bits e);
     kassert (\<not> is_active sp);
     if type = MACH_PORT_TYPE_DEAD_NAME then do {
       kassert (ie_request e = IE_REQ_NONE);
       kassert (ie_object e = IO_NULL);
       Some s
     }
     else if type = MACH_PORT_TYPE_PORT_SET then do {
       kassert (ie_request e = IE_REQ_NONE);
       kassert (ie_object e \<noteq> IO_NULL);
       pset \<leftarrow> ks_pset s (ie_object e);
       kassert (ips_active pset);
       ipc_pset_destroy space (ie_object e) s
     }
     else if type = MACH_PORT_TYPE_SEND \<or> type = MACH_PORT_TYPE_RECEIVE
             \<or> type = MACH_PORT_TYPE_SEND_RECEIVE \<or> type = MACH_PORT_TYPE_SEND_ONCE then do {
       let p = ie_object e;
       kassert (p \<noteq> IP_NULL);
       port \<leftarrow> ks_port s p;
       if \<not> ip_active port then ip_release p s
       else do {
         (request, s) \<leftarrow> ipc_right_request_cancel_macro space p name i s;
         (ns, s) \<leftarrow> drop_right E space p type
                      (\<lambda>port. ip_receiver_name port = name \<and> ip_receiver port = space) s;
         Some (send_port_deleted request name (send_no_senders ns s))
       }
     }
     else panic
   }"

definition ipc_right_destroy ::
  "kenv \<Rightarrow> ptr \<Rightarrow> mach_port_name_t \<Rightarrow> nat \<Rightarrow> bool \<Rightarrow> 64 word \<Rightarrow> kst \<Rightarrow> (kern_return_t \<times> kst) option" where
  "ipc_right_destroy E space name i check_guard guard s = do {
     e0 \<leftarrow> get_entry space i s;
     let bits = ie_bits e0;
     let e = e0\<lparr>ie_bits := bits AND NOT IE_BITS_TYPE_MASK\<rparr>;
     s \<leftarrow> set_entry space i e s;
     let type = IE_BITS_TYPE bits;
     assert_active space s;
     if type = MACH_PORT_TYPE_DEAD_NAME then do {
       kassert (ie_request e = IE_REQ_NONE);
       kassert (ie_object e = IO_NULL);
       s \<leftarrow> entry_dealloc space name i s;
       Some (KERN_SUCCESS, s)
     }
     else if type = MACH_PORT_TYPE_PORT_SET then do {
       let pset = ie_object e;
       kassert (ie_request e = IE_REQ_NONE);
       kassert (pset \<noteq> IO_NULL);
       s \<leftarrow> set_entry space i (e\<lparr>ie_object := IO_NULL\<rparr>) s;
       s \<leftarrow> entry_dealloc space name i s;
       ps \<leftarrow> ks_pset s pset;
       kassert (ips_active ps);
       s \<leftarrow> ipc_pset_destroy space pset s;
       Some (KERN_SUCCESS, s)
     }
     else if type = MACH_PORT_TYPE_SEND \<or> type = MACH_PORT_TYPE_RECEIVE
             \<or> type = MACH_PORT_TYPE_SEND_RECEIVE \<or> type = MACH_PORT_TYPE_SEND_ONCE then do {
       let p = ie_object e;
       kassert (p \<noteq> IP_NULL);
       s \<leftarrow> (if type = MACH_PORT_TYPE_SEND then hash_delete space p name s else Some s);
       e \<leftarrow> get_entry space i s;
       port \<leftarrow> ks_port s p;
       if \<not> ip_active port then do {
         kassert (type AND MACH_PORT_TYPE_RECEIVE = 0);
         s \<leftarrow> set_entry space i (e\<lparr>ie_request := IE_REQ_NONE, ie_object := IO_NULL\<rparr>) s;
         s \<leftarrow> entry_dealloc space name i s;
         s \<leftarrow> ip_release p s;
         Some (KERN_SUCCESS, s)
       }
       else if type AND MACH_PORT_TYPE_RECEIVE \<noteq> 0 \<and> check_guard \<and> ip_guarded port \<and> guard \<noteq> ip_context port
       then Some (KERN_INVALID_RIGHT, mach_port_guard_exception name 0 (ip_context port) kGUARD_EXC_DESTROY s)
       else do {
         (request, s) \<leftarrow> ipc_right_request_cancel_macro space p name i s;
         e \<leftarrow> get_entry space i s;
         s \<leftarrow> set_entry space i (e\<lparr>ie_object := IO_NULL\<rparr>) s;
         s \<leftarrow> entry_dealloc space name i s;
         (ns, s) \<leftarrow> drop_right E space p type (\<lambda>port. ip_active port \<and> ip_receiver port = space) s;
         Some (KERN_SUCCESS, send_port_deleted request name (send_no_senders ns s))
       }
     }
     else panic
   }"

text \<open>\<open>ipc_right_dealloc\<close>, one definition per case of its switch.\<close>

definition right_free_pset :: "ptr \<Rightarrow> mach_port_name_t \<Rightarrow> nat \<Rightarrow> kst \<Rightarrow> (kern_return_t \<times> kst) option" where
  "right_free_pset space name i s = do {
     e \<leftarrow> get_entry space i s;
     let pset = ie_object e;
     kassert (pset \<noteq> IO_NULL);
     s \<leftarrow> set_entry space i (e\<lparr>ie_object := IO_NULL\<rparr>) s;
     s \<leftarrow> entry_dealloc space name i s;
     ps \<leftarrow> ks_pset s pset;
     kassert (ips_active ps);
     s \<leftarrow> ipc_pset_destroy space pset s;
     Some (KERN_SUCCESS, s)
   }"

definition ipc_right_dealloc_port_set :: "ptr \<Rightarrow> mach_port_name_t \<Rightarrow> nat \<Rightarrow> kst \<Rightarrow> (kern_return_t \<times> kst) option" where
  "ipc_right_dealloc_port_set space name i s = do {
     e \<leftarrow> get_entry space i s;
     kassert (IE_BITS_UREFS (ie_bits e) = 0);
     kassert (ie_request e = IE_REQ_NONE);
     right_free_pset space name i s
   }"

definition ipc_right_dealloc_dead_name ::
  "ptr \<Rightarrow> mach_port_name_t \<Rightarrow> nat \<Rightarrow> ptr \<Rightarrow> kst \<Rightarrow> (kern_return_t \<times> kst) option" where
  "ipc_right_dealloc_dead_name space name i p s = do {
     e \<leftarrow> get_entry space i s;
     let bits = ie_bits e;
     kassert (0 < IE_BITS_UREFS bits);
     kassert (ie_request e = IE_REQ_NONE);
     kassert (ie_object e = IO_NULL);
     s \<leftarrow> (if IE_BITS_UREFS bits = 1 then entry_dealloc space name i s
           else do {
             s \<leftarrow> set_entry space i
                   (if IE_BITS_UREFS bits < MACH_PORT_UREFS_MAX then e\<lparr>ie_bits := bits - 1\<rparr> else e) s;
             entry_modified space name i s
           });
     s \<leftarrow> (if p \<noteq> IP_NULL then ip_release p s else Some s);
     Some (KERN_SUCCESS, s)
   }"

text \<open>The end of a live send-once right in \<open>ipc_right_dealloc\<close> and \<open>ipc_right_delta\<close>.\<close>

definition right_free_sonce :: "ptr \<Rightarrow> mach_port_name_t \<Rightarrow> nat \<Rightarrow> ptr \<Rightarrow> kst \<Rightarrow> (kern_return_t \<times> kst) option" where
  "right_free_sonce space name i p s = do {
     port \<leftarrow> ks_port s p;
     let s = put_port s p (port\<lparr>ip_reply_context := 0\<rparr>);
     (request, s) \<leftarrow> ipc_right_request_cancel_macro space p name i s;
     e \<leftarrow> get_entry space i s;
     s \<leftarrow> set_entry space i (e\<lparr>ie_object := IO_NULL\<rparr>) s;
     s \<leftarrow> entry_dealloc space name i s;
     let s = ipc_notify_send_once p s;
     Some (KERN_SUCCESS, send_port_deleted request name s)
   }"

definition ipc_right_dealloc_send_once ::
  "ptr \<Rightarrow> mach_port_name_t \<Rightarrow> nat \<Rightarrow> kst \<Rightarrow> (kern_return_t \<times> kst) option" where
  "ipc_right_dealloc_send_once space name i s = do {
     e \<leftarrow> get_entry space i s;
     kassert (IE_BITS_UREFS (ie_bits e) = 1);
     let p = ie_object e;
     kassert (p \<noteq> IP_NULL);
     (dead, s) \<leftarrow> ipc_right_check space p name i IPC_OBJECT_COPYIN_FLAGS_NONE s;
     if dead then do {
       e \<leftarrow> get_entry space i s;
       kassert (IE_BITS_TYPE (ie_bits e) = MACH_PORT_TYPE_DEAD_NAME);
       ipc_right_dealloc_dead_name space name i p s
     } else do {
       port \<leftarrow> ks_port s p;
       kassert (0 < ip_sorights port);
       right_free_sonce space name i p s
     }
   }"

definition pinned_exception :: "kenv \<Rightarrow> mach_port_name_t \<Rightarrow> kst \<Rightarrow> kst" where
  "pinned_exception E name s = mach_port_guard_exception name 0 MPG_FLAGS_MOD_REFS_PINNED_DEALLOC
     (if ctl_pinned_hard E then kGUARD_EXC_MOD_REFS else kGUARD_EXC_MOD_REFS_NON_FATAL) s"

definition ipc_right_dealloc_send ::
  "kenv \<Rightarrow> ptr \<Rightarrow> mach_port_name_t \<Rightarrow> nat \<Rightarrow> kst \<Rightarrow> (kern_return_t \<times> kst) option" where
  "ipc_right_dealloc_send E space name i s = do {
     e \<leftarrow> get_entry space i s;
     let bits = ie_bits e;
     kassert (0 < IE_BITS_UREFS bits);
     let p = ie_object e;
     kassert (p \<noteq> IP_NULL);
     (dead, s) \<leftarrow> ipc_right_check space p name i IPC_OBJECT_COPYIN_FLAGS_NONE s;
     if dead then do {
       e \<leftarrow> get_entry space i s;
       kassert (IE_BITS_TYPE (ie_bits e) = MACH_PORT_TYPE_DEAD_NAME);
       ipc_right_dealloc_dead_name space name i p s
     } else do {
       port \<leftarrow> ks_port s p;
       kassert (0 < ip_srights port);
       if IE_BITS_UREFS bits = 1 then
         if pinned_control_port_enabled E \<and> ip_pinned port
         then Some (KERN_INVALID_CAPABILITY, pinned_exception E name s)
         else do {
           (ns, s) \<leftarrow> drop_sright p s;
           (request, s) \<leftarrow> ipc_right_request_cancel_macro space p name i s;
           s \<leftarrow> hash_delete space p name s;
           e \<leftarrow> get_entry space i s;
           s \<leftarrow> set_entry space i (e\<lparr>ie_object := IO_NULL\<rparr>) s;
           s \<leftarrow> entry_dealloc space name i s;
           s \<leftarrow> ip_release p s;
           Some (KERN_SUCCESS, send_port_deleted request name (send_no_senders ns s))
         }
       else do {
         s \<leftarrow> set_entry space i
               (if IE_BITS_UREFS bits < MACH_PORT_UREFS_MAX then e\<lparr>ie_bits := bits - 1\<rparr> else e) s;
         s \<leftarrow> entry_modified space name i s;
         Some (KERN_SUCCESS, s)
       }
     }
   }"

definition ipc_right_dealloc_send_receive ::
  "ptr \<Rightarrow> mach_port_name_t \<Rightarrow> nat \<Rightarrow> kst \<Rightarrow> (kern_return_t \<times> kst) option" where
  "ipc_right_dealloc_send_receive space name i s = do {
     e \<leftarrow> get_entry space i s;
     let bits = ie_bits e;
     kassert (0 < IE_BITS_UREFS bits);
     let p = ie_object e;
     kassert (p \<noteq> IP_NULL);
     port \<leftarrow> ks_port s p;
     require_ip_active port;
     kassert (ip_receiver_name port = name);
     kassert (ip_receiver port = space);
     kassert (0 < ip_srights port);
     (ns, e, s) \<leftarrow> (if IE_BITS_UREFS bits = 1 then do {
                      (ns, s) \<leftarrow> drop_sright p s;
                      Some (ns, e\<lparr>ie_bits := bits AND NOT (IE_BITS_UREFS_MASK OR MACH_PORT_TYPE_SEND)\<rparr>, s)
                    } else
                      Some ((IP_NULL, 0),
                            if IE_BITS_UREFS bits < MACH_PORT_UREFS_MAX then e\<lparr>ie_bits := bits - 1\<rparr> else e, s));
     s \<leftarrow> set_entry space i e s;
     s \<leftarrow> entry_modified space name i s;
     Some (KERN_SUCCESS, send_no_senders ns s)
   }"

definition ipc_right_dealloc ::
  "kenv \<Rightarrow> ptr \<Rightarrow> mach_port_name_t \<Rightarrow> nat \<Rightarrow> kst \<Rightarrow> (kern_return_t \<times> kst) option" where
  "ipc_right_dealloc E space name i s = do {
     e \<leftarrow> get_entry space i s;
     let type = IE_BITS_TYPE (ie_bits e);
     assert_active space s;
     if type = MACH_PORT_TYPE_PORT_SET then ipc_right_dealloc_port_set space name i s
     else if type = MACH_PORT_TYPE_DEAD_NAME then ipc_right_dealloc_dead_name space name i IP_NULL s
     else if type = MACH_PORT_TYPE_SEND_ONCE then ipc_right_dealloc_send_once space name i s
     else if type = MACH_PORT_TYPE_SEND then ipc_right_dealloc_send E space name i s
     else if type = MACH_PORT_TYPE_SEND_RECEIVE then ipc_right_dealloc_send_receive space name i s
     else Some (KERN_INVALID_RIGHT, mach_port_guard_exception name 0 0 kGUARD_EXC_INVALID_RIGHT s)
   }"

section \<open>Changing user references\<close>

text \<open>
  The delta that is applied to a count, \<open>None\<close> when the routine jumps to \<open>invalid_value\<close>. A pegged count
  changes only by a delta that removes all of it.
\<close>

definition urefs_delta :: "32 word \<Rightarrow> 32 word \<Rightarrow> 32 word option" where
  "urefs_delta urefs delta =
     (if MACH_PORT_UREFS_MAX <s delta \<or> delta <s - MACH_PORT_UREFS_MAX then None
      else if urefs = MACH_PORT_UREFS_MAX
      then Some (if delta \<noteq> - MACH_PORT_UREFS_MAX then 0 else delta)
      else if MACH_PORT_UREFS_UNDERFLOW urefs delta then None
      else if MACH_PORT_UREFS_OVERFLOW urefs delta then Some (MACH_PORT_UREFS_MAX - urefs)
      else Some delta)"

text \<open>The labels of \<open>ipc_right_delta\<close>.\<close>

definition delta_invalid_right :: "ptr \<Rightarrow> kst \<Rightarrow> (kern_return_t \<times> kst) option" where
  "delta_invalid_right p s = do {
     s \<leftarrow> (if p \<noteq> IP_NULL then ip_release p s else Some s);
     Some (KERN_INVALID_RIGHT, s)
   }"

definition delta_invalid_value :: "mach_port_name_t \<Rightarrow> kst \<Rightarrow> (kern_return_t \<times> kst) option" where
  "delta_invalid_value name s =
     Some (KERN_INVALID_VALUE, mach_port_guard_exception name 0 0 kGUARD_EXC_INVALID_VALUE s)"

definition ipc_right_delta_port_set ::
  "ptr \<Rightarrow> mach_port_name_t \<Rightarrow> nat \<Rightarrow> 32 word \<Rightarrow> kst \<Rightarrow> (kern_return_t \<times> kst) option" where
  "ipc_right_delta_port_set space name i delta s = do {
     e \<leftarrow> get_entry space i s;
     let bits = ie_bits e;
     if bits AND MACH_PORT_TYPE_PORT_SET = 0
     then delta_invalid_right IP_NULL (mach_port_guard_exception name 0 0 kGUARD_EXC_INVALID_RIGHT s)
     else do {
       kassert (IE_BITS_TYPE bits = MACH_PORT_TYPE_PORT_SET);
       kassert (IE_BITS_UREFS bits = 0);
       kassert (ie_request e = IE_REQ_NONE);
       if delta = 0 then Some (KERN_SUCCESS, s)
       else if delta \<noteq> - 1 then delta_invalid_value name s
       else right_free_pset space name i s
     }
   }"

text \<open>
  The end of a receive right in \<open>ipc_right_delta\<close> and \<open>ipc_right_destruct\<close>, up to the call of
  \<open>ipc_port_destroy\<close>. A remaining send right is entered in the reverse hash when the port has a
  backup and turns into a dead name otherwise.
\<close>

definition right_lose_receive ::
  "ptr \<Rightarrow> mach_port_name_t \<Rightarrow> nat \<Rightarrow> ptr \<Rightarrow> kst \<Rightarrow> (ptr \<times> kst) option" where
  "right_lose_receive space name i p s = do {
     e \<leftarrow> get_entry space i s;
     port \<leftarrow> ks_port s p;
     let bits = ie_bits e;
     if bits AND MACH_PORT_TYPE_SEND \<noteq> 0 then
       if ip_pdrequest port \<noteq> IP_NULL then do {
         s \<leftarrow> entry_modified space name i s;
         s \<leftarrow> set_entry space i
               (e\<lparr>ie_bits := (bits AND NOT MACH_PORT_TYPE_RECEIVE) OR MACH_PORT_TYPE_EX_RECEIVE\<rparr>) s;
         s \<leftarrow> hash_insert space p name s;
         s \<leftarrow> ip_reference p s;
         Some (IP_NULL, s)
       } else do {
         let bits = (bits AND NOT IE_BITS_TYPE_MASK) OR (MACH_PORT_TYPE_DEAD_NAME OR MACH_PORT_TYPE_EX_RECEIVE);
         let bits = (if ie_request e \<noteq> IE_REQ_NONE \<and> IE_BITS_UREFS bits < MACH_PORT_UREFS_MAX
                     then bits + 1 else bits);
         s \<leftarrow> set_entry space i (e\<lparr>ie_request := IE_REQ_NONE, ie_bits := bits, ie_object := IO_NULL\<rparr>) s;
         s \<leftarrow> entry_modified space name i s;
         Some (IP_NULL, s)
       }
     else do {
       kassert (IE_BITS_TYPE bits = MACH_PORT_TYPE_RECEIVE);
       kassert (IE_BITS_UREFS bits = 0);
       (request, s) \<leftarrow> ipc_right_request_cancel_macro space p name i s;
       e \<leftarrow> get_entry space i s;
       s \<leftarrow> set_entry space i (e\<lparr>ie_object := IO_NULL\<rparr>) s;
       s \<leftarrow> entry_dealloc space name i s;
       Some (request, s)
     }
   }"

definition ipc_right_delta_receive ::
  "kenv \<Rightarrow> ptr \<Rightarrow> mach_port_name_t \<Rightarrow> nat \<Rightarrow> 32 word \<Rightarrow> kst \<Rightarrow> (kern_return_t \<times> kst) option" where
  "ipc_right_delta_receive E space name i delta s = do {
     e \<leftarrow> get_entry space i s;
     let bits = ie_bits e;
     if bits AND MACH_PORT_TYPE_RECEIVE = 0
     then delta_invalid_right IP_NULL
            (if bits AND MACH_PORT_TYPE_EX_RECEIVE = 0
             then mach_port_guard_exception name 0 0 kGUARD_EXC_INVALID_RIGHT s else s)
     else if delta = 0 then Some (KERN_SUCCESS, s)
     else if delta \<noteq> - 1 then delta_invalid_value name s
     else do {
       let p = ie_object e;
       kassert (p \<noteq> IP_NULL);
       port \<leftarrow> ks_port s p;
       require_ip_active port;
       kassert (ip_receiver_name port = name);
       kassert (ip_receiver port = space);
       if ip_guarded port
       then Some (KERN_INVALID_RIGHT, mach_port_guard_exception name 0 (ip_context port) kGUARD_EXC_MOD_REFS s)
       else do {
         kassert (bits AND MACH_PORT_TYPE_SEND \<noteq> 0 \<longrightarrow>
           IE_BITS_TYPE bits = MACH_PORT_TYPE_SEND_RECEIVE \<and> 0 < IE_BITS_UREFS bits \<and> 0 < ip_srights port);
         (request, s) \<leftarrow> right_lose_receive space name i p s;
         s \<leftarrow> ipc_port_destroy E p s;
         Some (KERN_SUCCESS, send_port_deleted request name s)
       }
     }
   }"

definition ipc_right_delta_send_once ::
  "ptr \<Rightarrow> mach_port_name_t \<Rightarrow> nat \<Rightarrow> 32 word \<Rightarrow> kst \<Rightarrow> (kern_return_t \<times> kst) option" where
  "ipc_right_delta_send_once space name i delta s = do {
     e \<leftarrow> get_entry space i s;
     let bits = ie_bits e;
     if bits AND MACH_PORT_TYPE_SEND_ONCE = 0 then delta_invalid_right IP_NULL s
     else do {
       kassert (IE_BITS_TYPE bits = MACH_PORT_TYPE_SEND_ONCE);
       kassert (IE_BITS_UREFS bits = 1);
       let p = ie_object e;
       kassert (p \<noteq> IP_NULL);
       (dead, s) \<leftarrow> ipc_right_check space p name i IPC_OBJECT_COPYIN_FLAGS_NONE s;
       if dead then do {
         e \<leftarrow> get_entry space i s;
         kassert (ie_bits e AND MACH_PORT_TYPE_SEND_ONCE = 0);
         delta_invalid_right p (mach_port_guard_exception name 0 0 kGUARD_EXC_INVALID_RIGHT s)
       } else do {
         port \<leftarrow> ks_port s p;
         kassert (0 < ip_sorights port);
         if 0 <s delta \<or> delta <s - 1 then delta_invalid_value name s
         else if delta = 0 then Some (KERN_SUCCESS, s)
         else right_free_sonce space name i p s
       }
     }
   }"

text \<open>
  The dead-name case. \<open>relport\<close> is the reference of a right that \<open>ipc_right_check\<close> just turned into a
  dead name; the jumps to \<open>invalid_value\<close> do not release it.
\<close>

definition delta_dead_name ::
  "ptr \<Rightarrow> mach_port_name_t \<Rightarrow> nat \<Rightarrow> ptr \<Rightarrow> 32 word \<Rightarrow> kst \<Rightarrow> (kern_return_t \<times> kst) option" where
  "delta_dead_name space name i relport delta s = do {
     e \<leftarrow> get_entry space i s;
     let bits = ie_bits e;
     kassert (IE_BITS_TYPE bits = MACH_PORT_TYPE_DEAD_NAME);
     kassert (0 < IE_BITS_UREFS bits);
     kassert (ie_object e = IO_NULL);
     kassert (ie_request e = IE_REQ_NONE);
     case urefs_delta (IE_BITS_UREFS bits) delta of
       None \<Rightarrow> delta_invalid_value name s
     | Some delta \<Rightarrow> do {
         s \<leftarrow> (if IE_BITS_UREFS bits + delta = 0 then entry_dealloc space name i s
               else if delta \<noteq> 0 then do {
                 s \<leftarrow> set_entry space i (e\<lparr>ie_bits := bits + delta\<rparr>) s;
                 entry_modified space name i s
               } else Some s);
         s \<leftarrow> (if relport \<noteq> IP_NULL then ip_release relport s else Some s);
         Some (KERN_SUCCESS, s)
       }
   }"

definition ipc_right_delta_dead_name ::
  "ptr \<Rightarrow> mach_port_name_t \<Rightarrow> nat \<Rightarrow> 32 word \<Rightarrow> kst \<Rightarrow> (kern_return_t \<times> kst) option" where
  "ipc_right_delta_dead_name space name i delta s = do {
     e \<leftarrow> get_entry space i s;
     let bits = ie_bits e;
     if bits AND MACH_PORT_TYPE_SEND_RIGHTS \<noteq> 0 then do {
       let p = ie_object e;
       kassert (p \<noteq> IP_NULL);
       (dead, s) \<leftarrow> ipc_right_check space p name i IPC_OBJECT_COPYIN_FLAGS_NONE s;
       if \<not> dead
       then delta_invalid_right IP_NULL (mach_port_guard_exception name 0 0 kGUARD_EXC_INVALID_RIGHT s)
       else delta_dead_name space name i p delta s
     }
     else if bits AND MACH_PORT_TYPE_DEAD_NAME = 0
     then delta_invalid_right IP_NULL (mach_port_guard_exception name 0 0 kGUARD_EXC_INVALID_RIGHT s)
     else delta_dead_name space name i IP_NULL delta s
   }"

text \<open>The send case: the last user reference of a live right, then the whole case.\<close>

definition delta_send_last ::
  "kenv \<Rightarrow> ptr \<Rightarrow> mach_port_name_t \<Rightarrow> nat \<Rightarrow> ptr \<Rightarrow> kst \<Rightarrow> (kern_return_t \<times> kst) option" where
  "delta_send_last E space name i p s = do {
     e \<leftarrow> get_entry space i s;
     let bits = ie_bits e;
     port \<leftarrow> ks_port s p;
     if pinned_control_port_enabled E \<and> ip_pinned port
     then Some (KERN_INVALID_CAPABILITY, pinned_exception E name s)
     else do {
       (ns, s) \<leftarrow> drop_sright p s;
       if bits AND MACH_PORT_TYPE_RECEIVE \<noteq> 0 then do {
         kassert (ip_receiver_name port = name);
         kassert (ip_receiver port = space);
         kassert (IE_BITS_TYPE bits = MACH_PORT_TYPE_SEND_RECEIVE);
         s \<leftarrow> set_entry space i (e\<lparr>ie_bits := bits AND NOT (IE_BITS_UREFS_MASK OR MACH_PORT_TYPE_SEND)\<rparr>) s;
         s \<leftarrow> entry_modified space name i s;
         Some (KERN_SUCCESS, send_no_senders ns s)
       } else do {
         kassert (IE_BITS_TYPE bits = MACH_PORT_TYPE_SEND);
         (request, s) \<leftarrow> ipc_right_request_cancel_macro space p name i s;
         s \<leftarrow> hash_delete space p name s;
         e \<leftarrow> get_entry space i s;
         s \<leftarrow> set_entry space i (e\<lparr>ie_object := IO_NULL\<rparr>) s;
         s \<leftarrow> entry_dealloc space name i s;
         s \<leftarrow> ip_release p s;
         Some (KERN_SUCCESS, send_port_deleted request name (send_no_senders ns s))
       }
     }
   }"

definition ipc_right_delta_send ::
  "kenv \<Rightarrow> ptr \<Rightarrow> mach_port_name_t \<Rightarrow> nat \<Rightarrow> 32 word \<Rightarrow> kst \<Rightarrow> (kern_return_t \<times> kst) option" where
  "ipc_right_delta_send E space name i delta s = do {
     e \<leftarrow> get_entry space i s;
     let bits = ie_bits e;
     if bits AND MACH_PORT_TYPE_SEND = 0
     then delta_invalid_right IP_NULL
            (if bits AND MACH_PORT_TYPE_DEAD_NAME = 0 \<and> (bits AND MACH_PORT_TYPE_RECEIVE = 0 \<or> delta \<noteq> 1)
             then mach_port_guard_exception name 0 0 kGUARD_EXC_INVALID_RIGHT s else s)
     else do {
       let p = ie_object e;
       kassert (p \<noteq> IP_NULL);
       (dead, s) \<leftarrow> ipc_right_check space p name i IPC_OBJECT_COPYIN_FLAGS_NONE s;
       if dead then do {
         e \<leftarrow> get_entry space i s;
         kassert (ie_bits e AND MACH_PORT_TYPE_SEND = 0);
         delta_invalid_right p s
       } else do {
         port \<leftarrow> ks_port s p;
         kassert (0 < ip_srights port);
         case urefs_delta (IE_BITS_UREFS bits) delta of
           None \<Rightarrow> delta_invalid_value name s
         | Some delta \<Rightarrow>
             if IE_BITS_UREFS bits + delta = 0 then delta_send_last E space name i p s
             else if delta \<noteq> 0 then do {
               s \<leftarrow> set_entry space i (e\<lparr>ie_bits := bits + delta\<rparr>) s;
               s \<leftarrow> entry_modified space name i s;
               Some (KERN_SUCCESS, s)
             } else Some (KERN_SUCCESS, s)
       }
     }
   }"

definition ipc_right_delta ::
  "kenv \<Rightarrow> ptr \<Rightarrow> mach_port_name_t \<Rightarrow> nat \<Rightarrow> mach_port_right_t \<Rightarrow> 32 word \<Rightarrow> kst \<Rightarrow> (kern_return_t \<times> kst) option" where
  "ipc_right_delta E space name i right delta s = do {
     e \<leftarrow> get_entry space i s;
     assert_active space s;
     case right of
       MACH_PORT_RIGHT_PORT_SET \<Rightarrow> ipc_right_delta_port_set space name i delta s
     | MACH_PORT_RIGHT_RECEIVE \<Rightarrow> ipc_right_delta_receive E space name i delta s
     | MACH_PORT_RIGHT_SEND_ONCE \<Rightarrow> ipc_right_delta_send_once space name i delta s
     | MACH_PORT_RIGHT_DEAD_NAME \<Rightarrow> ipc_right_delta_dead_name space name i delta s
     | MACH_PORT_RIGHT_SEND \<Rightarrow> ipc_right_delta_send E space name i delta s
     | MACH_PORT_RIGHT_LABELH \<Rightarrow> delta_invalid_right IP_NULL s
     | MACH_PORT_RIGHT_OTHER n \<Rightarrow> panic
   }"

text \<open>
  \<open>ipc_right_destruct\<close> in three parts: the send right that goes with a non-zero \<open>srdelta\<close>, the receive right, and the
  routine with its checks.
\<close>

definition destruct_srights ::
  "ptr \<Rightarrow> nat \<Rightarrow> ptr \<Rightarrow> 32 word \<Rightarrow> ipc_entry \<Rightarrow> kst \<Rightarrow> ((ptr \<times> 32 word) \<times> kst) option" where
  "destruct_srights space i p srdelta e s = do {
     let bits = ie_bits e;
     if IE_BITS_UREFS bits + srdelta = 0 then do {
       (ns, s) \<leftarrow> drop_sright p s;
       kassert (IE_BITS_TYPE bits = MACH_PORT_TYPE_SEND_RECEIVE);
       s \<leftarrow> set_entry space i (e\<lparr>ie_bits := bits AND NOT (IE_BITS_UREFS_MASK OR MACH_PORT_TYPE_SEND)\<rparr>) s;
       Some (ns, s)
     } else do {
       s \<leftarrow> set_entry space i (e\<lparr>ie_bits := bits + srdelta\<rparr>) s;
       Some ((IP_NULL, 0), s)
     }
   }"

definition destruct_receive ::
  "kenv \<Rightarrow> ptr \<Rightarrow> mach_port_name_t \<Rightarrow> nat \<Rightarrow> ptr \<Rightarrow> ptr \<times> 32 word \<Rightarrow> kst \<Rightarrow> (kern_return_t \<times> kst) option" where
  "destruct_receive E space name i p ns s = do {
     e \<leftarrow> get_entry space i s;
     kassert (ie_bits e AND MACH_PORT_TYPE_SEND \<noteq> 0 \<longrightarrow>
       0 < IE_BITS_UREFS (ie_bits e) \<and> IE_BITS_UREFS (ie_bits e) \<le> MACH_PORT_UREFS_MAX);
     (request, s) \<leftarrow> right_lose_receive space name i p s;
     s \<leftarrow> ipc_port_destroy E p (send_no_senders ns s);
     Some (KERN_SUCCESS, send_port_deleted request name s)
   }"

definition ipc_right_destruct ::
  "kenv \<Rightarrow> ptr \<Rightarrow> mach_port_name_t \<Rightarrow> nat \<Rightarrow> 32 word \<Rightarrow> 64 word \<Rightarrow> kst \<Rightarrow> (kern_return_t \<times> kst) option" where
  "ipc_right_destruct E space name i srdelta guard s = do {
     e \<leftarrow> get_entry space i s;
     let bits = ie_bits e;
     assert_active space s;
     if bits AND MACH_PORT_TYPE_RECEIVE = 0
     then Some (KERN_INVALID_RIGHT,
                if bits AND MACH_PORT_TYPE_EX_RECEIVE = 0
                then mach_port_guard_exception name 0 0 kGUARD_EXC_INVALID_RIGHT s else s)
     else if srdelta \<noteq> 0 \<and> bits AND MACH_PORT_TYPE_SEND = 0
     then Some (KERN_INVALID_RIGHT, mach_port_guard_exception name 0 0 kGUARD_EXC_INVALID_RIGHT s)
     else if 0 <s srdelta then delta_invalid_value name s
     else do {
       let p = ie_object e;
       kassert (p \<noteq> IP_NULL);
       port \<leftarrow> ks_port s p;
       require_ip_active port;
       kassert (ip_receiver_name port = name);
       kassert (ip_receiver port = space);
       if ip_guarded port \<and> guard \<noteq> ip_context port
       then Some (KERN_INVALID_ARGUMENT, mach_port_guard_exception name 0 (ip_context port) kGUARD_EXC_DESTROY s)
       else do {
         let urefs = IE_BITS_UREFS bits;
         kassert (srdelta \<noteq> 0 \<longrightarrow> 0 < ip_srights port);
         if srdelta \<noteq> 0 \<and> MACH_PORT_UREFS_UNDERFLOW urefs srdelta then delta_invalid_value name s
         else do {
           let srdelta' = (if urefs = MACH_PORT_UREFS_MAX \<and> srdelta \<noteq> - MACH_PORT_UREFS_MAX then 0 else srdelta);
           (ns, s) \<leftarrow> (if srdelta = 0 then Some ((IP_NULL, 0), s) else destruct_srights space i p srdelta' e s);
           destruct_receive E space name i p ns s
         }
       }
     }
   }"

text \<open>\<open>ipc_right_info\<close> returns the type, with the request bits, and the user references.\<close>

definition ipc_right_info ::
  "ptr \<Rightarrow> mach_port_name_t \<Rightarrow> nat \<Rightarrow> kst \<Rightarrow> ((32 word \<times> 32 word) \<times> kst) option" where
  "ipc_right_info space name i s = do {
     e \<leftarrow> get_entry space i s;
     let bits = ie_bits e;
     let request = ie_request e;
     let p = ie_object e;
     if bits AND MACH_PORT_TYPE_RECEIVE \<noteq> 0 then do {
       kassert (IP_VALID p);
       type \<leftarrow> (if request \<noteq> IE_REQ_NONE then do {
                 port \<leftarrow> ks_port s p;
                 require_ip_active port;
                 ipc_port_request_type port name request
               } else Some 0);
       Some ((type OR IE_BITS_TYPE bits, IE_BITS_UREFS bits), s)
     }
     else if bits AND MACH_PORT_TYPE_SEND_RIGHTS \<noteq> 0 then do {
       (dead, s) \<leftarrow> ipc_right_check space p name i IPC_OBJECT_COPYIN_FLAGS_NONE s;
       if \<not> dead then do {
         type \<leftarrow> (if request \<noteq> IE_REQ_NONE then do {
                   port \<leftarrow> ks_port s p;
                   ipc_port_request_type port name request
                 } else Some 0);
         Some ((type OR IE_BITS_TYPE bits, IE_BITS_UREFS bits), s)
       } else do {
         e \<leftarrow> get_entry space i s;
         kassert (IE_BITS_TYPE (ie_bits e) = MACH_PORT_TYPE_DEAD_NAME);
         s \<leftarrow> ip_release p s;
         Some ((IE_BITS_TYPE (ie_bits e), IE_BITS_UREFS (ie_bits e)), s)
       }
     }
     else Some ((IE_BITS_TYPE bits, IE_BITS_UREFS bits), s)
   }"

section \<open>Copyin\<close>

definition MACH_MSG_GUARD_FLAGS_IMMOVABLE_RECEIVE :: "32 word" where
  "MACH_MSG_GUARD_FLAGS_IMMOVABLE_RECEIVE = 1"

definition MACH_MSG_GUARD_FLAGS_UNGUARDED_ON_SEND :: "32 word" where
  "MACH_MSG_GUARD_FLAGS_UNGUARDED_ON_SEND = 2"

text \<open>\<open>None\<close> of the result is a panic; the type must be one of the six dispositions.\<close>

definition ipc_right_copyin_check_reply ::
  "kenv \<Rightarrow> ptr \<Rightarrow> mach_port_name_t \<Rightarrow> nat \<Rightarrow> mach_msg_type_name_t \<Rightarrow> kst \<Rightarrow> (bool \<times> kst) option" where
  "ipc_right_copyin_check_reply E space reply_name i reply_type s = do {
     e \<leftarrow> get_entry space i s;
     let bits = ie_bits e;
     assert_active space s;
     if reply_type = MACH_MSG_TYPE_MAKE_SEND \<or> reply_type = MACH_MSG_TYPE_MAKE_SEND_ONCE
     then Some (bits AND MACH_PORT_TYPE_RECEIVE \<noteq> 0, s)
     else if reply_type = MACH_MSG_TYPE_MOVE_RECEIVE then Some (False, s)
     else if reply_type = MACH_MSG_TYPE_COPY_SEND \<or> reply_type = MACH_MSG_TYPE_MOVE_SEND
             \<or> reply_type = MACH_MSG_TYPE_MOVE_SEND_ONCE then
       if bits AND MACH_PORT_TYPE_DEAD_NAME \<noteq> 0 then Some (True, s)
       else if bits AND MACH_PORT_TYPE_SEND_RIGHTS = 0 then Some (False, s)
       else do {
         let p = ie_object e;
         kassert (p \<noteq> IP_NULL);
         port \<leftarrow> ks_port s p;
         if \<not> ip_active port then Some (True, s)
         else if ip_immovable_send port \<and> (\<not> ip_is_control port \<or> immovable_control_port_enabled E) then do {
           s \<leftarrow> mach_port_guard_exception_immovable E reply_name port MPG_FLAGS_NONE s;
           Some (False, s)
         }
         else if reply_type = MACH_MSG_TYPE_MOVE_SEND_ONCE
         then Some (bits AND MACH_PORT_TYPE_SEND_ONCE \<noteq> 0, s)
         else Some (bits AND MACH_PORT_TYPE_SEND \<noteq> 0, s)
       }
     else panic
   }"

definition ipc_right_copyin_check_guard_locked ::
  "mach_port_name_t \<Rightarrow> ipc_port \<Rightarrow> 64 word \<Rightarrow> 32 word \<Rightarrow> kst \<Rightarrow> kern_return_t \<times> kst" where
  "ipc_right_copyin_check_guard_locked name port context flags s =
     (if flags AND MACH_MSG_GUARD_FLAGS_UNGUARDED_ON_SEND \<noteq> 0 \<and> \<not> ip_guarded port \<and> context = 0
      then (KERN_SUCCESS, s)
      else if ip_guarded port \<and> ip_context port = context then (KERN_SUCCESS, s)
      else (KERN_INVALID_ARGUMENT,
            mach_port_guard_exception name context (ip_context port) kGUARD_EXC_INCORRECT_GUARD s))"

text \<open>
  What a copyin returns: the object, the send-once right of a cancelled request, the reference to
  release, the importance count and the guard flags. The outputs the code leaves unset are 0.
\<close>

record copyin_out =
  co_kr :: kern_return_t
  co_object :: ptr
  co_soright :: ptr
  co_release :: ptr
  co_assertcnt :: nat
  co_guard :: "32 word option"

definition copyin_fail :: "kern_return_t \<Rightarrow> ptr \<Rightarrow> 32 word option \<Rightarrow> copyin_out" where
  "copyin_fail kr release guard = \<lparr>co_kr = kr, co_object = 0, co_soright = 0, co_release = release,
     co_assertcnt = 0, co_guard = guard\<rparr>"

definition copyin_done :: "ptr \<Rightarrow> ptr \<Rightarrow> ptr \<Rightarrow> nat \<Rightarrow> 32 word option \<Rightarrow> copyin_out" where
  "copyin_done object soright release assertcnt guard = \<lparr>co_kr = KERN_SUCCESS, co_object = object,
     co_soright = soright, co_release = release, co_assertcnt = assertcnt, co_guard = guard\<rparr>"

definition copyin_make_send ::
  "ptr \<Rightarrow> mach_port_name_t \<Rightarrow> nat \<Rightarrow> 32 word option \<Rightarrow> kst \<Rightarrow> (copyin_out \<times> kst) option" where
  "copyin_make_send space name i guard s = do {
     e \<leftarrow> get_entry space i s;
     if ie_bits e AND MACH_PORT_TYPE_RECEIVE = 0 then Some (copyin_fail KERN_INVALID_RIGHT IP_NULL guard, s)
     else do {
       let p = ie_object e;
       kassert (p \<noteq> IP_NULL);
       port \<leftarrow> ks_port s p;
       kassert (ip_receiver_name port = name);
       kassert (ip_receiver port = space);
       (_, s) \<leftarrow> ipc_port_make_send_locked p s;
       Some (copyin_done p IP_NULL IP_NULL 0 guard, s)
     }
   }"

definition copyin_make_send_once ::
  "ptr \<Rightarrow> mach_port_name_t \<Rightarrow> nat \<Rightarrow> 32 word option \<Rightarrow> kst \<Rightarrow> (copyin_out \<times> kst) option" where
  "copyin_make_send_once space name i guard s = do {
     e \<leftarrow> get_entry space i s;
     if ie_bits e AND MACH_PORT_TYPE_RECEIVE = 0 then Some (copyin_fail KERN_INVALID_RIGHT IP_NULL guard, s)
     else do {
       let p = ie_object e;
       kassert (p \<noteq> IP_NULL);
       port \<leftarrow> ks_port s p;
       require_ip_active port;
       kassert (ip_receiver_name port = name);
       kassert (ip_receiver port = space);
       (_, s) \<leftarrow> ipc_port_make_sonce_locked p s;
       Some (copyin_done p IP_NULL IP_NULL 0 guard, s)
     }
   }"

definition copyin_move_receive ::
  "kenv \<Rightarrow> ptr \<Rightarrow> mach_port_name_t \<Rightarrow> nat \<Rightarrow> 64 word \<Rightarrow> 32 word option \<Rightarrow> kst \<Rightarrow> (copyin_out \<times> kst) option" where
  "copyin_move_receive E space name i context guard s = do {
     e \<leftarrow> get_entry space i s;
     let bits = ie_bits e;
     if bits AND MACH_PORT_TYPE_RECEIVE = 0 then Some (copyin_fail KERN_INVALID_RIGHT IP_NULL guard, s)
     else do {
       let p = ie_object e;
       port \<leftarrow> ks_port s p;
       if io_is_kobject (ip_io_bits port) \<or> io_is_kolabeled (ip_io_bits port)
       then Some (copyin_fail KERN_INVALID_CAPABILITY IP_NULL guard,
                  mach_port_guard_exception name 0 0 kGUARD_EXC_IMMOVABLE s)
       else do {
         kassert (p \<noteq> IP_NULL);
         require_ip_active port;
         kassert (ip_receiver_name port = name);
         kassert (ip_receiver port = space);
         if ip_immovable_receive port \<or> ip_specialreply port then do {
           kassert (ip_receiver port \<noteq> ipc_space_kernel E);
           kassert (\<not> current_is_kernel_task E);
           Some (copyin_fail KERN_INVALID_CAPABILITY IP_NULL guard,
                 mach_port_guard_exception name 0 0 kGUARD_EXC_IMMOVABLE s)
         } else do {
           let (kr, s) = (case guard of None \<Rightarrow> (KERN_SUCCESS, s)
                          | Some flags \<Rightarrow> ipc_right_copyin_check_guard_locked name port context flags s);
           if kr \<noteq> KERN_SUCCESS then Some (copyin_fail kr IP_NULL guard, s)
           else do {
             (request, s) \<leftarrow> (if bits AND MACH_PORT_TYPE_SEND \<noteq> 0 then do {
                 kassert (IE_BITS_TYPE bits = MACH_PORT_TYPE_SEND_RECEIVE);
                 kassert (0 < IE_BITS_UREFS bits);
                 kassert (0 < ip_srights port);
                 s \<leftarrow> hash_insert space p name s;
                 s \<leftarrow> ip_reference p s;
                 Some (IP_NULL, s)
               } else do {
                 kassert (IE_BITS_TYPE bits = MACH_PORT_TYPE_RECEIVE);
                 kassert (IE_BITS_UREFS bits = 0);
                 (request, s) \<leftarrow> ipc_right_request_cancel_macro space p name i s;
                 e \<leftarrow> get_entry space i s;
                 s \<leftarrow> set_entry space i (e\<lparr>ie_object := IO_NULL\<rparr>) s;
                 Some (request, s)
               });
             e \<leftarrow> get_entry space i s;
             s \<leftarrow> set_entry space i
                   (e\<lparr>ie_bits := (bits AND NOT MACH_PORT_TYPE_RECEIVE) OR MACH_PORT_TYPE_EX_RECEIVE\<rparr>) s;
             s \<leftarrow> entry_modified space name i s;
             (_, s) \<leftarrow> ipc_port_clear_receiver E p False s;
             port \<leftarrow> ks_port s p;
             let guard = map_option (\<lambda>flags. flags OR MACH_MSG_GUARD_FLAGS_UNGUARDED_ON_SEND) guard;
             if \<not> ip_tempowner port then do {
               kassert (ip_imp_task port = 0);
               Some (copyin_done p request IP_NULL (unat (ip_impcount port)) guard,
                     put_port s p (port\<lparr>ip_tempowner := True\<rparr>))
             } else Some (copyin_done p request IP_NULL 0 guard, s)
           }
         }
       }
     }
   }"

text \<open>The labels \<open>copy_dead\<close> and \<open>move_dead\<close>.\<close>

definition copy_dead ::
  "ptr \<Rightarrow> nat \<Rightarrow> bool \<Rightarrow> ptr \<Rightarrow> 32 word option \<Rightarrow> kst \<Rightarrow> (copyin_out \<times> kst) option" where
  "copy_dead space i deadok release guard s = do {
     e \<leftarrow> get_entry space i s;
     kassert (IE_BITS_TYPE (ie_bits e) = MACH_PORT_TYPE_DEAD_NAME);
     kassert (0 < IE_BITS_UREFS (ie_bits e));
     kassert (ie_request e = IE_REQ_NONE);
     kassert (ie_object e = 0);
     Some (if \<not> deadok then copyin_fail KERN_INVALID_RIGHT release guard
           else copyin_done IO_DEAD IP_NULL release 0 guard, s)
   }"

definition move_dead ::
  "ptr \<Rightarrow> mach_port_name_t \<Rightarrow> nat \<Rightarrow> bool \<Rightarrow> ptr \<Rightarrow> 32 word option \<Rightarrow> kst \<Rightarrow> (copyin_out \<times> kst) option" where
  "move_dead space name i deadok release guard s = do {
     e \<leftarrow> get_entry space i s;
     let bits = ie_bits e;
     kassert (IE_BITS_TYPE bits = MACH_PORT_TYPE_DEAD_NAME);
     kassert (0 < IE_BITS_UREFS bits);
     kassert (ie_request e = IE_REQ_NONE);
     kassert (ie_object e = 0);
     if \<not> deadok then Some (copyin_fail KERN_INVALID_RIGHT release guard, s)
     else do {
       let bits = (if IE_BITS_UREFS bits = 1 then bits AND NOT MACH_PORT_TYPE_DEAD_NAME else bits);
       s \<leftarrow> set_entry space i
             (if IE_BITS_UREFS bits < MACH_PORT_UREFS_MAX then e\<lparr>ie_bits := bits - 1\<rparr> else e) s;
       s \<leftarrow> entry_modified space name i s;
       Some (copyin_done IO_DEAD IP_NULL release 0 guard, s)
     }
   }"

text \<open>The check for immovable send rights; the result says whether the copyin must fail.\<close>

definition copyin_immovable ::
  "kenv \<Rightarrow> mach_port_name_t \<Rightarrow> ipc_port \<Rightarrow> 32 word \<Rightarrow> kst \<Rightarrow> (bool \<times> kst) option" where
  "copyin_immovable E name port flags s =
     (if flags AND IPC_OBJECT_COPYIN_FLAGS_ALLOW_IMMOVABLE_SEND = 0 \<and> ip_immovable_send port
         \<and> (\<not> ip_is_control port \<or> immovable_control_port_enabled E)
      then do {
        s \<leftarrow> (if flags AND IPC_OBJECT_COPYIN_FLAGS_SOFT_FAIL_IMMOVABLE_SEND = 0
              then mach_port_guard_exception_immovable E name port MPG_FLAGS_NONE s else Some s);
        Some (True, s)
      } else Some (False, s))"

definition copyin_copy_send ::
  "kenv \<Rightarrow> ptr \<Rightarrow> mach_port_name_t \<Rightarrow> nat \<Rightarrow> 32 word \<Rightarrow> 32 word option \<Rightarrow> kst \<Rightarrow> (copyin_out \<times> kst) option" where
  "copyin_copy_send E space name i flags guard s = do {
     e \<leftarrow> get_entry space i s;
     let bits = ie_bits e;
     let deadok = (flags AND IPC_OBJECT_COPYIN_FLAGS_DEADOK \<noteq> 0);
     if bits AND MACH_PORT_TYPE_DEAD_NAME \<noteq> 0 then copy_dead space i deadok IP_NULL guard s
     else if bits AND MACH_PORT_TYPE_SEND_RIGHTS = 0 then Some (copyin_fail KERN_INVALID_RIGHT IP_NULL guard, s)
     else do {
       kassert (0 < IE_BITS_UREFS bits);
       let p = ie_object e;
       kassert (p \<noteq> IP_NULL);
       (dead, s) \<leftarrow> ipc_right_check space p name i IPC_OBJECT_COPYIN_FLAGS_NONE s;
       if dead then copy_dead space i deadok p guard s
       else do {
         port \<leftarrow> ks_port s p;
         if bits AND MACH_PORT_TYPE_SEND = 0 then do {
           kassert (IE_BITS_TYPE bits = MACH_PORT_TYPE_SEND_ONCE);
           kassert (0 < ip_sorights port);
           Some (copyin_fail KERN_INVALID_RIGHT IP_NULL guard, s)
         } else do {
           (bad, s) \<leftarrow> copyin_immovable E name port flags s;
           if bad then Some (copyin_fail KERN_INVALID_CAPABILITY IP_NULL guard, s)
           else do {
             s \<leftarrow> ipc_port_copy_send_locked p s;
             Some (copyin_done p IP_NULL IP_NULL 0 guard, s)
           }
         }
       }
     }
   }"

text \<open>The transfer of one user reference of a live send right to the caller.\<close>

definition move_send_live ::
  "ptr \<Rightarrow> mach_port_name_t \<Rightarrow> nat \<Rightarrow> ptr \<Rightarrow> kst \<Rightarrow> (ptr \<times> kst) option" where
  "move_send_live space name i p s = do {
     e \<leftarrow> get_entry space i s;
     let bits = ie_bits e;
     port \<leftarrow> ks_port s p;
     (request, s) \<leftarrow> (if IE_BITS_UREFS bits = 1 then do {
         kassert (0 < ip_srights port);
         (request, s) \<leftarrow> (if bits AND MACH_PORT_TYPE_RECEIVE \<noteq> 0 then do {
             kassert (ip_receiver_name port = name);
             kassert (ip_receiver port = space);
             kassert (IE_BITS_TYPE bits = MACH_PORT_TYPE_SEND_RECEIVE);
             kassert (\<not> ip_pinned port);
             s \<leftarrow> ip_reference p s;
             Some (IP_NULL, s)
           } else do {
             kassert (IE_BITS_TYPE bits = MACH_PORT_TYPE_SEND);
             (request, s) \<leftarrow> ipc_right_request_cancel_macro space p name i s;
             s \<leftarrow> hash_delete space p name s;
             e \<leftarrow> get_entry space i s;
             s \<leftarrow> set_entry space i (e\<lparr>ie_object := IO_NULL\<rparr>) s;
             Some (request, s)
           });
         e \<leftarrow> get_entry space i s;
         s \<leftarrow> set_entry space i (e\<lparr>ie_bits := bits AND NOT (IE_BITS_UREFS_MASK OR MACH_PORT_TYPE_SEND)\<rparr>) s;
         Some (request, s)
       } else do {
         s \<leftarrow> ipc_port_copy_send_locked p s;
         s \<leftarrow> set_entry space i
               (if IE_BITS_UREFS bits < MACH_PORT_UREFS_MAX then e\<lparr>ie_bits := bits - 1\<rparr> else e) s;
         Some (IP_NULL, s)
       });
     s \<leftarrow> entry_modified space name i s;
     Some (request, s)
   }"

definition copyin_move_send ::
  "kenv \<Rightarrow> ptr \<Rightarrow> mach_port_name_t \<Rightarrow> nat \<Rightarrow> 32 word \<Rightarrow> 32 word option \<Rightarrow> kst \<Rightarrow> (copyin_out \<times> kst) option" where
  "copyin_move_send E space name i flags guard s = do {
     e \<leftarrow> get_entry space i s;
     let bits = ie_bits e;
     let deadok = (flags AND IPC_OBJECT_COPYIN_FLAGS_DEADOK \<noteq> 0);
     if bits AND MACH_PORT_TYPE_DEAD_NAME \<noteq> 0 then move_dead space name i deadok IP_NULL guard s
     else if bits AND MACH_PORT_TYPE_SEND_RIGHTS = 0 then Some (copyin_fail KERN_INVALID_RIGHT IP_NULL guard, s)
     else do {
       kassert (0 < IE_BITS_UREFS bits);
       let p = ie_object e;
       kassert (p \<noteq> IP_NULL);
       (dead, s) \<leftarrow> ipc_right_check space p name i IPC_OBJECT_COPYIN_FLAGS_NONE s;
       if dead then move_dead space name i deadok p guard s
       else do {
         port \<leftarrow> ks_port s p;
         if bits AND MACH_PORT_TYPE_SEND = 0 then do {
           kassert (IE_BITS_TYPE bits = MACH_PORT_TYPE_SEND_ONCE);
           kassert (0 < ip_sorights port);
           Some (copyin_fail KERN_INVALID_RIGHT IP_NULL guard, s)
         } else do {
           (bad, s) \<leftarrow> copyin_immovable E name port flags s;
           if bad then Some (copyin_fail KERN_INVALID_CAPABILITY IP_NULL guard, s)
           else do {
             (request, s) \<leftarrow> move_send_live space name i p s;
             Some (copyin_done p request IP_NULL 0 guard, s)
           }
         }
       }
     }
   }"

definition copyin_move_send_once ::
  "kenv \<Rightarrow> ptr \<Rightarrow> mach_port_name_t \<Rightarrow> nat \<Rightarrow> 32 word \<Rightarrow> 32 word option \<Rightarrow> kst \<Rightarrow> (copyin_out \<times> kst) option" where
  "copyin_move_send_once E space name i flags guard s = do {
     e \<leftarrow> get_entry space i s;
     let bits = ie_bits e;
     let deadok = (flags AND IPC_OBJECT_COPYIN_FLAGS_DEADOK \<noteq> 0);
     if bits AND MACH_PORT_TYPE_DEAD_NAME \<noteq> 0 then move_dead space name i deadok IP_NULL guard s
     else if bits AND MACH_PORT_TYPE_SEND_RIGHTS = 0 then Some (copyin_fail KERN_INVALID_RIGHT IP_NULL guard, s)
     else do {
       kassert (0 < IE_BITS_UREFS bits);
       let p = ie_object e;
       kassert (p \<noteq> IP_NULL);
       (dead, s) \<leftarrow> ipc_right_check space p name i flags s;
       if dead then move_dead space name i deadok p guard s
       else do {
         port \<leftarrow> ks_port s p;
         if bits AND MACH_PORT_TYPE_SEND_ONCE = 0 then do {
           kassert (bits AND MACH_PORT_TYPE_SEND \<noteq> 0);
           kassert (0 < ip_srights port);
           Some (copyin_fail KERN_INVALID_RIGHT IP_NULL guard, s)
         } else do {
           (bad, s) \<leftarrow> copyin_immovable E name port flags s;
           if bad then Some (copyin_fail KERN_INVALID_CAPABILITY IP_NULL guard, s)
           else do {
             kassert (IE_BITS_TYPE bits = MACH_PORT_TYPE_SEND_ONCE);
             kassert (IE_BITS_UREFS bits = 1);
             kassert (0 < ip_sorights port);
             (request, s) \<leftarrow> ipc_right_request_cancel_macro space p name i s;
             e \<leftarrow> get_entry space i s;
             s \<leftarrow> set_entry space i (e\<lparr>ie_object := IO_NULL,
                   ie_bits := bits AND NOT (IE_BITS_UREFS_MASK OR MACH_PORT_TYPE_SEND_ONCE)\<rparr>) s;
             s \<leftarrow> entry_modified space name i s;
             Some (copyin_done p request IP_NULL 0 guard, s)
           }
         }
       }
     }
   }"

definition ipc_right_copyin ::
  "kenv \<Rightarrow> ptr \<Rightarrow> mach_port_name_t \<Rightarrow> nat \<Rightarrow> mach_msg_type_name_t \<Rightarrow> 32 word \<Rightarrow> 64 word \<Rightarrow> 32 word option
     \<Rightarrow> kst \<Rightarrow> (copyin_out \<times> kst) option" where
  "ipc_right_copyin E space name i msgt_name flags context guard s = do {
     e \<leftarrow> get_entry space i s;
     assert_active space s;
     case msgt_name of
       MACH_MSG_TYPE_MAKE_SEND \<Rightarrow> copyin_make_send space name i guard s
     | MACH_MSG_TYPE_MAKE_SEND_ONCE \<Rightarrow> copyin_make_send_once space name i guard s
     | MACH_MSG_TYPE_MOVE_RECEIVE \<Rightarrow> copyin_move_receive E space name i context guard s
     | MACH_MSG_TYPE_COPY_SEND \<Rightarrow> copyin_copy_send E space name i flags guard s
     | MACH_MSG_TYPE_MOVE_SEND \<Rightarrow> copyin_move_send E space name i flags guard s
     | MACH_MSG_TYPE_MOVE_SEND_ONCE \<Rightarrow> copyin_move_send_once E space name i flags guard s
     | _ \<Rightarrow> Some (copyin_fail KERN_INVALID_RIGHT IP_NULL guard, s)
   }"

section \<open>Copyin of two rights\<close>

definition MACH_MSG_TYPE_PORT_ANY_SEND :: "mach_msg_type_name_t \<Rightarrow> bool" where
  "MACH_MSG_TYPE_PORT_ANY_SEND x \<longleftrightarrow>
     x \<in> {MACH_MSG_TYPE_MOVE_SEND, MACH_MSG_TYPE_MOVE_SEND_ONCE, MACH_MSG_TYPE_COPY_SEND,
          MACH_MSG_TYPE_MAKE_SEND, MACH_MSG_TYPE_MAKE_SEND_ONCE}"

definition ipc_right_copyin_two_move_sends ::
  "ptr \<Rightarrow> mach_port_name_t \<Rightarrow> nat \<Rightarrow> kst \<Rightarrow> (copyin_out \<times> kst) option" where
  "ipc_right_copyin_two_move_sends space name i s = do {
     assert_active space s;
     e \<leftarrow> get_entry space i s;
     let bits = ie_bits e;
     let urefs = IE_BITS_UREFS bits;
     if bits AND MACH_PORT_TYPE_SEND = 0 \<or> urefs < 2 then Some (copyin_fail KERN_INVALID_RIGHT IP_NULL None, s)
     else do {
       let p = ie_object e;
       kassert (p \<noteq> IP_NULL);
       (dead, s) \<leftarrow> ipc_right_check space p name i IPC_OBJECT_COPYIN_FLAGS_NONE s;
       if dead then Some (copyin_fail KERN_INVALID_RIGHT p None, s)
       else do {
         (request, s) \<leftarrow> (if 2 < urefs then do {
             s \<leftarrow> ipc_port_copy_send_locked p s;
             s \<leftarrow> ipc_port_copy_send_locked p s;
             s \<leftarrow> set_entry space i (if urefs < MACH_PORT_UREFS_MAX then e\<lparr>ie_bits := bits - 2\<rparr> else e) s;
             Some (IP_NULL, s)
           } else do {
             s \<leftarrow> ipc_port_copy_send_locked p s;
             port \<leftarrow> ks_port s p;
             (request, s) \<leftarrow> (if bits AND MACH_PORT_TYPE_RECEIVE \<noteq> 0 then do {
                 kassert (ip_receiver_name port = name);
                 kassert (ip_receiver port = space);
                 kassert (IE_BITS_TYPE bits = MACH_PORT_TYPE_SEND_RECEIVE);
                 s \<leftarrow> ip_reference p s;
                 Some (IP_NULL, s)
               } else do {
                 kassert (IE_BITS_TYPE bits = MACH_PORT_TYPE_SEND);
                 (request, s) \<leftarrow> ipc_right_request_cancel_macro space p name i s;
                 s \<leftarrow> hash_delete space p name s;
                 e \<leftarrow> get_entry space i s;
                 s \<leftarrow> set_entry space i (e\<lparr>ie_object := IO_NULL\<rparr>) s;
                 Some (request, s)
               });
             e \<leftarrow> get_entry space i s;
             s \<leftarrow> set_entry space i (e\<lparr>ie_bits := bits AND NOT (IE_BITS_UREFS_MASK OR MACH_PORT_TYPE_SEND)\<rparr>) s;
             Some (request, s)
           });
         s \<leftarrow> entry_modified space name i s;
         Some (copyin_done p request IP_NULL 0 None, s)
       }
     }
   }"

definition ipc_right_copyin_two ::
  "kenv \<Rightarrow> ptr \<Rightarrow> mach_port_name_t \<Rightarrow> nat \<Rightarrow> mach_msg_type_name_t \<Rightarrow> mach_msg_type_name_t \<Rightarrow> kst
     \<Rightarrow> (copyin_out \<times> kst) option" where
  "ipc_right_copyin_two E space name i msgt_one msgt_two s = do {
     kassert (MACH_MSG_TYPE_PORT_ANY_SEND msgt_one);
     kassert (MACH_MSG_TYPE_PORT_ANY_SEND msgt_two);
     if msgt_one = MACH_MSG_TYPE_MOVE_SEND_ONCE \<or> msgt_two = MACH_MSG_TYPE_MOVE_SEND_ONCE
     then Some (copyin_fail KERN_INVALID_RIGHT IP_NULL None, s)
     else if msgt_one = MACH_MSG_TYPE_MAKE_SEND \<or> msgt_one = MACH_MSG_TYPE_MAKE_SEND_ONCE
             \<or> msgt_two = MACH_MSG_TYPE_MAKE_SEND \<or> msgt_two = MACH_MSG_TYPE_MAKE_SEND_ONCE
     then do {
       (r1, s) \<leftarrow> ipc_right_copyin E space name i msgt_one IPC_OBJECT_COPYIN_FLAGS_ALLOW_IMMOVABLE_SEND 0 None s;
       kassert (co_assertcnt r1 = 0);
       if co_kr r1 \<noteq> KERN_SUCCESS then Some (r1, s)
       else do {
         kassert (IO_VALID (co_object r1));
         kassert (co_soright r1 = IP_NULL);
         kassert (co_release r1 = IP_NULL);
         (r2, s) \<leftarrow> ipc_right_copyin E space name i msgt_two IPC_OBJECT_COPYIN_FLAGS_NONE 0 None s;
         kassert (co_assertcnt r2 = 0);
         kassert (co_kr r2 = KERN_SUCCESS);
         kassert (co_soright r2 = IP_NULL);
         kassert (co_release r2 = IP_NULL);
         kassert (co_object r2 = co_object r1);
         e \<leftarrow> get_entry space i s;
         kassert (ie_bits e AND MACH_PORT_TYPE_RECEIVE \<noteq> 0);
         Some (r1, s)
       }
     }
     else if msgt_one = MACH_MSG_TYPE_MOVE_SEND \<and> msgt_two = MACH_MSG_TYPE_MOVE_SEND
     then ipc_right_copyin_two_move_sends space name i s
     else do {
       let msgt_name = (if msgt_one = MACH_MSG_TYPE_MOVE_SEND \<or> msgt_two = MACH_MSG_TYPE_MOVE_SEND
                        then MACH_MSG_TYPE_MOVE_SEND else MACH_MSG_TYPE_COPY_SEND);
       (r, s) \<leftarrow> ipc_right_copyin E space name i msgt_name IPC_OBJECT_COPYIN_FLAGS_ALLOW_IMMOVABLE_SEND 0 None s;
       kassert (co_assertcnt r = 0);
       if co_kr r \<noteq> KERN_SUCCESS then Some (r, s)
       else do {
         (_, s) \<leftarrow> ipc_port_copy_send (co_object r) s;
         Some (r, s)
       }
     }
   }"

section \<open>Copyout\<close>

definition IPC_OBJECT_COPYOUT_FLAGS_PINNED :: "32 word" where
  "IPC_OBJECT_COPYOUT_FLAGS_PINNED = 1"

definition IPC_OBJECT_COPYOUT_FLAGS_NO_LABEL_CHECK :: "32 word" where
  "IPC_OBJECT_COPYOUT_FLAGS_NO_LABEL_CHECK = 2"

definition ITH_KNOTE_PSEUDO :: ptr where
  "ITH_KNOTE_PSEUDO = 0xdeadbeef"

definition copyout_send_once ::
  "ptr \<Rightarrow> mach_port_name_t \<Rightarrow> nat \<Rightarrow> ptr \<Rightarrow> kst \<Rightarrow> kst option" where
  "copyout_send_once space name i p s = do {
     e \<leftarrow> get_entry space i s;
     port \<leftarrow> ks_port s p;
     kassert (IE_BITS_TYPE (ie_bits e) = MACH_PORT_TYPE_NONE);
     kassert (IE_BITS_UREFS (ie_bits e) = 0);
     kassert (0 < ip_sorights port);
     let s = (if ip_specialreply port then klog (adjust_special_reply_port p) s else s);
     s \<leftarrow> set_entry space i (e\<lparr>ie_bits := ie_bits e OR (MACH_PORT_TYPE_SEND_ONCE OR 1)\<rparr>) s;
     entry_modified space name i s
   }"

definition copyout_send ::
  "ptr \<Rightarrow> mach_port_name_t \<Rightarrow> nat \<Rightarrow> ptr \<Rightarrow> kst \<Rightarrow> kst option" where
  "copyout_send space name i p s = do {
     e \<leftarrow> get_entry space i s;
     let bits = ie_bits e;
     port \<leftarrow> ks_port s p;
     kassert (0 < ip_srights port);
     if bits AND MACH_PORT_TYPE_SEND \<noteq> 0 \<and> IE_BITS_UREFS bits = MACH_PORT_UREFS_MAX then do {
       kassert (1 < ip_srights port);
       ip_release p (put_port s p (port\<lparr>ip_srights := ip_srights port - 1\<rparr>))
     }
     else do {
       s \<leftarrow> (if bits AND MACH_PORT_TYPE_SEND \<noteq> 0 then do {
               kassert (1 < ip_srights port);
               kassert (0 < IE_BITS_UREFS bits);
               ip_release p (put_port s p (port\<lparr>ip_srights := ip_srights port - 1\<rparr>))
             }
             else if bits AND MACH_PORT_TYPE_RECEIVE \<noteq> 0 then do {
               kassert (IE_BITS_TYPE bits = MACH_PORT_TYPE_RECEIVE);
               kassert (IE_BITS_UREFS bits = 0);
               ip_release p s
             }
             else do {
               kassert (IE_BITS_TYPE bits = MACH_PORT_TYPE_NONE);
               kassert (IE_BITS_UREFS bits = 0);
               hash_insert space p name s
             });
       e \<leftarrow> get_entry space i s;
       s \<leftarrow> set_entry space i (e\<lparr>ie_bits := (bits OR MACH_PORT_TYPE_SEND) + 1\<rparr>) s;
       entry_modified space name i s
     }
   }"

text \<open>
  Copyout of a receive right. The result adds the context and guard flags that are written when the
  message asked for a guarded receive right.
\<close>

definition copyout_receive ::
  "kenv \<Rightarrow> ptr \<Rightarrow> mach_port_name_t \<Rightarrow> nat \<Rightarrow> ptr \<Rightarrow> 64 word \<Rightarrow> 32 word option \<Rightarrow> kst
     \<Rightarrow> ((64 word \<times> 32 word option) \<times> kst) option" where
  "copyout_receive E space name i p context guard_flags s = do {
     e \<leftarrow> get_entry space i s;
     let bits = ie_bits e;
     port \<leftarrow> ks_port s p;
     let assertcnt = uint (ip_impcount port);
     kassert (ip_mscount port = 0);
     kassert (ip_receiver_name port = MACH_PORT_NULL);
     if io_is_kobject (ip_io_bits port) \<or> io_is_kolabeled (ip_io_bits port) then panic
     else do {
       let dest = ip_destination port;
       let port = port\<lparr>ip_receiver_name := name, ip_data := space\<rparr>;
       let guarded = (case guard_flags of None \<Rightarrow> False
                      | Some flags \<Rightarrow> flags AND MACH_MSG_GUARD_FLAGS_IMMOVABLE_RECEIVE \<noteq> 0);
       kassert (guarded \<longrightarrow> \<not> ip_immovable_receive port);
       let port = (if guarded
                   then port\<lparr>ip_guarded := True, ip_strict_guard := False,
                            ip_immovable_receive := (ith_knote E \<noteq> ITH_KNOTE_PSEUDO \<or> ip_immovable_receive port),
                            ip_context := ith_msg_addr E\<rparr>
                   else port);
       let context = (if guarded then ip_context port else context);
       let guard_flags = (if guarded
                          then map_option (\<lambda>flags. flags AND NOT MACH_MSG_GUARD_FLAGS_UNGUARDED_ON_SEND) guard_flags
                          else guard_flags);
       kassert (bits AND MACH_PORT_TYPE_RECEIVE = 0);
       kassert (if bits AND MACH_PORT_TYPE_SEND \<noteq> 0
                then IE_BITS_TYPE bits = MACH_PORT_TYPE_SEND \<and> 0 < IE_BITS_UREFS bits \<and> 0 < ip_srights port
                else IE_BITS_TYPE bits = MACH_PORT_TYPE_NONE \<and> IE_BITS_UREFS bits = 0);
       let sync_bootstrap_checkin = (ith_knote E \<noteq> ITH_KNOTE_PSEUDO \<and> ip_sync_bootstrap_checkin port);
       let s = klog (adjust_port p sync_bootstrap_checkin) (put_port s p port);
       s \<leftarrow> (if bits AND MACH_PORT_TYPE_SEND \<noteq> 0 then do {
               s \<leftarrow> ip_release p s;
               hash_delete space p name s
             } else Some s);
       e \<leftarrow> get_entry space i s;
       s \<leftarrow> set_entry space i (e\<lparr>ie_bits := bits OR MACH_PORT_TYPE_RECEIVE\<rparr>) s;
       s \<leftarrow> entry_modified space name i s;
       s \<leftarrow> (if dest \<noteq> IP_NULL then do {
               dport \<leftarrow> ks_port s dest;
               let (_, dport) = ipc_port_impcount_delta dport (0 - assertcnt);
               let s = klog (send_turnstile_complete dest) (put_port s dest dport);
               ip_release dest s
             } else Some s);
       Some ((context, guard_flags), s)
     }
   }"

definition ipc_right_copyout ::
  "kenv \<Rightarrow> ptr \<Rightarrow> mach_port_name_t \<Rightarrow> nat \<Rightarrow> mach_msg_type_name_t \<Rightarrow> 32 word \<Rightarrow> 64 word \<Rightarrow> 32 word option \<Rightarrow> ptr
     \<Rightarrow> kst \<Rightarrow> ((kern_return_t \<times> 64 word \<times> 32 word option) \<times> kst) option" where
  "ipc_right_copyout E space name i msgt_name flags context guard_flags p s = do {
     e \<leftarrow> get_entry space i s;
     kassert (IO_VALID p);
     port \<leftarrow> ks_port s p;
     kassert (io_otype (ip_io_bits port) = IOT_PORT);
     kassert (ip_active port);
     kassert (ie_object e = p);
     s \<leftarrow> (if pinned_control_port_enabled E \<and> flags AND IPC_OBJECT_COPYOUT_FLAGS_PINNED \<noteq> 0 then do {
             kassert (\<not> ip_pinned port);
             kassert (ip_immovable_send port);
             Some (put_port s p (port\<lparr>ip_pinned := True\<rparr>))
           } else Some s);
     case msgt_name of
       MACH_MSG_TYPE_MOVE_SEND_ONCE \<Rightarrow>
         map_option (\<lambda>s. ((KERN_SUCCESS, context, guard_flags), s)) (copyout_send_once space name i p s)
     | MACH_MSG_TYPE_MOVE_SEND \<Rightarrow>
         map_option (\<lambda>s. ((KERN_SUCCESS, context, guard_flags), s)) (copyout_send space name i p s)
     | MACH_MSG_TYPE_MOVE_RECEIVE \<Rightarrow>
         map_option (\<lambda>(r, s). ((KERN_SUCCESS, r), s)) (copyout_receive E space name i p context guard_flags s)
     | _ \<Rightarrow> panic
   }"

end
