(* ===== verification/Ipc_Object.thy ===== *)
theory Ipc_Object
  imports Ipc_Right
begin

text \<open>
  Objects and capabilities at the level of names (\<open>osfmk/ipc/ipc_object.c\<close>): translation of a name,
  allocation of objects, copyin and copyout of capabilities and their destruction, with the label
  check of \<open>osfmk/kern/ipc_kobject.c\<close>; creation of ports in a space (\<open>ipc_port_alloc\<close> and
  \<open>ipc_port_alloc_name\<close>) and the end of a space (\<open>osfmk/ipc/ipc_space.c\<close>). The address the zone
  allocator returns for a new object is an argument, 0 when there is no memory.
\<close>

section \<open>Translation\<close>

text \<open>
  The object of an entry is a port, or a port set when the entry says so; \<open>object_active\<close> reads the
  active bit of either.
\<close>

definition object_active :: "ipc_entry \<Rightarrow> kst \<Rightarrow> bool option" where
  "object_active e s =
     (if ie_bits e AND MACH_PORT_TYPE_PORT_SET \<noteq> 0
      then map_option ips_active (ks_pset s (ie_object e))
      else map_option ip_active (ks_port s (ie_object e)))"

definition ipc_object_translate ::
  "ptr \<Rightarrow> mach_port_name_t \<Rightarrow> mach_port_right_t \<Rightarrow> kst \<Rightarrow> (kern_return_t \<times> ptr) option" where
  "ipc_object_translate space name right s =
     (if \<not> right_number right \<le> right_number MACH_PORT_RIGHT_DEAD_NAME then Some (KERN_INVALID_RIGHT, 0)
      else do {
        (kr, i) \<leftarrow> ipc_right_lookup_write space name s;
        if kr \<noteq> KERN_SUCCESS then Some (kr, 0)
        else do {
          e \<leftarrow> get_entry space i s;
          if ie_bits e AND MACH_PORT_TYPE right = MACH_PORT_TYPE_NONE then Some (KERN_INVALID_RIGHT, 0)
          else do {
            kassert (ie_object e \<noteq> IO_NULL);
            active \<leftarrow> object_active e s;
            Some (if active then (KERN_SUCCESS, ie_object e) else (KERN_INVALID_NAME, 0))
          }
        }
      })"

text \<open>
  In \<open>ipc_object_translate_two\<close> the test \<open>(right & MACH_PORT_RIGHT_RECEIVE) == MACH_PORT_RIGHT_RECEIVE\<close> is on
  the number of the right, so it also holds for the port set right.
\<close>

definition translate_guard :: "mach_port_name_t \<Rightarrow> mach_port_right_t \<Rightarrow> ipc_entry \<Rightarrow> kst \<Rightarrow> kst" where
  "translate_guard name right e s =
     (if odd (right_number right) \<and> ie_bits e AND MACH_PORT_TYPE_EX_RECEIVE = MACH_PORT_TYPE_EX_RECEIVE then s
      else mach_port_guard_exception name 0 0 kGUARD_EXC_INVALID_RIGHT s)"

definition ipc_object_translate_two ::
  "ptr \<Rightarrow> mach_port_name_t \<Rightarrow> mach_port_right_t \<Rightarrow> mach_port_name_t \<Rightarrow> mach_port_right_t \<Rightarrow> kst
     \<Rightarrow> ((kern_return_t \<times> ptr \<times> ptr) \<times> kst) option" where
  "ipc_object_translate_two space name1 right1 name2 right2 s = do {
     ((kr, i1, i2), s) \<leftarrow> ipc_right_lookup_two_write space name1 name2 s;
     if kr \<noteq> KERN_SUCCESS then Some ((kr, 0, 0), s)
     else do {
       e1 \<leftarrow> get_entry space i1 s;
       e2 \<leftarrow> get_entry space i2 s;
       if ie_bits e1 AND MACH_PORT_TYPE right1 = MACH_PORT_TYPE_NONE
       then Some ((KERN_INVALID_RIGHT, 0, 0), translate_guard name1 right1 e1 s)
       else if ie_bits e2 AND MACH_PORT_TYPE right2 = MACH_PORT_TYPE_NONE
       then Some ((KERN_INVALID_RIGHT, 0, 0), translate_guard name2 right2 e2 s)
       else do {
         kassert (ie_object e1 \<noteq> IO_NULL);
         active1 \<leftarrow> object_active e1 s;
         if \<not> active1 then Some ((KERN_INVALID_NAME, 0, 0), s)
         else do {
           kassert (ie_object e2 \<noteq> IO_NULL);
           active2 \<leftarrow> object_active e2 s;
           Some (if active2 then (KERN_SUCCESS, ie_object e1, ie_object e2) else (KERN_INVALID_NAME, 0, 0), s)
         }
       }
     }
   }"

section \<open>Allocation\<close>

definition entry_alloc ::
  "kenv \<Rightarrow> ptr \<Rightarrow> kst \<Rightarrow> ((kern_return_t \<times> mach_port_name_t \<times> nat) \<times> kst) option" where
  "entry_alloc E space s = do {
     sp \<leftarrow> ks_space s space;
     (r, sp) \<leftarrow> ipc_entry_alloc (ipc_table_entries E) (it_entries_alloc_ok E) (grow_others E) sp;
     Some (r, put_space s space sp)
   }"

definition entry_alloc_name ::
  "kenv \<Rightarrow> ptr \<Rightarrow> mach_port_name_t \<Rightarrow> kst \<Rightarrow> ((kern_return_t \<times> nat) \<times> kst) option" where
  "entry_alloc_name E space name s = do {
     sp \<leftarrow> ks_space s space;
     (r, sp) \<leftarrow> ipc_entry_alloc_name (ipc_table_entries E) (it_entries_alloc_ok E) (grow_others E) name sp;
     Some (r, put_space s space sp)
   }"

definition ipc_object_alloc_dead ::
  "kenv \<Rightarrow> ptr \<Rightarrow> kst \<Rightarrow> ((kern_return_t \<times> mach_port_name_t) \<times> kst) option" where
  "ipc_object_alloc_dead E space s = do {
     ((kr, name, i), s) \<leftarrow> entry_alloc E space s;
     if kr \<noteq> KERN_SUCCESS then Some ((kr, 0), s)
     else do {
       e \<leftarrow> get_entry space i s;
       kassert (ie_object e = IO_NULL);
       s \<leftarrow> set_entry space i (e\<lparr>ie_bits := ie_bits e OR (MACH_PORT_TYPE_DEAD_NAME OR 1)\<rparr>) s;
       s \<leftarrow> entry_modified space name i s;
       Some ((KERN_SUCCESS, name), s)
     }
   }"

definition ipc_object_alloc_dead_name ::
  "kenv \<Rightarrow> ptr \<Rightarrow> mach_port_name_t \<Rightarrow> kst \<Rightarrow> (kern_return_t \<times> kst) option" where
  "ipc_object_alloc_dead_name E space name s = do {
     ((kr, i), s) \<leftarrow> entry_alloc_name E space name s;
     if kr \<noteq> KERN_SUCCESS then Some (kr, s)
     else do {
       e \<leftarrow> get_entry space i s;
       if ipc_right_inuse e then Some (KERN_NAME_EXISTS, s)
       else do {
         kassert (ie_object e = IO_NULL);
         s \<leftarrow> set_entry space i (e\<lparr>ie_bits := ie_bits e OR (MACH_PORT_TYPE_DEAD_NAME OR 1)\<rparr>) s;
         s \<leftarrow> entry_modified space name i s;
         Some (KERN_SUCCESS, s)
       }
     }
   }"

text \<open>The new object at address \<open>obj\<close>: a port or a port set with one reference, for the entry.\<close>

definition put_object :: "32 word \<Rightarrow> ptr \<Rightarrow> kst \<Rightarrow> kst" where
  "put_object otype obj s =
     (if otype = IOT_PORT
      then put_port s obj (zero_port\<lparr>ip_io_bits := io_makebits True otype 0, ip_references := 1\<rparr>)
      else put_pset s obj \<lparr>ips_bits = io_makebits True otype 0, ips_references = 1\<rparr>)"

definition ipc_object_alloc ::
  "kenv \<Rightarrow> ptr \<Rightarrow> ptr \<Rightarrow> 32 word \<Rightarrow> 32 word \<Rightarrow> 32 word \<Rightarrow> kst
     \<Rightarrow> ((kern_return_t \<times> mach_port_name_t \<times> ptr) \<times> kst) option" where
  "ipc_object_alloc E obj space otype type urefs s = do {
     kassert (otype = IOT_PORT \<or> otype = IOT_PORT_SET);
     kassert (type AND MACH_PORT_TYPE_ALL_RIGHTS = type);
     kassert (type \<noteq> MACH_PORT_TYPE_NONE);
     kassert (urefs \<le> MACH_PORT_UREFS_MAX);
     if obj = IO_NULL then Some ((KERN_RESOURCE_SHORTAGE, 0, 0), s)
     else do {
       ((kr, name, i), s) \<leftarrow> entry_alloc E space s;
       if kr \<noteq> KERN_SUCCESS then Some ((kr, 0, 0), s)
       else do {
         e \<leftarrow> get_entry space i s;
         s \<leftarrow> set_entry space i (e\<lparr>ie_bits := ie_bits e OR (type OR urefs), ie_object := obj\<rparr>) s;
         s \<leftarrow> entry_modified space name i s;
         Some ((KERN_SUCCESS, name, obj), put_object otype obj s)
       }
     }
   }"

definition ipc_object_alloc_name ::
  "kenv \<Rightarrow> ptr \<Rightarrow> ptr \<Rightarrow> 32 word \<Rightarrow> 32 word \<Rightarrow> 32 word \<Rightarrow> mach_port_name_t \<Rightarrow> kst
     \<Rightarrow> ((kern_return_t \<times> ptr) \<times> kst) option" where
  "ipc_object_alloc_name E obj space otype type urefs name s = do {
     kassert (otype = IOT_PORT \<or> otype = IOT_PORT_SET);
     kassert (type AND MACH_PORT_TYPE_ALL_RIGHTS = type);
     kassert (type \<noteq> MACH_PORT_TYPE_NONE);
     kassert (urefs \<le> MACH_PORT_UREFS_MAX);
     if obj = IO_NULL then Some ((KERN_RESOURCE_SHORTAGE, 0), s)
     else do {
       ((kr, i), s) \<leftarrow> entry_alloc_name E space name s;
       if kr \<noteq> KERN_SUCCESS then Some ((kr, 0), s)
       else do {
         e \<leftarrow> get_entry space i s;
         if ipc_right_inuse e then Some ((KERN_NAME_EXISTS, 0), s)
         else do {
           s \<leftarrow> set_entry space i (e\<lparr>ie_bits := ie_bits e OR (type OR urefs), ie_object := obj\<rparr>) s;
           s \<leftarrow> entry_modified space name i s;
           Some ((KERN_SUCCESS, obj), put_object otype obj s)
         }
       }
     }
   }"

definition port_alloc_type :: "32 word \<Rightarrow> 32 word \<times> 32 word" where
  "port_alloc_type flags =
     (if flags AND IPC_PORT_INIT_MAKE_SEND_RIGHT \<noteq> 0
      then (MACH_PORT_TYPE_RECEIVE OR MACH_PORT_TYPE_SEND, 1) else (MACH_PORT_TYPE_RECEIVE, 0))"

definition ipc_port_alloc ::
  "kenv \<Rightarrow> ptr \<Rightarrow> ptr \<Rightarrow> 32 word \<Rightarrow> kst \<Rightarrow> ((kern_return_t \<times> mach_port_name_t \<times> ptr) \<times> kst) option" where
  "ipc_port_alloc E obj space flags s = do {
     let (type, urefs) = port_alloc_type flags;
     ((kr, name, p), s) \<leftarrow> ipc_object_alloc E obj space IOT_PORT type urefs s;
     if kr \<noteq> KERN_SUCCESS then Some ((kr, 0, 0), s)
     else do {
       port \<leftarrow> ks_port s p;
       Some ((KERN_SUCCESS, name, p), put_port s p (ipc_port_init port space flags name))
     }
   }"

definition ipc_port_alloc_name ::
  "kenv \<Rightarrow> ptr \<Rightarrow> ptr \<Rightarrow> 32 word \<Rightarrow> mach_port_name_t \<Rightarrow> kst \<Rightarrow> ((kern_return_t \<times> ptr) \<times> kst) option" where
  "ipc_port_alloc_name E obj space flags name s = do {
     let (type, urefs) = port_alloc_type flags;
     ((kr, p), s) \<leftarrow> ipc_object_alloc_name E obj space IOT_PORT type urefs name s;
     if kr \<noteq> KERN_SUCCESS then Some ((kr, 0), s)
     else do {
       port \<leftarrow> ks_port s p;
       Some ((KERN_SUCCESS, p), put_port s p (ipc_port_init port space flags name))
     }
   }"

section \<open>Copyin\<close>

definition ipc_object_copyin_type :: "mach_msg_type_name_t \<Rightarrow> mach_msg_type_name_t" where
  "ipc_object_copyin_type msgt_name = (case msgt_name of
       MACH_MSG_TYPE_MOVE_RECEIVE \<Rightarrow> MACH_MSG_TYPE_PORT_RECEIVE
     | MACH_MSG_TYPE_MOVE_SEND_ONCE \<Rightarrow> MACH_MSG_TYPE_PORT_SEND_ONCE
     | MACH_MSG_TYPE_MAKE_SEND_ONCE \<Rightarrow> MACH_MSG_TYPE_PORT_SEND_ONCE
     | MACH_MSG_TYPE_MOVE_SEND \<Rightarrow> MACH_MSG_TYPE_PORT_SEND
     | MACH_MSG_TYPE_MAKE_SEND \<Rightarrow> MACH_MSG_TYPE_PORT_SEND
     | MACH_MSG_TYPE_COPY_SEND \<Rightarrow> MACH_MSG_TYPE_PORT_SEND
     | _ \<Rightarrow> MACH_MSG_TYPE_PORT_NONE)"

definition ipc_object_copyin ::
  "kenv \<Rightarrow> ptr \<Rightarrow> mach_port_name_t \<Rightarrow> mach_msg_type_name_t \<Rightarrow> 64 word \<Rightarrow> 32 word option \<Rightarrow> 32 word \<Rightarrow> kst
     \<Rightarrow> ((kern_return_t \<times> ptr \<times> 32 word option) \<times> kst) option" where
  "ipc_object_copyin E space name msgt_name context guard_flags copyin_flags s = do {
     let irc_flags = IPC_OBJECT_COPYIN_FLAGS_ALLOW_IMMOVABLE_SEND OR
                     IPC_OBJECT_COPYIN_FLAGS_SOFT_FAIL_IMMOVABLE_SEND;
     let irc_flags = (copyin_flags AND irc_flags) OR IPC_OBJECT_COPYIN_FLAGS_DEADOK;
     (kr, i) \<leftarrow> ipc_right_lookup_write space name s;
     if kr \<noteq> KERN_SUCCESS then Some ((kr, 0, guard_flags), s)
     else do {
       (r, s) \<leftarrow> ipc_right_copyin E space name i msgt_name irc_flags context guard_flags s;
       e \<leftarrow> get_entry space i s;
       s \<leftarrow> (if IE_BITS_TYPE (ie_bits e) = MACH_PORT_TYPE_NONE then entry_dealloc space name i s else Some s);
       let s = (if 0 < co_assertcnt r \<and> imp_task_is_any_receiver_type E (current_imp_base E)
                then klog (importance_drop (current_imp_base E) (int (co_assertcnt r))) s else s);
       s \<leftarrow> (if co_release r \<noteq> IP_NULL then ip_release (co_release r) s else Some s);
       let s = (if co_kr r = KERN_SUCCESS then send_port_deleted (co_soright r) name s else s);
       Some ((co_kr r, co_object r, co_guard r), s)
     }
   }"

definition HOST_LOCAL_NODE :: int where
  "HOST_LOCAL_NODE = -1"

definition ipc_object_copyin_from_kernel ::
  "kenv \<Rightarrow> ptr \<Rightarrow> mach_msg_type_name_t \<Rightarrow> kst \<Rightarrow> kst option" where
  "ipc_object_copyin_from_kernel E p msgt_name s = do {
     kassert (IO_VALID p);
     port \<leftarrow> ks_port s p;
     case msgt_name of
       MACH_MSG_TYPE_MOVE_RECEIVE \<Rightarrow> do {
         require_ip_active port;
         if ip_destination port \<noteq> IP_NULL then do {
           kassert (ip_receiver port = ipc_space_kernel E);
           kassert (\<not> ip_immovable_receive port);
           Some (put_port s p (port\<lparr>ip_mscount := 0, ip_receiver_name := MACH_PORT_NULL, ip_data := IP_NULL\<rparr>))
         } else Some s
       }
     | MACH_MSG_TYPE_COPY_SEND \<Rightarrow> do {
         kassert (ip_active port \<longrightarrow> 0 < ip_srights port);
         ip_reference p (put_port s p (port\<lparr>ip_srights := ip_srights port + 1\<rparr>))
       }
     | MACH_MSG_TYPE_MAKE_SEND \<Rightarrow> do {
         kassert (ip_active port \<longrightarrow> ip_receiver_name port \<noteq> MACH_PORT_NULL
                  \<and> (ip_receiver port = ipc_space_kernel E
                       \<or> (case ks_space s (ip_receiver port) of None \<Rightarrow> False
                          | Some sp \<Rightarrow> is_node_id sp \<noteq> HOST_LOCAL_NODE)));
         let port = (if ip_active port then port\<lparr>ip_mscount := ip_mscount port + 1\<rparr> else port);
         ip_reference p (put_port s p (port\<lparr>ip_srights := ip_srights port + 1\<rparr>))
       }
     | MACH_MSG_TYPE_MOVE_SEND \<Rightarrow> do {
         kassert (ip_srights port \<noteq> 0);
         Some s
       }
     | MACH_MSG_TYPE_MAKE_SEND_ONCE \<Rightarrow> do {
         kassert (ip_active port \<longrightarrow> ip_receiver_name port \<noteq> MACH_PORT_NULL);
         (_, s) \<leftarrow> ipc_port_make_sonce_locked p s;
         Some s
       }
     | MACH_MSG_TYPE_MOVE_SEND_ONCE \<Rightarrow> do {
         kassert (ip_sorights port \<noteq> 0);
         Some s
       }
     | _ \<Rightarrow> panic
   }"

section \<open>Destruction of naked rights\<close>

definition ipc_object_destroy :: "kenv \<Rightarrow> ptr \<Rightarrow> mach_msg_type_name_t \<Rightarrow> kst \<Rightarrow> kst option" where
  "ipc_object_destroy E p msgt_name s = do {
     kassert (IO_VALID p);
     port \<leftarrow> ks_port s p;
     kassert (io_otype (ip_io_bits port) = IOT_PORT);
     case msgt_name of
       MACH_MSG_TYPE_MOVE_SEND \<Rightarrow> ipc_port_release_send p s
     | MACH_MSG_TYPE_MOVE_SEND_ONCE \<Rightarrow> Some (ipc_notify_send_once p s)
     | MACH_MSG_TYPE_MOVE_RECEIVE \<Rightarrow> ipc_port_release_receive E p s
     | _ \<Rightarrow> panic
   }"

definition ip_full_kernel :: "ipc_port \<Rightarrow> bool" where
  "ip_full_kernel port \<longleftrightarrow> 65534 \<le> ip_msgcount port"

definition ipc_object_destroy_dest :: "ptr \<Rightarrow> mach_msg_type_name_t \<Rightarrow> kst \<Rightarrow> kst option" where
  "ipc_object_destroy_dest p msgt_name s = do {
     kassert (IO_VALID p);
     port \<leftarrow> ks_port s p;
     kassert (io_otype (ip_io_bits port) = IOT_PORT);
     case msgt_name of
       MACH_MSG_TYPE_MOVE_SEND \<Rightarrow> ipc_port_release_send p s
     | MACH_MSG_TYPE_MOVE_SEND_ONCE \<Rightarrow>
         if ip_active port \<and> \<not> ip_full_kernel port then Some (ipc_notify_send_once p s)
         else ipc_port_release_sonce p s
     | _ \<Rightarrow> panic
   }"

section \<open>Inserting a right\<close>

definition ipc_object_insert_send_right ::
  "ptr \<Rightarrow> mach_port_name_t \<Rightarrow> mach_msg_type_name_t \<Rightarrow> kst \<Rightarrow> (kern_return_t \<times> kst) option" where
  "ipc_object_insert_send_right space name msgt_name s = do {
     kassert (msgt_name = MACH_MSG_TYPE_MAKE_SEND \<or> msgt_name = MACH_MSG_TYPE_COPY_SEND);
     (kr, i) \<leftarrow> ipc_right_lookup_write space name s;
     if kr \<noteq> KERN_SUCCESS then Some (kr, s)
     else do {
       e \<leftarrow> get_entry space i s;
       if \<not> IO_VALID (ie_object e) then Some (KERN_INVALID_CAPABILITY, s)
       else do {
         let bits = ie_bits e;
         active \<leftarrow> object_active e s;
         if \<not> active then Some (KERN_INVALID_CAPABILITY, s)
         else if msgt_name = MACH_MSG_TYPE_MAKE_SEND then
           if bits AND MACH_PORT_TYPE_RECEIVE \<noteq> 0 then do {
             port \<leftarrow> ks_port s (ie_object e);
             let port = port\<lparr>ip_mscount := ip_mscount port + 1\<rparr>;
             let (port, bits) = (if bits AND MACH_PORT_TYPE_SEND = 0
                                 then (port\<lparr>ip_srights := ip_srights port + 1\<rparr>, bits OR MACH_PORT_TYPE_SEND)
                                 else (port, bits));
             let bits = (if IE_BITS_UREFS bits < MACH_PORT_UREFS_MAX then bits + 1 else bits);
             s \<leftarrow> set_entry space i (e\<lparr>ie_bits := bits\<rparr>) (put_port s (ie_object e) port);
             s \<leftarrow> entry_modified space name i s;
             Some (KERN_SUCCESS, s)
           } else Some (KERN_INVALID_RIGHT, s)
         else
           if bits AND MACH_PORT_TYPE_SEND \<noteq> 0 then do {
             s \<leftarrow> set_entry space i
                   (if IE_BITS_UREFS bits < MACH_PORT_UREFS_MAX then e\<lparr>ie_bits := bits + 1\<rparr> else e) s;
             s \<leftarrow> entry_modified space name i s;
             Some (KERN_SUCCESS, s)
           } else Some (KERN_INVALID_RIGHT, s)
       }
     }
   }"

section \<open>Copyout\<close>

definition IPC_LABEL_SPACE_MASK :: "64 word" where
  "IPC_LABEL_SPACE_MASK = 0x00ff"

definition IPC_LABEL_SUBST_ONCE :: "64 word" where
  "IPC_LABEL_SUBST_ONCE = 0x0300"

definition IPC_LABEL_SUBST_MASK :: "64 word" where
  "IPC_LABEL_SUBST_MASK = 0xff00"

text \<open>
  The label check. \<open>label_substitute\<close> of the environment is the substitute of a labelled port for the
  three kinds of substitution; another kind panics.
\<close>

definition ipc_kobject_label_check ::
  "kenv \<Rightarrow> ptr \<Rightarrow> ptr \<Rightarrow> mach_msg_type_name_t \<Rightarrow> 32 word \<Rightarrow> kst \<Rightarrow> ((bool \<times> 32 word \<times> ptr) \<times> kst) option" where
  "ipc_kobject_label_check E space p msgt_name flags s = do {
     sp \<leftarrow> ks_space s space;
     port \<leftarrow> ks_port s p;
     kassert (is_active sp);
     kassert (ip_active port);
     if \<not> io_is_kolabeled (ip_io_bits port) then Some ((True, flags, IP_NULL), s)
     else if msgt_name = MACH_MSG_TYPE_PORT_RECEIVE then panic
     else do {
       let label = ikol_label E (ip_kdata port);
       let allowed = (label AND is_label sp AND IPC_LABEL_SPACE_MASK = label AND IPC_LABEL_SPACE_MASK);
       let kind = label AND IPC_LABEL_SUBST_MASK;
       if flags AND IPC_OBJECT_COPYOUT_FLAGS_NO_LABEL_CHECK = 0 \<and> kind \<noteq> 0 then
         if msgt_name \<noteq> MACH_MSG_TYPE_PORT_SEND then Some ((False, flags, IP_NULL), s)
         else if \<not> (kind = 0x0100 \<or> kind = 0x0200 \<or> kind = IPC_LABEL_SUBST_ONCE) then panic
         else do {
           let flags = (if kind = IPC_LABEL_SUBST_ONCE
                        then flags OR IPC_OBJECT_COPYOUT_FLAGS_NO_LABEL_CHECK else flags);
           let subst1 = label_substitute E kind space p;
           if subst1 \<noteq> IP_NULL then do {
             s \<leftarrow> ip_reference subst1 s;
             s \<leftarrow> ipc_port_release_send_and_unlock p s;
             (q, s) \<leftarrow> ipc_port_make_send subst1 s;
             s \<leftarrow> ip_release subst1 s;
             Some ((True, flags, q), s)
           } else Some ((allowed, flags, IP_NULL), s)
         }
       else Some ((allowed, flags, IP_NULL), s)
     }
   }"

definition ip_label_check ::
  "kenv \<Rightarrow> ptr \<Rightarrow> ptr \<Rightarrow> mach_msg_type_name_t \<Rightarrow> 32 word \<Rightarrow> kst \<Rightarrow> ((bool \<times> 32 word \<times> ptr) \<times> kst) option" where
  "ip_label_check E space p msgt_name flags s = do {
     port \<leftarrow> ks_port s p;
     if \<not> io_is_kolabeled (ip_io_bits port) then Some ((True, flags, IP_NULL), s)
     else ipc_kobject_label_check E space p msgt_name flags s
   }"

text \<open>
  The loop of \<open>ipc_object_copyout\<close> makes room for one entry and applies the label check until neither asks
  to start again. It returns the code, the object (which a substitution replaces) and the flags.
\<close>

partial_function (option) copyout_loop ::
  "kenv \<Rightarrow> ptr \<Rightarrow> mach_msg_type_name_t \<Rightarrow> ptr \<Rightarrow> 32 word \<Rightarrow> kst \<Rightarrow> ((kern_return_t \<times> ptr \<times> 32 word) \<times> kst) option" where
  "copyout_loop E space msgt_name p flags s = do {
     sp \<leftarrow> ks_space s space;
     if \<not> is_active sp then Some ((KERN_INVALID_TASK, p, flags), s)
     else do {
       kr \<leftarrow> ipc_entries_hold sp 1;
       if kr \<noteq> KERN_SUCCESS then do {
         (kr, sp) \<leftarrow> ipc_entry_grow_table (ipc_table_entries E) (it_entries_alloc_ok E) (grow_others E) None sp;
         let s = put_space s space sp;
         if kr \<noteq> KERN_SUCCESS then Some ((kr, p, flags), s)
         else copyout_loop E space msgt_name p flags s
       } else do {
         port \<leftarrow> ks_port s p;
         if \<not> ip_active port then Some ((KERN_INVALID_CAPABILITY, p, flags), s)
         else do {
           ((ok, flags, port_subst), s) \<leftarrow> ip_label_check E space p msgt_name flags s;
           if \<not> ok then do {
             kassert (port_subst = IP_NULL);
             Some ((KERN_INVALID_CAPABILITY, p, flags), s)
           }
           else if port_subst \<noteq> IP_NULL then do {
             kassert (msgt_name = MACH_MSG_TYPE_PORT_SEND);
             if \<not> IP_VALID port_subst then Some ((KERN_INVALID_CAPABILITY, IO_DEAD, flags), s)
             else copyout_loop E space msgt_name port_subst flags s
           }
           else Some ((KERN_SUCCESS, p, flags), s)
         }
       }
     }
   }"

text \<open>The entry a capability goes to: the one that already names the port, or a new one.\<close>

definition copyout_entry ::
  "ptr \<Rightarrow> ptr \<Rightarrow> mach_msg_type_name_t \<Rightarrow> kst \<Rightarrow> ((mach_port_name_t \<times> nat) \<times> kst) option" where
  "copyout_entry space p msgt_name s = do {
     found \<leftarrow> (if msgt_name \<noteq> MACH_MSG_TYPE_PORT_SEND_ONCE then ipc_right_reverse space p s else Some None);
     case found of
       Some (name, i) \<Rightarrow> do {
         e \<leftarrow> get_entry space i s;
         kassert (ie_bits e AND MACH_PORT_TYPE_SEND_RECEIVE \<noteq> 0);
         Some ((name, i), s)
       }
     | None \<Rightarrow> do {
         sp \<leftarrow> ks_space s space;
         ((_, name, i), sp) \<leftarrow> ipc_entry_claim sp;
         e \<leftarrow> arr_get (is_table sp) i;
         kassert (\<not> ipc_right_inuse e);
         kassert (ie_object e = IO_NULL);
         s \<leftarrow> set_entry space i (e\<lparr>ie_object := p\<rparr>) (put_space s space sp);
         Some ((name, i), s)
       }
   }"

definition ith_knote_valid :: "ptr \<Rightarrow> mach_msg_type_name_t \<Rightarrow> bool" where
  "ith_knote_valid kn msgt_name \<longleftrightarrow> kn \<noteq> 0 \<and> kn \<noteq> ITH_KNOTE_PSEUDO
     \<and> (msgt_name = MACH_MSG_TYPE_PORT_RECEIVE \<or> msgt_name = MACH_MSG_TYPE_PORT_SEND_ONCE)"

definition ipc_object_copyout ::
  "kenv \<Rightarrow> ptr \<Rightarrow> ptr \<Rightarrow> mach_msg_type_name_t \<Rightarrow> 32 word \<Rightarrow> 64 word \<Rightarrow> 32 word option \<Rightarrow> kst
     \<Rightarrow> ((kern_return_t \<times> mach_port_name_t \<times> 64 word \<times> 32 word option) \<times> kst) option" where
  "ipc_object_copyout E space p msgt_name flags context guard_flags s = do {
     kassert (IO_VALID p);
     port \<leftarrow> ks_port s p;
     kassert (io_otype (ip_io_bits port) = IOT_PORT);
     let s = (if ith_knote_valid (ith_knote E) msgt_name then klog (turnstile_prepare_lazily p) s else s);
     ((kr, p, flags), s) \<leftarrow> copyout_loop E space msgt_name p flags s;
     if kr = KERN_SUCCESS then do {
       ((name, i), s) \<leftarrow> copyout_entry space p msgt_name s;
       ((kr, context, guard_flags), s) \<leftarrow> ipc_right_copyout E space name i msgt_name flags context guard_flags p s;
       Some ((kr, name, context, guard_flags), s)
     }
     else do {
       s \<leftarrow> (if IO_VALID p then ipc_object_destroy E p msgt_name s else Some s);
       Some ((kr, 0, context, guard_flags), s)
     }
   }"

definition ipc_port_copyout_send_internal ::
  "kenv \<Rightarrow> ptr \<Rightarrow> ptr \<Rightarrow> 32 word \<Rightarrow> kst \<Rightarrow> (mach_port_name_t \<times> kst) option" where
  "ipc_port_copyout_send_internal E sright space flags s =
     (if IP_VALID sright then do {
        ((kr, name, _, _), s) \<leftarrow> ipc_object_copyout E space sright MACH_MSG_TYPE_PORT_SEND flags 0 None s;
        Some (if kr \<noteq> KERN_SUCCESS
              then (if kr = KERN_INVALID_CAPABILITY then MACH_PORT_DEAD else MACH_PORT_NULL) else name, s)
      } else Some (ucast sright, s))"

definition copyout_name_fail ::
  "kern_return_t \<Rightarrow> ptr \<Rightarrow> mach_port_name_t \<Rightarrow> nat \<Rightarrow> kst \<Rightarrow> (kern_return_t \<times> kst) option" where
  "copyout_name_fail kr space name i s = do {
     e \<leftarrow> get_entry space i s;
     s \<leftarrow> (if \<not> ipc_right_inuse e then entry_dealloc space name i s else Some s);
     Some (kr, s)
   }"

definition copyout_name_right ::
  "kenv \<Rightarrow> ptr \<Rightarrow> ptr \<Rightarrow> mach_msg_type_name_t \<Rightarrow> mach_port_name_t \<Rightarrow> nat \<Rightarrow> kst \<Rightarrow> (kern_return_t \<times> kst) option" where
  "copyout_name_right E space p msgt_name name i s = do {
     sp \<leftarrow> ks_space s space;
     port \<leftarrow> ks_port s p;
     let receive = (msgt_name = MACH_MSG_TYPE_PORT_RECEIVE);
     let task_imp = (if receive \<and> is_task sp \<noteq> 0 \<and> imp_task_is_any_receiver_type E (task_imp_base E (is_task sp))
                     then task_imp_base E (is_task sp) else 0);
     let assertcnt = (if task_imp \<noteq> 0 then uint (ip_impcount port) else 0);
     let s = (if task_imp \<noteq> 0 then klog (importance_reference task_imp) s else s);
     kassert (receive \<longrightarrow> ip_tempowner port);
     let s = (if receive then put_port s p (port\<lparr>ip_tempowner := False\<rparr>) else s);
     ((kr, _, _), s) \<leftarrow> ipc_right_copyout E space name i msgt_name 0 0 None p s;
     let s = (if task_imp \<noteq> 0
              then klog (importance_release task_imp) (klog (importance_hold task_imp assertcnt) s) else s);
     Some (kr, s)
   }"

definition ipc_object_copyout_name ::
  "kenv \<Rightarrow> ptr \<Rightarrow> ptr \<Rightarrow> mach_msg_type_name_t \<Rightarrow> mach_port_name_t \<Rightarrow> kst \<Rightarrow> (kern_return_t \<times> kst) option" where
  "ipc_object_copyout_name E space p msgt_name name s = do {
     kassert (IO_VALID p);
     port \<leftarrow> ks_port s p;
     kassert (io_otype (ip_io_bits port) = IOT_PORT);
     ((kr, i), s) \<leftarrow> entry_alloc_name E space name s;
     if kr \<noteq> KERN_SUCCESS then Some (kr, s)
     else do {
       port \<leftarrow> ks_port s p;
       if \<not> ip_active port \<or> io_is_kolabeled (ip_io_bits port)
       then copyout_name_fail KERN_INVALID_CAPABILITY space name i s
       else do {
         found \<leftarrow> (if msgt_name \<noteq> MACH_MSG_TYPE_PORT_SEND_ONCE then ipc_right_reverse space p s else Some None);
         e \<leftarrow> get_entry space i s;
         case found of
           Some (oname, oi) \<Rightarrow>
             if name \<noteq> oname then copyout_name_fail KERN_RIGHT_EXISTS space name i s
             else do {
               kassert (i = oi);
               kassert (ie_bits e AND MACH_PORT_TYPE_SEND_RECEIVE \<noteq> 0);
               copyout_name_right E space p msgt_name name i s
             }
         | None \<Rightarrow>
             if ipc_right_inuse e then Some (KERN_NAME_EXISTS, s)
             else do {
               kassert (ie_object e = IO_NULL);
               s \<leftarrow> set_entry space i (e\<lparr>ie_object := p\<rparr>) s;
               copyout_name_right E space p msgt_name name i s
             }
       }
     }
   }"

definition ipc_object_copyout_dest ::
  "ptr \<Rightarrow> ptr \<Rightarrow> mach_msg_type_name_t \<Rightarrow> kst \<Rightarrow> (mach_port_name_t \<times> kst) option" where
  "ipc_object_copyout_dest space p msgt_name s = do {
     kassert (IO_VALID p);
     port \<leftarrow> ks_port s p;
     kassert (ip_active port);
     case msgt_name of
       MACH_MSG_TYPE_MOVE_SEND \<Rightarrow> do {
         let name = (if ip_receiver port = space then ip_receiver_name port else MACH_PORT_NULL);
         kassert (0 < ip_srights port);
         (ns, s) \<leftarrow> drop_sright p s;
         let s = klog (clear_sync_rcv_thread_boost p) s;
         s \<leftarrow> ip_release p (send_no_senders ns s);
         Some (name, s)
       }
     | MACH_MSG_TYPE_MOVE_SEND_ONCE \<Rightarrow> do {
         kassert (0 < ip_sorights port);
         if ip_receiver port = space then do {
           let s = put_port s p (port\<lparr>ip_sorights := ip_sorights port - 1\<rparr>);
           s \<leftarrow> ip_release p (klog (clear_sync_rcv_thread_boost p) s);
           Some (ip_receiver_name port, s)
         } else Some (MACH_PORT_NULL, ipc_notify_send_once p s)
       }
     | _ \<Rightarrow> panic
   }"

section \<open>The end of a space\<close>

text \<open>
  Both routines wait while another thread grows the table; a wait that nobody ends is \<open>None\<close>.
  \<open>first_inuse\<close> is the index the scan of \<open>ipc_space_clean\<close> stops at.
\<close>

fun first_inuse :: "nat \<Rightarrow> ipc_table \<Rightarrow> nat option" where
  "first_inuse index [] = None"
| "first_inuse index (entry # table) =
     (if IE_BITS_TYPE (ie_bits entry) \<noteq> MACH_PORT_TYPE_NONE then Some index
      else first_inuse (index + 1) table)"

partial_function (option) ipc_space_clean :: "kenv \<Rightarrow> ptr \<Rightarrow> kst \<Rightarrow> kst option" where
  "ipc_space_clean E space s = do {
     sp \<leftarrow> ks_space s space;
     kassert (\<not> is_growing sp);
     if \<not> is_active sp then Some s
     else case first_inuse 0 (take (is_table_size sp) (is_table sp)) of
         None \<Rightarrow> Some s
       | Some index \<Rightarrow> do {
           entry \<leftarrow> arr_get (is_table sp) index;
           let name = MACH_PORT_MAKE index (IE_BITS_GEN (ie_bits entry));
           (_, s) \<leftarrow> ipc_right_destroy E space name index False 0 s;
           ipc_space_clean E space s
         }
   }"

fun terminate_entries :: "kenv \<Rightarrow> ptr \<Rightarrow> nat list \<Rightarrow> kst \<Rightarrow> kst option" where
  "terminate_entries E space [] s = Some s"
| "terminate_entries E space (index # indices) s = do {
     entry \<leftarrow> get_entry space index s;
     s \<leftarrow> (if IE_BITS_TYPE (ie_bits entry) \<noteq> MACH_PORT_TYPE_NONE
           then ipc_right_terminate E space (MACH_PORT_MAKE index (IE_BITS_GEN (ie_bits entry))) index s
           else Some s);
     terminate_entries E space indices s
   }"

definition ipc_space_terminate :: "kenv \<Rightarrow> ptr \<Rightarrow> kst \<Rightarrow> kst option" where
  "ipc_space_terminate E space s = do {
     kassert (space \<noteq> 0);
     sp \<leftarrow> ks_space s space;
     if \<not> is_active sp then Some s
     else do {
       sp \<leftarrow> is_mark_inactive sp;
       kassert (\<not> is_growing sp);
       s \<leftarrow> terminate_entries E space [0..<is_table_size sp] (put_space s space sp);
       sp \<leftarrow> ks_space s space;
       sp' \<leftarrow> is_release (sp\<lparr>is_table := [], is_table_size := 0, is_table_free := 0\<rparr>);
       Some (s\<lparr>ks_space := (ks_space s)(space := sp')\<rparr>)
     }
   }"

end
