(* ===== verification/Mach_Port.thy ===== *)
theory Mach_Port
  imports Ipc_Object
begin

text \<open>
  The exported port calls (\<open>osfmk/ipc/mach_port.c\<close>), on top of the routines on capabilities, objects and
  ports, with the creation of port sets (\<open>osfmk/ipc/ipc_pset.c\<close>) and the two settings of a message
  queue that the calls use (\<open>osfmk/ipc/ipc_mqueue.c\<close>). A call that returns something besides its code
  returns a pair; an out parameter the C code leaves alone is 0 or \<open>None\<close>. The space argument is the
  address of the space, 0 for \<open>IS_NULL\<close>. The calls on set membership and on the queued messages are
  not modelled.
\<close>

section \<open>Helpers\<close>

definition ipc_port_translate_receive ::
  "ptr \<Rightarrow> mach_port_name_t \<Rightarrow> kst \<Rightarrow> (kern_return_t \<times> ptr) option" where
  "ipc_port_translate_receive space name s = ipc_object_translate space name MACH_PORT_RIGHT_RECEIVE s"

definition ipc_pset_alloc ::
  "kenv \<Rightarrow> ptr \<Rightarrow> ptr \<Rightarrow> kst \<Rightarrow> ((kern_return_t \<times> mach_port_name_t \<times> ptr) \<times> kst) option" where
  "ipc_pset_alloc E obj space s = do {
     ((kr, name, pset), s) \<leftarrow> ipc_object_alloc E obj space IOT_PORT_SET MACH_PORT_TYPE_PORT_SET 0 s;
     if kr \<noteq> KERN_SUCCESS then Some ((kr, 0, 0), s) else Some ((KERN_SUCCESS, name, pset), s)
   }"

definition ipc_pset_alloc_name ::
  "kenv \<Rightarrow> ptr \<Rightarrow> ptr \<Rightarrow> mach_port_name_t \<Rightarrow> kst \<Rightarrow> ((kern_return_t \<times> ptr) \<times> kst) option" where
  "ipc_pset_alloc_name E obj space name s = do {
     ((kr, pset), s) \<leftarrow> ipc_object_alloc_name E obj space IOT_PORT_SET MACH_PORT_TYPE_PORT_SET 0 name s;
     if kr \<noteq> KERN_SUCCESS then Some ((kr, 0), s) else Some ((KERN_SUCCESS, pset), s)
   }"

definition ipc_pset_alloc_special :: "ptr \<Rightarrow> kst \<Rightarrow> ptr \<times> kst" where
  "ipc_pset_alloc_special obj s =
     (if obj = 0 then (0, s)
      else (obj, put_pset s obj \<lparr>ips_bits = io_makebits True IOT_PORT_SET 0, ips_references = 1\<rparr>))"

definition MACH_PORT_QLIMIT_MAX :: "32 word" where
  "MACH_PORT_QLIMIT_MAX = 1024"

text \<open>
  Raising the limit of a queue wakes senders: each one that waits takes one of the new slots, until the
  slots or the waiting threads run out.
\<close>

fun qlimit_wakeup :: "nat \<Rightarrow> nat \<Rightarrow> 16 word \<Rightarrow> 16 word" where
  "qlimit_wakeup 0 waiters msgcount = msgcount"
| "qlimit_wakeup (Suc n) waiters msgcount =
     (case waiters of 0 \<Rightarrow> msgcount | Suc w \<Rightarrow> qlimit_wakeup n w (msgcount + 1))"

definition ipc_mqueue_set_qlimit :: "kenv \<Rightarrow> ptr \<Rightarrow> 32 word \<Rightarrow> kst \<Rightarrow> kst option" where
  "ipc_mqueue_set_qlimit E p qlimit s = do {
     kassert (qlimit \<le> MACH_PORT_QLIMIT_MAX);
     port \<leftarrow> ks_port s p;
     let (port, s) =
       (if ucast (ip_qlimit port) < qlimit
        then let n = unat (qlimit - ucast (ip_qlimit port)) in
          (port\<lparr>ip_msgcount := qlimit_wakeup n (send_waiters E p) (ip_msgcount port)\<rparr>,
           klog (senders_wakeup p (min n (send_waiters E p))) s)
        else (port, s));
     Some (put_port s p (port\<lparr>ip_qlimit := ucast qlimit\<rparr>))
   }"

definition ipc_mqueue_set_seqno :: "ptr \<Rightarrow> 32 word \<Rightarrow> kst \<Rightarrow> kst option" where
  "ipc_mqueue_set_seqno p seqno s = do {
     port \<leftarrow> ks_port s p;
     Some (put_port s p (port\<lparr>ip_seqno := seqno\<rparr>))
   }"

section \<open>Names and types\<close>

definition ip_timestamp :: "ipc_port \<Rightarrow> 32 word" where
  "ip_timestamp port = ucast (ip_data port)"

definition IP_TIMESTAMP_ORDER :: "32 word \<Rightarrow> 32 word \<Rightarrow> bool" where
  "IP_TIMESTAMP_ORDER one two \<longleftrightarrow> sint (one - two) < 0"

definition mach_port_names_helper ::
  "32 word \<Rightarrow> ipc_entry \<Rightarrow> mach_port_name_t \<Rightarrow> kst \<Rightarrow> (mach_port_name_t \<times> 32 word) option" where
  "mach_port_names_helper timestamp e name s = do {
     let bits = ie_bits e;
     let request = ie_request e;
     let p = ie_object e;
     if bits AND MACH_PORT_TYPE_RECEIVE \<noteq> 0 then do {
       kassert (IP_VALID p);
       type \<leftarrow> (if request \<noteq> IE_REQ_NONE then do {
                 port \<leftarrow> ks_port s p;
                 require_ip_active port;
                 ipc_port_request_type port name request
               } else Some 0);
       Some (name, type OR IE_BITS_TYPE bits)
     }
     else if bits AND MACH_PORT_TYPE_SEND_RIGHTS \<noteq> 0 then do {
       kassert (IP_VALID p);
       port \<leftarrow> ks_port s p;
       reqtype \<leftarrow> (if request \<noteq> IE_REQ_NONE then ipc_port_request_type port name request else Some 0);
       if ip_active port \<or> IP_TIMESTAMP_ORDER timestamp (ip_timestamp port)
       then Some (name, reqtype OR IE_BITS_TYPE bits)
       else do {
         let bits = (bits AND NOT IE_BITS_TYPE_MASK) OR MACH_PORT_TYPE_DEAD_NAME;
         let bits = (if reqtype \<noteq> 0 then bits + 1 else bits);
         Some (name, IE_BITS_TYPE bits)
       }
     }
     else Some (name, IE_BITS_TYPE bits)
   }"

text \<open>
  The first loop of \<open>mach_port_names\<close>: without the lock it allocates room for the names of a table of the size it saw,
  takes the lock again and looks whether the table still fits. \<open>mem_ok\<close> tells whether memory of a size
  can be had and wired, \<open>others k\<close> what other threads do while the lock is dropped for the \<open>k\<close>-th time.
\<close>

definition vm_map_round_page :: "nat \<Rightarrow> nat \<Rightarrow> nat" where
  "vm_map_round_page page x = (x + (page - 1)) div page * page"

partial_function (option) names_buffer ::
  "nat \<Rightarrow> (nat \<Rightarrow> bool) \<Rightarrow> (nat \<Rightarrow> kst \<Rightarrow> kst) \<Rightarrow> ptr \<Rightarrow> nat \<Rightarrow> nat \<Rightarrow> kst \<Rightarrow> (kern_return_t \<times> kst) option" where
  "names_buffer page mem_ok others space k sz s = do {
     sp \<leftarrow> ks_space s space;
     if \<not> is_active sp then Some (KERN_INVALID_TASK, s)
     else do {
       let size_needed = vm_map_round_page page (is_table_size sp * 4);
       if size_needed \<le> sz then Some (KERN_SUCCESS, s)
       else if \<not> mem_ok size_needed then Some (KERN_RESOURCE_SHORTAGE, s)
       else names_buffer page mem_ok others space (k + 1) size_needed (others k s)
     }
   }"

fun names_scan :: "32 word \<Rightarrow> nat \<Rightarrow> ipc_table \<Rightarrow> kst \<Rightarrow> (mach_port_name_t \<times> 32 word) list option" where
  "names_scan timestamp index [] s = Some []"
| "names_scan timestamp index (e # table) s =
     (if IE_BITS_TYPE (ie_bits e) \<noteq> MACH_PORT_TYPE_NONE then do {
        x \<leftarrow> mach_port_names_helper timestamp e (MACH_PORT_MAKE index (IE_BITS_GEN (ie_bits e))) s;
        xs \<leftarrow> names_scan timestamp (index + 1) table s;
        Some (x # xs)
      } else names_scan timestamp (index + 1) table s)"

definition mach_port_names ::
  "nat \<Rightarrow> (nat \<Rightarrow> bool) \<Rightarrow> (nat \<Rightarrow> kst \<Rightarrow> kst) \<Rightarrow> ptr \<Rightarrow> kst
     \<Rightarrow> ((kern_return_t \<times> (mach_port_name_t \<times> 32 word) list) \<times> kst) option" where
  "mach_port_names page mem_ok others space s =
     (if space = 0 then Some ((KERN_INVALID_TASK, []), s)
      else do {
        (kr, s) \<leftarrow> names_buffer page mem_ok others space 0 0 s;
        if kr \<noteq> KERN_SUCCESS then Some ((kr, []), s)
        else do {
          let (timestamp, s) = ipc_port_timestamp s;
          sp \<leftarrow> ks_space s space;
          kassert (is_table_size sp \<le> length (is_table sp));
          xs \<leftarrow> names_scan timestamp 0 (take (is_table_size sp) (is_table sp)) s;
          Some ((KERN_SUCCESS, xs), s)
        }
      })"

definition mach_port_type :: "ptr \<Rightarrow> mach_port_name_t \<Rightarrow> kst \<Rightarrow> ((kern_return_t \<times> 32 word) \<times> kst) option" where
  "mach_port_type space name s =
     (if space = 0 then Some ((KERN_INVALID_TASK, 0), s)
      else if name = MACH_PORT_NULL then Some ((KERN_INVALID_NAME, 0), s)
      else if name = MACH_PORT_DEAD then Some ((KERN_SUCCESS, MACH_PORT_TYPE_DEAD_NAME), s)
      else do {
        (kr, i) \<leftarrow> ipc_right_lookup_write space name s;
        if kr \<noteq> KERN_SUCCESS then Some ((kr, 0), s)
        else do {
          ((type, urefs), s) \<leftarrow> ipc_right_info space name i s;
          Some ((KERN_SUCCESS, type AND NOT (MACH_PORT_TYPE_SPREQUEST OR MACH_PORT_TYPE_SPREQUEST_DELAYED)), s)
        }
      })"

definition mach_port_rename :: "ptr \<Rightarrow> mach_port_name_t \<Rightarrow> mach_port_name_t \<Rightarrow> kern_return_t" where
  "mach_port_rename space oname nname = KERN_NOT_SUPPORTED"

section \<open>Allocation\<close>

record mach_port_qos_t =
  qos_name :: bool
  qos_prealloc :: bool
  qos_len :: "32 word"

definition qos_template :: mach_port_qos_t where
  "qos_template = \<lparr>qos_name = False, qos_prealloc = False, qos_len = 0\<rparr>"

definition MAX_TRAILER_SIZE :: "32 word" where
  "MAX_TRAILER_SIZE = 68"

definition MACH_MSG_SIZE_MAX :: "32 word" where
  "MACH_MSG_SIZE_MAX = NOT 0"

definition ipc_kmsg_set_prealloc :: "ptr \<Rightarrow> ptr \<Rightarrow> kst \<Rightarrow> kst option" where
  "ipc_kmsg_set_prealloc kmsg p s = do {
     port \<leftarrow> ks_port s p;
     Some (put_port s p (port\<lparr>ip_io_bits := ip_io_bits port OR IP_BIT_PREALLOC, ip_premsg := kmsg\<rparr>))
   }"

definition allocate_prealloc :: "kenv \<Rightarrow> mach_port_qos_t \<Rightarrow> (kern_return_t \<times> ptr) option" where
  "allocate_prealloc E qos =
     (if qos_prealloc qos
      then if ikm_saved_msg_size E - MAX_TRAILER_SIZE < qos_len qos then panic
        else let kmsg = ipc_kmsg_prealloc E (qos_len qos + MAX_TRAILER_SIZE) in
          Some (if kmsg = 0 then KERN_RESOURCE_SHORTAGE else KERN_SUCCESS, kmsg)
      else Some (KERN_SUCCESS, 0))"

definition allocate_receive ::
  "kenv \<Rightarrow> ptr \<Rightarrow> ptr \<Rightarrow> mach_port_qos_t \<Rightarrow> mach_port_name_t \<Rightarrow> kst
     \<Rightarrow> ((kern_return_t \<times> mach_port_name_t) \<times> kst) option" where
  "allocate_receive E obj space qos name s = do {
     (kr, kmsg) \<leftarrow> allocate_prealloc E qos;
     if kr \<noteq> KERN_SUCCESS then Some ((kr, name), s)
     else do {
       ((kr, name, p), s) \<leftarrow>
         (if qos_name qos then do {
            ((kr, p), s) \<leftarrow> ipc_port_alloc_name E obj space IPC_PORT_INIT_MESSAGE_QUEUE name s;
            Some ((kr, name, p), s)
          } else do {
            ((kr, new, p), s) \<leftarrow> ipc_port_alloc E obj space IPC_PORT_INIT_MESSAGE_QUEUE s;
            Some ((kr, if kr = KERN_SUCCESS then new else name, p), s)
          });
       if kr = KERN_SUCCESS then do {
         s \<leftarrow> (if kmsg \<noteq> 0 then ipc_kmsg_set_prealloc kmsg p s else Some s);
         Some ((KERN_SUCCESS, name), s)
       }
       else Some ((kr, name), if kmsg \<noteq> 0 then klog (kmsg_free kmsg) s else s)
     }
   }"

definition allocate_port_set ::
  "kenv \<Rightarrow> ptr \<Rightarrow> ptr \<Rightarrow> mach_port_qos_t \<Rightarrow> mach_port_name_t \<Rightarrow> kst
     \<Rightarrow> ((kern_return_t \<times> mach_port_name_t) \<times> kst) option" where
  "allocate_port_set E obj space qos name s =
     (if qos_name qos then do {
        ((kr, p), s) \<leftarrow> ipc_pset_alloc_name E obj space name s;
        Some ((kr, name), s)
      } else do {
        ((kr, new, p), s) \<leftarrow> ipc_pset_alloc E obj space s;
        Some ((kr, if kr = KERN_SUCCESS then new else name), s)
      })"

text \<open>The name is passed in and, as in the code, is the name of the new right on return.\<close>

definition mach_port_allocate_internal ::
  "kenv \<Rightarrow> ptr \<Rightarrow> ptr \<Rightarrow> mach_port_right_t \<Rightarrow> mach_port_qos_t \<Rightarrow> mach_port_name_t \<Rightarrow> kst
     \<Rightarrow> ((kern_return_t \<times> mach_port_name_t) \<times> kst) option" where
  "mach_port_allocate_internal E obj space right qos name s = do {
     kassert (space \<noteq> 0);
     case right of
       MACH_PORT_RIGHT_RECEIVE \<Rightarrow> allocate_receive E obj space qos name s
     | MACH_PORT_RIGHT_PORT_SET \<Rightarrow> allocate_port_set E obj space qos name s
     | MACH_PORT_RIGHT_DEAD_NAME \<Rightarrow> do {
         ((kr, new), s) \<leftarrow> ipc_object_alloc_dead E space s;
         Some ((kr, if kr = KERN_SUCCESS then new else name), s)
       }
     | _ \<Rightarrow> Some ((KERN_INVALID_VALUE, name), s)
   }"

definition mach_port_allocate_full ::
  "kenv \<Rightarrow> ptr \<Rightarrow> ptr \<Rightarrow> mach_port_right_t \<Rightarrow> ptr \<Rightarrow> mach_port_qos_t \<Rightarrow> mach_port_name_t \<Rightarrow> kst
     \<Rightarrow> ((kern_return_t \<times> mach_port_name_t) \<times> kst) option" where
  "mach_port_allocate_full E obj space right proto qos name s =
     (if space = 0 then Some ((KERN_INVALID_TASK, name), s)
      else if proto \<noteq> 0 then Some ((KERN_INVALID_VALUE, name), s)
      else if qos_name qos \<and> \<not> MACH_PORT_VALID name then Some ((KERN_INVALID_VALUE, name), s)
      else if qos_prealloc qos \<and> MACH_MSG_SIZE_MAX - MAX_TRAILER_SIZE < qos_len qos
        then Some ((KERN_RESOURCE_SHORTAGE, name), s)
      else if qos_prealloc qos \<and> right \<noteq> MACH_PORT_RIGHT_RECEIVE then Some ((KERN_INVALID_VALUE, name), s)
      else mach_port_allocate_internal E obj space right (qos\<lparr>qos_prealloc := False\<rparr>) name s)"

definition mach_port_allocate_name ::
  "kenv \<Rightarrow> ptr \<Rightarrow> ptr \<Rightarrow> mach_port_right_t \<Rightarrow> mach_port_name_t \<Rightarrow> kst \<Rightarrow> (kern_return_t \<times> kst) option" where
  "mach_port_allocate_name E obj space right name s =
     (if \<not> MACH_PORT_VALID name then Some (KERN_INVALID_VALUE, s)
      else do {
        ((kr, _), s) \<leftarrow> mach_port_allocate_full E obj space right 0 (qos_template\<lparr>qos_name := True\<rparr>) name s;
        Some (kr, s)
      })"

definition mach_port_allocate ::
  "kenv \<Rightarrow> ptr \<Rightarrow> ptr \<Rightarrow> mach_port_right_t \<Rightarrow> mach_port_name_t \<Rightarrow> kst
     \<Rightarrow> ((kern_return_t \<times> mach_port_name_t) \<times> kst) option" where
  "mach_port_allocate E obj space right name s =
     mach_port_allocate_full E obj space right 0 qos_template name s"

definition mach_port_allocate_qos ::
  "kenv \<Rightarrow> ptr \<Rightarrow> ptr \<Rightarrow> mach_port_right_t \<Rightarrow> mach_port_qos_t \<Rightarrow> mach_port_name_t \<Rightarrow> kst
     \<Rightarrow> ((kern_return_t \<times> mach_port_name_t) \<times> kst) option" where
  "mach_port_allocate_qos E obj space right qos name s =
     (if qos_name qos then Some ((KERN_INVALID_ARGUMENT, name), s)
      else mach_port_allocate_full E obj space right 0 qos name s)"

section \<open>User references\<close>

definition mach_port_destroy :: "kenv \<Rightarrow> ptr \<Rightarrow> mach_port_name_t \<Rightarrow> kst \<Rightarrow> (kern_return_t \<times> kst) option" where
  "mach_port_destroy E space name s =
     (if space = 0 then Some (KERN_INVALID_TASK, s)
      else if \<not> MACH_PORT_VALID name then Some (KERN_SUCCESS, s)
      else do {
        (kr, i) \<leftarrow> ipc_right_lookup_write space name s;
        if kr \<noteq> KERN_SUCCESS then Some (kr, mach_port_guard_exception name 0 0 kGUARD_EXC_INVALID_NAME s)
        else ipc_right_destroy E space name i True 0 s
      })"

definition mach_port_deallocate :: "kenv \<Rightarrow> ptr \<Rightarrow> mach_port_name_t \<Rightarrow> kst \<Rightarrow> (kern_return_t \<times> kst) option" where
  "mach_port_deallocate E space name s =
     (if space = 0 then Some (KERN_INVALID_TASK, s)
      else if \<not> MACH_PORT_VALID name then Some (KERN_SUCCESS, s)
      else do {
        (kr, i) \<leftarrow> ipc_right_lookup_write space name s;
        if kr \<noteq> KERN_SUCCESS then Some (kr, mach_port_guard_exception name 0 0 kGUARD_EXC_INVALID_NAME s)
        else ipc_right_dealloc E space name i s
      })"

definition mach_port_get_refs ::
  "ptr \<Rightarrow> mach_port_name_t \<Rightarrow> mach_port_right_t \<Rightarrow> kst \<Rightarrow> ((kern_return_t \<times> 32 word) \<times> kst) option" where
  "mach_port_get_refs space name right s =
     (if space = 0 then Some ((KERN_INVALID_TASK, 0), s)
      else if 6 \<le> right_number right then Some ((KERN_INVALID_VALUE, 0), s)
      else if \<not> MACH_PORT_VALID name then
        Some (if right = MACH_PORT_RIGHT_SEND \<or> right = MACH_PORT_RIGHT_SEND_ONCE
              then (KERN_SUCCESS, 1) else (KERN_INVALID_NAME, 0), s)
      else do {
        (kr, i) \<leftarrow> ipc_right_lookup_write space name s;
        if kr \<noteq> KERN_SUCCESS then Some ((kr, 0), s)
        else do {
          ((type, urefs), s) \<leftarrow> ipc_right_info space name i s;
          if type AND MACH_PORT_TYPE right \<noteq> 0 then
            (case right of
               MACH_PORT_RIGHT_SEND_ONCE \<Rightarrow> do { kassert (urefs = 1); Some ((KERN_SUCCESS, 1), s) }
             | MACH_PORT_RIGHT_PORT_SET \<Rightarrow> Some ((KERN_SUCCESS, 1), s)
             | MACH_PORT_RIGHT_RECEIVE \<Rightarrow> Some ((KERN_SUCCESS, 1), s)
             | MACH_PORT_RIGHT_DEAD_NAME \<Rightarrow> do { kassert (0 < urefs); Some ((KERN_SUCCESS, urefs), s) }
             | MACH_PORT_RIGHT_SEND \<Rightarrow> do { kassert (0 < urefs); Some ((KERN_SUCCESS, urefs), s) }
             | _ \<Rightarrow> panic)
          else Some ((KERN_SUCCESS, 0), s)
        }
      })"

definition mach_port_mod_refs ::
  "kenv \<Rightarrow> ptr \<Rightarrow> mach_port_name_t \<Rightarrow> mach_port_right_t \<Rightarrow> 32 word \<Rightarrow> kst \<Rightarrow> (kern_return_t \<times> kst) option" where
  "mach_port_mod_refs E space name right delta s =
     (if space = 0 then Some (KERN_INVALID_TASK, s)
      else if 6 \<le> right_number right then Some (KERN_INVALID_VALUE, s)
      else if \<not> MACH_PORT_VALID name then
        Some (if right = MACH_PORT_RIGHT_SEND \<or> right = MACH_PORT_RIGHT_SEND_ONCE
              then KERN_SUCCESS else KERN_INVALID_NAME, s)
      else do {
        (kr, i) \<leftarrow> ipc_right_lookup_write space name s;
        if kr \<noteq> KERN_SUCCESS then Some (kr, mach_port_guard_exception name 0 0 kGUARD_EXC_INVALID_NAME s)
        else ipc_right_delta E space name i right delta s
      })"

section \<open>Settings of a receive right\<close>

definition mach_port_set_mscount ::
  "ptr \<Rightarrow> mach_port_name_t \<Rightarrow> 32 word \<Rightarrow> kst \<Rightarrow> (kern_return_t \<times> kst) option" where
  "mach_port_set_mscount space name mscount s =
     (if space = 0 then Some (KERN_INVALID_TASK, s)
      else if \<not> MACH_PORT_VALID name then Some (KERN_INVALID_RIGHT, s)
      else do {
        (kr, p) \<leftarrow> ipc_port_translate_receive space name s;
        if kr \<noteq> KERN_SUCCESS then Some (kr, s)
        else do {
          port \<leftarrow> ks_port s p;
          Some (KERN_SUCCESS, put_port s p (port\<lparr>ip_mscount := mscount\<rparr>))
        }
      })"

definition mach_port_set_seqno ::
  "ptr \<Rightarrow> mach_port_name_t \<Rightarrow> 32 word \<Rightarrow> kst \<Rightarrow> (kern_return_t \<times> kst) option" where
  "mach_port_set_seqno space name seqno s =
     (if space = 0 then Some (KERN_INVALID_TASK, s)
      else if \<not> MACH_PORT_VALID name then Some (KERN_INVALID_RIGHT, s)
      else do {
        (kr, p) \<leftarrow> ipc_port_translate_receive space name s;
        if kr \<noteq> KERN_SUCCESS then Some (kr, s)
        else do {
          s \<leftarrow> ipc_mqueue_set_seqno p seqno s;
          Some (KERN_SUCCESS, s)
        }
      })"

definition mach_port_get_context ::
  "ptr \<Rightarrow> mach_port_name_t \<Rightarrow> kst \<Rightarrow> (kern_return_t \<times> 64 word) option" where
  "mach_port_get_context space name s =
     (if space = 0 then Some (KERN_INVALID_TASK, 0)
      else if \<not> MACH_PORT_VALID name then Some (KERN_INVALID_RIGHT, 0)
      else do {
        (kr, p) \<leftarrow> ipc_port_translate_receive space name s;
        if kr \<noteq> KERN_SUCCESS then Some (kr, 0)
        else do {
          port \<leftarrow> ks_port s p;
          Some (KERN_SUCCESS, if ip_strict_guard port then 0 else ip_context port)
        }
      })"

definition mach_port_set_context ::
  "ptr \<Rightarrow> mach_port_name_t \<Rightarrow> 64 word \<Rightarrow> kst \<Rightarrow> (kern_return_t \<times> kst) option" where
  "mach_port_set_context space name context s =
     (if space = 0 then Some (KERN_INVALID_TASK, s)
      else if \<not> MACH_PORT_VALID name then Some (KERN_INVALID_RIGHT, s)
      else do {
        (kr, p) \<leftarrow> ipc_port_translate_receive space name s;
        if kr \<noteq> KERN_SUCCESS then Some (kr, s)
        else do {
          port \<leftarrow> ks_port s p;
          if ip_strict_guard port
          then Some (KERN_INVALID_ARGUMENT,
                     mach_port_guard_exception name context (ip_context port) kGUARD_EXC_SET_CONTEXT s)
          else Some (KERN_SUCCESS, put_port s p (port\<lparr>ip_context := context\<rparr>))
        }
      })"

section \<open>Notifications\<close>

datatype mach_msg_id_t =
    MACH_NOTIFY_PORT_DESTROYED | MACH_NOTIFY_NO_SENDERS | MACH_NOTIFY_SEND_POSSIBLE | MACH_NOTIFY_DEAD_NAME
  | MACH_MSG_ID_OTHER int

definition request_port_destroyed ::
  "ptr \<Rightarrow> mach_port_name_t \<Rightarrow> 32 word \<Rightarrow> ptr \<Rightarrow> kst \<Rightarrow> ((kern_return_t \<times> ptr) \<times> kst) option" where
  "request_port_destroyed space name sync notify s =
     (if sync \<noteq> 0 then Some ((KERN_INVALID_VALUE, 0), s)
      else if \<not> MACH_PORT_VALID name then Some ((KERN_INVALID_RIGHT, 0), s)
      else do {
        (kr, p) \<leftarrow> ipc_port_translate_receive space name s;
        if kr \<noteq> KERN_SUCCESS then Some ((kr, 0), s)
        else do {
          port \<leftarrow> ks_port s p;
          if io_is_kobject (ip_io_bits port) \<or> io_is_kolabeled (ip_io_bits port) \<or> ip_specialreply port
          then Some ((KERN_INVALID_RIGHT, 0), s)
          else if ip_pdrequest port \<noteq> IP_NULL
          then Some ((KERN_FAILURE, 0), mach_port_guard_exception name 0 0 kGUARD_EXC_KERN_FAILURE s)
          else do {
            (previous, s) \<leftarrow> ipc_port_pdrequest p notify s;
            kassert (previous = IP_NULL);
            Some ((KERN_SUCCESS, previous), s)
          }
        }
      })"

definition request_no_senders ::
  "ptr \<Rightarrow> mach_port_name_t \<Rightarrow> 32 word \<Rightarrow> ptr \<Rightarrow> kst \<Rightarrow> ((kern_return_t \<times> ptr) \<times> kst) option" where
  "request_no_senders space name sync notify s =
     (if \<not> MACH_PORT_VALID name then Some ((KERN_INVALID_RIGHT, 0), s)
      else do {
        (kr, p) \<leftarrow> ipc_port_translate_receive space name s;
        if kr \<noteq> KERN_SUCCESS then Some ((kr, 0), s)
        else do {
          (previous, s) \<leftarrow> ipc_port_nsrequest p sync notify s;
          Some ((KERN_SUCCESS, previous), s)
        }
      })"

definition mach_port_request_notification ::
  "kenv \<Rightarrow> (nat \<Rightarrow> kst \<Rightarrow> kst) \<Rightarrow> ptr \<Rightarrow> mach_port_name_t \<Rightarrow> mach_msg_id_t \<Rightarrow> 32 word \<Rightarrow> ptr \<Rightarrow> kst
     \<Rightarrow> ((kern_return_t \<times> ptr) \<times> kst) option" where
  "mach_port_request_notification E others space name mid sync notify s =
     (if space = 0 then Some ((KERN_INVALID_TASK, 0), s)
      else if notify = IP_DEAD then Some ((KERN_INVALID_CAPABILITY, 0), s)
      else case mid of
          MACH_NOTIFY_PORT_DESTROYED \<Rightarrow> request_port_destroyed space name sync notify s
        | MACH_NOTIFY_NO_SENDERS \<Rightarrow> request_no_senders space name sync notify s
        | MACH_NOTIFY_SEND_POSSIBLE \<Rightarrow>
            if \<not> MACH_PORT_VALID name then Some ((KERN_INVALID_ARGUMENT, 0), s)
            else ipc_right_request_alloc E others space name (sync \<noteq> 0) True notify 0 s
        | MACH_NOTIFY_DEAD_NAME \<Rightarrow>
            if \<not> MACH_PORT_VALID name then Some ((KERN_INVALID_ARGUMENT, 0), s)
            else ipc_right_request_alloc E others space name (sync \<noteq> 0) False notify 0 s
        | MACH_MSG_ID_OTHER n \<Rightarrow> Some ((KERN_INVALID_VALUE, 0), s))"

section \<open>Insertion and extraction of rights\<close>

definition MACH_MSG_TYPE_PORT_ANY :: "mach_msg_type_name_t \<Rightarrow> bool" where
  "MACH_MSG_TYPE_PORT_ANY x \<longleftrightarrow> x = MACH_MSG_TYPE_MOVE_RECEIVE \<or> MACH_MSG_TYPE_PORT_ANY_SEND x"

definition MACH_MSG_TYPE_PORT_ANY_RIGHT :: "mach_msg_type_name_t \<Rightarrow> bool" where
  "MACH_MSG_TYPE_PORT_ANY_RIGHT x \<longleftrightarrow>
     x \<in> {MACH_MSG_TYPE_MOVE_RECEIVE, MACH_MSG_TYPE_MOVE_SEND, MACH_MSG_TYPE_MOVE_SEND_ONCE}"

definition mach_port_insert_right ::
  "kenv \<Rightarrow> ptr \<Rightarrow> mach_port_name_t \<Rightarrow> ptr \<Rightarrow> mach_msg_type_name_t \<Rightarrow> kst \<Rightarrow> (kern_return_t \<times> kst) option" where
  "mach_port_insert_right E space name poly polyPoly s =
     (if space = 0 then Some (KERN_INVALID_TASK, s)
      else if \<not> MACH_PORT_VALID name \<or> \<not> MACH_MSG_TYPE_PORT_ANY_RIGHT polyPoly then Some (KERN_INVALID_VALUE, s)
      else if \<not> IP_VALID poly then Some (KERN_INVALID_CAPABILITY, s)
      else ipc_object_copyout_name E space poly polyPoly name s)"

definition mach_port_extract_right ::
  "kenv \<Rightarrow> ptr \<Rightarrow> mach_port_name_t \<Rightarrow> mach_msg_type_name_t \<Rightarrow> kst
     \<Rightarrow> ((kern_return_t \<times> ptr \<times> mach_msg_type_name_t) \<times> kst) option" where
  "mach_port_extract_right E space name msgt_name s =
     (if space = 0 then Some ((KERN_INVALID_TASK, 0, MACH_MSG_TYPE_PORT_NONE), s)
      else if \<not> MACH_MSG_TYPE_PORT_ANY msgt_name then Some ((KERN_INVALID_VALUE, 0, MACH_MSG_TYPE_PORT_NONE), s)
      else if \<not> MACH_PORT_VALID name then Some ((KERN_INVALID_RIGHT, 0, MACH_MSG_TYPE_PORT_NONE), s)
      else do {
        ((kr, poly, _), s) \<leftarrow> ipc_object_copyin E space name msgt_name 0 None
           (if space = current_space E \<and> msgt_name = MACH_MSG_TYPE_COPY_SEND
            then IPC_OBJECT_COPYIN_FLAGS_ALLOW_IMMOVABLE_SEND
            else IPC_OBJECT_COPYIN_FLAGS_SOFT_FAIL_IMMOVABLE_SEND) s;
        Some ((kr, poly, if kr = KERN_SUCCESS then ipc_object_copyin_type msgt_name else MACH_MSG_TYPE_PORT_NONE), s)
      })"

section \<open>Attributes\<close>

record mach_port_status_t =
  mps_pset :: bool
  mps_seqno :: "32 word"
  mps_mscount :: "32 word"
  mps_qlimit :: "32 word"
  mps_msgcount :: "32 word"
  mps_sorights :: "32 word"
  mps_srights :: bool
  mps_pdrequest :: bool
  mps_nsrequest :: bool
  mps_flags :: "32 word"

definition MACH_PORT_STATUS_FLAG_TEMPOWNER :: "32 word" where
  "MACH_PORT_STATUS_FLAG_TEMPOWNER = 0x01"

definition MACH_PORT_STATUS_FLAG_GUARDED :: "32 word" where
  "MACH_PORT_STATUS_FLAG_GUARDED = 0x02"

definition MACH_PORT_STATUS_FLAG_STRICT_GUARD :: "32 word" where
  "MACH_PORT_STATUS_FLAG_STRICT_GUARD = 0x04"

definition MACH_PORT_STATUS_FLAG_IMP_DONATION :: "32 word" where
  "MACH_PORT_STATUS_FLAG_IMP_DONATION = 0x08"

definition MACH_PORT_STATUS_FLAG_TASKPTR :: "32 word" where
  "MACH_PORT_STATUS_FLAG_TASKPTR = 0x20"

definition MACH_PORT_STATUS_FLAG_GUARD_IMMOVABLE_RECEIVE :: "32 word" where
  "MACH_PORT_STATUS_FLAG_GUARD_IMMOVABLE_RECEIVE = 0x40"

definition MACH_PORT_STATUS_FLAG_NO_GRANT :: "32 word" where
  "MACH_PORT_STATUS_FLAG_NO_GRANT = 0x80"

definition status_flags :: "ipc_port \<Rightarrow> 32 word" where
  "status_flags port =
     (if ip_impdonation port
      then MACH_PORT_STATUS_FLAG_IMP_DONATION OR
        (if ip_tempowner port
         then MACH_PORT_STATUS_FLAG_TEMPOWNER OR (if ip_imp_task port \<noteq> 0 then MACH_PORT_STATUS_FLAG_TASKPTR else 0)
         else 0)
      else 0) OR
     (if ip_guarded port
      then MACH_PORT_STATUS_FLAG_GUARDED OR
        (if ip_strict_guard port then MACH_PORT_STATUS_FLAG_STRICT_GUARD else 0) OR
        (if ip_immovable_receive port then MACH_PORT_STATUS_FLAG_GUARD_IMMOVABLE_RECEIVE else 0)
      else 0) OR
     (if ip_no_grant port then MACH_PORT_STATUS_FLAG_NO_GRANT else 0)"

definition mach_port_get_status_helper :: "ipc_port \<Rightarrow> mach_port_status_t" where
  "mach_port_get_status_helper port =
     \<lparr>mps_pset = (ip_in_pset port \<noteq> 0), mps_seqno = ip_seqno port, mps_mscount = ip_mscount port,
      mps_qlimit = ucast (ip_qlimit port), mps_msgcount = ucast (ip_msgcount port),
      mps_sorights = ip_sorights port, mps_srights = (0 < ip_srights port),
      mps_pdrequest = (ip_pdrequest port \<noteq> IP_NULL), mps_nsrequest = (ip_nsrequest port \<noteq> IP_NULL),
      mps_flags = status_flags port\<rparr>"

datatype mach_port_flavor_t =
    MACH_PORT_LIMITS_INFO | MACH_PORT_RECEIVE_STATUS | MACH_PORT_DNREQUESTS_SIZE | MACH_PORT_TEMPOWNER
  | MACH_PORT_IMPORTANCE_RECEIVER | MACH_PORT_DENAP_RECEIVER | MACH_PORT_INFO_EXT | MACH_PORT_FLAVOR_OTHER int

text \<open>The answer: the words the call writes, and the count it returns. \<open>info_none\<close> is an untouched buffer.\<close>

datatype mach_port_info =
    info_none | info_limits "32 word" | info_status mach_port_status_t | info_dnrequests nat
  | info_ext mach_port_status_t "32 word"

definition MACH_PORT_LIMITS_INFO_COUNT :: nat where
  "MACH_PORT_LIMITS_INFO_COUNT = 1"

definition MACH_PORT_RECEIVE_STATUS_COUNT :: nat where
  "MACH_PORT_RECEIVE_STATUS_COUNT = 10"

definition MACH_PORT_DNREQUESTS_SIZE_COUNT :: nat where
  "MACH_PORT_DNREQUESTS_SIZE_COUNT = 1"

definition MACH_PORT_INFO_EXT_COUNT :: nat where
  "MACH_PORT_INFO_EXT_COUNT = 17"

definition with_receive ::
  "ptr \<Rightarrow> mach_port_name_t \<Rightarrow> nat \<Rightarrow> (ipc_port \<Rightarrow> (mach_port_info \<times> nat) option) \<Rightarrow> kst
     \<Rightarrow> (kern_return_t \<times> mach_port_info \<times> nat) option" where
  "with_receive space name count f s = do {
     (kr, p) \<leftarrow> ipc_port_translate_receive space name s;
     if kr \<noteq> KERN_SUCCESS then Some (kr, info_none, count)
     else do {
       port \<leftarrow> ks_port s p;
       (info, count) \<leftarrow> f port;
       Some (KERN_SUCCESS, info, count)
     }
   }"

definition dnrequests_size :: "kenv \<Rightarrow> ipc_port \<Rightarrow> nat option" where
  "dnrequests_size E port = (case ip_requests port of
       None \<Rightarrow> Some 0
     | Some table \<Rightarrow> map_option its_size (arr_get (ipc_table_requests E) (ipr_size table)))"

definition mach_port_get_attributes ::
  "kenv \<Rightarrow> ptr \<Rightarrow> mach_port_name_t \<Rightarrow> mach_port_flavor_t \<Rightarrow> nat \<Rightarrow> kst
     \<Rightarrow> (kern_return_t \<times> mach_port_info \<times> nat) option" where
  "mach_port_get_attributes E space name flavor count s =
     (if space = 0 then Some (KERN_INVALID_TASK, info_none, count)
      else case flavor of
        MACH_PORT_LIMITS_INFO \<Rightarrow>
          if count < MACH_PORT_LIMITS_INFO_COUNT then Some (KERN_FAILURE, info_none, count)
          else if \<not> MACH_PORT_VALID name then Some (KERN_SUCCESS, info_none, 0)
          else with_receive space name count
            (\<lambda>port. Some (info_limits (ucast (ip_qlimit port)), MACH_PORT_LIMITS_INFO_COUNT)) s
      | MACH_PORT_RECEIVE_STATUS \<Rightarrow>
          if count < MACH_PORT_RECEIVE_STATUS_COUNT then Some (KERN_FAILURE, info_none, count)
          else if \<not> MACH_PORT_VALID name then Some (KERN_INVALID_RIGHT, info_none, count)
          else with_receive space name count
            (\<lambda>port. Some (info_status (mach_port_get_status_helper port), MACH_PORT_RECEIVE_STATUS_COUNT)) s
      | MACH_PORT_DNREQUESTS_SIZE \<Rightarrow>
          if count < MACH_PORT_DNREQUESTS_SIZE_COUNT then Some (KERN_FAILURE, info_none, count)
          else if \<not> MACH_PORT_VALID name then Some (KERN_SUCCESS, info_dnrequests 0, count)
          else with_receive space name count
            (\<lambda>port. do { n \<leftarrow> dnrequests_size E port; Some (info_dnrequests n, MACH_PORT_DNREQUESTS_SIZE_COUNT) }) s
      | MACH_PORT_INFO_EXT \<Rightarrow>
          if count < MACH_PORT_INFO_EXT_COUNT then Some (KERN_FAILURE, info_none, count)
          else if \<not> MACH_PORT_VALID name then Some (KERN_INVALID_RIGHT, info_none, count)
          else with_receive space name count
            (\<lambda>port. Some (info_ext (mach_port_get_status_helper port) (ucast (ip_impcount port)),
                          MACH_PORT_INFO_EXT_COUNT)) s
      | _ \<Rightarrow> Some (KERN_INVALID_ARGUMENT, info_none, count))"

text \<open>
  Setting the temporary owner bit drops the assertions that the port holds on its previous importance task, or on
  the task of the caller.
\<close>

definition set_tempowner :: "kenv \<Rightarrow> ptr \<Rightarrow> kst \<Rightarrow> (kern_return_t \<times> kst) option" where
  "set_tempowner E p s = do {
     port \<leftarrow> ks_port s p;
     if io_is_kobject (ip_io_bits port) \<or> ip_specialreply port then Some (KERN_INVALID_ARGUMENT, s)
     else do {
       let (release_imp_task, assertcnt, port) =
         (if ip_tempowner port
          then if ip_imp_task port \<noteq> 0 then (ip_imp_task port, ip_impcount port, port\<lparr>ip_kdata := 0\<rparr>) else (0, 0, port)
          else (0, ip_impcount port, port));
       let s = put_port s p (port\<lparr>ip_impdonation := True, ip_tempowner := True\<rparr>);
       if release_imp_task \<noteq> 0 then do {
         kassert (imp_task_is_any_receiver_type E release_imp_task);
         let s = (if 0 < assertcnt then klog (importance_drop release_imp_task (uint assertcnt)) s else s);
         Some (KERN_SUCCESS, klog (importance_release release_imp_task) s)
       }
       else Some (KERN_SUCCESS,
         if 0 < assertcnt \<and> current_imp_base E \<noteq> 0 \<and> imp_task_is_any_receiver_type E (current_imp_base E)
         then klog (importance_drop (current_imp_base E) (uint assertcnt)) s else s)
     }
   }"

definition set_impdonation :: "ptr \<Rightarrow> kst \<Rightarrow> (kern_return_t \<times> kst) option" where
  "set_impdonation p s = do {
     port \<leftarrow> ks_port s p;
     if io_is_kobject (ip_io_bits port) \<or> ip_specialreply port then Some (KERN_INVALID_ARGUMENT, s)
     else Some (KERN_SUCCESS, put_port s p (port\<lparr>ip_impdonation := True\<rparr>))
   }"

text \<open>\<open>info\<close> is the first word of the argument: the queue limit, or the size of the request table.\<close>

definition mach_port_set_attributes ::
  "kenv \<Rightarrow> (kst \<Rightarrow> kst) \<Rightarrow> ptr \<Rightarrow> mach_port_name_t \<Rightarrow> mach_port_flavor_t \<Rightarrow> 32 word \<Rightarrow> nat \<Rightarrow> kst
     \<Rightarrow> (kern_return_t \<times> kst) option" where
  "mach_port_set_attributes E others space name flavor info count s =
     (if space = 0 then Some (KERN_INVALID_TASK, s)
      else case flavor of
        MACH_PORT_LIMITS_INFO \<Rightarrow>
          if count < MACH_PORT_LIMITS_INFO_COUNT then Some (KERN_FAILURE, s)
          else if MACH_PORT_QLIMIT_MAX < info then Some (KERN_INVALID_VALUE, s)
          else if \<not> MACH_PORT_VALID name then Some (KERN_INVALID_RIGHT, s)
          else do {
            (kr, p) \<leftarrow> ipc_port_translate_receive space name s;
            if kr \<noteq> KERN_SUCCESS then Some (kr, s)
            else do {
              s \<leftarrow> ipc_mqueue_set_qlimit E p info s;
              Some (KERN_SUCCESS, s)
            }
          }
      | MACH_PORT_DNREQUESTS_SIZE \<Rightarrow>
          if count < MACH_PORT_DNREQUESTS_SIZE_COUNT then Some (KERN_FAILURE, s)
          else if \<not> MACH_PORT_VALID name then Some (KERN_INVALID_RIGHT, s)
          else do {
            (kr, p) \<leftarrow> ipc_port_translate_receive space name s;
            if kr \<noteq> KERN_SUCCESS then Some (kr, s)
            else ipc_port_request_grow E others p info s
          }
      | MACH_PORT_TEMPOWNER \<Rightarrow>
          if \<not> MACH_PORT_VALID name then Some (KERN_INVALID_RIGHT, s)
          else do {
            (kr, p) \<leftarrow> ipc_port_translate_receive space name s;
            if kr \<noteq> KERN_SUCCESS then Some (kr, s) else set_tempowner E p s
          }
      | MACH_PORT_DENAP_RECEIVER \<Rightarrow>
          if \<not> MACH_PORT_VALID name then Some (KERN_INVALID_RIGHT, s)
          else do {
            (kr, p) \<leftarrow> ipc_port_translate_receive space name s;
            if kr \<noteq> KERN_SUCCESS then Some (kr, s) else set_impdonation p s
          }
      | MACH_PORT_IMPORTANCE_RECEIVER \<Rightarrow>
          if \<not> MACH_PORT_VALID name then Some (KERN_INVALID_RIGHT, s)
          else do {
            (kr, p) \<leftarrow> ipc_port_translate_receive space name s;
            if kr \<noteq> KERN_SUCCESS then Some (kr, s) else set_impdonation p s
          }
      | _ \<Rightarrow> Some (KERN_INVALID_ARGUMENT, s))"

definition task_set_port_space :: "kenv \<Rightarrow> ptr \<Rightarrow> 32 word \<Rightarrow> kst \<Rightarrow> (kern_return_t \<times> kst) option" where
  "task_set_port_space E space table_entries s =
     (if space = 0 then Some (KERN_INVALID_TASK, s)
      else do {
        sp \<leftarrow> ks_space s space;
        if \<not> is_active sp then Some (KERN_INVALID_TASK, s)
        else do {
          (kr, sp) \<leftarrow> ipc_entry_grow_table (ipc_table_entries E) (it_entries_alloc_ok E) (grow_others E)
             (if table_entries = ITS_SIZE_NONE then None else Some (unat table_entries)) sp;
          Some (kr, put_space s space sp)
        }
      })"

section \<open>Guards\<close>

definition MPG_STRICT :: "64 word" where
  "MPG_STRICT = 0x01"

definition MPG_IMMOVABLE_RECEIVE :: "64 word" where
  "MPG_IMMOVABLE_RECEIVE = 0x02"

definition mach_port_guard_locked :: "ptr \<Rightarrow> 64 word \<Rightarrow> 64 word \<Rightarrow> kst \<Rightarrow> (kern_return_t \<times> kst) option" where
  "mach_port_guard_locked p guard flags s = do {
     port \<leftarrow> ks_port s p;
     if ip_context port \<noteq> 0 then Some (KERN_INVALID_ARGUMENT, s)
     else Some (KERN_SUCCESS, put_port s p
       (port\<lparr>ip_context := guard, ip_guarded := True, ip_strict_guard := (flags AND MPG_STRICT \<noteq> 0),
             ip_immovable_receive := (ip_immovable_receive port \<or> flags AND MPG_IMMOVABLE_RECEIVE \<noteq> 0)\<rparr>))
   }"

definition mach_port_unguard_locked ::
  "ptr \<Rightarrow> mach_port_name_t \<Rightarrow> 64 word \<Rightarrow> kst \<Rightarrow> (kern_return_t \<times> kst) option" where
  "mach_port_unguard_locked p name guard s = do {
     port \<leftarrow> ks_port s p;
     if \<not> ip_guarded port
     then Some (KERN_INVALID_ARGUMENT, mach_port_guard_exception name guard 0 kGUARD_EXC_UNGUARDED s)
     else if ip_context port \<noteq> guard
     then Some (KERN_INVALID_ARGUMENT,
                mach_port_guard_exception name guard (ip_context port) kGUARD_EXC_INCORRECT_GUARD s)
     else Some (KERN_SUCCESS, put_port s p (port\<lparr>ip_context := 0, ip_guarded := False, ip_strict_guard := False\<rparr>))
   }"

definition translate_exception :: "mach_port_name_t \<Rightarrow> kern_return_t \<Rightarrow> kst \<Rightarrow> kst" where
  "translate_exception name kr s =
     mach_port_guard_exception name 0 0
       (if kr = KERN_INVALID_NAME then kGUARD_EXC_INVALID_NAME else kGUARD_EXC_INVALID_RIGHT) s"

definition mach_port_guard_with_flags ::
  "ptr \<Rightarrow> mach_port_name_t \<Rightarrow> 64 word \<Rightarrow> 64 word \<Rightarrow> kst \<Rightarrow> (kern_return_t \<times> kst) option" where
  "mach_port_guard_with_flags space name guard flags s =
     (if space = 0 then Some (KERN_INVALID_TASK, s)
      else if \<not> MACH_PORT_VALID name then Some (KERN_INVALID_NAME, s)
      else do {
        (kr, p) \<leftarrow> ipc_port_translate_receive space name s;
        if kr \<noteq> KERN_SUCCESS then Some (kr, translate_exception name kr s)
        else do {
          (kr, s) \<leftarrow> mach_port_guard_locked p guard flags s;
          Some (kr, if kr = KERN_INVALID_ARGUMENT
                    then mach_port_guard_exception name 0 0 kGUARD_EXC_INVALID_ARGUMENT s else s)
        }
      })"

definition mach_port_guard ::
  "ptr \<Rightarrow> mach_port_name_t \<Rightarrow> 64 word \<Rightarrow> bool \<Rightarrow> kst \<Rightarrow> (kern_return_t \<times> kst) option" where
  "mach_port_guard space name guard strict s =
     (if space = 0 then Some (KERN_INVALID_TASK, s)
      else if \<not> MACH_PORT_VALID name then Some (KERN_INVALID_NAME, s)
      else do {
        (kr, p) \<leftarrow> ipc_port_translate_receive space name s;
        if kr \<noteq> KERN_SUCCESS then Some (kr, translate_exception name kr s)
        else do {
          (kr, s) \<leftarrow> mach_port_guard_locked p guard (if strict then MPG_STRICT else 0) s;
          Some (kr, if kr = KERN_INVALID_ARGUMENT
                    then mach_port_guard_exception name 0 0 kGUARD_EXC_INVALID_ARGUMENT s else s)
        }
      })"

definition mach_port_unguard ::
  "ptr \<Rightarrow> mach_port_name_t \<Rightarrow> 64 word \<Rightarrow> kst \<Rightarrow> (kern_return_t \<times> kst) option" where
  "mach_port_unguard space name guard s =
     (if space = 0 then Some (KERN_INVALID_TASK, s)
      else if \<not> MACH_PORT_VALID name then Some (KERN_INVALID_NAME, s)
      else do {
        (kr, p) \<leftarrow> ipc_port_translate_receive space name s;
        if kr \<noteq> KERN_SUCCESS then Some (kr, translate_exception name kr s)
        else mach_port_unguard_locked p name guard s
      })"

definition mach_port_swap_guard ::
  "ptr \<Rightarrow> mach_port_name_t \<Rightarrow> 64 word \<Rightarrow> 64 word \<Rightarrow> kst \<Rightarrow> (kern_return_t \<times> kst) option" where
  "mach_port_swap_guard space name old_guard new_guard s =
     (if space = 0 then Some (KERN_INVALID_TASK, s)
      else if \<not> MACH_PORT_VALID name then Some (KERN_INVALID_NAME, s)
      else do {
        (kr, p) \<leftarrow> ipc_port_translate_receive space name s;
        if kr \<noteq> KERN_SUCCESS then Some (kr, translate_exception name kr s)
        else do {
          port \<leftarrow> ks_port s p;
          if \<not> ip_guarded port
          then Some (KERN_INVALID_ARGUMENT, mach_port_guard_exception name old_guard 0 kGUARD_EXC_UNGUARDED s)
          else if ip_strict_guard port
          then Some (KERN_INVALID_ARGUMENT,
                     mach_port_guard_exception name old_guard (ip_context port) kGUARD_EXC_SET_CONTEXT s)
          else if ip_context port \<noteq> old_guard
          then Some (KERN_INVALID_ARGUMENT,
                     mach_port_guard_exception name old_guard (ip_context port) kGUARD_EXC_INCORRECT_GUARD s)
          else Some (KERN_SUCCESS, put_port s p (port\<lparr>ip_context := new_guard\<rparr>))
        }
      })"

section \<open>Construction and destruction\<close>

definition mach_port_destruct ::
  "kenv \<Rightarrow> ptr \<Rightarrow> mach_port_name_t \<Rightarrow> 32 word \<Rightarrow> 64 word \<Rightarrow> kst \<Rightarrow> (kern_return_t \<times> kst) option" where
  "mach_port_destruct E space name srdelta guard s =
     (if space = 0 then Some (KERN_INVALID_TASK, s)
      else if \<not> MACH_PORT_VALID name then Some (KERN_INVALID_NAME, s)
      else do {
        (kr, i) \<leftarrow> ipc_right_lookup_write space name s;
        if kr \<noteq> KERN_SUCCESS then Some (kr, mach_port_guard_exception name 0 0 kGUARD_EXC_INVALID_NAME s)
        else ipc_right_destruct E space name i srdelta guard s
      })"

record mach_port_options_t =
  mpo_flags :: "32 word"
  mpl_qlimit :: "32 word"
  mpo_work_interval_port :: mach_port_name_t

definition MPO_CONTEXT_AS_GUARD :: "32 word" where
  "MPO_CONTEXT_AS_GUARD = 0x01"

definition MPO_QLIMIT :: "32 word" where
  "MPO_QLIMIT = 0x02"

definition MPO_TEMPOWNER :: "32 word" where
  "MPO_TEMPOWNER = 0x04"

definition MPO_IMPORTANCE_RECEIVER :: "32 word" where
  "MPO_IMPORTANCE_RECEIVER = 0x08"

definition MPO_INSERT_SEND_RIGHT :: "32 word" where
  "MPO_INSERT_SEND_RIGHT = 0x10"

definition MPO_STRICT :: "32 word" where
  "MPO_STRICT = 0x20"

definition MPO_DENAP_RECEIVER :: "32 word" where
  "MPO_DENAP_RECEIVER = 0x40"

definition MPO_IMMOVABLE_RECEIVE :: "32 word" where
  "MPO_IMMOVABLE_RECEIVE = 0x80"

definition MPO_FILTER_MSG :: "32 word" where
  "MPO_FILTER_MSG = 0x100"

definition MPO_TG_BLOCK_TRACKING :: "32 word" where
  "MPO_TG_BLOCK_TRACKING = 0x200"

definition construct_flags :: "kenv \<Rightarrow> mach_port_options_t \<Rightarrow> kern_return_t \<times> 32 word" where
  "construct_flags E options = (let fl = mpo_flags options;
     init_flags = IPC_PORT_INIT_MESSAGE_QUEUE OR
       (if fl AND MPO_INSERT_SEND_RIGHT \<noteq> 0 then IPC_PORT_INIT_MAKE_SEND_RIGHT else 0) OR
       (if fl AND MPO_FILTER_MSG \<noteq> 0 then IPC_PORT_INIT_FILTER_MESSAGE else 0) in
     if fl AND MPO_TG_BLOCK_TRACKING \<noteq> 0
     then if \<not> current_is_graphics_server E then (KERN_DENIED, 0)
       else if \<not> work_interval_port_type_render_server E (mpo_work_interval_port options) then (KERN_INVALID_ARGUMENT, 0)
       else (KERN_SUCCESS, init_flags OR IPC_PORT_INIT_TG_BLOCK_TRACKING)
     else (KERN_SUCCESS, init_flags))"

definition construct_guard :: "mach_port_options_t \<Rightarrow> 64 word \<Rightarrow> ptr \<Rightarrow> kst \<Rightarrow> kst option" where
  "construct_guard options context p s =
     (if mpo_flags options AND MPO_CONTEXT_AS_GUARD \<noteq> 0 then do {
        let flags = (if mpo_flags options AND MPO_STRICT \<noteq> 0 then MPG_STRICT else 0) OR
                    (if mpo_flags options AND MPO_IMMOVABLE_RECEIVE \<noteq> 0 then MPG_IMMOVABLE_RECEIVE else 0);
        (kr, s) \<leftarrow> mach_port_guard_locked p context flags s;
        kassert (kr = KERN_SUCCESS);
        Some s
      } else do {
        port \<leftarrow> ks_port s p;
        Some (put_port s p (port\<lparr>ip_context := context\<rparr>))
      })"

text \<open>The attributes of the options, in the order of the code, up to the first one that fails.\<close>

definition construct_attributes :: "mach_port_options_t \<Rightarrow> (mach_port_flavor_t \<times> 32 word \<times> nat) list" where
  "construct_attributes options = (let fl = mpo_flags options in
     (if fl AND MPO_QLIMIT \<noteq> 0 then [(MACH_PORT_LIMITS_INFO, mpl_qlimit options, 1)] else []) @
     (if fl AND MPO_TEMPOWNER \<noteq> 0 then [(MACH_PORT_TEMPOWNER, 0, 0)] else []) @
     (if fl AND MPO_IMPORTANCE_RECEIVER \<noteq> 0 then [(MACH_PORT_IMPORTANCE_RECEIVER, 0, 0)] else []) @
     (if fl AND MPO_DENAP_RECEIVER \<noteq> 0 then [(MACH_PORT_DENAP_RECEIVER, 0, 0)] else []))"

text \<open>
  The locks are not held between the steps of a construction. \<open>others k\<close> is what other threads do before the \<open>k\<close>-th attribute is
  set, and \<open>others 4\<close> what they do before the port is destroyed again.
\<close>

fun construct_set ::
  "kenv \<Rightarrow> (nat \<Rightarrow> kst \<Rightarrow> kst) \<Rightarrow> nat \<Rightarrow> ptr \<Rightarrow> mach_port_name_t \<Rightarrow> (mach_port_flavor_t \<times> 32 word \<times> nat) list \<Rightarrow> kst
     \<Rightarrow> (kern_return_t \<times> kst) option" where
  "construct_set E others k space name [] s = Some (KERN_SUCCESS, s)"
| "construct_set E others k space name ((flavor, info, count) # as) s = do {
     (kr, s) \<leftarrow> mach_port_set_attributes E (\<lambda>s. s) space name flavor info count (others k s);
     if kr \<noteq> KERN_SUCCESS then Some (kr, s) else construct_set E others (k + 1) space name as s
   }"

definition mach_port_construct ::
  "kenv \<Rightarrow> (nat \<Rightarrow> kst \<Rightarrow> kst) \<Rightarrow> ptr \<Rightarrow> ptr \<Rightarrow> mach_port_options_t \<Rightarrow> 64 word \<Rightarrow> kst
     \<Rightarrow> ((kern_return_t \<times> mach_port_name_t) \<times> kst) option" where
  "mach_port_construct E others obj space options context s =
     (if space = 0 then Some ((KERN_INVALID_TASK, 0), s)
      else let (kr, init_flags) = construct_flags E options in
        if kr \<noteq> KERN_SUCCESS then Some ((kr, 0), s)
        else do {
          ((kr, name, p), s) \<leftarrow> ipc_port_alloc E obj space init_flags s;
          if kr \<noteq> KERN_SUCCESS then Some ((kr, 0), s)
          else do {
            s \<leftarrow> construct_guard options context p s;
            (kr, s) \<leftarrow> construct_set E others 0 space name (construct_attributes options) s;
            if kr = KERN_SUCCESS then Some ((KERN_SUCCESS, name), s)
            else do {
              (_, s) \<leftarrow> mach_port_destruct E space name
                 (if mpo_flags options AND MPO_INSERT_SEND_RIGHT \<noteq> 0 then -1 else 0) context (others 4 s);
              Some ((kr, name), s)
            }
          }
        })"

end
