(* ===== verification/Ipc_Transit.thy ===== *)
theory Ipc_Transit
  imports Ipc_Port
begin

text \<open>
  Ports in transit. A receive right in a message points to the port the message is queued on
  (\<open>ip_destination\<close>), so ports in transit form chains. \<open>ipc_port_check_circularity\<close> keeps them acyclic,
  and everything that walks a chain (\<open>ipc_port_destination_chain_lock\<close>, the importance updates)
  depends on that. \<open>transit_chain s p ps base\<close> is the finite chain from \<open>p\<close> over the ports \<open>ps\<close> to the first
  port not in transit. The lemmas show that the walk returns exactly on finite chains, and that the
  check detects exactly the circles and keeps every chain of the kernel finite.
\<close>

section \<open>Chains\<close>

definition in_transit :: "ipc_port \<Rightarrow> bool" where
  "in_transit port \<longleftrightarrow> ip_active port \<and> ip_receiver_name port = MACH_PORT_NULL \<and> ip_destination port \<noteq> IP_NULL"

definition transit :: "kst \<Rightarrow> ptr \<rightharpoonup> ptr" where
  "transit s p = (case ks_port s p of None \<Rightarrow> None
     | Some port \<Rightarrow> if in_transit port then Some (ip_destination port) else None)"

inductive transit_chain :: "kst \<Rightarrow> ptr \<Rightarrow> ptr list \<Rightarrow> ptr \<Rightarrow> bool" for s where
  base: "ks_port s p = Some port \<Longrightarrow> \<not> in_transit port \<Longrightarrow> transit_chain s p [] p"
| step: "ks_port s p = Some port \<Longrightarrow> in_transit port \<Longrightarrow> transit_chain s (ip_destination port) ps base
    \<Longrightarrow> transit_chain s p (p # ps) base"

inductive_cases transit_chain_NilE: "transit_chain s p [] base"
inductive_cases transit_chain_ConsE: "transit_chain s p (x # ps) base"
inductive_simps transit_chain_Nil: "transit_chain s p [] base"
inductive_simps transit_chain_Cons: "transit_chain s p (x # ps) base"

definition chains_ok :: "kst \<Rightarrow> bool" where
  "chains_ok s \<longleftrightarrow> (\<forall>p \<in> dom (ks_port s). \<exists>ps base. transit_chain s p ps base)"

lemma transit_chain_base: "transit_chain s p ps base \<Longrightarrow> \<exists>port. ks_port s base = Some port \<and> \<not> in_transit port"
  by (induction rule: transit_chain.induct) auto

lemma transit_chain_unique:
  "transit_chain s p ps base \<Longrightarrow> transit_chain s p ps' base' \<Longrightarrow> ps' = ps \<and> base' = base"
proof (induction arbitrary: ps' rule: transit_chain.induct)
  case (base p port)
  from base(3) base(1,2) show ?case by (cases rule: transit_chain.cases) auto
next
  case (step p port ps b)
  from step.prems step.hyps(1,2) show ?case by (cases rule: transit_chain.cases) (auto dest: step.IH)
qed

lemma transit_chain_in_transit:
  "transit_chain s p ps base \<Longrightarrow> x \<in> set ps \<Longrightarrow> \<exists>port. ks_port s x = Some port \<and> in_transit port"
  by (induction rule: transit_chain.induct) auto

lemma transit_chain_base_notin: "transit_chain s p ps base \<Longrightarrow> base \<notin> set ps"
  using transit_chain_base transit_chain_in_transit by fastforce

text \<open>No port occurs twice on a finite chain: the tail from it would be longer than itself.\<close>

lemma transit_chain_suffix:
  "transit_chain s p ps base \<Longrightarrow> x \<in> set ps \<Longrightarrow> \<exists>ys zs. ps = ys @ zs \<and> transit_chain s x zs base"
proof (induction rule: transit_chain.induct)
  case (step p port ps base)
  show ?case
  proof (cases "x = p")
    case True
    then show ?thesis using transit_chain.step [OF step.hyps] by (intro exI [of _ "[]"] exI [of _ "p # ps"]) auto
  next
    case False
    then obtain ys zs where "ps = ys @ zs" "transit_chain s x zs base" using step by auto
    then show ?thesis by (intro exI [of _ "p # ys"] exI [of _ zs]) auto
  qed
qed simp

lemma transit_chain_distinct: "transit_chain s p ps base \<Longrightarrow> distinct ps"
proof (induction rule: transit_chain.induct)
  case (step p port ps base)
  have "p \<notin> set ps"
  proof
    assume "p \<in> set ps"
    then obtain ys zs where ys: "ps = ys @ zs" "transit_chain s p zs base" using transit_chain_suffix [OF step.hyps(3)] by blast
    then have "zs = p # ps" using transit_chain_unique [OF transit_chain.step [OF step.hyps]] by blast
    then show False using arg_cong [OF ys(1), of length] by simp
  qed
  with step.IH show ?case by simp
qed simp

section \<open>The walk to the base\<close>

definition refs_room :: "nat \<Rightarrow> ipc_port \<Rightarrow> bool" where
  "refs_room k port \<longleftrightarrow> 0 < unat (ip_references port) \<and> unat (ip_references port) + k < unat IO_MAX_REFERENCES"

lemma refs_room_ok:
  assumes "refs_room k port" "j \<le> k"
  shows "refs_ok (ip_references port + of_nat j)" "unat (ip_references port + of_nat j) = unat (ip_references port) + j"
proof -
  have b: "unat (ip_references port) + j < unat IO_MAX_REFERENCES" "0 < unat (ip_references port)"
    using assms by (simp_all add: refs_room_def)
  have lt: "unat IO_MAX_REFERENCES < 2 ^ 32" by (simp add: IO_MAX_REFERENCES_def)
  then have "j < 2 ^ 32" using b(1) by simp
  then have j: "unat (of_nat j :: 32 word) = j" by (simp add: unat_of_nat)
  then show u: "unat (ip_references port + of_nat j) = unat (ip_references port) + j"
    using b(1) lt by (simp add: unat_word_ariths)
  show "refs_ok (ip_references port + of_nat j)"
    unfolding refs_ok_def word_less_nat_alt unat_eq_0 [symmetric] u using b by simp
qed

lemma refs_room_mono: "refs_room k port \<Longrightarrow> j \<le> k \<Longrightarrow> refs_room j port"
  by (simp add: refs_room_def)

lemmas refs_room_0 = refs_room_ok(1) [where j = 0, simplified]
lemmas refs_room_1 = refs_room_ok(1) [where j = 1, simplified]
lemmas refs_room_2 = refs_room_ok(1) [where j = 2, simplified]

lemma chain_lock_base:
  assumes "transit_chain s p ps base" "ks_port s base = Some port"
  shows "ipc_port_destination_chain_lock p s =
    (if ip_active port then Some ((False, base), s) else do { s \<leftarrow> ip_reference base s; Some ((True, base), s) })"
  using assms
proof (induction rule: transit_chain.induct)
  case (base p q)
  then show ?case by (subst ipc_port_destination_chain_lock.simps) (simp add: in_transit_def)
next
  case (step p q ps base)
  then show ?case by (subst ipc_port_destination_chain_lock.simps) (simp add: in_transit_def)
qed

lemma chain_lock_eq:
  assumes c: "transit_chain s p ps base" and b: "ks_port s base = Some port" and r: "refs_room k port"
  shows "ipc_port_destination_chain_lock p s = Some ((\<not> ip_active port, base),
    if ip_active port then s else put_port s base (port\<lparr>ip_references := ip_references port + 1\<rparr>))"
  using chain_lock_base [OF c b] ip_reference_eq [OF b refs_room_0 [OF r]] by simp

text \<open>
  Conversely the walk only returns on a finite chain: by induction on the fixed point.
\<close>

lemma chain_lock_returns:
  "ipc_port_destination_chain_lock p s = Some y \<Longrightarrow> \<exists>ps. transit_chain s p ps (snd (fst y))"
proof (induction rule: ipc_port_destination_chain_lock.raw_induct [rotated, consumes 1])
  case (1 walk p s y)
  obtain port where port: "ks_port s p = Some port" using 1(2) by (auto split: bind_splits)
  show ?case
  proof (cases "in_transit port")
    case True
    then have "walk (ip_destination port) s = Some y" using 1(2) port by (simp add: in_transit_def)
    then show ?thesis using 1(1) transit_chain.step [OF port True] by blast
  next
    case False
    then have "snd (fst y) = p"
      using 1(2) port by (auto simp: in_transit_def split: if_splits bind_splits)
    then show ?thesis using transit_chain.base [OF port False] by blast
  qed
qed

text \<open>
  C25. The walk to the base of a chain, with which the importance updates and the circularity check
  lock ports in transit, returns exactly when the chain is finite; the result is the first port that
  is not in transit, with a reference exactly when that port is dead.
\<close>

theorem ipc_port_destination_chain_lock_returns:
  assumes "\<forall>q port. ks_port s q = Some port \<longrightarrow> refs_room 1 port"
  shows "((\<exists>y. ipc_port_destination_chain_lock p s = Some y) \<longleftrightarrow> (\<exists>ps base. transit_chain s p ps base))
    \<and> (\<forall>ps base port. transit_chain s p ps base \<and> ks_port s base = Some port \<longrightarrow>
      ipc_port_destination_chain_lock p s = Some ((\<not> ip_active port, base),
        if ip_active port then s else put_port s base (port\<lparr>ip_references := ip_references port + 1\<rparr>)))"
proof -
  have "ipc_port_destination_chain_lock p s = Some ((\<not> ip_active port, base),
        if ip_active port then s else put_port s base (port\<lparr>ip_references := ip_references port + 1\<rparr>))"
    if "transit_chain s p ps base" "ks_port s base = Some port" for ps base port
    using chain_lock_eq [OF that] assms that(2) by blast
  then show ?thesis using transit_chain_base chain_lock_returns by blast
qed

section \<open>Adding a port to a chain\<close>

text \<open>What a chain depends on: activity, receiver name and destination of every port.\<close>

definition link :: "ipc_port \<Rightarrow> bool \<times> mach_port_name_t \<times> ptr" where
  "link port = (ip_active port, ip_receiver_name port, ip_data port)"

definition links :: "kst \<Rightarrow> ptr \<rightharpoonup> bool \<times> mach_port_name_t \<times> ptr" where
  "links s p = map_option link (ks_port s p)"

lemma in_transit_link: "link port' = link port \<Longrightarrow> in_transit port' = in_transit port"
  by (auto simp: link_def in_transit_def)

lemma dom_links: "dom (links s) = dom (ks_port s)"
  by (simp add: links_def dom_def)

lemma links_port:
  assumes "links s' = links s" "ks_port s p = Some port"
  shows "\<exists>port'. ks_port s' p = Some port' \<and> link port' = link port"
  using fun_cong [OF assms(1), of p] assms(2) by (auto simp: links_def)

lemma transit_chain_links:
  assumes "transit_chain s p ps base" "\<And>x. x \<in> set ps \<union> {base} \<Longrightarrow> links s' x = links s x"
  shows "transit_chain s' p ps base"
  using assms
proof (induction rule: transit_chain.induct)
  case (base p port)
  then obtain port' where p': "ks_port s' p = Some port'" "link port' = link port" by (auto simp: links_def)
  then show ?case using base(2) in_transit_link [OF p'(2)] transit_chain.base [OF p'(1)] by simp
next
  case (step p port ps base)
  obtain port' where p': "ks_port s' p = Some port'" "link port' = link port"
    using step.prems [of p] step.hyps(1) by (auto simp: links_def)
  have "transit_chain s' (ip_destination port) ps base" using step by auto
  then show ?case using p' step.hyps(2) in_transit_link [OF p'(2)] transit_chain.step [OF p'(1)] by (simp add: link_def)
qed

text \<open>
  Linking a port that is not on the chain of its new destination keeps every chain finite: a chain that ended at
  it continues along the destination's.
\<close>

lemma chains_ok_link:
  assumes ok: "chains_ok s" and d: "transit_chain s dest ds base" "base \<noteq> p"
    and p: "ks_port s p = Some port" "\<not> in_transit port" "ks_port s' p = Some port'" "in_transit port'" "ip_destination port' = dest"
    and other: "\<And>x. x \<noteq> p \<Longrightarrow> links s' x = links s x"
  shows "chains_ok s'"
proof -
  have pd: "p \<notin> set ds" using transit_chain_in_transit [OF d(1)] p by fastforce
  have D: "transit_chain s' dest ds base"
  proof (rule transit_chain_links [OF d(1)])
    fix x assume "x \<in> set ds \<union> {base}"
    then have "x \<noteq> p" using pd d(2) by auto
    then show "links s' x = links s x" by (rule other)
  qed
  have P: "transit_chain s' p (p # ds) base" using transit_chain.step [OF p(3,4)] D p(5) by simp
  have C: "\<exists>ps' base'. transit_chain s' x ps' base'" if "transit_chain s x ps b" for x ps b
    using that
  proof (induction rule: transit_chain.induct)
    case (base x q)
    show ?case
    proof (cases "x = p")
      case False
      then have "transit_chain s' x [] x" by (intro transit_chain_links [OF transit_chain.base [OF base]]) (auto intro: other)
      then show ?thesis by blast
    qed (use P in blast)
  next
    case (step x q ps b)
    then have "x \<noteq> p" using p by auto
    then obtain q' where q': "ks_port s' x = Some q'" "link q' = link q" using other [of x] step.hyps(1) by (auto simp: links_def)
    then show ?case using step.IH step.hyps(2) in_transit_link [OF q'(2)] transit_chain.step [OF q'(1)] by (auto simp: link_def)
  qed
  show ?thesis
    unfolding chains_ok_def
  proof
    fix x assume "x \<in> dom (ks_port s')"
    then have "x \<in> dom (ks_port s)" using other [of x] p(1) by (cases "x = p"; cases "ks_port s x") (auto simp: links_def)
    then show "\<exists>ps base. transit_chain s' x ps base" using ok C unfolding chains_ok_def by blast
  qed
qed

section \<open>The circularity check\<close>

text \<open>States that differ in importance counts and in the log only.\<close>

definition noimp :: "ipc_port \<Rightarrow> ipc_port" where
  "noimp port = port\<lparr>ip_impcount := 0\<rparr>"

definition same_but_imp :: "kst \<Rightarrow> kst \<Rightarrow> bool" where
  "same_but_imp s s' \<longleftrightarrow> (\<forall>q. map_option noimp (ks_port s' q) = map_option noimp (ks_port s q)) \<and> ks_space s' = ks_space s"

lemma noimp_cong: "noimp port' = noimp port \<Longrightarrow> (\<And>port. f (noimp port) = f port) \<Longrightarrow> f port' = f port"
  by metis

lemma noimp_sel:
  assumes "noimp port' = noimp port"
  shows "link port' = link port" "ip_tempowner port' = ip_tempowner port" "ip_references port' = ip_references port"
    "ip_kdata port' = ip_kdata port" "ip_active port' = ip_active port" "ip_receiver_name port' = ip_receiver_name port"
    "ip_data port' = ip_data port" "in_transit port' = in_transit port"
  by (rule noimp_cong [OF assms], simp add: noimp_def link_def ip_active_def in_transit_def)+

lemma same_but_imp_port:
  "same_but_imp s s' \<Longrightarrow> ks_port s q = Some port \<Longrightarrow> \<exists>port'. ks_port s' q = Some port' \<and> noimp port' = noimp port"
  unfolding same_but_imp_def by (drule conjunct1, drule spec [of _ q]) auto

lemma same_but_imp_refl [simp]: "same_but_imp s s"
  by (simp add: same_but_imp_def)

lemma impcount_delta_noimp: "ipc_port_impcount_delta port d = (d', port') \<Longrightarrow> noimp port' = noimp port"
  by (auto simp: ipc_port_impcount_delta_def noimp_def Let_def split: if_splits)

lemma same_but_imp_put:
  "same_but_imp s s' \<Longrightarrow> ks_port s' q = Some port \<Longrightarrow> noimp port' = noimp port \<Longrightarrow> same_but_imp s (put_port s' q port')"
  unfolding same_but_imp_def by (metis fun_upd_apply option.map(2) put_port_sel(1) put_port_sel(2))

lemma circularity_chain_ok:
  assumes "transit_chain s0 dest ds base" "same_but_imp s0 s"
    and "\<And>q port. ks_port s0 q = Some port \<Longrightarrow> in_transit port \<Longrightarrow> \<not> ip_tempowner port"
  shows "\<exists>s'. circularity_chain base dest cnt s = Some s' \<and> same_but_imp s0 s'"
  using assms(1,2)
proof (induction arbitrary: s rule: transit_chain.induct)
  case (base p port)
  obtain q where q: "ks_port s p = Some q" "noimp q = noimp port" using same_but_imp_port [OF base.prems base.hyps(1)] by blast
  obtain d q' where d: "ipc_port_impcount_delta q cnt = (d, q')" by fastforce
  show ?case
    using same_but_imp_put [OF base.prems q(1) impcount_delta_noimp [OF d]] q(1) d
    by (subst circularity_chain.simps) simp
next
  case (step p port ps base)
  obtain q where q: "ks_port s p = Some q" "noimp q = noimp port" using same_but_imp_port [OF step.prems step.hyps(1)] by blast
  obtain d q' where d: "ipc_port_impcount_delta q cnt = (d, q')" by fastforce
  have n: "noimp q' = noimp port" using impcount_delta_noimp [OF d] q(2) by simp
  note sel = noimp_sel [OF n]
  have "base \<noteq> p" using transit_chain_base_notin [OF transit_chain.step [OF step.hyps]] by auto
  moreover have "same_but_imp s0 (put_port s p q')" by (rule same_but_imp_put [OF step.prems q(1) impcount_delta_noimp [OF d]])
  then obtain s' where "circularity_chain base (ip_destination port) cnt (put_port s p q') = Some s'" "same_but_imp s0 s'"
    using step.IH by blast
  moreover have "ip_active port" "ip_receiver_name port = MACH_PORT_NULL" "ip_data port \<noteq> IP_NULL" "\<not> ip_tempowner port"
    using step.hyps(2) assms(3) [OF step.hyps(1)] by (auto simp: in_transit_def)
  ultimately show ?case
    using q(1) d sel by (subst circularity_chain.simps) (auto simp: require_ip_active_def)
qed

lemma circular_unlock_ok:
  assumes "transit_chain s dest ds p" "ks_port s p = Some port" "ip_active port" "ip_receiver_name port = MACH_PORT_NULL"
    "ip_destination port = IP_NULL"
  shows "circular_unlock dest s = Some ()"
  using assms
proof (induction rule: transit_chain.induct)
  case (base q port')
  then show ?case by (subst circular_unlock.simps, subst circular_unlock.simps) (simp add: require_ip_active_def)
next
  case (step q port' ps b)
  then show ?case by (subst circular_unlock.simps) (auto simp: require_ip_active_def in_transit_def)
qed

text \<open>What the importance code assumes of the ports of a state, and of a port in limbo.\<close>

definition transit_wf :: "kenv \<Rightarrow> kst \<Rightarrow> bool" where
  "transit_wf E s \<longleftrightarrow> (\<forall>q port. ks_port s q = Some port \<longrightarrow> (in_transit port \<longrightarrow> \<not> ip_tempowner port)
     \<and> (ip_tempowner port \<and> ip_imp_task port \<noteq> 0 \<longrightarrow> imp_task_is_any_receiver_type E (ip_imp_task port))
     \<and> (ip_active port \<and> ip_receiver_name port \<noteq> MACH_PORT_NULL \<longrightarrow> ks_space s (ip_receiver port) \<noteq> None))"

definition in_limbo :: "ipc_port \<Rightarrow> bool" where
  "in_limbo port \<longleftrightarrow> ip_active port \<and> ip_receiver_name port = MACH_PORT_NULL \<and> ip_destination port = IP_NULL
     \<and> ip_tempowner port \<and> (ip_imp_task port \<noteq> 0 \<longrightarrow> ip_impdonation port \<or> 0 < ip_impcount port)"

lemma transit_wf_port:
  assumes "transit_wf E s" "ks_port s q = Some port"
  shows "in_transit port \<Longrightarrow> \<not> ip_tempowner port"
    and "ip_tempowner port \<Longrightarrow> ip_imp_task port \<noteq> 0 \<Longrightarrow> imp_task_is_any_receiver_type E (ip_imp_task port)"
    and "ip_active port \<Longrightarrow> ip_receiver_name port \<noteq> MACH_PORT_NULL \<Longrightarrow> ks_space s (ip_receiver port) \<noteq> None"
  using assms unfolding transit_wf_def by blast+

lemma transit_wf_cong: "ks_port s' = ks_port s \<Longrightarrow> ks_space s' = ks_space s \<Longrightarrow> transit_wf E s' = transit_wf E s"
  by (simp add: transit_wf_def)

lemma transit_wf_same:
  assumes "transit_wf E s" "same_but_imp s s'"
  shows "transit_wf E s'"
  unfolding transit_wf_def
proof (intro allI impI)
  fix q port' assume p': "ks_port s' q = Some port'"
  have "map_option noimp (ks_port s q) = Some (noimp port')" using assms(2) p' unfolding same_but_imp_def by (metis option.map(2))
  then obtain port where p: "ks_port s q = Some port" "noimp port' = noimp port" by auto
  have "ks_space s' = ks_space s" using assms(2) by (simp add: same_but_imp_def)
  then show "(in_transit port' \<longrightarrow> \<not> ip_tempowner port')
     \<and> (ip_tempowner port' \<and> ip_imp_task port' \<noteq> 0 \<longrightarrow> imp_task_is_any_receiver_type E (ip_imp_task port'))
     \<and> (ip_active port' \<and> ip_receiver_name port' \<noteq> MACH_PORT_NULL \<longrightarrow> ks_space s' (ip_receiver port') \<noteq> None)"
    using transit_wf_port [OF assms(1) p(1)] unfolding noimp_sel [OF p(2)] by simp
qed

lemma transit_wf_put:
  assumes "transit_wf E s" "in_transit port \<longrightarrow> \<not> ip_tempowner port"
    "ip_tempowner port \<and> ip_imp_task port \<noteq> 0 \<longrightarrow> imp_task_is_any_receiver_type E (ip_imp_task port)"
    "ip_active port \<and> ip_receiver_name port \<noteq> MACH_PORT_NULL \<longrightarrow> ks_space s (ip_receiver port) \<noteq> None"
  shows "transit_wf E (put_port s q port)"
  using assms unfolding transit_wf_def by simp

lemma in_transit_refs [simp]: "in_transit (port\<lparr>ip_references := r\<rparr>) = in_transit port"
  by (simp add: in_transit_def)

lemma transit_wf_put_refs:
  assumes "transit_wf E s" "ks_port s q = Some port"
  shows "transit_wf E (put_port s q (port\<lparr>ip_references := r\<rparr>))"
  using transit_wf_port [OF assms] by (intro transit_wf_put [OF assms(1)]) simp_all

lemma importance_base_task_ok:
  assumes "transit_wf E s" "ks_port s q = Some port"
  shows "\<exists>t. importance_base_task E port s = Some t"
  using transit_wf_port(3) [OF assms] by (auto simp: importance_base_task_def)

text \<open>The state in which a port in limbo has joined the chain of \<open>dest\<close>, the importance counts apart.\<close>

definition joined :: "ptr \<Rightarrow> ipc_port \<Rightarrow> ptr \<Rightarrow> ipc_port \<Rightarrow> kst \<Rightarrow> kst" where
  "joined p port dest dport s = put_port (put_port (klog (clear_watchport p) s) dest (dport\<lparr>ip_references := ip_references dport + 1\<rparr>)) p
     ((if ip_specialreply dport \<and> ip_sync_bootstrap_checkin dport then port\<lparr>ip_sync_bootstrap_checkin := True\<rparr> else port)
        \<lparr>ip_data := dest, ip_kdata := 0, ip_tempowner := False\<rparr>)"

lemma checkin_sel:
  fixes port P
  defines "q \<equiv> if P then port\<lparr>ip_sync_bootstrap_checkin := True\<rparr> else port"
  shows "ip_impcount q = ip_impcount port" "ip_kdata q = ip_kdata port" "ip_active q = ip_active port"
    "ip_receiver_name q = ip_receiver_name port" "ip_data q = ip_data port" "ip_tempowner q = ip_tempowner port"
  by (simp_all add: q_def ip_active_def)

lemma not_circular_ok:
  assumes wf: "transit_wf E (joined p port dest dport s)" and chain: "transit_chain (joined p port dest dport s) dest ds base"
    and p: "ks_port s p = Some port" "in_limbo port" and dest: "ks_port s dest = Some dport" "refs_ok (ip_references dport)"
    and held: "ip_imp_task port \<noteq> 0 \<or> 0 < ip_impcount port \<longrightarrow> held"
    and took: "took \<longrightarrow> (\<forall>b. ks_port (joined p port dest dport s) base = Some b \<longrightarrow> refs_ok (ip_references b) \<and> ip_references b \<noteq> 1)"
  shows "\<exists>s4 b s'. not_circular E p dest base took held s = Some s' \<and> same_but_imp (joined p port dest dport s) s4
    \<and> ks_port s4 base = Some b \<and> ks_space s' = ks_space s4
    \<and> ks_port s' = (if took then (ks_port s4)(base \<mapsto> b\<lparr>ip_references := ip_references b - 1\<rparr>) else ks_port s4)"
proof -
  let ?j = "joined p port dest dport s" let ?cnt = "uint (ip_impcount port)"
  obtain s4 where s4: "circularity_chain base dest ?cnt ?j = Some s4" "same_but_imp ?j s4"
    using circularity_chain_ok [OF chain same_but_imp_refl, of ?cnt] transit_wf_port(1) [OF wf] by blast
  obtain b0 where b0: "ks_port ?j base = Some b0" "\<not> in_transit b0" using transit_chain_base [OF chain] by blast
  obtain b where b: "ks_port s4 base = Some b" "noimp b = noimp b0" using same_but_imp_port [OF s4(2) b0(1)] by blast
  have wf4: "transit_wf E s4" by (rule transit_wf_same [OF wf s4(2)])
  have nt: "\<not> ip_active b \<or> ip_receiver_name b \<noteq> MACH_PORT_NULL \<or> ip_destination b = IP_NULL"
    using b0(2) noimp_sel [OF b(2)] by (auto simp: in_transit_def)
  obtain t where t: "importance_base_task E b s4 = Some t" using importance_base_task_ok [OF wf4 b(1)] by blast
  have rb: "took \<Longrightarrow> refs_ok (ip_references b)" "took \<Longrightarrow> ip_references b \<noteq> 1"
    using took b0(1) noimp_sel(3) [OF b(2)] by auto
  have cnt: "0 < ?cnt \<longleftrightarrow> 0 < ip_impcount port" by (simp add: word_less_def)
  define imp where "imp = (if ip_active b \<and> 0 < ?cnt then t else 0)"
  define s5 where "s5 = (if imp \<noteq> 0 then klog (importance_reference imp) s4 else s4)"
  have s5: "ks_port s5 = ks_port s4" "ks_space s5 = ks_space s4" by (simp_all add: s5_def)
  have tw: "ip_tempowner b \<and> ip_imp_task b \<noteq> 0 \<longrightarrow> imp_task_is_any_receiver_type E (ip_imp_task b)"
    using transit_wf_port(2) [OF wf4 b(1)] by blast
  obtain s6 where s6: "(if took then ip_release base s5 else Some s5) = Some s6" "ks_space s6 = ks_space s4"
      "ks_port s6 = (if took then (ks_port s4)(base \<mapsto> b\<lparr>ip_references := ip_references b - 1\<rparr>) else ks_port s4)"
    using ip_release_eq [of s5 base b] b(1) rb s5 by (cases took) auto
  have ref: "ip_reference dest (klog (clear_watchport p) s) = Some (put_port (klog (clear_watchport p) s) dest
      (dport\<lparr>ip_references := ip_references dport + 1\<rparr>))"
    using ip_reference_eq [of "klog (clear_watchport p) s" dest dport] dest by simp
  have im: "(if ip_active b \<and> 0 < ?cnt then do {
                    kassert held;
                    kassert (ip_tempowner b \<and> ip_imp_task b \<noteq> 0 \<longrightarrow> imp_task_is_any_receiver_type E (ip_imp_task b));
                    importance_base_task E b s4
                  } else Some 0) = Some imp"
    using held cnt t tw by (simp add: imp_def)
  have hl: "imp \<noteq> 0 \<or> ip_imp_task port \<noteq> 0 \<longrightarrow> held" using held cnt by (auto simp: imp_def)
  have "\<exists>s'. not_circular E p dest base took held s = Some s' \<and> ks_space s' = ks_space s4
    \<and> ks_port s' = (if took then (ks_port s4)(base \<mapsto> b\<lparr>ip_references := ip_references b - 1\<rparr>) else ks_port s4)"
    using p dest ref s4 b s6 im nt hl
    by (simp add: not_circular_def require_ip_active_def in_limbo_def joined_def [symmetric] Let_def s5_def [symmetric]
        checkin_sel split del: if_split cong: if_cong, simp)
  then show ?thesis using s4(2) b(1) by blast
qed

lemma same_map:
  assumes "same_but_imp s s'" "\<And>a b. noimp a = noimp b \<Longrightarrow> f a = f b"
  shows "map_option f (ks_port s' x) = map_option f (ks_port s x)"
proof -
  have *: "map_option noimp (ks_port s' x) = map_option noimp (ks_port s x)" using assms(1) by (simp add: same_but_imp_def)
  show ?thesis
  proof (cases "ks_port s x")
    case (Some a)
    then obtain b where "ks_port s' x = Some b" "noimp b = noimp a" using * by auto
    then show ?thesis using Some assms(2) [of b a] by simp
  qed (use * in simp)
qed

lemma links_same: "same_but_imp s s' \<Longrightarrow> links s' = links s"
  unfolding links_def by (rule ext) (erule same_map, erule noimp_sel(1))

lemma transit_links: "links s' x = links s x \<Longrightarrow> transit s' x = transit s x"
  by (cases "ks_port s x"; cases "ks_port s' x") (auto simp: links_def transit_def link_def in_transit_def)

lemma joined_links:
  assumes "ks_port s dest = Some dport" "x \<noteq> p"
  shows "links (joined p port dest dport s) x = links s x"
  using assms by (auto simp: joined_def links_def link_def)

lemma joined_port:
  assumes "in_limbo port" "dest \<noteq> IP_NULL"
  shows "\<exists>port'. ks_port (joined p port dest dport s) p = Some port' \<and> in_transit port' \<and> ip_destination port' = dest
    \<and> \<not> ip_tempowner port' \<and> ip_references port' = ip_references port"
  using assms by (simp add: joined_def in_transit_def in_limbo_def ip_active_def)

text \<open>The reference counts of all ports.\<close>

definition refs_of :: "kst \<Rightarrow> ptr \<rightharpoonup> 32 word" where
  "refs_of s p = map_option ip_references (ks_port s p)"

lemma refs_same: "same_but_imp s s' \<Longrightarrow> refs_of s' = refs_of s"
  unfolding refs_of_def by (rule ext) (erule same_map, erule noimp_sel(3))

lemma joined_wf:
  assumes "transit_wf E s" "ks_port s p = Some port" "in_limbo port" "ks_port s dest = Some dport" "dest \<noteq> IP_NULL"
  shows "transit_wf E (joined p port dest dport s)"
proof -
  have "transit_wf E (klog (clear_watchport p) s)" using assms(1) by (simp add: transit_wf_def)
  then have w: "transit_wf E (put_port (klog (clear_watchport p) s) dest (dport\<lparr>ip_references := ip_references dport + 1\<rparr>))"
    using assms(4) by (intro transit_wf_put_refs) simp_all
  show ?thesis
    unfolding joined_def by (rule transit_wf_put [OF w]) (use assms(3) in \<open>simp_all add: in_limbo_def\<close>)
qed

lemma not_circular_joins:
  assumes wf: "transit_wf E s" "chains_ok s" and chain: "transit_chain s dest ds base" "base \<noteq> p"
    and p: "ks_port s p = Some port" "in_limbo port" and dest: "ks_port s dest = Some dport" "refs_ok (ip_references dport)" "dest \<noteq> IP_NULL"
    and held: "ip_imp_task port \<noteq> 0 \<or> 0 < ip_impcount port \<longrightarrow> held"
    and took: "took \<longrightarrow> (\<forall>b. ks_port s base = Some b \<longrightarrow>
      refs_ok (ip_references b) \<and> refs_ok (ip_references b + 1) \<and> ip_references b \<noteq> 1)"
  shows "\<exists>s'. not_circular E p dest base took held s = Some s' \<and> transit_wf E s' \<and> chains_ok s'
    \<and> transit s' = (transit s)(p \<mapsto> dest) \<and> (\<forall>x. refs_of s' x = map_option (\<lambda>r. r + (if x = dest then 1 else 0)
        - (if took \<and> x = base then 1 else 0)) (refs_of s x))"
proof -
  let ?j = "joined p port dest dport s"
  have npt: "\<not> in_transit port" using p(2) by (simp add: in_limbo_def in_transit_def)
  have pd: "p \<notin> set ds" using transit_chain_in_transit [OF chain(1)] p(1) npt by fastforce
  have nd: "dest \<noteq> p"
  proof
    assume "dest = p"
    then have "transit_chain s dest [] dest" using transit_chain.base [OF p(1) npt] by simp
    then show False using transit_chain_unique [OF chain(1)] chain(2) \<open>dest = p\<close> by blast
  qed
  note jl = joined_links [OF dest(1)]
  have jc: "transit_chain ?j dest ds base"
    by (rule transit_chain_links [OF chain(1)], rule jl) (use pd chain(2) in auto)
  have jt: "took \<longrightarrow> (\<forall>b. ks_port ?j base = Some b \<longrightarrow> refs_ok (ip_references b) \<and> ip_references b \<noteq> 1)"
    using took chain(2) dest(1) by (auto simp: joined_def refs_ok_def)
  obtain s4 b s' where r: "not_circular E p dest base took held s = Some s'" "same_but_imp ?j s4" "ks_port s4 base = Some b"
      "ks_space s' = ks_space s4"
      "ks_port s' = (if took then (ks_port s4)(base \<mapsto> b\<lparr>ip_references := ip_references b - 1\<rparr>) else ks_port s4)"
    using not_circular_ok [OF joined_wf [OF wf(1) p dest(1,3)] jc p dest(1,2) held jt] by blast
  have "links s' x = links s4 x" for x using r(3,5) by (simp add: links_def link_def)
  then have l: "links s' = links ?j" using links_same [OF r(2)] by auto
  have "transit_wf E s4" by (rule transit_wf_same [OF joined_wf [OF wf(1) p dest(1,3)] r(2)])
  then have "transit_wf E (put_port s4 base (b\<lparr>ip_references := ip_references b - 1\<rparr>))" "transit_wf E s4"
    using transit_wf_put_refs r(3) by blast+
  then have w': "transit_wf E s'"
    using r(4,5) transit_wf_cong [of s' "put_port s4 base (b\<lparr>ip_references := ip_references b - 1\<rparr>)" E]
      transit_wf_cong [of s' s4 E] by (cases took) simp_all
  obtain j where j: "ks_port ?j p = Some j" "in_transit j" "ip_destination j = dest"
    using joined_port [OF p(2) dest(3)] by blast
  obtain q where q0: "ks_port s' p = Some q" "link q = link j" using links_port [OF l j(1)] by blast
  then have q: "ks_port s' p = Some q" "in_transit q" "ip_destination q = dest"
    using j in_transit_link [OF q0(2)] by (simp_all add: link_def)
  have c': "chains_ok s'"
    by (rule chains_ok_link [OF wf(2) chain p(1) npt q]) (simp add: l jl)
  have t': "transit s' x = ((transit s)(p \<mapsto> dest)) x" for x
    using q transit_links [of s' x s] l jl [of x] by (cases "x = p") (auto simp: transit_def)
  have "refs_of s' x = map_option (\<lambda>r. r + (if x = dest then 1 else 0) - (if took \<and> x = base then 1 else 0)) (refs_of s x)" for x
  proof -
    have 1: "refs_of ?j x = map_option (\<lambda>r. r + (if x = dest then 1 else 0)) (refs_of s x)"
      using p(1) dest(1) nd by (auto simp: refs_of_def joined_def option.map_ident)
    have 2: "refs_of s' x = map_option (\<lambda>r. r - (if took \<and> x = base then 1 else 0)) (refs_of s4 x)"
      using r(3,5) by (auto simp: refs_of_def option.map_ident)
    show ?thesis unfolding 2 refs_same [OF r(2)] 1 by (simp add: option.map_comp comp_def)
  qed
  then show ?thesis using r(1) w' c' t' by (auto simp: fun_eq_iff)
qed

lemma transit_chain_klog [simp]: "transit_chain (klog e s) p ps base = transit_chain s p ps base"
  by (auto intro: transit_chain_links simp: links_def)

lemma klog_transit [simp]:
  "transit_wf E (klog e s) = transit_wf E s" "chains_ok (klog e s) = chains_ok s" "transit (klog e s) = transit s"
  "refs_of (klog e s) = refs_of s"
  by (simp_all add: transit_wf_def chains_ok_def transit_def refs_of_def fun_eq_iff)

lemma put_refs_transit:
  fixes r
  assumes "ks_port s q = Some port"
  defines "s' \<equiv> put_port s q (port\<lparr>ip_references := r\<rparr>)"
  shows "transit_chain s x ps base \<Longrightarrow> transit_chain s' x ps base" "chains_ok s \<Longrightarrow> chains_ok s'" "transit s' = transit s"
proof -
  have l: "links s' x = links s x" for x using assms by (simp add: links_def link_def)
  have d: "dom (ks_port s') = dom (ks_port s)" using assms by auto
  show 1: "transit_chain s x ps base \<Longrightarrow> transit_chain s' x ps base" for x ps base
    by (rule transit_chain_links) (simp_all add: l)
  show "chains_ok s \<Longrightarrow> chains_ok s'" using 1 d unfolding chains_ok_def by blast
  show "transit s' = transit s" using transit_links [OF l] by auto
qed

lemma check_circularity_slow:
  assumes wf: "transit_wf E s" "chains_ok s"
    and p: "ks_port s p = Some port" "in_limbo port" "p \<noteq> IP_NULL" and dest: "ks_port s dest = Some dport" "dest \<noteq> IP_NULL"
    and chain: "transit_chain s dest ds base" and b: "ks_port s base = Some b" and rr: "refs_room 2 b" "refs_room 2 dport"
    and 4: "base \<noteq> p" "\<not> (quick \<and> \<not> in_transit dport)"
  shows "\<exists>s'. ipc_port_check_circularity E quick p dest s = Some (False, s') \<and> transit_wf E s' \<and> chains_ok s'
    \<and> transit s' = (transit s)(p \<mapsto> dest)
    \<and> (\<forall>x. refs_of s' x = map_option (\<lambda>r. if x = dest then r + 1 else r) (refs_of s x))"
proof -
  let ?s = "klog (send_turnstile_prepare dest) s"
  have npt: "\<not> in_transit port" using p(2) by (simp add: in_limbo_def in_transit_def)
  have rd: "refs_ok (ip_references dport)" "refs_ok (ip_references dport + 1)" and rb: "refs_ok (ip_references b)"
      "refs_ok (ip_references b + 1)" "refs_ok (ip_references b + 1 + 1)"
    using refs_room_ok(1) [OF rr(1), of 0] refs_room_ok(1) [OF rr(1), of 1] refs_room_ok(1) [OF rr(1), of 2]
      refs_room_ok(1) [OF rr(2), of 0] refs_room_ok(1) [OF rr(2), of 1] by (simp_all add: add.assoc)
  have w: "transit_wf E ?s" "chains_ok ?s" "transit_chain ?s dest ds base" using wf chain by simp_all
  have nd: "p \<noteq> dest" using 4(1) transit_chain_unique [OF chain] transit_chain.base [OF p(1) npt] by auto
  define s1 where "s1 = (if ip_active b then ?s else put_port ?s base (b\<lparr>ip_references := ip_references b + 1\<rparr>))"
  have kb: "ks_port ?s base = Some b" using b by simp
  have w1: "transit_wf E s1" "chains_ok s1" "transit_chain s1 dest ds base" "transit s1 = transit s" "ks_port s1 p = Some port"
    using w transit_wf_put_refs [OF w(1) kb] put_refs_transit [OF kb] 4(1) p(1) by (simp_all add: s1_def)
  obtain d1 where d1: "ks_port s1 dest = Some d1" "refs_ok (ip_references d1)"
    using dest(1) rd rb b by (cases "dest = base \<and> \<not> ip_active b") (auto simp: s1_def)
  have took: "\<not> ip_active b \<longrightarrow> (\<forall>c. ks_port s1 base = Some c \<longrightarrow>
      refs_ok (ip_references c) \<and> refs_ok (ip_references c + 1) \<and> ip_references c \<noteq> 1)"
    using rb by (auto simp: s1_def refs_ok_def)
  obtain s' where s': "not_circular E p dest base (\<not> ip_active b) True s1 = Some s'"
      "transit_wf E s'" "chains_ok s'" "transit s' = (transit s1)(p \<mapsto> dest)"
      "\<forall>x. refs_of s' x = map_option (\<lambda>r. r + (if x = dest then 1 else 0)
          - (if \<not> ip_active b \<and> x = base then 1 else 0)) (refs_of s1 x)"
    using not_circular_joins [OF w1(1-3) 4(1) w1(5) p(2) d1 dest(2) _ took, of True] by auto
  have r1: "refs_of s1 x = map_option (\<lambda>r. if \<not> ip_active b \<and> x = base then r + 1 else r) (refs_of s x)" for x
    using b by (simp add: s1_def refs_of_def option.map_ident)
  have "ipc_port_check_circularity E quick p dest s = Some (False, s')"
    using 4 nd p dest s'(1) chain_lock_eq [OF w(3) kb rr(1)]
    by (auto simp: ipc_port_check_circularity_def in_transit_def Let_def s1_def [symmetric])
  moreover have "refs_of s' x = map_option (\<lambda>r. if x = dest then r + 1 else r) (refs_of s x)" for x
    by (simp add: s'(5) r1 option.map_comp comp_def cong: if_cong)
  ultimately show ?thesis using s'(2-4) w1(4) by (intro exI [of _ s']) simp
qed

text \<open>
  C9. The circularity check on a port in limbo and a destination, in a kernel whose chains are all finite: it
  returns; it reports a circle exactly when the chain of the destination ends at the port itself; a
  circle leaves every port as it was; otherwise the port joins the chain, the destination
  gains exactly one reference and every chain of the kernel is still finite.
\<close>

theorem ipc_port_check_circularity_correct:
  assumes wf: "transit_wf E s" "chains_ok s"
    and p: "ks_port s p = Some port" "in_limbo port" "p \<noteq> IP_NULL" and dest: "ks_port s dest = Some dport" "dest \<noteq> IP_NULL"
    and refs: "\<forall>q port. ks_port s q = Some port \<longrightarrow> refs_room 2 port"
  shows "\<exists>circular s'. ipc_port_check_circularity E quick p dest s = Some (circular, s')
    \<and> (circular \<longleftrightarrow> (\<exists>ps. transit_chain s dest ps p)) \<and> transit_wf E s' \<and> chains_ok s'
    \<and> (circular \<longrightarrow> ks_port s' = ks_port s)
    \<and> (\<not> circular \<longrightarrow> transit s' = (transit s)(p \<mapsto> dest)
        \<and> (\<forall>x. refs_of s' x = map_option (\<lambda>r. if x = dest then r + 1 else r) (refs_of s x)))"
proof -
  let ?s = "klog (send_turnstile_prepare dest) s"
  have npt: "\<not> in_transit port" using p(2) by (simp add: in_limbo_def in_transit_def)
  obtain ds base where chain: "transit_chain s dest ds base" using wf(2) dest(1) unfolding chains_ok_def by blast
  obtain b where b: "ks_port s base = Some b" "\<not> in_transit b" using transit_chain_base [OF chain] by blast
  have circ: "(\<exists>ps. transit_chain s dest ps p) \<longleftrightarrow> base = p" using chain transit_chain_unique by blast
  have rr: "refs_room 2 b" "refs_room 2 dport" using refs b(1) dest(1) by blast+
  have rd: "refs_ok (ip_references dport)" using refs_room_0 [OF rr(2)] .
  have w: "transit_wf E ?s" "chains_ok ?s" "transit_chain ?s dest ds base" using wf chain by simp_all
  consider "base = p" "p = dest" | "base = p" "p \<noteq> dest" | "base \<noteq> p" "quick" "\<not> in_transit dport"
    | "base \<noteq> p" "\<not> (quick \<and> \<not> in_transit dport)" by blast
  then show ?thesis
  proof cases
    case 1
    then show ?thesis
      using wf circ p(3) by (intro exI [of _ True] exI [of _ s]) (simp add: ipc_port_check_circularity_def)
  next
    case 2
    have "in_transit dport"
      using chain 2 dest(1) by (cases rule: transit_chain.cases) auto
    then have q: "ip_active dport" "ip_receiver_name dport = MACH_PORT_NULL" "ip_destination dport \<noteq> IP_NULL"
      by (simp_all add: in_transit_def)
    have "ip_active port" "ip_receiver_name port = MACH_PORT_NULL" "ip_destination port = IP_NULL"
      using p(2) by (simp_all add: in_limbo_def)
    then show ?thesis
      using 2 q p dest b wf circ chain_lock_eq [OF w(3) _ rr(1)] circular_unlock_ok [of ?s dest ds p port] w(3)
      by (intro exI [of _ True] exI [of _ "klog (send_turnstile_complete dest) ?s"])
        (simp add: ipc_port_check_circularity_def require_ip_active_def Let_def)
  next
    case 3
    then have "base = dest" using chain transit_chain_unique transit_chain.base [OF dest(1)] by blast
    moreover obtain s' where "not_circular E p dest dest False (ip_impdonation port \<or> 0 < ip_impcount port) ?s = Some s'"
        "transit_wf E s'" "chains_ok s'" "transit s' = (transit ?s)(p \<mapsto> dest)"
        "\<forall>x. refs_of s' x = map_option (\<lambda>r. r + (if x = dest then 1 else 0) - (if False \<and> x = dest then 1 else 0)) (refs_of ?s x)"
      using not_circular_joins [OF w(1,2), of dest ds dest p port dport "ip_impdonation port \<or> 0 < ip_impcount port" False]
        w(3) 3(1) calculation p dest rd by (auto simp: in_limbo_def)
    ultimately show ?thesis
      using 3 p dest circ by (intro exI [of _ False] exI [of _ s'])
        (auto simp: ipc_port_check_circularity_def in_transit_def Let_def if_distrib [of "(+) _"] cong: if_cong)
  next
    case 4
    then show ?thesis using check_circularity_slow [OF wf p dest chain b(1) rr 4] circ by auto
  qed
qed

text \<open>
  An example: a dead port, a port in transit to it, and a port in limbo.
\<close>

definition dead_port :: ipc_port where
  "dead_port = zero_port\<lparr>ip_references := 2\<rparr>"

definition transit_port :: ipc_port where
  "transit_port = zero_port\<lparr>ip_references := 3, ip_io_bits := IO_BITS_ACTIVE, ip_data := 0x1000\<rparr>"

definition limbo_port :: ipc_port where
  "limbo_port = zero_port\<lparr>ip_references := 3, ip_io_bits := IO_BITS_ACTIVE, ip_tempowner := True, ip_impcount := 1\<rparr>"

definition transit_kst :: kst where
  "transit_kst = put_port (put_port (put_port empty_kst 0x1000 dead_port) 0x2000 transit_port) 0x3000 limbo_port"

lemma example_active_bits [simp]: "ip_active dead_port = False" "ip_active transit_port" "ip_active limbo_port"
  by (simp_all add: dead_port_def transit_port_def limbo_port_def zero_port_def ip_active_def io_active_def IO_BITS_ACTIVE_def)

lemma example_in_transit [simp]: "\<not> in_transit dead_port" "in_transit transit_port" "\<not> in_transit limbo_port" "in_limbo limbo_port"
  by (simp_all add: in_transit_def in_limbo_def, simp_all add: transit_port_def limbo_port_def zero_port_def IP_NULL_def MACH_PORT_NULL_def)

lemma transit_kst_ports:
  "ks_port transit_kst 0x1000 = Some dead_port" "ks_port transit_kst 0x2000 = Some transit_port" "ks_port transit_kst 0x3000 = Some limbo_port"
  "dom (ks_port transit_kst) = {0x1000, 0x2000, 0x3000}"
  by (auto simp: transit_kst_def empty_kst_def)

lemma transit_kst_ok:
  "transit_wf E transit_kst" "chains_ok transit_kst" "\<forall>q port. ks_port transit_kst q = Some port \<longrightarrow> refs_room 2 port"
  "transit_chain transit_kst 0x2000 [0x2000] 0x1000"
proof -
  note p = transit_kst_ports
  have d: "port = dead_port \<or> port = transit_port \<or> port = limbo_port" if "ks_port transit_kst q = Some port" for q port
  proof -
    have "q \<in> {0x1000, 0x2000, 0x3000}" using that p(4) by blast
    then show ?thesis using that p(1-3) by auto
  qed
  have "\<not> ip_tempowner transit_port" "ip_imp_task limbo_port = 0" "\<not> ip_tempowner dead_port" "ip_receiver_name transit_port = MACH_PORT_NULL"
      "ip_receiver_name limbo_port = MACH_PORT_NULL"
    by (simp_all add: transit_port_def limbo_port_def dead_port_def zero_port_def MACH_PORT_NULL_def)
  then show "transit_wf E transit_kst" unfolding transit_wf_def using d by fastforce
  have "refs_room 2 dead_port" "refs_room 2 transit_port" "refs_room 2 limbo_port"
    by (simp_all add: refs_room_def dead_port_def transit_port_def limbo_port_def IO_MAX_REFERENCES_def)
  then show "\<forall>q port. ks_port transit_kst q = Some port \<longrightarrow> refs_room 2 port" using d by blast
  have c: "transit_chain transit_kst 0x1000 [] 0x1000" "transit_chain transit_kst 0x3000 [] 0x3000"
    by (rule transit_chain.base [OF p(1)], simp, rule transit_chain.base [OF p(3)], simp)
  show c2: "transit_chain transit_kst 0x2000 [0x2000] 0x1000"
    by (rule transit_chain.step [OF p(2) example_in_transit(2)]) (use c(1) in \<open>simp add: transit_port_def\<close>)
  show "chains_ok transit_kst" unfolding chains_ok_def p(4) using c c2 by blast
qed

theorem ipc_port_destination_chain_lock_returns_witness:
  "ipc_port_destination_chain_lock 0x2000 transit_kst = Some ((True, 0x1000),
       put_port transit_kst 0x1000 (dead_port\<lparr>ip_references := 3\<rparr>))"
proof -
  have "\<forall>q port. ks_port transit_kst q = Some port \<longrightarrow> refs_room 1 port"
    using transit_kst_ok(3) refs_room_mono [of 2 _ 1] by simp
  from ipc_port_destination_chain_lock_returns [OF this, of "0x2000"]
  have "ipc_port_destination_chain_lock 0x2000 transit_kst = Some ((\<not> ip_active dead_port, 0x1000),
      if ip_active dead_port then transit_kst else put_port transit_kst 0x1000 (dead_port\<lparr>ip_references := ip_references dead_port + 1\<rparr>))"
    using transit_kst_ok(4) transit_kst_ports(1) by blast
  moreover have "ip_references dead_port + 1 = 3" by (simp add: dead_port_def)
  ultimately show ?thesis by simp
qed

theorem ipc_port_check_circularity_correct_witness:
  "\<exists>s'. ipc_port_check_circularity example_env True 0x3000 0x2000 transit_kst = Some (False, s') \<and> chains_ok s'
    \<and> transit s' 0x3000 = Some 0x2000"
proof -
  have "\<not> (\<exists>ps. transit_chain transit_kst 0x2000 ps 0x3000)"
  proof
    assume "\<exists>ps. transit_chain transit_kst 0x2000 ps 0x3000"
    then have "(0x3000 :: ptr) = 0x1000" using transit_chain_unique [OF transit_kst_ok(4)] by blast
    then show False by simp
  qed
  with ipc_port_check_circularity_correct [OF transit_kst_ok(1,2) transit_kst_ports(3) _ _ transit_kst_ports(2) _ transit_kst_ok(3),
      of example_env True]
  show ?thesis by (auto simp: IP_NULL_def)
qed

end
