(* ===== verification/Ipc_Rights.thy ===== *)
theory Ipc_Rights
  imports Ipc_Right Ipc_Transit
begin

text \<open>
  The invariant of rights. \<open>rights s\<close> is the abstract content of all active spaces: which name of
  which space denotes a right to which object. \<open>rights_ok\<close> relates it to the ports: every right
  refers to an object that exists, receive rights and ports point to each other, the send, send-once and reference
  counts of a port cover the rights that spaces hold to it (the surplus are rights in messages and in
  the kernel), and registered requests belong to the rights that carry their index.

  The operations of \<open>ipc_right.c\<close> work on one entry of one space at a time. \<open>entry_at\<close> describes the
  spaces in the middle of such an operation; each primitive step has a lemma that it cannot fail there and what it changes.
\<close>

section \<open>One entry of one space\<close>

text \<open>
  \<open>entry_at S0 q i e xs pend H S\<close>: the spaces \<open>S\<close> differ from \<open>S0\<close> in the space \<open>q\<close> only, which is active and
  well formed (see \<open>space_inv\<close>), whose entry \<open>i\<close> is \<open>e\<close> and whose other entries look as in \<open>S0\<close>.
\<close>

definition entry_at ::
  "(ptr \<rightharpoonup> ipc_space) \<Rightarrow> ptr \<Rightarrow> nat \<Rightarrow> ipc_entry \<Rightarrow> nat list \<Rightarrow> nat set \<Rightarrow> nat set \<Rightarrow> (ptr \<rightharpoonup> ipc_space) \<Rightarrow> bool" where
  "entry_at S0 q i e xs pend H S \<longleftrightarrow> (\<exists>sp0 sp. S0 q = Some sp0 \<and> S = S0(q \<mapsto> sp) \<and> space_inv sp xs pend H
     \<and> space_frame {i} sp0 sp \<and> is_active sp \<and> 0 < i \<and> i < length (is_table sp) \<and> i \<notin> set xs \<and> is_table sp ! i = e)"

lemma entry_at_start:
  assumes "S q = Some sp" "space_ok sp xs {}" "is_active sp" "0 < i" "i < length (is_table sp)"
    "entry_type (is_table sp) i \<noteq> MACH_PORT_TYPE_NONE"
  shows "entry_at S q i (is_table sp ! i) xs {} (send_entries (is_table sp)) S"
  unfolding entry_at_def
  using assms space_inv_types [of sp xs "{}" "send_entries (is_table sp)" i]
  by (intro exI [of _ sp]) (auto simp: space_ok_def map_upd_triv)

lemma get_entry_at: "entry_at S0 q i e xs pend H (ks_space s) \<Longrightarrow> get_entry q i s = Some e"
  by (auto simp: entry_at_def get_entry_def)

lemma assert_active_at: "entry_at S0 q i e xs pend H (ks_space s) \<Longrightarrow> assert_active q s = Some ()"
  by (auto simp: entry_at_def assert_active_def)

lemma on_space_at:
  assumes "entry_at S0 q i e xs pend H (ks_space s)"
    and "\<And>sp0 sp. S0 q = Some sp0 \<Longrightarrow> space_inv sp xs pend H \<Longrightarrow> space_frame {i} sp0 sp \<Longrightarrow> is_active sp \<Longrightarrow> 0 < i \<Longrightarrow>
      i < length (is_table sp) \<Longrightarrow> i \<notin> set xs \<Longrightarrow> is_table sp ! i = e \<Longrightarrow>
      \<exists>sp' e'. f sp = Some sp' \<and> space_inv sp' xs' pend' H' \<and> space_frame {i} sp sp' \<and> i \<notin> set xs'
        \<and> is_table sp' ! i = e' \<and> P e'"
  shows "\<exists>S e'. on_space f q s = Some (s\<lparr>ks_space := S\<rparr>) \<and> entry_at S0 q i e' xs' pend' H' S \<and> P e'"
proof -
  obtain sp0 sp where sp: "S0 q = Some sp0" "ks_space s = S0(q \<mapsto> sp)" "space_inv sp xs pend H" "space_frame {i} sp0 sp"
      "is_active sp" "0 < i" "i < length (is_table sp)" "i \<notin> set xs" "is_table sp ! i = e"
    using assms(1) by (auto simp: entry_at_def)
  obtain sp' e' where sp': "f sp = Some sp'" "space_inv sp' xs' pend' H'" "space_frame {i} sp sp'" "i \<notin> set xs'"
      "is_table sp' ! i = e'" "P e'"
    using assms(2) [OF sp(1,3-9)] by blast
  have fr: "space_frame {i} sp0 sp'" using space_frame_trans [OF sp(4) sp'(3)] by blast
  have len: "length (is_table sp') = length (is_table sp)" using sp'(3) by (simp add: space_frame_def)
  have "entry_at S0 q i e' xs' pend' H' (S0(q \<mapsto> sp'))"
    unfolding entry_at_def using sp sp' fr len space_frame_active [OF sp'(3)] by auto
  moreover have "on_space f q s = Some (s\<lparr>ks_space := S0(q \<mapsto> sp')\<rparr>)"
    using sp(2) sp'(1) by (simp add: on_space_def put_space_def)
  ultimately show ?thesis using sp'(6) by blast
qed

lemma set_entry_at:
  assumes "entry_at S0 q i e xs pend H (ks_space s)"
    and "ie_index e' = ie_index e" "ie_dist e' = ie_dist e" "i \<in> H \<longrightarrow> ie_object e' = ie_object e"
    and "pend' = (if IE_BITS_TYPE (ie_bits e') = MACH_PORT_TYPE_NONE then insert i pend else pend - {i})"
  shows "\<exists>S. set_entry q i e' s = Some (s\<lparr>ks_space := S\<rparr>) \<and> entry_at S0 q i e' xs pend' H S"
proof -
  have "\<exists>S e''. on_space (\<lambda>sp. do { t \<leftarrow> arr_set (is_table sp) i e'; Some (sp\<lparr>is_table := t\<rparr>) }) q s = Some (s\<lparr>ks_space := S\<rparr>)
      \<and> entry_at S0 q i e'' xs pend' H S \<and> e'' = e'"
  proof (rule on_space_at [OF assms(1)])
    fix sp0 sp
    assume sp: "space_inv sp xs pend H" "0 < i" "i < length (is_table sp)" "i \<notin> set xs" "is_table sp ! i = e"
    show "\<exists>sp' e''. (do { t \<leftarrow> arr_set (is_table sp) i e'; Some (sp\<lparr>is_table := t\<rparr>) }) = Some sp' \<and> space_inv sp' xs pend' H
        \<and> space_frame {i} sp sp' \<and> i \<notin> set xs \<and> is_table sp' ! i = e'' \<and> e'' = e'"
      using space_inv_update [OF sp(1-4), of e' pend'] sp assms(2-5) by auto
  qed
  then show ?thesis by (simp add: set_entry_def)
qed

lemma entry_modified_at:
  assumes "entry_at S0 q i e xs pend H (ks_space s)" "MACH_PORT_INDEX name = i"
  shows "\<exists>S. entry_modified q name i s = Some (s\<lparr>ks_space := S\<rparr>) \<and> entry_at S0 q i e xs pend H S"
proof -
  have "\<exists>S e'. on_space (\<lambda>sp. ipc_entry_modified sp name i) q s = Some (s\<lparr>ks_space := S\<rparr>)
      \<and> entry_at S0 q i e' xs pend H S \<and> e' = e"
  proof (rule on_space_at [OF assms(1)])
    fix sp0 sp
    assume sp: "space_inv sp xs pend H" "i < length (is_table sp)" "i \<notin> set xs" "is_table sp ! i = e"
    then show "\<exists>sp' e'. ipc_entry_modified sp name i = Some sp' \<and> space_inv sp' xs pend H
        \<and> space_frame {i} sp sp' \<and> i \<notin> set xs \<and> is_table sp' ! i = e' \<and> e' = e"
      using ipc_entry_modified_ok [OF sp(1) assms(2) sp(2)] space_frame_trans [of "{}" sp sp "{}" _ "{i}"]
      by (fastforce simp: space_frame_def)
  qed
  then show ?thesis by (simp add: entry_modified_def)
qed

lemma hash_insert_at:
  assumes "entry_at S0 q i e xs pend H (ks_space s)" "MACH_PORT_INDEX name = i" "i \<notin> H" "ie_object e = p" "p \<noteq> IO_NULL"
    and new: "\<And>sp. ks_space s q = Some sp \<Longrightarrow> \<forall>j \<in> H. ie_object (is_table sp ! j) \<noteq> p"
  shows "\<exists>S e'. hash_insert q p name s = Some (s\<lparr>ks_space := S\<rparr>) \<and> entry_at S0 q i e' xs pend (insert i H) S \<and> vis e' = vis e"
proof -
  obtain sp0 sp where sp: "S0 q = Some sp0" "ks_space s = S0(q \<mapsto> sp)" "space_inv sp xs pend H" "space_frame {i} sp0 sp"
      "is_active sp" "0 < i" "i < length (is_table sp)" "i \<notin> set xs" "is_table sp ! i = e"
    using assms(1) by (auto simp: entry_at_def)
  obtain sp' where sp': "ipc_hash_insert sp p name = Some sp'" "space_inv sp' xs pend (insert i H)" "space_frame {} sp sp'"
    using ipc_hash_insert_ok [OF sp(3) assms(2) sp(6,7) assms(3), of p] assms(4,5) new sp(2,9) by auto
  have fr: "space_frame {i} sp0 sp'" "length (is_table sp') = length (is_table sp)" "vis (is_table sp' ! i) = vis e"
    using space_frame_trans [OF sp(4) sp'(3)] sp'(3) sp(6,7,9) by (auto simp: space_frame_def)
  have "entry_at S0 q i (is_table sp' ! i) xs pend (insert i H) (S0(q \<mapsto> sp'))"
    unfolding entry_at_def using sp sp' fr space_frame_active [OF sp'(3)] by auto
  moreover have "hash_insert q p name s = Some (s\<lparr>ks_space := S0(q \<mapsto> sp')\<rparr>)"
    using sp(2) sp'(1) by (simp add: hash_insert_def on_space_def put_space_def)
  ultimately show ?thesis using fr(3) by blast
qed

lemma hash_delete_at:
  assumes "entry_at S0 q i e xs pend H (ks_space s)" "MACH_PORT_INDEX name = i" "i \<in> H" "ie_object e = p"
  shows "\<exists>S e'. hash_delete q p name s = Some (s\<lparr>ks_space := S\<rparr>) \<and> entry_at S0 q i e' xs pend (H - {i}) S \<and> vis e' = vis e"
  unfolding hash_delete_def
proof (rule on_space_at [OF assms(1)])
  fix sp0 sp
  assume sp: "space_inv sp xs pend H" "0 < i" "i < length (is_table sp)" "i \<notin> set xs" "is_table sp ! i = e"
  obtain sp' where sp': "ipc_hash_delete sp p name = Some sp'" "space_inv sp' xs pend (H - {i})" "space_frame {} sp sp'"
    using ipc_hash_delete_ok [OF sp(1) assms(2,3), of p] assms(4) sp(5) by blast
  then show "\<exists>sp' e'. ipc_hash_delete sp p name = Some sp' \<and> space_inv sp' xs pend (H - {i}) \<and> space_frame {i} sp sp'
      \<and> i \<notin> set xs \<and> is_table sp' ! i = e' \<and> vis e' = vis e"
    using sp by (auto simp: space_frame_def)
qed

text \<open>The entry was deallocated and heads the free list.\<close>

definition entry_freed ::
  "(ptr \<rightharpoonup> ipc_space) \<Rightarrow> ptr \<Rightarrow> nat \<Rightarrow> nat list \<Rightarrow> nat set \<Rightarrow> nat set \<Rightarrow> (ptr \<rightharpoonup> ipc_space) \<Rightarrow> bool" where
  "entry_freed S0 q i xs pend H S \<longleftrightarrow> (\<exists>sp0 sp. S0 q = Some sp0 \<and> S = S0(q \<mapsto> sp) \<and> space_inv sp (i # xs) pend H
     \<and> space_frame {i} sp0 sp \<and> is_active sp)"

lemma entry_dealloc_at:
  assumes "entry_at S0 q i e xs pend H (ks_space s)" "MACH_PORT_INDEX name = i"
    and "ie_object e = IO_NULL" "ie_request e = IE_REQ_NONE" "IE_BITS_GEN (ie_bits e) = MACH_PORT_GEN name"
  shows "\<exists>S. entry_dealloc q name i s = Some (s\<lparr>ks_space := S\<rparr>) \<and> entry_freed S0 q i xs (pend - {i}) H S"
proof -
  obtain sp0 sp where sp: "S0 q = Some sp0" "ks_space s = S0(q \<mapsto> sp)" "space_inv sp xs pend H" "space_frame {i} sp0 sp"
      "is_active sp" "0 < i" "i < length (is_table sp)" "i \<notin> set xs" "is_table sp ! i = e"
    using assms(1) by (auto simp: entry_at_def)
  obtain sp' where sp': "ipc_entry_dealloc sp name i = Some sp'" "space_inv sp' (i # xs) (pend - {i}) H" "space_frame {i} sp sp'"
    using ipc_entry_dealloc_ok [OF sp(3,5) assms(2) sp(6-8)] assms(3-5) sp(9) by auto
  have "entry_freed S0 q i xs (pend - {i}) H (S0(q \<mapsto> sp'))"
    unfolding entry_freed_def using sp sp' space_frame_trans [OF sp(4) sp'(3)] space_frame_active [OF sp'(3)] by auto
  moreover have "entry_dealloc q name i s = Some (s\<lparr>ks_space := S0(q \<mapsto> sp')\<rparr>)"
    using sp(2) sp'(1) by (simp add: entry_dealloc_def on_space_def put_space_def)
  ultimately show ?thesis by blast
qed

section \<open>The rights of all spaces\<close>

definition rights :: "kst \<Rightarrow> ptr \<times> nat \<rightharpoonup> ptr \<times> 32 word \<times> nat" where
  "rights s = (\<lambda>(q, i). case ks_space s q of None \<Rightarrow> None
     | Some sp \<Rightarrow> if is_active sp \<and> 0 < i \<and> i < length (is_table sp) \<and> entry_type (is_table sp) i \<noteq> MACH_PORT_TYPE_NONE
                then Some (vis (is_table sp ! i)) else None)"

text \<open>All spaces are well formed, with no claimed entry left without a type.\<close>

definition spaces_ok :: "kst \<Rightarrow> bool" where
  "spaces_ok s \<longleftrightarrow> finite (dom (ks_space s)) \<and> ks_space s 0 = None
     \<and> (\<forall>q sp. ks_space s q = Some sp \<longrightarrow> is_active sp \<longrightarrow> (\<exists>xs. space_ok sp xs {}))"

lemma rights_cong: "ks_space s' = ks_space s \<Longrightarrow> rights s' = rights s"
  by (simp add: rights_def)

lemma spaces_ok_cong: "ks_space s' = ks_space s \<Longrightarrow> spaces_ok s' = spaces_ok s"
  by (simp add: spaces_ok_def)

lemma rights_finite: "spaces_ok s \<Longrightarrow> finite (dom (rights s))"
proof -
  assume ok: "spaces_ok s"
  have "dom (rights s) \<subseteq> (\<Union>q \<in> dom (ks_space s). {q} \<times> {..<length (is_table (the (ks_space s q)))})"
    by (auto simp: rights_def split: option.splits if_splits)
  then show ?thesis by (rule finite_subset) (use ok in \<open>auto simp: spaces_ok_def\<close>)
qed

lemma rights_frame:
  assumes "S0 q = Some sp0" "is_active sp0" "space_frame {i} sp0 sp" "ks_space s0 = S0" "ks_space s = S0(q \<mapsto> sp)" "(q', j) \<noteq> (q, i)"
  shows "rights s (q', j) = rights s0 (q', j)"
proof (cases "q' = q")
  case True
  then have j: "j \<noteq> i" using assms(6) by simp
  have "is_active sp" "length (is_table sp) = length (is_table sp0)"
    using space_frame_active [OF assms(3)] assms(2,3) by (simp_all add: space_frame_def)
  moreover have "0 < j \<Longrightarrow> j < length (is_table sp0) \<Longrightarrow> vis (is_table sp ! j) = vis (is_table sp0 ! j)"
    using assms(3) j by (simp add: space_frame_def)
  ultimately show ?thesis using True assms(1,2,4,5) by (auto simp: rights_def entry_type_def vis_def)
qed (use assms in \<open>simp add: rights_def\<close>)

text \<open>The hashed entries of a space outside operations: its pure send rights.\<close>

definition sends_of :: "(ptr \<rightharpoonup> ipc_space) \<Rightarrow> ptr \<Rightarrow> nat set" where
  "sends_of S q = (case S q of None \<Rightarrow> {} | Some sp \<Rightarrow> send_entries (is_table sp))"

lemma entry_begin:
  assumes "spaces_ok s" "rights s (q, i) = Some (obj, b, r)"
  shows "\<exists>e xs. entry_at (ks_space s) q i e xs {} (sends_of (ks_space s) q) (ks_space s)
    \<and> ie_object e = obj \<and> ie_bits e = b \<and> ie_request e = r"
    and "IE_BITS_TYPE b \<noteq> MACH_PORT_TYPE_NONE" and "i \<in> sends_of (ks_space s) q \<longleftrightarrow> IE_BITS_TYPE b = MACH_PORT_TYPE_SEND"
    and "q \<noteq> 0"
proof -
  obtain sp where sp: "ks_space s q = Some sp" "is_active sp" "0 < i" "i < length (is_table sp)"
      "entry_type (is_table sp) i \<noteq> MACH_PORT_TYPE_NONE" "vis (is_table sp ! i) = (obj, b, r)"
    using assms(2) by (auto simp: rights_def split: option.splits if_splits)
  obtain xs where "space_ok sp xs {}" using assms(1) sp(1,2) by (auto simp: spaces_ok_def)
  from entry_at_start [of "ks_space s", OF sp(1) this sp(2-5)] sp(1,6)
  show "\<exists>e xs. entry_at (ks_space s) q i e xs {} (sends_of (ks_space s) q) (ks_space s)
      \<and> ie_object e = obj \<and> ie_bits e = b \<and> ie_request e = r"
    by (auto simp: sends_of_def vis_def)
  show "IE_BITS_TYPE b \<noteq> MACH_PORT_TYPE_NONE" "i \<in> sends_of (ks_space s) q \<longleftrightarrow> IE_BITS_TYPE b = MACH_PORT_TYPE_SEND"
    using sp by (auto simp: entry_type_def vis_def sends_of_def send_entries_def)
  show "q \<noteq> 0" using assms(1) sp(1) by (auto simp: spaces_ok_def)
qed

lemma send_entries_change:
  assumes "space_inv sp0 xs0 pend0 H0" "space_inv sp xs pend H" "space_frame {i} sp0 sp" "0 < i" "i < length (is_table sp)"
  shows "send_entries (is_table sp) = (send_entries (is_table sp0) - {i}) \<union>
    (if entry_type (is_table sp) i = MACH_PORT_TYPE_SEND then {i} else {})"
proof -
  have len: "length (is_table sp) = length (is_table sp0)" using assms(3) by (simp add: space_frame_def)
  have t: "entry_type (is_table sp) j = entry_type (is_table sp0) j" if "j < length (is_table sp0)" "j \<noteq> i" for j
    using space_frameD [OF assms(3), of j] that space_invD(10) [OF assms(1)] space_invD(10) [OF assms(2)]
    by (cases "j = 0") (auto simp: entry_type_def)
  show ?thesis
  proof (rule set_eqI)
    fix j show "j \<in> send_entries (is_table sp) \<longleftrightarrow> j \<in> (send_entries (is_table sp0) - {i}) \<union>
        (if entry_type (is_table sp) i = MACH_PORT_TYPE_SEND then {i} else {})"
      using t [of j] len assms(5) by (cases "j = i") (auto simp: send_entries_def)
  qed
qed

lemma entry_done:
  assumes ok: "spaces_ok s0" and e: "entry_at (ks_space s0) q i e xs {} H (ks_space s)"
    and type: "IE_BITS_TYPE (ie_bits e) \<noteq> MACH_PORT_TYPE_NONE"
    and H: "H = (sends_of (ks_space s0) q - {i}) \<union> (if IE_BITS_TYPE (ie_bits e) = MACH_PORT_TYPE_SEND then {i} else {})"
  shows "spaces_ok s" "rights s = (rights s0)((q, i) \<mapsto> vis e)"
proof -
  obtain sp0 sp where sp: "ks_space s0 q = Some sp0" "ks_space s = (ks_space s0)(q \<mapsto> sp)" "space_inv sp xs {} H" "space_frame {i} sp0 sp"
      "is_active sp" "0 < i" "i < length (is_table sp)" "is_table sp ! i = e"
    using e by (auto simp: entry_at_def)
  have act: "is_active sp0" using sp(5) space_frame_active [OF sp(4)] by simp
  obtain xs0 where ok0: "space_ok sp0 xs0 {}" using ok sp(1) act by (auto simp: spaces_ok_def)
  have "send_entries (is_table sp) = H"
    using send_entries_change [OF ok0 [unfolded space_ok_def] sp(3,4,6,7)] H sp(1,8) by (simp add: sends_of_def entry_type_def)
  then have "space_ok sp xs {}" using sp(3) by (simp add: space_ok_def)
  then show "spaces_ok s" using ok sp(1,2) by (auto simp: spaces_ok_def)
  have "rights s (q', j) = ((rights s0)((q, i) \<mapsto> vis e)) (q', j)" for q' j
    using rights_frame [OF sp(1) act sp(4) refl sp(2), of q' j] sp type
    by (cases "(q', j) = (q, i)") (auto simp: rights_def entry_type_def)
  then show "rights s = (rights s0)((q, i) \<mapsto> vis e)" by auto
qed

lemma entry_freed_done:
  assumes ok: "spaces_ok s0" and e: "entry_freed (ks_space s0) q i xs {} H (ks_space s)"
    and H: "H = sends_of (ks_space s0) q - {i}"
  shows "spaces_ok s" "rights s = (rights s0)((q, i) := None)"
proof -
  obtain sp0 sp where sp: "ks_space s0 q = Some sp0" "ks_space s = (ks_space s0)(q \<mapsto> sp)" "space_inv sp (i # xs) {} H"
      "space_frame {i} sp0 sp" "is_active sp"
    using e by (auto simp: entry_freed_def)
  have act: "is_active sp0" using sp(5) space_frame_active [OF sp(4)] by simp
  obtain xs0 where ok0: "space_ok sp0 xs0 {}" using ok sp(1) act by (auto simp: spaces_ok_def)
  have i: "0 < i" "i < length (is_table sp)" "entry_type (is_table sp) i = MACH_PORT_TYPE_NONE"
    using space_inv_free(1,2) [OF sp(3), of i] space_inv_types [OF sp(3), of i] by simp_all
  have "send_entries (is_table sp) = H"
    using send_entries_change [OF ok0 [unfolded space_ok_def] sp(3,4) i(1,2)] i(3) H sp(1) by (simp add: sends_of_def)
  then have "space_ok sp (i # xs) {}" using sp(3) by (simp add: space_ok_def)
  then show "spaces_ok s" using ok sp(1,2) by (auto simp: spaces_ok_def)
  have "rights s (q', j) = ((rights s0)((q, i) := None)) (q', j)" for q' j
    using rights_frame [OF sp(1) act sp(4) refl sp(2), of q' j] sp i
    by (cases "(q', j) = (q, i)") (auto simp: rights_def)
  then show "rights s = (rights s0)((q, i) := None)" by auto
qed

section \<open>The invariant\<close>

type_synonym right = "ptr \<times> 32 word \<times> nat"

definition is_send :: "ptr \<Rightarrow> right \<Rightarrow> bool" where
  "is_send p v \<longleftrightarrow> fst v = p \<and> fst (snd v) AND MACH_PORT_TYPE_SEND \<noteq> 0"

definition is_sonce :: "ptr \<Rightarrow> right \<Rightarrow> bool" where
  "is_sonce p v \<longleftrightarrow> fst v = p \<and> fst (snd v) AND MACH_PORT_TYPE_SEND_ONCE \<noteq> 0"

text \<open>Rights that hold a reference of their own; a receive right holds the one the port was created with.\<close>

definition is_ref :: "ptr \<Rightarrow> right \<Rightarrow> bool" where
  "is_ref p v \<longleftrightarrow> fst v = p \<and> fst (snd v) AND MACH_PORT_TYPE_SEND_RIGHTS \<noteq> 0 \<and> fst (snd v) AND MACH_PORT_TYPE_RECEIVE = 0"

definition cnt :: "(right \<Rightarrow> bool) \<Rightarrow> (ptr \<times> nat \<rightharpoonup> right) \<Rightarrow> nat" where
  "cnt P R = card {x. \<exists>v. R x = Some v \<and> P v}"

definition one_if :: "(right \<Rightarrow> bool) \<Rightarrow> right option \<Rightarrow> nat" where
  "one_if P v = (case v of None \<Rightarrow> 0 | Some v \<Rightarrow> of_bool (P v))"

text \<open>
  What \<open>ipc_port_destroy\<close> asserts of a port, and what the other routines keep so that it holds: only ordinary ports have a
  backup, and the union of an ordinary port that is not a temporary owner is empty.
\<close>

definition destroyable :: "kenv \<Rightarrow> ptr \<Rightarrow> ipc_port \<Rightarrow> bool" where
  "destroyable E p port \<longleftrightarrow> (ip_specialreply port \<longrightarrow> ip_pdrequest port = IP_NULL \<and> \<not> ip_tempowner port)
     \<and> (ip_tempowner port \<and> ip_imp_task port \<noteq> 0 \<longrightarrow> imp_task_is_any_receiver_type E (ip_imp_task port))
     \<and> (ip_pdrequest port \<noteq> IP_NULL \<longrightarrow> \<not> io_is_kobject (ip_io_bits port))
     \<and> (\<not> ip_tempowner port \<and> \<not> ip_specialreply port \<and> \<not> io_is_kobject (ip_io_bits port) \<longrightarrow> ip_imp_task port = 0)
     \<and> (IP_PREALLOC port \<longrightarrow> ip_premsg port \<noteq> 0 \<and> ikm_prealloc_inuse_port E (ip_premsg port) \<in> {IP_NULL, p})"

text \<open>The types of rights to ports.\<close>

definition port_type :: "32 word \<Rightarrow> bool" where
  "port_type b \<longleftrightarrow> IE_BITS_TYPE b \<in>
     {MACH_PORT_TYPE_SEND, MACH_PORT_TYPE_SEND_ONCE, MACH_PORT_TYPE_RECEIVE, MACH_PORT_TYPE_SEND_RECEIVE}"

text \<open>A right of the space \<open>q\<close> at index \<open>i\<close>, with bits \<open>b\<close> and request \<open>r\<close>, to a port.\<close>

definition port_right_ok :: "ipc_port \<Rightarrow> ptr \<Rightarrow> nat \<Rightarrow> 32 word \<Rightarrow> nat \<Rightarrow> bool" where
  "port_right_ok port q i b r \<longleftrightarrow> io_otype (ip_io_bits port) = IOT_PORT
     \<and> (b AND MACH_PORT_TYPE_SEND_ONCE \<noteq> 0 \<longrightarrow> IE_BITS_UREFS b = 1)
     \<and> (b AND MACH_PORT_TYPE_SEND \<noteq> 0 \<longrightarrow> IE_BITS_UREFS b \<noteq> 0)
     \<and> (IE_BITS_TYPE b = MACH_PORT_TYPE_RECEIVE \<longrightarrow> IE_BITS_UREFS b = 0)
     \<and> (b AND MACH_PORT_TYPE_RECEIVE \<noteq> 0 \<longrightarrow>
         ip_active port \<and> ip_receiver port = q \<and> ip_receiver_name port = MACH_PORT_MAKE i (IE_BITS_GEN b))
     \<and> (IE_BITS_TYPE b = MACH_PORT_TYPE_SEND \<and> ip_active port \<longrightarrow> ip_receiver port \<noteq> q)
     \<and> (r \<noteq> IE_REQ_NONE \<longrightarrow> (\<exists>n. requests_map port r = Some (MACH_PORT_MAKE i (IE_BITS_GEN b), n)))"

definition right_ok :: "(ptr \<rightharpoonup> ipc_port) \<Rightarrow> (ptr \<rightharpoonup> ipc_pset) \<Rightarrow> ptr \<times> nat \<Rightarrow> right \<Rightarrow> bool" where
  "right_ok P S = (\<lambda>(q, i) (obj, b, r). i < 2 ^ 24 \<and> q \<noteq> 0 \<and>
     (if IE_BITS_TYPE b = MACH_PORT_TYPE_DEAD_NAME then obj = IO_NULL \<and> r = IE_REQ_NONE \<and> IE_BITS_UREFS b \<noteq> 0
      else if IE_BITS_TYPE b = MACH_PORT_TYPE_PORT_SET
      then r = IE_REQ_NONE \<and> IE_BITS_UREFS b = 0 \<and> obj \<noteq> IO_NULL \<and> (\<exists>ps. S obj = Some ps \<and> ips_active ps)
      else port_type b \<and> IP_VALID obj \<and> (\<exists>port. P obj = Some port \<and> port_right_ok port q i b r)))"

text \<open>No two rights share a registered request of a port.\<close>

definition requests_inj :: "(ptr \<times> nat \<rightharpoonup> right) \<Rightarrow> ptr \<Rightarrow> bool" where
  "requests_inj R p \<longleftrightarrow> (\<forall>x y b b' r. R x = Some (p, b, r) \<longrightarrow> R y = Some (p, b', r) \<longrightarrow> r \<noteq> IE_REQ_NONE \<longrightarrow> x = y)"

definition port_ok :: "kenv \<Rightarrow> (ptr \<times> nat \<rightharpoonup> right) \<Rightarrow> ptr \<Rightarrow> ipc_port \<Rightarrow> bool" where
  "port_ok E R p port \<longleftrightarrow> refs_ok (ip_references port) \<and> requests_inv E port \<and> destroyable E p port
     \<and> cnt (is_send p) R \<le> unat (ip_srights port) \<and> cnt (is_sonce p) R \<le> unat (ip_sorights port)
     \<and> cnt (is_ref p) R + of_bool (ip_active port) \<le> unat (ip_references port) \<and> requests_inj R p"

text \<open>A port set is named by at most one right.\<close>

definition psets_inj :: "(ptr \<times> nat \<rightharpoonup> right) \<Rightarrow> bool" where
  "psets_inj R \<longleftrightarrow> (\<forall>x y obj b b' r r'. R x = Some (obj, b, r) \<longrightarrow> R y = Some (obj, b', r')
     \<longrightarrow> IE_BITS_TYPE b = MACH_PORT_TYPE_PORT_SET \<longrightarrow> IE_BITS_TYPE b' = MACH_PORT_TYPE_PORT_SET \<longrightarrow> x = y)"

definition rights_inv :: "kenv \<Rightarrow> (ptr \<times> nat \<rightharpoonup> right) \<Rightarrow> (ptr \<rightharpoonup> ipc_port) \<Rightarrow> (ptr \<rightharpoonup> ipc_pset) \<Rightarrow> bool" where
  "rights_inv E R P S \<longleftrightarrow> finite (dom R) \<and> request_classes (ipc_table_requests E)
     \<and> (\<forall>x v. R x = Some v \<longrightarrow> right_ok P S x v) \<and> (\<forall>p port. P p = Some port \<longrightarrow> port_ok E R p port)
     \<and> (\<forall>p ps. S p = Some ps \<longrightarrow> refs_ok (ips_references ps)) \<and> psets_inj R"

definition rights_ok :: "kenv \<Rightarrow> kst \<Rightarrow> bool" where
  "rights_ok E s \<longleftrightarrow> spaces_ok s \<and> ks_ith_assertions s = 0 \<and> rights_inv E (rights s) (ks_port s) (ks_pset s)"

lemma cnt_upd:
  assumes "finite (dom R)"
  shows "cnt P (R(x := v)) + one_if P (R x) = cnt P R + one_if P v"
proof -
  define A where "A = {y. \<exists>w. R y = Some w \<and> P w}"
  define C where "C = (\<lambda>v :: right option. if \<exists>w. v = Some w \<and> P w then {x} else {})"
  have fin: "finite A" unfolding A_def by (rule finite_subset [OF _ assms]) auto
  have C: "card (C v) = one_if P v" "finite (C v)" "(A - {x}) \<inter> C v = {}" for v
    by (auto simp: C_def one_if_def split: option.splits)
  have "{y. \<exists>w. (R(x := v)) y = Some w \<and> P w} = (A - {x}) \<union> C v" by (auto simp: A_def C_def)
  then have "cnt P (R(x := v)) = card (A - {x}) + one_if P v"
    unfolding cnt_def using card_Un_disjoint [OF _ C(2,3), of v] fin C(1) by simp
  moreover have "A = (A - {x}) \<union> C (R x)" by (auto simp: A_def C_def)
  then have "cnt P R = card (A - {x}) + one_if P (R x)"
    unfolding cnt_def A_def [symmetric] using card_Un_disjoint [OF _ C(2,3), of "R x"] fin C(1) by simp
  ultimately show ?thesis by simp
qed

lemma requests_injD:
  "requests_inj R p \<Longrightarrow> R x = Some (p, b, r) \<Longrightarrow> R y = Some (p, b', r) \<Longrightarrow> r \<noteq> IE_REQ_NONE \<Longrightarrow> x = y"
  unfolding requests_inj_def by blast

lemma port_okD:
  assumes "port_ok E R p port"
  shows "refs_ok (ip_references port)" "requests_inv E port" "destroyable E p port"
    "cnt (is_send p) R \<le> unat (ip_srights port)" "cnt (is_sonce p) R \<le> unat (ip_sorights port)"
    "cnt (is_ref p) R + of_bool (ip_active port) \<le> unat (ip_references port)" "requests_inj R p"
  using assms by (simp_all add: port_ok_def)

lemma port_ok_update:
  assumes ok: "port_ok E R p port" and fin: "finite (dom R)"
    and s: "unat (ip_srights port) + one_if (is_send p) v \<le> unat (ip_srights port') + one_if (is_send p) (R x)"
    and so: "unat (ip_sorights port) + one_if (is_sonce p) v \<le> unat (ip_sorights port') + one_if (is_sonce p) (R x)"
    and r: "unat (ip_references port) + one_if (is_ref p) v + of_bool (ip_active port')
      \<le> unat (ip_references port') + one_if (is_ref p) (R x) + of_bool (ip_active port)"
    and rq: "\<And>b r y b'. v = Some (p, b, r) \<Longrightarrow> r \<noteq> IE_REQ_NONE \<Longrightarrow> R y = Some (p, b', r) \<Longrightarrow> y = x"
    and d: "refs_ok (ip_references port')" "requests_inv E port'" "destroyable E p port'"
  shows "port_ok E (R(x := v)) p port'"
proof -
  have "cnt (is_send p) (R(x := v)) \<le> unat (ip_srights port')" "cnt (is_sonce p) (R(x := v)) \<le> unat (ip_sorights port')"
    "cnt (is_ref p) (R(x := v)) + of_bool (ip_active port') \<le> unat (ip_references port')"
    using ok cnt_upd [OF fin, of "is_send p" x v] cnt_upd [OF fin, of "is_sonce p" x v] cnt_upd [OF fin, of "is_ref p" x v] s so r
    by (simp_all add: port_ok_def)
  moreover have "y = z" if "(R(x := v)) y = Some (p, b, r)" "(R(x := v)) z = Some (p, b', r)" "r \<noteq> IE_REQ_NONE" for y z b b' r
  proof -
    consider "y = x" "z = x" | "y = x" "z \<noteq> x" | "y \<noteq> x" "z = x" | "y \<noteq> x" "z \<noteq> x" by blast
    then show ?thesis
    proof cases
      case 2 then show ?thesis using that rq [of b r z b'] by simp
    next
      case 3 then show ?thesis using that rq [of b' r y b] by simp
    next
      case 4 then show ?thesis using that requests_injD [OF port_okD(7) [OF ok], of y b r z b'] by simp
    qed simp
  qed
  then have "requests_inj (R(x := v)) p" unfolding requests_inj_def by blast
  ultimately show ?thesis using d by (simp add: port_ok_def)
qed

lemma rights_inv_cases:
  assumes "rights_inv E R P S" "R x = Some v"
  shows "right_ok P S x v"
  using assms unfolding rights_inv_def by blast

text \<open>A right that is not a port right, or a right to another port, does not depend on the port \<open>p\<close>.\<close>

lemma right_ok_other_port:
  assumes "right_ok P S x v" "fst (snd v) AND MACH_PORT_TYPE_PORT_RIGHTS \<noteq> 0 \<longrightarrow> fst v \<noteq> p"
  shows "right_ok (P(p := po)) S x v"
proof -
  obtain q i obj b r where v: "x = (q, i)" "v = (obj, b, r)" by (cases x; cases v)
  have "port_type b \<Longrightarrow> b AND MACH_PORT_TYPE_PORT_RIGHTS \<noteq> 0" by (auto simp: port_type_def ie_bits)
  then have "port_type b \<Longrightarrow> obj \<noteq> p" using assms(2) v by simp
  then show ?thesis using assms(1) v by (auto simp: right_ok_def)
qed

definition on_port :: "ptr \<Rightarrow> right \<Rightarrow> bool" where
  "on_port p v \<longleftrightarrow> fst v = p \<and> fst (snd v) AND MACH_PORT_TYPE_PORT_RIGHTS \<noteq> 0"

text \<open>A right that concerns no other port than \<open>p\<close>.\<close>

definition only_port :: "ptr \<Rightarrow> right option \<Rightarrow> bool" where
  "only_port p v \<longleftrightarrow> (\<forall>w. v = Some w \<longrightarrow> fst (snd w) AND MACH_PORT_TYPE_PORT_RIGHTS \<noteq> 0 \<longrightarrow> fst w = p)"

lemma port_rights_bits:
  "b AND MACH_PORT_TYPE_SEND \<noteq> 0 \<Longrightarrow> b AND MACH_PORT_TYPE_PORT_RIGHTS \<noteq> 0"
  "b AND MACH_PORT_TYPE_SEND_ONCE \<noteq> 0 \<Longrightarrow> b AND MACH_PORT_TYPE_PORT_RIGHTS \<noteq> 0"
  "b AND MACH_PORT_TYPE_SEND_RIGHTS \<noteq> 0 \<Longrightarrow> b AND MACH_PORT_TYPE_PORT_RIGHTS \<noteq> 0"
  "b AND MACH_PORT_TYPE_RECEIVE \<noteq> 0 \<Longrightarrow> b AND MACH_PORT_TYPE_PORT_RIGHTS \<noteq> 0"
proof -
  have sub: "b AND m \<noteq> 0 \<Longrightarrow> b AND MACH_PORT_TYPE_PORT_RIGHTS \<noteq> 0" if "MACH_PORT_TYPE_PORT_RIGHTS AND m = m" for m
  proof -
    have "b AND m = (b AND MACH_PORT_TYPE_PORT_RIGHTS) AND m" using that by (simp only: and.assoc)
    then show "b AND m \<noteq> 0 \<Longrightarrow> b AND MACH_PORT_TYPE_PORT_RIGHTS \<noteq> 0" by auto
  qed
  show "b AND MACH_PORT_TYPE_SEND \<noteq> 0 \<Longrightarrow> b AND MACH_PORT_TYPE_PORT_RIGHTS \<noteq> 0"
    "b AND MACH_PORT_TYPE_SEND_ONCE \<noteq> 0 \<Longrightarrow> b AND MACH_PORT_TYPE_PORT_RIGHTS \<noteq> 0"
    "b AND MACH_PORT_TYPE_SEND_RIGHTS \<noteq> 0 \<Longrightarrow> b AND MACH_PORT_TYPE_PORT_RIGHTS \<noteq> 0"
    "b AND MACH_PORT_TYPE_RECEIVE \<noteq> 0 \<Longrightarrow> b AND MACH_PORT_TYPE_PORT_RIGHTS \<noteq> 0"
    by (rule sub; simp add: ie_bits_defs; fail)+
qed

lemma one_if_other:
  assumes "only_port p v" "p' \<noteq> p"
  shows "one_if (is_send p') v = 0" "one_if (is_sonce p') v = 0" "one_if (is_ref p') v = 0"
  using assms port_rights_bits
  by (auto simp: one_if_def only_port_def is_send_def is_sonce_def is_ref_def split: option.splits)

lemma port_ok_other:
  assumes ok: "port_ok E R p' port" and fin: "finite (dom R)" and p: "p' \<noteq> p" "only_port p (R x)" "only_port p v"
    and rq: "\<And>b r. v = Some (p', b, r) \<Longrightarrow> r = IE_REQ_NONE"
  shows "port_ok E (R(x := v)) p' port"
  by (rule port_ok_update [OF ok fin]) (use port_okD [OF ok] rq in \<open>auto simp: one_if_other [OF p(2,1)] one_if_other [OF p(3,1)]\<close>)

lemma rights_inv_update:
  assumes inv: "rights_inv E R P S" and touch: "only_port p (R x)" "only_port p v"
    and others: "\<And>y w. y \<noteq> x \<Longrightarrow> R y = Some w \<Longrightarrow> on_port p w \<Longrightarrow> right_ok (P(p := po)) S y w"
    and new: "\<And>w. v = Some w \<Longrightarrow> right_ok (P(p := po)) S x w" "\<And>obj b r. v = Some (obj, b, r) \<Longrightarrow> IE_BITS_TYPE b \<noteq> MACH_PORT_TYPE_PORT_SET"
    and port: "\<And>port. po = Some port \<Longrightarrow> port_ok E (R(x := v)) p port"
  shows "rights_inv E (R(x := v)) (P(p := po)) S"
proof -
  have fin: "finite (dom R)" using inv by (simp add: rights_inv_def)
  have 1: "right_ok (P(p := po)) S y w" if "(R(x := v)) y = Some w" for y w
  proof (cases "y = x")
    case False
    then have y: "R y = Some w" using that by simp
    show ?thesis
      using others [OF False y] right_ok_other_port [OF rights_inv_cases [OF inv y], of p po] by (auto simp: on_port_def)
  qed (use that new in simp)
  have 2: "port_ok E (R(x := v)) p' port'" if "(P(p := po)) p' = Some port'" for p' port'
  proof (cases "p' = p")
    case False
    have "r = IE_REQ_NONE" if v: "v = Some (p', b, r)" for b r
    proof -
      have "\<not> (b AND MACH_PORT_TYPE_PORT_RIGHTS \<noteq> 0)" using touch(2) v False by (auto simp: only_port_def)
      then show ?thesis using new(1) [OF v] by (cases x) (auto simp: right_ok_def port_type_def ie_bits split: if_splits)
    qed
    moreover have "port_ok E R p' port'" using inv that False by (simp add: rights_inv_def)
    ultimately show ?thesis using port_ok_other [OF _ fin False touch] by blast
  qed (use that port in simp)
  have 3: "psets_inj (R(x := v))"
    using inv new(2) unfolding rights_inv_def psets_inj_def by (metis fun_upd_apply)
  show ?thesis using inv 1 2 3 fin by (simp add: rights_inv_def)
qed

lemma on_port_type:
  assumes "right_ok P S x w" "on_port p w"
  shows "\<exists>q i b r port. x = (q, i) \<and> w = (p, b, r) \<and> port_type b \<and> P p = Some port \<and> port_right_ok port q i b r
    \<and> i < 2 ^ 24 \<and> q \<noteq> 0 \<and> IP_VALID p"
proof -
  obtain q i obj b r where w: "x = (q, i)" "w = (obj, b, r)" by (cases x; cases w)
  have "IE_BITS_TYPE b \<noteq> MACH_PORT_TYPE_DEAD_NAME" "IE_BITS_TYPE b \<noteq> MACH_PORT_TYPE_PORT_SET"
    using assms(2) w by (auto simp: on_port_def ie_bits)
  then show ?thesis using assms w by (auto simp: right_ok_def on_port_def)
qed

lemma right_ok_portI:
  "port_type b \<Longrightarrow> IP_VALID p \<Longrightarrow> P p = Some port \<Longrightarrow> port_right_ok port q i b r \<Longrightarrow> i < 2 ^ 24 \<Longrightarrow> q \<noteq> 0 \<Longrightarrow> right_ok P S (q, i) (p, b, r)"
  by (auto simp: right_ok_def port_type_def)

text \<open>How the rights to a port carry over when the port changes.\<close>

lemma right_ok_same_link:
  assumes ok: "right_ok P S y w" "on_port p w" and P: "P p = Some port"
    and same: "io_otype (ip_io_bits port') = io_otype (ip_io_bits port)" "link port' = link port"
    and rq: "snd (snd w) \<noteq> IE_REQ_NONE \<Longrightarrow> requests_map port' (snd (snd w)) = requests_map port (snd (snd w))"
  shows "right_ok (P(p \<mapsto> port')) S y w"
proof -
  obtain q i b r where w: "y = (q, i)" "w = (p, b, r)" "port_type b" "port_right_ok port q i b r" "i < 2 ^ 24" "q \<noteq> 0" "IP_VALID p"
    using on_port_type [OF ok] P by auto
  have "ip_active port' = ip_active port" "ip_receiver port' = ip_receiver port" "ip_receiver_name port' = ip_receiver_name port"
    using same(2) by (simp_all add: link_def)
  then have "port_right_ok port' q i b r" using w(2,4) same(1) rq by (simp add: port_right_ok_def)
  then show ?thesis using w by (auto intro: right_ok_portI)
qed

lemma right_ok_no_receiver:
  assumes ok: "right_ok P S y w" "on_port p w" "fst (snd w) AND MACH_PORT_TYPE_RECEIVE = 0" and P: "P p = Some port"
    and same: "io_otype (ip_io_bits port') = io_otype (ip_io_bits port)" "\<not> ip_active port' \<or> ip_data port' = 0"
    and rq: "snd (snd w) \<noteq> IE_REQ_NONE \<Longrightarrow> requests_map port' (snd (snd w)) = requests_map port (snd (snd w))"
  shows "right_ok (P(p \<mapsto> port')) S y w"
proof -
  obtain q i b r where w: "y = (q, i)" "w = (p, b, r)" "port_type b" "port_right_ok port q i b r" "i < 2 ^ 24" "q \<noteq> 0" "IP_VALID p"
    using on_port_type [OF ok(1,2)] P by auto
  have "port_right_ok port' q i b r" using w(2,4,6) ok(3) same rq by (auto simp: port_right_ok_def)
  then show ?thesis using w by (auto intro: right_ok_portI)
qed

text \<open>A port has one receive right.\<close>

lemma receive_unique:
  assumes inv: "rights_inv E R P S" and x: "R x = Some (p, b, r)" "b AND MACH_PORT_TYPE_RECEIVE \<noteq> 0"
    and y: "R y = Some (p, b', r')" "b' AND MACH_PORT_TYPE_RECEIVE \<noteq> 0"
  shows "y = x"
proof -
  have ox: "on_port p (p, b, r)" and oy: "on_port p (p, b', r')" using x(2) y(2) port_rights_bits(4) by (auto simp: on_port_def)
  obtain q i port where X: "x = (q, i)" "P p = Some port" "port_right_ok port q i b r" "i < 2 ^ 24"
    using on_port_type [OF rights_inv_cases [OF inv x(1)] ox] by auto
  obtain q' i' where Y: "y = (q', i')" "port_right_ok port q' i' b' r'" "i' < 2 ^ 24"
    using on_port_type [OF rights_inv_cases [OF inv y(1)] oy] X(2) by auto
  have "q = q'" "MACH_PORT_MAKE i (IE_BITS_GEN b) = MACH_PORT_MAKE i' (IE_BITS_GEN b')"
    using X(3) Y(2) x(2) y(2) by (auto simp: port_right_ok_def)
  then show ?thesis using X(1,4) Y(1,3) by (metis MACH_PORT_INDEX_MAKE)
qed

lemma on_port_split:
  assumes "right_ok P S x w" "on_port p w"
  shows "is_ref p w \<or> fst (snd w) AND MACH_PORT_TYPE_RECEIVE \<noteq> 0"
  using on_port_type [OF assms] by (auto simp: is_ref_def port_type_def ie_bits)

lemma on_port_receive:
  assumes "right_ok P S x w" "on_port p w" "P p = Some port" "fst (snd w) AND MACH_PORT_TYPE_RECEIVE \<noteq> 0"
  shows "ip_active port"
proof -
  obtain q i b r where "w = (p, b, r)" "port_right_ok port q i b r" using on_port_type [OF assms(1,2)] assms(3) by auto
  then show ?thesis using assms(4) by (simp add: port_right_ok_def)
qed

lemma cnt_pos:
  assumes "finite (dom R)" "R x = Some v" "P v"
  shows "0 < cnt P R"
  using cnt_upd [OF assms(1), of P x None] assms(2,3) by (simp add: one_if_def)

lemma cnt_two:
  assumes "finite (dom R)" "R x = Some v" "P v" "R y = Some w" "P w" "y \<noteq> x"
  shows "1 < cnt P R"
proof -
  have "0 < cnt P (R(x := None))" by (rule cnt_pos [of _ y w]) (use assms in auto)
  then show ?thesis using cnt_upd [OF assms(1), of P x None] assms(2,3) by (simp add: one_if_def)
qed

lemma rights_invD:
  assumes "rights_inv E R P S"
  shows "finite (dom R)" "P p = Some port \<Longrightarrow> port_ok E R p port" "S o' = Some ps \<Longrightarrow> refs_ok (ips_references ps)" "psets_inj R"
    "request_classes (ipc_table_requests E)"
  using assms unfolding rights_inv_def by blast+

text \<open>
  The right \<open>x\<close> to a port and the port change, the counts in step with the right; either the port stays linked as it
  was, or \<open>x\<close> was its receive right and the port is now dead or without a receiver.
\<close>

lemma rights_inv_change:
  assumes inv: "rights_inv E R P S" and x: "R x = Some (p, b, r)" and p: "P p = Some port" and touch: "only_port p v"
    and same: "io_otype (ip_io_bits port') = io_otype (ip_io_bits port)"
      "link port' = link port \<or> b AND MACH_PORT_TYPE_RECEIVE \<noteq> 0 \<and> (\<not> ip_active port' \<or> ip_data port' = 0)"
      "\<And>r'. r' \<noteq> r \<Longrightarrow> requests_map port r' \<noteq> None \<Longrightarrow> requests_map port' r' = requests_map port r'"
    and new: "\<And>w. v = Some w \<Longrightarrow> right_ok (P(p \<mapsto> port')) S x w" "\<And>obj b r. v = Some (obj, b, r) \<Longrightarrow> IE_BITS_TYPE b \<noteq> MACH_PORT_TYPE_PORT_SET"
      "\<And>b' r'. v = Some (p, b', r') \<Longrightarrow> r' \<noteq> IE_REQ_NONE \<Longrightarrow> r' = r \<or> requests_map port r' = None"
    and s: "unat (ip_srights port) + one_if (is_send p) v \<le> unat (ip_srights port') + one_if (is_send p) (R x)"
    and so: "unat (ip_sorights port) + one_if (is_sonce p) v \<le> unat (ip_sorights port') + one_if (is_sonce p) (R x)"
    and rf: "unat (ip_references port) + one_if (is_ref p) v + of_bool (ip_active port')
      \<le> unat (ip_references port') + one_if (is_ref p) (R x) + of_bool (ip_active port)"
    and d: "refs_ok (ip_references port')" "requests_inv E port'" "destroyable E p port'"
  shows "rights_inv E (R(x := v)) (P(p \<mapsto> port')) S"
proof -
  note ok = rights_invD(2) [OF inv p] and fin = rights_invD(1) [OF inv]
  have tx: "only_port p (R x)" using x by (simp add: only_port_def)
  have others: "right_ok (P(p \<mapsto> port')) S y w" if y: "y \<noteq> x" "R y = Some w" "on_port p w" for y w
  proof -
    note yok = rights_inv_cases [OF inv y(2)]
    obtain q i b' r' where w: "w = (p, b', r')" "port_right_ok port q i b' r'" using on_port_type [OF yok y(3)] p by auto
    have rq: "requests_map port' (snd (snd w)) = requests_map port (snd (snd w))" if rq: "snd (snd w) \<noteq> IE_REQ_NONE"
    proof -
      have "r' \<noteq> r" using requests_injD [OF port_okD(7) [OF ok] x, of y b'] y(1,2) w(1) rq by auto
      moreover have "requests_map port r' \<noteq> None" using w rq by (auto simp: port_right_ok_def)
      ultimately show ?thesis using same(3) w(1) by simp
    qed
    have "b AND MACH_PORT_TYPE_RECEIVE \<noteq> 0 \<Longrightarrow> b' AND MACH_PORT_TYPE_RECEIVE = 0"
      using receive_unique [OF inv x, of y b' r'] y(1,2) w(1) by auto
    then show ?thesis
      using same(2) right_ok_same_link [OF yok y(3) p same(1) _ rq] right_ok_no_receiver [OF yok y(3) _ p same(1) _ rq] w(1) by auto
  qed
  have rq: "y = x" if v: "v = Some (p, b', r')" "r' \<noteq> IE_REQ_NONE" and y: "R y = Some (p, b'', r')" for y b' r' b''
  proof (rule ccontr)
    assume "y \<noteq> x"
    then have nr: "requests_map port r' = None"
      using new(3) [OF v] requests_injD [OF port_okD(7) [OF ok] x, of y b''] y v(2) by auto
    have "right_ok P S y (p, b'', r')" by (rule rights_inv_cases [OF inv y])
    then have "\<exists>q i. port_right_ok port q i b'' r'"
      using p v(2) by (cases y) (auto simp: right_ok_def split: if_splits)
    then show False using nr v(2) by (auto simp: port_right_ok_def)
  qed
  show ?thesis
    by (rule rights_inv_update [OF inv tx touch others new(1,2)])
      (use port_ok_update [OF ok fin s so rf rq d] in auto)
qed

text \<open>
  A reference that no right needs is released: the port stays, or it was the last reference, the port was dead and no
  right refers to it.
\<close>

lemma rights_inv_release:
  assumes inv: "rights_inv E R P S" and p: "P p = Some port"
    and surplus: "cnt (is_ref p) R + of_bool (ip_active port) < unat (ip_references port)"
  shows "rights_inv E R (P(p := if ip_references port = 1 then None else Some (port\<lparr>ip_references := ip_references port - 1\<rparr>))) S"
proof -
  note ok = rights_invD(2) [OF inv p] and fin = rights_invD(1) [OF inv]
  let ?po = "if ip_references port = 1 then None else Some (port\<lparr>ip_references := ip_references port - 1\<rparr>)"
  have one: "unat (ip_references port) = 1 \<longleftrightarrow> ip_references port = 1" using word_unat_eq_iff [of "ip_references port" 1] by simp
  have pr: "port_ok E R p (port\<lparr>ip_references := ip_references port - 1\<rparr>)" if "ip_references port \<noteq> 1"
    using ok surplus that unat_minus_one [of "ip_references port"]
    by (auto simp: port_ok_def refs_ok_def destroyable_def IP_PREALLOC_def word_less_nat_alt)
  have rt: "right_ok (P(p := ?po)) S y w" if y: "R y = Some w" for y w
  proof (cases "on_port p w")
    case True
    note yok = rights_inv_cases [OF inv y]
    have "ip_references port \<noteq> 1"
      using on_port_split [OF yok True] on_port_receive [OF yok True p] cnt_pos [OF fin y, of "is_ref p"] surplus one by auto
    then show ?thesis
      using right_ok_same_link [OF yok True p, of "port\<lparr>ip_references := ip_references port - 1\<rparr>"] by (simp add: link_def)
  qed (use right_ok_other_port [OF rights_inv_cases [OF inv y]] in \<open>auto simp: on_port_def\<close>)
  have pt: "port_ok E R p' port'" if "(P(p := ?po)) p' = Some port'" for p' port'
    using that pr rights_invD(2) [OF inv] by (auto split: if_splits)
  show ?thesis using inv rt pt by (simp add: rights_inv_def)
qed

end
