(* ===== verification/Ipc_Release.thy ===== *)
theory Ipc_Release
  imports Ipc_Rights
begin

text \<open>
  The routines that give up rights, on states that satisfy \<open>rights_ok\<close>: \<open>ipc_right_check\<close>,
  \<open>ipc_right_dealloc\<close>, \<open>ipc_right_delta\<close>, \<open>ipc_right_destroy\<close> and \<open>ipc_right_destruct\<close>, with
  \<open>ipc_port_destroy\<close> below them. For each, no assertion fails and the invariant is kept.
\<close>

section \<open>Steps that only log\<close>

lemma log_sel [simp]:
  "ks_space (mach_port_guard_exception n g c r s) = ks_space s" "ks_port (mach_port_guard_exception n g c r s) = ks_port s"
  "ks_pset (mach_port_guard_exception n g c r s) = ks_pset s"
  "ks_ith_assertions (mach_port_guard_exception n g c r s) = ks_ith_assertions s"
  "ks_space (ipc_notify_send_once p s) = ks_space s" "ks_port (ipc_notify_send_once p s) = ks_port s"
  "ks_pset (ipc_notify_send_once p s) = ks_pset s" "ks_ith_assertions (ipc_notify_send_once p s) = ks_ith_assertions s"
  "ks_space (send_no_senders ns s) = ks_space s" "ks_port (send_no_senders ns s) = ks_port s"
  "ks_pset (send_no_senders ns s) = ks_pset s" "ks_ith_assertions (send_no_senders ns s) = ks_ith_assertions s"
  "ks_space (send_port_deleted rq name s) = ks_space s" "ks_port (send_port_deleted rq name s) = ks_port s"
  "ks_pset (send_port_deleted rq name s) = ks_pset s" "ks_ith_assertions (send_port_deleted rq name s) = ks_ith_assertions s"
  "ks_space (pinned_exception E name s) = ks_space s" "ks_port (pinned_exception E name s) = ks_port s"
  "ks_pset (pinned_exception E name s) = ks_pset s" "ks_ith_assertions (pinned_exception E name s) = ks_ith_assertions s"
  by (simp_all add: mach_port_guard_exception_def ipc_notify_send_once_def send_no_senders_def ipc_notify_no_senders_def
      send_port_deleted_def ipc_notify_port_deleted_def pinned_exception_def)

lemma rights_ok_cong:
  assumes "ks_space s' = ks_space s" "ks_port s' = ks_port s" "ks_pset s' = ks_pset s" "ks_ith_assertions s' = ks_ith_assertions s"
  shows "rights_ok E s' = rights_ok E s"
  using rights_cong [OF assms(1)] spaces_ok_cong [OF assms(1)] assms(2-4) by (simp add: rights_ok_def)

lemma rights_okD:
  assumes "rights_ok E s"
  shows "spaces_ok s" "ks_ith_assertions s = 0" "rights_inv E (rights s) (ks_port s) (ks_pset s)"
  using assms by (simp_all add: rights_ok_def)

section \<open>A right under its name\<close>

text \<open>The name under which a lookup found the right.\<close>

definition named :: "mach_port_name_t \<Rightarrow> nat \<Rightarrow> 32 word \<Rightarrow> bool" where
  "named name i b \<longleftrightarrow> MACH_PORT_INDEX name = i \<and> IE_BITS_GEN b = MACH_PORT_GEN name"

lemma namedD:
  assumes "named name i b"
  shows "MACH_PORT_INDEX name = i" "IE_BITS_GEN b = MACH_PORT_GEN name" "MACH_PORT_MAKE i (IE_BITS_GEN b) = name"
  using assms by (auto simp: named_def)

lemma entry_at_pend: "entry_at S0 q i e xs pend H S \<Longrightarrow> IE_BITS_TYPE (ie_bits e) = MACH_PORT_TYPE_NONE \<longleftrightarrow> i \<in> pend"
  using space_invD(11) by (fastforce simp: entry_at_def entry_type_def)

lemma set_entry_same_type:
  assumes "entry_at S0 q i e xs pend H (ks_space s)" "ie_index e' = ie_index e" "ie_dist e' = ie_dist e"
    and "i \<in> H \<longrightarrow> ie_object e' = ie_object e"
    and "IE_BITS_TYPE (ie_bits e') = MACH_PORT_TYPE_NONE \<longleftrightarrow> IE_BITS_TYPE (ie_bits e) = MACH_PORT_TYPE_NONE"
  shows "\<exists>S. set_entry q i e' s = Some (s\<lparr>ks_space := S\<rparr>) \<and> entry_at S0 q i e' xs pend H S"
  using set_entry_at [OF assms(1-4) refl] entry_at_pend [OF assms(1)] assms(5) by (auto simp: insert_absorb)

lemma hash_delete_if_at:
  assumes "entry_at S0 q i e xs pend H (ks_space s)" "MACH_PORT_INDEX name = i" "ie_object e = p" "i \<in> H \<longleftrightarrow> c"
  shows "\<exists>S e'. (if c then hash_delete q p name s else Some s) = Some (s\<lparr>ks_space := S\<rparr>)
    \<and> entry_at S0 q i e' xs pend (H - {i}) S \<and> vis e' = vis e"
proof (cases c)
  case True
  then show ?thesis using hash_delete_at [OF assms(1,2) _ assms(3)] assms(4) by simp
next
  case False
  then have "H - {i} = H" using assms(4) by simp
  then show ?thesis using False assms(1) by (intro exI [of _ "ks_space s"] exI [of _ e]) simp
qed

lemma request_type_ok:
  assumes "requests_map port r = Some (name, n)"
  shows "\<exists>t. ipc_port_request_type port name r = Some t"
  using assms by (auto simp: requests_map_def ipr_map_def ipc_port_request_type_def IE_REQ_NONE_def split: option.splits if_splits)

text \<open>The facts about a right to a port that the routines start from.\<close>

lemma port_right:
  assumes ok: "rights_ok E s" and x: "rights s (q, i) = Some (p, b, r)" and t: "port_type b"
  shows "\<exists>port. ks_port s p = Some port \<and> port_right_ok port q i b r \<and> port_ok E (rights s) p port" "IP_VALID p" "p \<noteq> IP_NULL"
    "q \<noteq> 0" "i < 2 ^ 24"
proof -
  note inv = rights_okD(3) [OF ok]
  have o: "on_port p (p, b, r)" using t by (auto simp: on_port_def port_type_def ie_bits)
  obtain port where "ks_port s p = Some port" "port_right_ok port q i b r" "i < 2 ^ 24" "q \<noteq> 0" "IP_VALID p"
    using on_port_type [OF rights_inv_cases [OF inv x] o] by auto
  then show "\<exists>port. ks_port s p = Some port \<and> port_right_ok port q i b r \<and> port_ok E (rights s) p port" "IP_VALID p" "p \<noteq> IP_NULL"
      "q \<noteq> 0" "i < 2 ^ 24"
    using rights_invD(2) [OF inv] by (auto simp: IP_VALID_def)
qed

lemma counts_pos:
  assumes ok: "rights_ok E s" and x: "rights s x = Some (p, b, r)" and p: "ks_port s p = Some port"
  shows "b AND MACH_PORT_TYPE_SEND \<noteq> 0 \<Longrightarrow> 0 < ip_srights port" "b AND MACH_PORT_TYPE_SEND_ONCE \<noteq> 0 \<Longrightarrow> 0 < ip_sorights port"
proof -
  note inv = rights_okD(3) [OF ok]
  note D = port_okD [OF rights_invD(2) [OF inv p]]
  show "b AND MACH_PORT_TYPE_SEND \<noteq> 0 \<Longrightarrow> 0 < ip_srights port"
    using cnt_pos [OF rights_invD(1) [OF inv] x, of "is_send p"] D(4) by (simp add: is_send_def word_less_nat_alt)
  show "b AND MACH_PORT_TYPE_SEND_ONCE \<noteq> 0 \<Longrightarrow> 0 < ip_sorights port"
    using cnt_pos [OF rights_invD(1) [OF inv] x, of "is_sonce p"] D(5) by (simp add: is_sonce_def word_less_nat_alt)
qed

section \<open>Rights to dead ports\<close>

lemma ipc_right_check_live:
  assumes "entry_at S0 q i e xs pend H (ks_space s)" "ie_object e = p" "ks_port s p = Some port" "ip_active port"
  shows "ipc_right_check q p name i flags s = Some (False, s)"
  using assms by (simp add: ipc_right_check_def get_entry_at assert_active_at)

lemma dead_name_ok:
  assumes "IE_BITS_TYPE b = MACH_PORT_TYPE_DEAD_NAME" "IE_BITS_UREFS b \<noteq> 0" "q \<noteq> 0" "i < 2 ^ 24"
  shows "right_ok P S (q, i) (IO_NULL, b, IE_REQ_NONE)" "only_port p (Some (IO_NULL, b, IE_REQ_NONE))"
    "one_if (is_send p) (Some (IO_NULL, b, IE_REQ_NONE)) = 0" "one_if (is_sonce p) (Some (IO_NULL, b, IE_REQ_NONE)) = 0"
    "one_if (is_ref p) (Some (IO_NULL, b, IE_REQ_NONE)) = 0"
  using assms by (auto simp: right_ok_def only_port_def one_if_def is_send_def is_sonce_def is_ref_def ie_bits)

text \<open>
  The bits of the dead name that \<open>ipc_right_check\<close> leaves: one more user reference when a request was still
  registered and the count is not pegged.
\<close>

definition dead_bits :: "32 word \<Rightarrow> bool \<Rightarrow> 32 word" where
  "dead_bits b req = (let b = (b AND NOT IE_BITS_TYPE_MASK) OR MACH_PORT_TYPE_DEAD_NAME in
     if req \<and> IE_BITS_UREFS b < MACH_PORT_UREFS_MAX then b + 1 else b)"

lemma dead_bits:
  assumes "IE_BITS_UREFS b \<noteq> 0"
  shows "IE_BITS_TYPE (dead_bits b req) = MACH_PORT_TYPE_DEAD_NAME" "IE_BITS_GEN (dead_bits b req) = IE_BITS_GEN b"
    "IE_BITS_UREFS (dead_bits b req) = IE_BITS_UREFS b + of_bool (req \<and> IE_BITS_UREFS b < MACH_PORT_UREFS_MAX)"
    "IE_BITS_UREFS (dead_bits b req) \<noteq> 0"
proof -
  have "IE_BITS_UREFS b < MACH_PORT_UREFS_MAX \<Longrightarrow> IE_BITS_UREFS b + 1 \<noteq> 0"
    by (auto simp: MACH_PORT_UREFS_MAX_def word_less_nat_alt unat_eq_0 [symmetric] unat_word_ariths)
  then show "IE_BITS_TYPE (dead_bits b req) = MACH_PORT_TYPE_DEAD_NAME" "IE_BITS_GEN (dead_bits b req) = IE_BITS_GEN b"
    "IE_BITS_UREFS (dead_bits b req) = IE_BITS_UREFS b + of_bool (req \<and> IE_BITS_UREFS b < MACH_PORT_UREFS_MAX)"
    "IE_BITS_UREFS (dead_bits b req) \<noteq> 0"
    using assms by (simp_all add: dead_bits_def Let_def ie_bits)
qed

text \<open>The port after \<open>ipc_right_check\<close> took the right's count off it.\<close>

definition count_off :: "32 word \<Rightarrow> ipc_port \<Rightarrow> ipc_port" where
  "count_off b port = (if b AND MACH_PORT_TYPE_SEND \<noteq> 0 then port\<lparr>ip_srights := ip_srights port - 1\<rparr>
     else port\<lparr>ip_sorights := ip_sorights port - 1\<rparr>)"

lemma count_off_sel [simp]:
  "ip_active (count_off b port) = ip_active port" "link (count_off b port) = link port"
  "ip_references (count_off b port) = ip_references port" "ip_io_bits (count_off b port) = ip_io_bits port"
  "ip_requests (count_off b port) = ip_requests port" "requests_map (count_off b port) = requests_map port"
  "requests_inv E (count_off b port) = requests_inv E port" "destroyable E p (count_off b port) = destroyable E p port"
  by (simp_all add: count_off_def ip_active_def link_def requests_map_def requests_inv_def destroyable_def IP_PREALLOC_def)

lemma ipc_right_check_dead_eq:
  assumes e: "entry_at S0 q i e xs {} H (ks_space s)" "MACH_PORT_INDEX name = i" "i \<in> H \<longleftrightarrow> IE_BITS_TYPE (ie_bits e) = MACH_PORT_TYPE_SEND"
    and p: "ie_object e = p" "ks_port s p = Some port" "\<not> ip_active port"
    and fl: "flags AND IPC_OBJECT_COPYIN_FLAGS_ALLOW_DEAD_SEND_ONCE = 0"
    and b: "IE_BITS_TYPE (ie_bits e) = MACH_PORT_TYPE_SEND \<or> IE_BITS_TYPE (ie_bits e) = MACH_PORT_TYPE_SEND_ONCE"
      "IE_BITS_UREFS (ie_bits e) \<noteq> 0" "IE_BITS_TYPE (ie_bits e) = MACH_PORT_TYPE_SEND_ONCE \<longrightarrow> IE_BITS_UREFS (ie_bits e) = 1"
    and c: "ie_bits e AND MACH_PORT_TYPE_SEND \<noteq> 0 \<Longrightarrow> 0 < ip_srights port" "ie_bits e AND MACH_PORT_TYPE_SEND_ONCE \<noteq> 0 \<Longrightarrow> 0 < ip_sorights port"
    and rq: "ie_request e \<noteq> IE_REQ_NONE \<Longrightarrow> \<exists>n. requests_map port (ie_request e) = Some (name, n)"
  shows "\<exists>S e' req. ipc_right_check q p name i flags s = Some (True, (put_port s p (count_off (ie_bits e) port))\<lparr>ks_space := S\<rparr>)
    \<and> entry_at S0 q i e' xs {} (H - {i}) S \<and> vis e' = (IO_NULL, dead_bits (ie_bits e) req, IE_REQ_NONE)
    \<and> (req \<longrightarrow> ie_request e \<noteq> IE_REQ_NONE)"
proof -
  let ?b = "ie_bits e" let ?port = "count_off ?b port" let ?s1 = "put_port s p ?port"
  have send: "?b AND MACH_PORT_TYPE_SEND \<noteq> 0 \<longleftrightarrow> IE_BITS_TYPE ?b = MACH_PORT_TYPE_SEND" and norecv: "?b AND MACH_PORT_TYPE_RECEIVE = 0"
    and sonce: "IE_BITS_TYPE ?b \<noteq> MACH_PORT_TYPE_SEND \<Longrightarrow> ?b AND MACH_PORT_TYPE_SEND_ONCE \<noteq> 0"
    using b(1) by (auto simp: ie_bits)
  have e1: "entry_at S0 q i e xs {} H (ks_space ?s1)" using e(1) by simp
  obtain S1 e1 where h: "(if ?b AND MACH_PORT_TYPE_SEND \<noteq> 0 then hash_delete q p name ?s1 else Some ?s1) = Some (?s1\<lparr>ks_space := S1\<rparr>)"
      "entry_at S0 q i e1 xs {} (H - {i}) S1" "vis e1 = vis e"
    using hash_delete_if_at [OF e1 e(2) p(1), of "?b AND MACH_PORT_TYPE_SEND \<noteq> 0"] e(3) send by blast
  have v1: "ie_bits e1 = ?b" "ie_request e1 = ie_request e" "ie_object e1 = p" using h(3) p(1) by (simp_all add: vis_def)
  define req where "req = (ie_request e \<noteq> IE_REQ_NONE \<and> ipc_port_request_type port name (ie_request e) \<noteq> Some 0)"
  have rt: "ie_request e \<noteq> IE_REQ_NONE \<Longrightarrow> \<exists>t. ipc_port_request_type ?port name (ie_request e) = Some t \<and> (t \<noteq> 0 \<longleftrightarrow> req)"
    using rq request_type_ok [of port "ie_request e" name] by (auto simp: req_def ipc_port_request_type_def)
  let ?e2 = "e1\<lparr>ie_request := IE_REQ_NONE, ie_bits := dead_bits ?b req, ie_object := IO_NULL\<rparr>"
  have ty: "IE_BITS_TYPE (ie_bits e1) \<noteq> MACH_PORT_TYPE_NONE" using v1(1) b(1) by auto
  obtain S2 where s2: "set_entry q i ?e2 (?s1\<lparr>ks_space := S1\<rparr>) = Some (?s1\<lparr>ks_space := S2\<rparr>)" "entry_at S0 q i ?e2 xs {} (H - {i}) S2"
    using set_entry_same_type [of S0 q i e1 xs "{}" "H - {i}" "?s1\<lparr>ks_space := S1\<rparr>" ?e2] h(2) ty dead_bits(1) [OF b(2)] by auto
  obtain S3 where s3: "entry_modified q name i (?s1\<lparr>ks_space := S2\<rparr>) = Some (?s1\<lparr>ks_space := S3\<rparr>)" "entry_at S0 q i ?e2 xs {} (H - {i}) S3"
    using entry_modified_at [of S0 q i ?e2 xs "{}" "H - {i}" "?s1\<lparr>ks_space := S2\<rparr>"] s2(2) e(2) by auto
  have g: "get_entry q i (?s1\<lparr>ks_space := S1\<rparr>) = Some e1" using get_entry_at [of S0 q i e1 xs "{}" "H - {i}" "?s1\<lparr>ks_space := S1\<rparr>"] h(2) by simp
  have bits: "(if ie_request e1 \<noteq> IE_REQ_NONE then do {
                 t \<leftarrow> ipc_port_request_type ?port name (ie_request e1);
                 Some (if t \<noteq> 0 \<and> IE_BITS_UREFS ((?b AND NOT IE_BITS_TYPE_MASK) OR MACH_PORT_TYPE_DEAD_NAME) < MACH_PORT_UREFS_MAX
                       then ((?b AND NOT IE_BITS_TYPE_MASK) OR MACH_PORT_TYPE_DEAD_NAME) + 1
                       else (?b AND NOT IE_BITS_TYPE_MASK) OR MACH_PORT_TYPE_DEAD_NAME)
               } else Some ((?b AND NOT IE_BITS_TYPE_MASK) OR MACH_PORT_TYPE_DEAD_NAME)) = Some (dead_bits ?b req)"
    using rt v1(2) by (cases "ie_request e = IE_REQ_NONE") (auto simp: dead_bits_def Let_def req_def)
  have "(if ?b AND MACH_PORT_TYPE_SEND \<noteq> 0 then do {
                 kassert (IE_BITS_TYPE ?b = MACH_PORT_TYPE_SEND);
                 kassert (0 < ip_srights port);
                 Some (port\<lparr>ip_srights := ip_srights port - 1\<rparr>)
               } else do {
                 kassert (IE_BITS_TYPE ?b = MACH_PORT_TYPE_SEND_ONCE);
                 kassert (IE_BITS_UREFS ?b = 1);
                 kassert (0 < ip_sorights port);
                 Some (port\<lparr>ip_sorights := ip_sorights port - 1\<rparr>)
               }) = Some ?port"
    using b send sonce c by (auto simp: count_off_def)
  then have "ipc_right_check q p name i flags s = Some (True, ?s1\<lparr>ks_space := S3\<rparr>)"
    unfolding ipc_right_check_def
    using p fl norecv b(2) h(1) g bits s2(1) s3(1)
    by (simp add: get_entry_at [OF e(1)] assert_active_at [OF e(1)] Let_def word_neq_0_conv)
  then show ?thesis using s3(2) by (intro exI [of _ S3] exI [of _ ?e2] exI [of _ req]) (auto simp: vis_def req_def)
qed

lemma unat_minus_one_le: "0 < w \<Longrightarrow> unat w \<le> unat (w - 1) + 1" for w :: "'a :: len word"
  by (simp add: unat_minus_one word_neq_0_conv)

text \<open>A send or send-once right to a dead port becomes a dead name, and its reference is nobody's.\<close>

lemma ipc_right_check_dead:
  assumes ok: "rights_ok E s" and x: "rights s (q, i) = Some (p, b, r)" and n: "named name i b"
    and t: "IE_BITS_TYPE b = MACH_PORT_TYPE_SEND \<or> IE_BITS_TYPE b = MACH_PORT_TYPE_SEND_ONCE"
    and p: "ks_port s p = Some port" "\<not> ip_active port"
    and fl: "flags AND IPC_OBJECT_COPYIN_FLAGS_ALLOW_DEAD_SEND_ONCE = 0"
  shows "\<exists>s' req. ipc_right_check q p name i flags s = Some (True, s') \<and> rights_ok E s'
    \<and> rights s' = (rights s)((q, i) \<mapsto> (IO_NULL, dead_bits b req, IE_REQ_NONE)) \<and> (req \<longrightarrow> r \<noteq> IE_REQ_NONE)
    \<and> ks_port s' = (ks_port s)(p \<mapsto> count_off b port) \<and> ks_pset s' = ks_pset s
    \<and> cnt (is_ref p) (rights s') < unat (ip_references port)"
proof -
  note inv = rights_okD(3) [OF ok] and sok = rights_okD(1) [OF ok]
  have pt: "port_type b" using t by (auto simp: port_type_def)
  have pr: "port_right_ok port q i b r" and pok: "port_ok E (rights s) p port" and qi: "q \<noteq> 0" "i < 2 ^ 24"
    using port_right [OF ok x pt] p(1) by auto
  have u: "IE_BITS_UREFS b \<noteq> 0" "IE_BITS_TYPE b = MACH_PORT_TYPE_SEND_ONCE \<longrightarrow> IE_BITS_UREFS b = 1"
    using pr t by (auto simp: port_right_ok_def ie_bits)
  obtain e xs where e: "entry_at (ks_space s) q i e xs {} (sends_of (ks_space s) q) (ks_space s)" "ie_object e = p" "ie_bits e = b" "ie_request e = r"
    using entry_begin(1) [OF sok x] by blast
  obtain S e' req where c: "ipc_right_check q p name i flags s = Some (True, (put_port s p (count_off b port))\<lparr>ks_space := S\<rparr>)"
      "entry_at (ks_space s) q i e' xs {} (sends_of (ks_space s) q - {i}) S" "vis e' = (IO_NULL, dead_bits b req, IE_REQ_NONE)" "req \<longrightarrow> r \<noteq> IE_REQ_NONE"
    using ipc_right_check_dead_eq [OF e(1) namedD(1) [OF n] _ e(2) p fl, unfolded e(3,4)] entry_begin(3) [OF sok x] t u
      counts_pos [OF ok x p(1)] pr namedD(3) [OF n] by (auto simp: port_right_ok_def)
  define s' where "s' = (put_port s p (count_off b port))\<lparr>ks_space := S\<rparr>"
  have eb: "ie_bits e' = dead_bits b req" using c(3) by (simp add: vis_def)
  note dn = dead_name_ok [OF dead_bits(1) [OF u(1)] dead_bits(4) [OF u(1)] qi]
  have sp: "spaces_ok s'" "rights s' = (rights s)((q, i) \<mapsto> vis e')"
    using entry_done [OF sok, of q i e' xs "sends_of (ks_space s) q - {i}" s'] c(2) dead_bits(1) [OF u(1)] by (auto simp: s'_def eb)
  have fin: "finite (dom (rights s))" by (rule rights_invD(1) [OF inv])
  have isref: "one_if (is_ref p) (rights s (q, i)) = 1" using x t by (auto simp: one_if_def is_ref_def ie_bits)
  have "rights_inv E ((rights s)((q, i) \<mapsto> (IO_NULL, dead_bits b req, IE_REQ_NONE))) ((ks_port s)(p \<mapsto> count_off b port)) (ks_pset s)"
  proof (rule rights_inv_change [OF inv x p(1) dn(2)])
    show "unat (ip_srights port) + one_if (is_send p) (Some (IO_NULL, dead_bits b req, IE_REQ_NONE))
        \<le> unat (ip_srights (count_off b port)) + one_if (is_send p) (rights s (q, i))"
      using counts_pos(1) [OF ok x p(1)] unat_minus_one_le x dn(3) by (auto simp: count_off_def one_if_def is_send_def)
    show "unat (ip_sorights port) + one_if (is_sonce p) (Some (IO_NULL, dead_bits b req, IE_REQ_NONE))
        \<le> unat (ip_sorights (count_off b port)) + one_if (is_sonce p) (rights s (q, i))"
      using counts_pos(2) [OF ok x p(1)] unat_minus_one_le x dn(4) t by (auto simp: count_off_def one_if_def is_sonce_def ie_bits)
  qed (use dn dead_bits(1) [OF u(1)] isref port_okD [OF pok] in auto)
  then have "rights_ok E s'" using sp rights_okD(2) [OF ok] c(3) by (simp add: rights_ok_def s'_def)
  moreover have "cnt (is_ref p) (rights s') < unat (ip_references port)"
    using cnt_upd [OF fin, of "is_ref p" "(q, i)" "Some (IO_NULL, dead_bits b req, IE_REQ_NONE)"] isref dn(5) port_okD(6) [OF pok] sp(2) c(3) by simp
  ultimately show ?thesis using c sp by (intro exI [of _ s'] exI [of _ req]) (simp add: s'_def)
qed

section \<open>Parts of the routines\<close>

lemma ip_release_ok:
  assumes ok: "rights_ok E s" and p: "ks_port s p = Some port"
    and surplus: "cnt (is_ref p) (rights s) + of_bool (ip_active port) < unat (ip_references port)"
  shows "\<exists>s'. ip_release p s = Some s' \<and> rights_ok E s' \<and> rights s' = rights s \<and> ks_space s' = ks_space s \<and> ks_pset s' = ks_pset s
    \<and> ks_port s' = (ks_port s)(p := if ip_references port = 1 then None else Some (port\<lparr>ip_references := ip_references port - 1\<rparr>))"
proof -
  note inv = rights_okD(3) [OF ok]
  have r: "refs_ok (ip_references port)" using port_okD(1) [OF rights_invD(2) [OF inv p]] .
  have "ip_references port = 1 \<Longrightarrow> \<not> ip_active port" using surplus by auto
  then obtain s' where s': "ip_release p s = Some s'" "ks_space s' = ks_space s" "ks_pset s' = ks_pset s"
      "ks_ith_assertions s' = ks_ith_assertions s"
      "ks_port s' = (ks_port s)(p := if ip_references port = 1 then None else Some (port\<lparr>ip_references := ip_references port - 1\<rparr>))"
    using ip_release_eq [OF p r] ip_release_last [OF p] by (cases "ip_references port = 1") auto
  have "rights_ok E s'"
    using rights_inv_release [OF inv p surplus] ok s' rights_cong [OF s'(2)] spaces_ok_cong [OF s'(2)] by (simp add: rights_ok_def)
  then show ?thesis using s' rights_cong [OF s'(2)] by blast
qed

text \<open>An entry that is neither before nor after a right to a port or a port set.\<close>

lemma rights_inv_nonport:
  assumes inv: "rights_inv E R P S" and x: "only_port p (R x)" "only_port p v" "one_if (is_send p) (R x) = 0" "one_if (is_sonce p) (R x) = 0"
      "one_if (is_ref p) (R x) = 0" "one_if (is_send p) v = 0" "one_if (is_sonce p) v = 0" "one_if (is_ref p) v = 0"
    and v: "\<And>w. v = Some w \<Longrightarrow> right_ok P S x w" "\<And>obj b r. v = Some (obj, b, r) \<Longrightarrow> IE_BITS_TYPE b \<noteq> MACH_PORT_TYPE_PORT_SET \<and> r = IE_REQ_NONE"
  shows "rights_inv E (R(x := v)) P S"
proof -
  have "rights_inv E (R(x := v)) (P(p := P p)) S"
  proof (rule rights_inv_update [OF inv x(1,2)])
    show "right_ok (P(p := P p)) S y w" if "R y = Some w" for y w using rights_inv_cases [OF inv that] by simp
    show "port_ok E (R(x := v)) p port" if "P p = Some port" for port
      by (rule port_ok_update [OF rights_invD(2) [OF inv that] rights_invD(1) [OF inv]])
        (use x v(2) port_okD [OF rights_invD(2) [OF inv that]] in auto)
  qed (use v in auto)
  then show ?thesis by simp
qed

lemma entry_rewrite:
  assumes e: "entry_at S0 q i e xs {} H (ks_space s)" "MACH_PORT_INDEX name = i" and e': "ie_index e' = ie_index e" "ie_dist e' = ie_dist e"
    and "i \<in> H \<longrightarrow> ie_object e' = ie_object e" "IE_BITS_TYPE (ie_bits e') \<noteq> MACH_PORT_TYPE_NONE"
  shows "\<exists>S1 S2. set_entry q i e' s = Some (s\<lparr>ks_space := S1\<rparr>) \<and> entry_modified q name i (s\<lparr>ks_space := S1\<rparr>) = Some (s\<lparr>ks_space := S2\<rparr>)
    \<and> entry_at S0 q i e' xs {} H S1 \<and> entry_at S0 q i e' xs {} H S2"
proof -
  have "IE_BITS_TYPE (ie_bits e) \<noteq> MACH_PORT_TYPE_NONE" using entry_at_pend [OF e(1)] by simp
  then obtain S1 where S1: "set_entry q i e' s = Some (s\<lparr>ks_space := S1\<rparr>)" "entry_at S0 q i e' xs {} H S1"
    using set_entry_same_type [OF e(1) e'] assms(5,6) by auto
  moreover obtain S2 where "entry_modified q name i (s\<lparr>ks_space := S1\<rparr>) = Some (s\<lparr>ks_space := S2\<rparr>)" "entry_at S0 q i e' xs {} H S2"
    using entry_modified_at [of S0 q i e' xs "{}" H "s\<lparr>ks_space := S1\<rparr>" name] S1(2) e(2) by auto
  ultimately show ?thesis by blast
qed

lemma entry_clear_dealloc:
  assumes e: "entry_at S0 q i e xs pend H (ks_space s)" and n: "named name i (ie_bits e)" and "i \<notin> H" "ie_request e = IE_REQ_NONE"
  shows "\<exists>S1 S2. set_entry q i (e\<lparr>ie_object := IO_NULL\<rparr>) s = Some (s\<lparr>ks_space := S1\<rparr>)
    \<and> entry_dealloc q name i (s\<lparr>ks_space := S1\<rparr>) = Some (s\<lparr>ks_space := S2\<rparr>) \<and> entry_freed S0 q i xs (pend - {i}) H S2"
proof -
  let ?e = "e\<lparr>ie_object := IO_NULL\<rparr>"
  obtain S1 where S1: "set_entry q i ?e s = Some (s\<lparr>ks_space := S1\<rparr>)" "entry_at S0 q i ?e xs pend H S1"
    using set_entry_same_type [OF e, of ?e] assms(3) by auto
  moreover obtain S2 where "entry_dealloc q name i (s\<lparr>ks_space := S1\<rparr>) = Some (s\<lparr>ks_space := S2\<rparr>)" "entry_freed S0 q i xs (pend - {i}) H S2"
    using entry_dealloc_at [of S0 q i ?e xs pend H "s\<lparr>ks_space := S1\<rparr>" name] S1(2) namedD [OF n] assms(4) by auto
  ultimately show ?thesis by blast
qed

text \<open>One user reference less, except for a pegged count.\<close>

definition uref_decr :: "32 word \<Rightarrow> 32 word" where
  "uref_decr b = (if IE_BITS_UREFS b < MACH_PORT_UREFS_MAX then b - 1 else b)"

lemma uref_decr:
  assumes "IE_BITS_UREFS b \<noteq> 0" "IE_BITS_UREFS b \<noteq> 1"
  shows "IE_BITS_TYPE (uref_decr b) = IE_BITS_TYPE b" "IE_BITS_GEN (uref_decr b) = IE_BITS_GEN b" "IE_BITS_UREFS (uref_decr b) \<noteq> 0"
  using assms by (simp_all add: uref_decr_def ie_bits)

text \<open>A dead name is given up, or its user references change.\<close>

lemma dead_nameD:
  assumes "rights_ok E s" "rights s (q, i) = Some (obj, b, r)" "IE_BITS_TYPE b = MACH_PORT_TYPE_DEAD_NAME"
  shows "obj = IO_NULL" "r = IE_REQ_NONE" "IE_BITS_UREFS b \<noteq> 0" "q \<noteq> 0" "i < 2 ^ 24" "i \<notin> sends_of (ks_space s) q"
    "only_port p (rights s (q, i))" "one_if (is_send p) (rights s (q, i)) = 0" "one_if (is_sonce p) (rights s (q, i)) = 0"
    "one_if (is_ref p) (rights s (q, i)) = 0"
  using rights_inv_cases [OF rights_okD(3) [OF assms(1)] assms(2)] assms(2,3) entry_begin(3) [OF rights_okD(1) [OF assms(1)] assms(2)]
  by (auto simp: right_ok_def only_port_def one_if_def is_send_def is_sonce_def is_ref_def ie_bits)

lemma dead_name_free:
  assumes ok: "rights_ok E s" and x: "rights s (q, i) = Some (obj, b, r)" and n: "named name i b"
    and t: "IE_BITS_TYPE b = MACH_PORT_TYPE_DEAD_NAME"
  shows "\<exists>S. entry_dealloc q name i s = Some (s\<lparr>ks_space := S\<rparr>) \<and> rights_ok E (s\<lparr>ks_space := S\<rparr>)
    \<and> rights (s\<lparr>ks_space := S\<rparr>) = (rights s)((q, i) := None)"
proof -
  note sok = rights_okD(1) [OF ok] and d = dead_nameD [OF ok x t]
  obtain e xs where e: "entry_at (ks_space s) q i e xs {} (sends_of (ks_space s) q) (ks_space s)" "ie_object e = obj" "ie_bits e = b" "ie_request e = r"
    using entry_begin(1) [OF sok x] by blast
  obtain S where S: "entry_dealloc q name i s = Some (s\<lparr>ks_space := S\<rparr>)" "entry_freed (ks_space s) q i xs {} (sends_of (ks_space s) q) S"
    using entry_dealloc_at [OF e(1) namedD(1) [OF n]] e(2-4) d namedD(2) [OF n] by auto
  have sp: "spaces_ok (s\<lparr>ks_space := S\<rparr>)" "rights (s\<lparr>ks_space := S\<rparr>) = (rights s)((q, i) := None)"
    using entry_freed_done [OF sok, of q i xs "sends_of (ks_space s) q" "s\<lparr>ks_space := S\<rparr>"] S(2) d(6) by simp_all
  have "rights_inv E ((rights s)((q, i) := None)) (ks_port s) (ks_pset s)"
    by (rule rights_inv_nonport [OF rights_okD(3) [OF ok] d(7) _ d(8-10), of 0]) (simp_all add: only_port_def one_if_def)
  then show ?thesis using S(1) sp rights_okD(2) [OF ok] by (auto simp: rights_ok_def)
qed

lemma dead_name_set:
  assumes ok: "rights_ok E s" and x: "rights s (q, i) = Some (obj, b, r)" and n: "named name i b"
    and t: "IE_BITS_TYPE b = MACH_PORT_TYPE_DEAD_NAME" and e: "get_entry q i s = Some e"
    and b': "IE_BITS_TYPE b' = MACH_PORT_TYPE_DEAD_NAME" "IE_BITS_UREFS b' \<noteq> 0"
  shows "\<exists>S1 S. set_entry q i (e\<lparr>ie_bits := b'\<rparr>) s = Some (s\<lparr>ks_space := S1\<rparr>)
    \<and> entry_modified q name i (s\<lparr>ks_space := S1\<rparr>) = Some (s\<lparr>ks_space := S\<rparr>) \<and> rights_ok E (s\<lparr>ks_space := S\<rparr>)
    \<and> rights (s\<lparr>ks_space := S\<rparr>) = (rights s)((q, i) \<mapsto> (IO_NULL, b', IE_REQ_NONE))"
proof -
  note sok = rights_okD(1) [OF ok] and d = dead_nameD [OF ok x t]
  obtain xs where e': "entry_at (ks_space s) q i e xs {} (sends_of (ks_space s) q) (ks_space s)" "ie_object e = obj" "ie_request e = r"
    using entry_begin(1) [OF sok x] get_entry_at e by fastforce
  let ?e = "e\<lparr>ie_bits := b'\<rparr>"
  obtain S1 S where S: "set_entry q i ?e s = Some (s\<lparr>ks_space := S1\<rparr>)" "entry_modified q name i (s\<lparr>ks_space := S1\<rparr>) = Some (s\<lparr>ks_space := S\<rparr>)"
      "entry_at (ks_space s) q i ?e xs {} (sends_of (ks_space s) q) S"
    using entry_rewrite [OF e'(1) namedD(1) [OF n], of ?e] b'(1) by auto
  have sp: "spaces_ok (s\<lparr>ks_space := S\<rparr>)" "rights (s\<lparr>ks_space := S\<rparr>) = (rights s)((q, i) \<mapsto> (IO_NULL, b', IE_REQ_NONE))"
    using entry_done [OF sok, of q i ?e xs "sends_of (ks_space s) q" "s\<lparr>ks_space := S\<rparr>"] S(3) d(1,2,6) b'(1) e'(2,3) by (simp_all add: vis_def)
  note dn = dead_name_ok [OF b' d(4,5)]
  have "rights_inv E ((rights s)((q, i) \<mapsto> (IO_NULL, b', IE_REQ_NONE))) (ks_port s) (ks_pset s)"
    by (rule rights_inv_nonport [OF rights_okD(3) [OF ok] d(7) dn(2) d(8-10) dn(3-5)]) (use dn(1) b'(1) in auto)
  then have "rights_ok E (s\<lparr>ks_space := S\<rparr>)" using sp rights_okD(2) [OF ok] by (simp add: rights_ok_def)
  then show ?thesis using S(1,2) sp(2) by blast
qed

text \<open>The reference of a right that just became a dead name is released at the end of a routine.\<close>

definition spare_ref :: "kst \<Rightarrow> ptr \<Rightarrow> bool" where
  "spare_ref s p \<longleftrightarrow> (p \<noteq> IP_NULL \<longrightarrow>
     (\<exists>port. ks_port s p = Some port \<and> cnt (is_ref p) (rights s) + of_bool (ip_active port) < unat (ip_references port)))"

lemma release_spare:
  assumes "rights_ok E s" "spare_ref s p"
  shows "\<exists>s'. (if p \<noteq> IP_NULL then ip_release p s else Some s) = Some s' \<and> rights_ok E s' \<and> rights s' = rights s"
proof (cases "p = IP_NULL")
  case False
  then obtain port where "ks_port s p = Some port" "cnt (is_ref p) (rights s) + of_bool (ip_active port) < unat (ip_references port)"
    using assms(2) by (auto simp: spare_ref_def)
  then show ?thesis using ip_release_ok [OF assms(1)] False by auto
qed (use assms in simp)

lemma spare_ref_change:
  assumes ok: "rights_ok E s" and "spare_ref s p" "one_if (is_ref p) (rights s x) = 0" "one_if (is_ref p) v = 0"
    and "rights s' = (rights s)(x := v)" "ks_port s' = ks_port s"
  shows "spare_ref s' p"
  using cnt_upd [OF rights_invD(1) [OF rights_okD(3) [OF ok]], of "is_ref p" x v] assms(2-6) by (simp add: spare_ref_def)

lemma ipc_right_dealloc_dead_name_ok:
  assumes ok: "rights_ok E s" and x: "rights s (q, i) = Some (obj, b, r)" and n: "named name i b"
    and t: "IE_BITS_TYPE b = MACH_PORT_TYPE_DEAD_NAME" and p: "spare_ref s p"
  shows "\<exists>s'. ipc_right_dealloc_dead_name q name i p s = Some (KERN_SUCCESS, s') \<and> rights_ok E s'
    \<and> rights s' = (rights s)((q, i) := if IE_BITS_UREFS b = 1 then None else Some (IO_NULL, uref_decr b, IE_REQ_NONE))"
proof -
  note d = dead_nameD [OF ok x t]
  let ?v = "if IE_BITS_UREFS b = 1 then None else Some (IO_NULL, uref_decr b, IE_REQ_NONE)"
  obtain e xs where e: "entry_at (ks_space s) q i e xs {} (sends_of (ks_space s) q) (ks_space s)" "ie_object e = obj" "ie_bits e = b" "ie_request e = r"
    using entry_begin(1) [OF rights_okD(1) [OF ok] x] by blast
  note u = uref_decr [OF d(3)]
  obtain S where S: "(if IE_BITS_UREFS b = 1 then entry_dealloc q name i s
           else do { s \<leftarrow> set_entry q i (if IE_BITS_UREFS b < MACH_PORT_UREFS_MAX then e\<lparr>ie_bits := b - 1\<rparr> else e) s; entry_modified q name i s })
      = Some (s\<lparr>ks_space := S\<rparr>)" "rights_ok E (s\<lparr>ks_space := S\<rparr>)" "rights (s\<lparr>ks_space := S\<rparr>) = (rights s)((q, i) := ?v)"
  proof (cases "IE_BITS_UREFS b = 1")
    case True
    then show ?thesis using dead_name_free [OF ok x n t] that by auto
  next
    case False
    have "(if IE_BITS_UREFS b < MACH_PORT_UREFS_MAX then e\<lparr>ie_bits := b - 1\<rparr> else e) = e\<lparr>ie_bits := uref_decr b\<rparr>"
      using e(3) by (simp add: uref_decr_def)
    then show ?thesis using dead_name_set [OF ok x n t get_entry_at [OF e(1)], of "uref_decr b"] u [OF False] t False that by auto
  qed
  have "one_if (is_ref p) ?v = 0" using u t by (simp add: one_if_def is_ref_def ie_bits)
  then have "spare_ref (s\<lparr>ks_space := S\<rparr>) p" using spare_ref_change [OF ok p d(10), of ?v] S(3) by simp
  from release_spare [OF S(2) this] obtain s' where
    "(if p \<noteq> IP_NULL then ip_release p (s\<lparr>ks_space := S\<rparr>) else Some (s\<lparr>ks_space := S\<rparr>)) = Some s'" "rights_ok E s'" "rights s' = (rights s)((q, i) := ?v)"
    using S(3) by auto
  moreover have "ipc_right_dealloc_dead_name q name i p s = Some (KERN_SUCCESS, s')"
    using S(1) calculation(1) e(2-4) d by (simp add: ipc_right_dealloc_dead_name_def get_entry_at [OF e(1)] word_neq_0_conv)
  ultimately show ?thesis by blast
qed

lemma requests_map_NONE [simp]: "requests_map port IE_REQ_NONE = None"
  by (auto simp: requests_map_def ipr_map_def IE_REQ_NONE_def split: option.splits)

lemma request_cancel_macro_at:
  assumes e: "entry_at S0 q i e xs pend H (ks_space s)" "MACH_PORT_INDEX name = i" and p: "ie_object e = p" "ks_port s p = Some port"
    and port: "ip_active port" "requests_inv E port"
    and rq: "ie_request e \<noteq> IE_REQ_NONE \<Longrightarrow> \<exists>n. requests_map port (ie_request e) = Some (name, n)"
  shows "\<exists>previous t S. ipc_right_request_cancel_macro q p name i s = Some (previous, (put_port s p (port\<lparr>ip_requests := t\<rparr>))\<lparr>ks_space := S\<rparr>)
    \<and> entry_at S0 q i (e\<lparr>ie_request := IE_REQ_NONE\<rparr>) xs pend H S \<and> requests_inv E (port\<lparr>ip_requests := t\<rparr>)
    \<and> requests_map (port\<lparr>ip_requests := t\<rparr>) = (requests_map port)(ie_request e := None)"
proof (cases "ie_request e = IE_REQ_NONE")
  case True
  have e': "e\<lparr>ie_request := IE_REQ_NONE\<rparr> = e" using True by (cases e) simp
  have m: "(requests_map port)(IE_REQ_NONE := None) = requests_map port" by (auto simp: fun_eq_iff)
  have "ipc_right_request_cancel_macro q p name i s = Some (IP_NULL, s)"
    using True by (simp add: ipc_right_request_cancel_macro_def get_entry_at [OF e(1)])
  then show ?thesis unfolding e' True m
    using e(1) port(2) put_port_id [OF p(2)]
    by (intro exI [of _ IP_NULL] exI [of _ "ip_requests port"] exI [of _ "ks_space s"]) simp
next
  case False
  obtain n where n: "requests_map port (ie_request e) = Some (name, n)" using rq [OF False] by blast
  obtain t where t: "ip_requests port = Some t" "ipr_map t (ie_request e) = Some (name, n)"
    using n by (auto simp: requests_map_def split: option.splits)
  obtain fs where fs: "ipr_ok E t fs" using port(2) t(1) by (auto simp: requests_inv_def)
  obtain t' where c: "ipc_port_request_cancel port name (ie_request e) = Some (n, port\<lparr>ip_requests := Some t'\<rparr>)"
      "ipr_ok E t' (ie_request e # fs)" "ipr_map t' = (ipr_map t)(ie_request e := None)"
    using request_cancel_ok [OF port(1) t(1) fs t(2)] by blast
  let ?port = "port\<lparr>ip_requests := Some t'\<rparr>" let ?e = "e\<lparr>ie_request := IE_REQ_NONE\<rparr>" let ?s = "put_port s p ?port"
  have es: "entry_at S0 q i e xs pend H (ks_space ?s)" using e(1) by simp
  obtain S1 where S1: "set_entry q i ?e ?s = Some (?s\<lparr>ks_space := S1\<rparr>)" "entry_at S0 q i ?e xs pend H S1"
    using set_entry_same_type [OF es, of ?e] by auto
  obtain S2 where S2: "entry_modified q name i (?s\<lparr>ks_space := S1\<rparr>) = Some (?s\<lparr>ks_space := S2\<rparr>)" "entry_at S0 q i ?e xs pend H S2"
    using entry_modified_at [of S0 q i ?e xs pend H "?s\<lparr>ks_space := S1\<rparr>" name] S1(2) e(2) by auto
  have "ipc_right_request_cancel_macro q p name i s = Some (n, ?s\<lparr>ks_space := S2\<rparr>)"
    using False p port(1) c(1) S1(1) S2(1)
    by (simp add: ipc_right_request_cancel_macro_def ipc_right_request_cancel_def get_entry_at [OF e(1)] require_ip_active_def)
  moreover have "requests_inv E ?port" using c(2) by (auto simp: requests_inv_def)
  moreover have "requests_map ?port = (requests_map port)(ie_request e := None)" using c(3) t(1) by (simp add: requests_map_def)
  ultimately show ?thesis using S2(2) by blast
qed

text \<open>The port after it lost a send right, and the no-senders notification that is due then.\<close>

definition sright_off :: "ipc_port \<Rightarrow> ipc_port" where
  "sright_off port = port\<lparr>ip_srights := ip_srights port - 1, ip_nsrequest := if ip_srights port = 1 then IP_NULL else ip_nsrequest port\<rparr>"

definition no_senders_of :: "ipc_port \<Rightarrow> ptr \<times> 32 word" where
  "no_senders_of port = (if ip_srights port = 1 \<and> ip_nsrequest port \<noteq> IP_NULL then (ip_nsrequest port, ip_mscount port) else (IP_NULL, 0))"

lemma drop_sright_eq:
  "ks_port s p = Some port \<Longrightarrow> drop_sright p s = Some (no_senders_of port, put_port s p (sright_off port))"
  by (cases port) (auto simp: drop_sright_def no_senders_of_def sright_off_def Let_def)

lemma sright_off_sel [simp]:
  "ip_active (sright_off port) = ip_active port" "link (sright_off port) = link port"
  "ip_references (sright_off port) = ip_references port" "ip_io_bits (sright_off port) = ip_io_bits port"
  "ip_requests (sright_off port) = ip_requests port" "requests_map (sright_off port) = requests_map port"
  "requests_inv E (sright_off port) = requests_inv E port" "destroyable E p (sright_off port) = destroyable E p port"
  "ip_srights (sright_off port) = ip_srights port - 1" "ip_sorights (sright_off port) = ip_sorights port"
  "ip_receiver_name (sright_off port) = ip_receiver_name port" "ip_data (sright_off port) = ip_data port"
  by (simp_all add: sright_off_def ip_active_def link_def requests_map_def requests_inv_def destroyable_def IP_PREALLOC_def)

lemma requests_update_sel [simp]:
  "link (port\<lparr>ip_requests := t\<rparr>) = link port" "destroyable E p (port\<lparr>ip_requests := t\<rparr>) = destroyable E p port"
  by (simp_all add: link_def ip_active_def destroyable_def IP_PREALLOC_def)

text \<open>
  The steps that free the entry of a send or send-once right to a live port: its request is cancelled, it leaves the
  hash table and the entry is deallocated.
\<close>

definition free_steps :: "ptr \<Rightarrow> mach_port_name_t \<Rightarrow> nat \<Rightarrow> ptr \<Rightarrow> bool \<Rightarrow> kst \<Rightarrow> (ptr \<times> kst) option" where
  "free_steps q name i p hs s = do {
     (request, s) \<leftarrow> ipc_right_request_cancel_macro q p name i s;
     s \<leftarrow> (if hs then hash_delete q p name s else Some s);
     e \<leftarrow> get_entry q i s;
     s \<leftarrow> set_entry q i (e\<lparr>ie_object := IO_NULL\<rparr>) s;
     s \<leftarrow> entry_dealloc q name i s;
     Some (request, s)
   }"

lemma free_steps_ok:
  assumes ok: "rights_ok E s" and x: "rights s (q, i) = Some (p, b, r)" and n: "named name i b" and t: "port_type b"
    and p: "ks_port s p = Some port" "ip_active port"
    and port1: "ip_active port1" "ip_requests port1 = ip_requests port" and h: "hs \<longleftrightarrow> IE_BITS_TYPE b = MACH_PORT_TYPE_SEND"
  shows "\<exists>previous rt S. free_steps q name i p hs (put_port s p port1) = Some (previous, (put_port s p (port1\<lparr>ip_requests := rt\<rparr>))\<lparr>ks_space := S\<rparr>)
    \<and> spaces_ok ((put_port s p (port1\<lparr>ip_requests := rt\<rparr>))\<lparr>ks_space := S\<rparr>)
    \<and> rights ((put_port s p (port1\<lparr>ip_requests := rt\<rparr>))\<lparr>ks_space := S\<rparr>) = (rights s)((q, i) := None)
    \<and> requests_inv E (port1\<lparr>ip_requests := rt\<rparr>) \<and> requests_map (port1\<lparr>ip_requests := rt\<rparr>) = (requests_map port)(r := None)"
proof -
  have po: "port_right_ok port q i b r" "port_ok E (rights s) p port" using port_right(1) [OF ok x t] p(1) by auto
  have m: "requests_map port1 = requests_map port" "requests_inv E port1"
    using port1(2) port_okD(2) [OF po(2)] by (auto simp: requests_map_def requests_inv_def)
  obtain e xs where e: "entry_at (ks_space s) q i e xs {} (sends_of (ks_space s) q) (ks_space s)" "ie_object e = p" "ie_bits e = b" "ie_request e = r"
    using entry_begin(1) [OF rights_okD(1) [OF ok] x] by blast
  have rq: "ie_request e \<noteq> IE_REQ_NONE \<Longrightarrow> \<exists>n. requests_map port1 (ie_request e) = Some (name, n)"
    using po(1) e(4) m(1) namedD(3) [OF n] by (auto simp: port_right_ok_def)
  obtain previous rt S1 where S1: "ipc_right_request_cancel_macro q p name i (put_port s p port1) = Some (previous, (put_port s p (port1\<lparr>ip_requests := rt\<rparr>))\<lparr>ks_space := S1\<rparr>)"
      "entry_at (ks_space s) q i (e\<lparr>ie_request := IE_REQ_NONE\<rparr>) xs {} (sends_of (ks_space s) q) S1"
      "requests_inv E (port1\<lparr>ip_requests := rt\<rparr>)" "requests_map (port1\<lparr>ip_requests := rt\<rparr>) = (requests_map port1)(ie_request e := None)"
    using request_cancel_macro_at [of "ks_space s" q i e xs "{}" "sends_of (ks_space s) q" "put_port s p port1" name p port1 E] e(1,2) namedD(1) [OF n] port1(1) m(2) rq
    by auto
  let ?s = "put_port s p (port1\<lparr>ip_requests := rt\<rparr>)"
  obtain S2 e2 where S2: "(if IE_BITS_TYPE b = MACH_PORT_TYPE_SEND then hash_delete q p name (?s\<lparr>ks_space := S1\<rparr>) else Some (?s\<lparr>ks_space := S1\<rparr>)) = Some (?s\<lparr>ks_space := S2\<rparr>)"
      "entry_at (ks_space s) q i e2 xs {} (sends_of (ks_space s) q - {i}) S2" "vis e2 = vis (e\<lparr>ie_request := IE_REQ_NONE\<rparr>)"
    using hash_delete_if_at [of "ks_space s" q i "e\<lparr>ie_request := IE_REQ_NONE\<rparr>" xs "{}" "sends_of (ks_space s) q" "?s\<lparr>ks_space := S1\<rparr>" name p]
      S1(2) namedD(1) [OF n] e(2) entry_begin(3) [OF rights_okD(1) [OF ok] x] by auto
  have e2: "ie_bits e2 = b" "ie_request e2 = IE_REQ_NONE" using S2(3) e(3) by (auto simp: vis_def)
  obtain S3 S4 where S3: "set_entry q i (e2\<lparr>ie_object := IO_NULL\<rparr>) (?s\<lparr>ks_space := S2\<rparr>) = Some (?s\<lparr>ks_space := S3\<rparr>)"
    "entry_dealloc q name i (?s\<lparr>ks_space := S3\<rparr>) = Some (?s\<lparr>ks_space := S4\<rparr>)" "entry_freed (ks_space s) q i xs {} (sends_of (ks_space s) q - {i}) S4"
    using entry_clear_dealloc [of "ks_space s" q i e2 xs "{}" "sends_of (ks_space s) q - {i}" "?s\<lparr>ks_space := S2\<rparr>" name] S2(2) e2 n by auto
  have fin: "spaces_ok (?s\<lparr>ks_space := S4\<rparr>)" "rights (?s\<lparr>ks_space := S4\<rparr>) = (rights s)((q, i) := None)"
    using entry_freed_done [OF rights_okD(1) [OF ok], of q i xs _ "?s\<lparr>ks_space := S4\<rparr>"] S3(3) by simp_all
  have "get_entry q i (?s\<lparr>ks_space := S2\<rparr>) = Some e2" using get_entry_at [of "ks_space s" q i e2 xs _ _ "?s\<lparr>ks_space := S2\<rparr>"] S2(2) by simp
  then have "free_steps q name i p hs (put_port s p port1) = Some (previous, ?s\<lparr>ks_space := S4\<rparr>)"
    using S1(1) S2(1) S3(1,2) h by (simp add: free_steps_def)
  moreover have "requests_map (port1\<lparr>ip_requests := rt\<rparr>) = (requests_map port)(r := None)" using S1(4) e(4) m(1) by simp
  ultimately show ?thesis using S1(3) fin by blast
qed

text \<open>A send or send-once right is gone; what the port loses with it is at most the right's count.\<close>

lemma rights_ok_gone:
  assumes ok: "rights_ok E s" and x: "rights s x = Some (p, b, r)" and p: "ks_port s p = Some port"
    and s': "spaces_ok s'" "rights s' = (rights s)(x := None)" "ks_ith_assertions s' = ks_ith_assertions s" "ks_pset s' = ks_pset s"
      "ks_port s' = (ks_port s)(p \<mapsto> port')"
    and port': "ip_io_bits port' = ip_io_bits port" "link port' = link port" "\<And>r'. r' \<noteq> r \<Longrightarrow> requests_map port' r' = requests_map port r'"
      "ip_references port' = ip_references port" "requests_inv E port'" "destroyable E p port' = destroyable E p port" "ip_active port' = ip_active port"
    and c: "unat (ip_srights port) \<le> unat (ip_srights port') + of_bool (b AND MACH_PORT_TYPE_SEND \<noteq> 0)"
      "unat (ip_sorights port) \<le> unat (ip_sorights port') + of_bool (b AND MACH_PORT_TYPE_SEND_ONCE \<noteq> 0)"
  shows "rights_ok E s'" "b AND MACH_PORT_TYPE_SEND_RIGHTS \<noteq> 0 \<Longrightarrow> b AND MACH_PORT_TYPE_RECEIVE = 0 \<Longrightarrow> spare_ref s' p"
proof -
  note inv = rights_okD(3) [OF ok]
  note po = rights_invD(2) [OF inv p]
  have "rights_inv E ((rights s)(x := None)) ((ks_port s)(p \<mapsto> port')) (ks_pset s)"
  proof (rule rights_inv_change [OF inv x p])
    show "only_port p None" by (simp add: only_port_def)
    show "link port' = link port \<or> b AND MACH_PORT_TYPE_RECEIVE \<noteq> 0 \<and> (\<not> ip_active port' \<or> ip_data port' = 0)" using port'(2) by simp
    show "unat (ip_srights port) + one_if (is_send p) None \<le> unat (ip_srights port') + one_if (is_send p) (rights s x)"
      "unat (ip_sorights port) + one_if (is_sonce p) None \<le> unat (ip_sorights port') + one_if (is_sonce p) (rights s x)"
      "unat (ip_references port) + one_if (is_ref p) None + of_bool (ip_active port') \<le> unat (ip_references port') + one_if (is_ref p) (rights s x) + of_bool (ip_active port)"
      using c port'(4,7) x by (simp_all add: one_if_def is_send_def is_sonce_def)
    show "refs_ok (ip_references port')" "requests_inv E port'" "destroyable E p port'"
      using port'(4-6) port_okD(1,3) [OF po] by simp_all
  qed (use port'(1,3) in auto)
  then show "rights_ok E s'" using s' rights_okD(2) [OF ok] by (simp add: rights_ok_def)
  assume "b AND MACH_PORT_TYPE_SEND_RIGHTS \<noteq> 0" "b AND MACH_PORT_TYPE_RECEIVE = 0"
  then have "cnt (is_ref p) (rights s') + 1 = cnt (is_ref p) (rights s)"
    using cnt_upd [OF rights_invD(1) [OF inv], of "is_ref p" x None] x s'(2) by (simp add: one_if_def is_ref_def)
  then show "spare_ref s' p" using port_okD(6) [OF po] s'(5) port'(4,7) by (simp add: spare_ref_def)
qed

section \<open>ipc\_right\_dealloc\<close>

text \<open>A right to a dead port: it turns into a dead name, which then loses one user reference.\<close>

definition dead_after :: "32 word \<Rightarrow> bool \<Rightarrow> right option" where
  "dead_after b req = (let b = dead_bits b req in if IE_BITS_UREFS b = 1 then None else Some (IO_NULL, uref_decr b, IE_REQ_NONE))"

lemma dead_check:
  assumes ok: "rights_ok E s" and x: "rights s (q, i) = Some (p, b, r)" and n: "named name i b"
    and t: "IE_BITS_TYPE b = MACH_PORT_TYPE_SEND \<or> IE_BITS_TYPE b = MACH_PORT_TYPE_SEND_ONCE"
    and p: "ks_port s p = Some port" "\<not> ip_active port"
  shows "\<exists>s1 e b'. ipc_right_check q p name i IPC_OBJECT_COPYIN_FLAGS_NONE s = Some (True, s1) \<and> rights_ok E s1
    \<and> rights s1 = (rights s)((q, i) \<mapsto> (IO_NULL, b', IE_REQ_NONE)) \<and> spare_ref s1 p \<and> get_entry q i s1 = Some e \<and> ie_bits e = b'
    \<and> named name i b' \<and> IE_BITS_TYPE b' = MACH_PORT_TYPE_DEAD_NAME \<and> (\<exists>req. b' = dead_bits b req)"
proof -
  have pt: "port_type b" using t by (auto simp: port_type_def)
  have "port_right_ok port q i b r" using port_right(1) [OF ok x pt] p(1) by auto
  then have u: "IE_BITS_UREFS b \<noteq> 0" using t by (auto simp: port_right_ok_def ie_bits)
  have fl: "IPC_OBJECT_COPYIN_FLAGS_NONE AND IPC_OBJECT_COPYIN_FLAGS_ALLOW_DEAD_SEND_ONCE = 0"
    by (simp add: IPC_OBJECT_COPYIN_FLAGS_NONE_def)
  obtain s1 req where s1: "ipc_right_check q p name i IPC_OBJECT_COPYIN_FLAGS_NONE s = Some (True, s1)" "rights_ok E s1"
      "rights s1 = (rights s)((q, i) \<mapsto> (IO_NULL, dead_bits b req, IE_REQ_NONE))" "ks_port s1 = (ks_port s)(p \<mapsto> count_off b port)"
      "cnt (is_ref p) (rights s1) < unat (ip_references port)"
    using ipc_right_check_dead [OF ok x n t p fl] by blast
  have x1: "rights s1 (q, i) = Some (IO_NULL, dead_bits b req, IE_REQ_NONE)" using s1(3) by simp
  obtain e xs where e: "entry_at (ks_space s1) q i e xs {} (sends_of (ks_space s1) q) (ks_space s1)" "ie_bits e = dead_bits b req"
    using entry_begin(1) [OF rights_okD(1) [OF s1(2)] x1] by blast
  have "named name i (dead_bits b req)" using n dead_bits(2) [OF u] by (simp add: named_def)
  moreover have "spare_ref s1 p" using s1(4,5) p(2) by (simp add: spare_ref_def)
  ultimately show ?thesis using s1(1-3) get_entry_at [OF e(1)] e(2) dead_bits(1) [OF u] by blast
qed

lemma dead_right_dealloc:
  assumes ok: "rights_ok E s" and x: "rights s (q, i) = Some (p, b, r)" and n: "named name i b"
    and t: "IE_BITS_TYPE b = MACH_PORT_TYPE_SEND \<or> IE_BITS_TYPE b = MACH_PORT_TYPE_SEND_ONCE"
    and p: "ks_port s p = Some port" "\<not> ip_active port"
  shows "\<exists>s1 e s' req. ipc_right_check q p name i IPC_OBJECT_COPYIN_FLAGS_NONE s = Some (True, s1) \<and> get_entry q i s1 = Some e
    \<and> IE_BITS_TYPE (ie_bits e) = MACH_PORT_TYPE_DEAD_NAME \<and> ipc_right_dealloc_dead_name q name i p s1 = Some (KERN_SUCCESS, s')
    \<and> rights_ok E s' \<and> rights s' = (rights s)((q, i) := dead_after b req)"
proof -
  obtain s1 e b' req where d: "ipc_right_check q p name i IPC_OBJECT_COPYIN_FLAGS_NONE s = Some (True, s1)" "rights_ok E s1"
      "rights s1 = (rights s)((q, i) \<mapsto> (IO_NULL, b', IE_REQ_NONE))" "spare_ref s1 p" "get_entry q i s1 = Some e" "ie_bits e = b'"
      "named name i b'" "IE_BITS_TYPE b' = MACH_PORT_TYPE_DEAD_NAME" "b' = dead_bits b req"
    using dead_check [OF ok x n t p] by blast
  have x1: "rights s1 (q, i) = Some (IO_NULL, b', IE_REQ_NONE)" using d(3) by simp
  obtain s' where "ipc_right_dealloc_dead_name q name i p s1 = Some (KERN_SUCCESS, s')" "rights_ok E s'"
    "rights s' = (rights s)((q, i) := dead_after b req)"
    using ipc_right_dealloc_dead_name_ok [OF d(2) x1 d(7,8,4)] d(3,9) by (auto simp: dead_after_def Let_def)
  then show ?thesis using d(1,5,6,8) by blast
qed

lemma port_typeI:
  "IE_BITS_TYPE b = MACH_PORT_TYPE_SEND \<Longrightarrow> port_type b" "IE_BITS_TYPE b = MACH_PORT_TYPE_SEND_ONCE \<Longrightarrow> port_type b"
  "IE_BITS_TYPE b = MACH_PORT_TYPE_RECEIVE \<Longrightarrow> port_type b" "IE_BITS_TYPE b = MACH_PORT_TYPE_SEND_RECEIVE \<Longrightarrow> port_type b"
  by (auto simp: port_type_def)

lemma right_free_sonce_ok:
  assumes ok: "rights_ok E s" and x: "rights s (q, i) = Some (p, b, r)" and n: "named name i b"
    and t: "IE_BITS_TYPE b = MACH_PORT_TYPE_SEND_ONCE" and p: "ks_port s p = Some port" "ip_active port"
  shows "\<exists>s'. right_free_sonce q name i p s = Some (KERN_SUCCESS, s') \<and> rights_ok E s' \<and> rights s' = (rights s)((q, i) := None)"
proof -
  let ?port = "port\<lparr>ip_reply_context := 0\<rparr>"
  have a: "ip_active ?port" "ip_requests ?port = ip_requests port" "False \<longleftrightarrow> IE_BITS_TYPE b = MACH_PORT_TYPE_SEND"
    using p(2) t by (simp_all add: ip_active_def ie_bits)
  obtain previous rt S s1 where f: "s1 = (put_port s p (?port\<lparr>ip_requests := rt\<rparr>))\<lparr>ks_space := S\<rparr>"
    "free_steps q name i p False (put_port s p ?port) = Some (previous, s1)" "spaces_ok s1" "rights s1 = (rights s)((q, i) := None)"
    "requests_inv E (?port\<lparr>ip_requests := rt\<rparr>)" "requests_map (?port\<lparr>ip_requests := rt\<rparr>) = (requests_map port)(r := None)"
    using free_steps_ok [OF ok x n port_typeI(2) [OF t] p a] by blast
  have "rights_ok E s1"
    by (rule rights_ok_gone(1) [OF ok x p(1) f(3,4), where port' = "?port\<lparr>ip_requests := rt\<rparr>"], use f(1,5,6) p(2) in \<open>simp_all add: link_def destroyable_def IP_PREALLOC_def ip_active_def\<close>)
  moreover let ?s' = "send_port_deleted previous name (ipc_notify_send_once p s1)"
  have "right_free_sonce q name i p s = Some (KERN_SUCCESS, ?s')" using f(2) p(1) by (auto simp: right_free_sonce_def free_steps_def split: bind_splits)
  moreover have "rights_ok E ?s' = rights_ok E s1" by (rule rights_ok_cong) simp_all
  moreover have "rights ?s' = rights s1" by (rule rights_cong) simp
  ultimately show ?thesis using f(4) by auto
qed

lemma send_last_ok:
  assumes ok: "rights_ok E s" and x: "rights s (q, i) = Some (p, b, r)" and n: "named name i b"
    and t: "IE_BITS_TYPE b = MACH_PORT_TYPE_SEND" and p: "ks_port s p = Some port" "ip_active port"
  shows "\<exists>previous s1 s'. free_steps q name i p True (put_port s p (sright_off port)) = Some (previous, s1) \<and> ip_release p s1 = Some s'
    \<and> rights_ok E s' \<and> rights s' = (rights s)((q, i) := None)"
proof -
  let ?port = "sright_off port"
  have b: "b AND MACH_PORT_TYPE_SEND \<noteq> 0" "b AND MACH_PORT_TYPE_SEND_RIGHTS \<noteq> 0" "b AND MACH_PORT_TYPE_RECEIVE = 0" using t by (simp_all add: ie_bits)
  have a: "ip_active ?port" "ip_requests ?port = ip_requests port" "True \<longleftrightarrow> IE_BITS_TYPE b = MACH_PORT_TYPE_SEND"
    using p(2) t by simp_all
  obtain previous rt S s1 where f: "s1 = (put_port s p (?port\<lparr>ip_requests := rt\<rparr>))\<lparr>ks_space := S\<rparr>"
    "free_steps q name i p True (put_port s p ?port) = Some (previous, s1)" "spaces_ok s1" "rights s1 = (rights s)((q, i) := None)"
    "requests_inv E (?port\<lparr>ip_requests := rt\<rparr>)" "requests_map (?port\<lparr>ip_requests := rt\<rparr>) = (requests_map port)(r := None)"
    using free_steps_ok [OF ok x n port_typeI(1) [OF t] p a] by blast
  have c: "unat (ip_srights port) \<le> Suc (unat (ip_srights port - 1))"
    using unat_minus_one_le [OF counts_pos(1) [OF ok x p(1) b(1)]] by simp
  have g: "rights_ok E s1"
    by (rule rights_ok_gone(1) [OF ok x p(1) f(3,4), where port' = "?port\<lparr>ip_requests := rt\<rparr>"], use f(1,5,6) b(1) c in simp_all)
  have "spare_ref s1 p"
    by (rule rights_ok_gone(2) [OF ok x p(1) f(3,4), where port' = "?port\<lparr>ip_requests := rt\<rparr>"], use f(1,5,6) b c in simp_all)
  from release_spare [OF g this] obtain s' where "ip_release p s1 = Some s'" "rights_ok E s'" "rights s' = (rights s)((q, i) := None)"
    using port_right(3) [OF ok x port_typeI(1) [OF t]] f(4) by auto
  then show ?thesis using f(2) by blast
qed

lemma rights_ok_log:
  assumes "rights_ok E s" and "ks_space s' = ks_space s" "ks_port s' = ks_port s" "ks_pset s' = ks_pset s" "ks_ith_assertions s' = ks_ith_assertions s"
  shows "rights_ok E s'" "rights s' = rights s"
  using rights_ok_cong [OF assms(2-5)] rights_cong [OF assms(2)] assms(1) by simp_all

text \<open>Only the bits of a right change, and with them possibly the send count of the port.\<close>

lemma right_rewrite_ok:
  assumes ok: "rights_ok E s" and x: "rights s (q, i) = Some (p, b, r)" and n: "MACH_PORT_INDEX name = i"
    and p: "ks_port s p = Some port" and e: "get_entry q i s = Some e"
    and t: "port_type b" "port_type b'" "b' AND MACH_PORT_TYPE_RECEIVE = 0 \<longleftrightarrow> b AND MACH_PORT_TYPE_RECEIVE = 0"
      "IE_BITS_TYPE b' = MACH_PORT_TYPE_SEND \<longleftrightarrow> IE_BITS_TYPE b = MACH_PORT_TYPE_SEND" "port_right_ok port' q i b' r"
    and port': "ip_io_bits port' = ip_io_bits port" "link port' = link port" "ip_requests port' = ip_requests port"
      "ip_references port' = ip_references port" "destroyable E p port' = destroyable E p port"
    and c: "unat (ip_srights port) + of_bool (b' AND MACH_PORT_TYPE_SEND \<noteq> 0) \<le> unat (ip_srights port') + of_bool (b AND MACH_PORT_TYPE_SEND \<noteq> 0)"
      "unat (ip_sorights port) + of_bool (b' AND MACH_PORT_TYPE_SEND_ONCE \<noteq> 0) \<le> unat (ip_sorights port') + of_bool (b AND MACH_PORT_TYPE_SEND_ONCE \<noteq> 0)"
  shows "\<exists>s1 s'. set_entry q i (e\<lparr>ie_bits := b'\<rparr>) (put_port s p port') = Some s1 \<and> entry_modified q name i s1 = Some s'
    \<and> rights_ok E s' \<and> rights s' = (rights s)((q, i) \<mapsto> (p, b', r)) \<and> ks_port s' = (ks_port s)(p \<mapsto> port') \<and> ks_pset s' = ks_pset s
    \<and> rights_ok E s1 \<and> rights s1 = rights s' \<and> ks_port s1 = ks_port s' \<and> get_entry q i s1 = Some (e\<lparr>ie_bits := b'\<rparr>)"
proof -
  note inv = rights_okD(3) [OF ok]
  note po = rights_invD(2) [OF inv p]
  obtain xs where e': "entry_at (ks_space s) q i e xs {} (sends_of (ks_space s) q) (ks_space s)" "ie_object e = p" "ie_bits e = b" "ie_request e = r"
    using entry_begin(1) [OF rights_okD(1) [OF ok] x] get_entry_at e by fastforce
  let ?s = "put_port s p port'" let ?e = "e\<lparr>ie_bits := b'\<rparr>"
  have es: "entry_at (ks_space s) q i e xs {} (sends_of (ks_space s) q) (ks_space ?s)" using e'(1) by simp
  have tn: "IE_BITS_TYPE b' \<noteq> MACH_PORT_TYPE_NONE" using t(2) by (auto simp: port_type_def ie_bits)
  obtain S1 S2 where S: "set_entry q i ?e ?s = Some (?s\<lparr>ks_space := S1\<rparr>)" "entry_modified q name i (?s\<lparr>ks_space := S1\<rparr>) = Some (?s\<lparr>ks_space := S2\<rparr>)"
      "entry_at (ks_space s) q i ?e xs {} (sends_of (ks_space s) q) S1" "entry_at (ks_space s) q i ?e xs {} (sends_of (ks_space s) q) S2"
    using entry_rewrite [OF es n, of ?e] tn by auto
  have "sends_of (ks_space s) q = (sends_of (ks_space s) q - {i}) \<union> (if IE_BITS_TYPE b' = MACH_PORT_TYPE_SEND then {i} else {})"
    using entry_begin(3) [OF rights_okD(1) [OF ok] x] t(4) by auto
  then have fin: "spaces_ok (?s\<lparr>ks_space := S\<rparr>)" "rights (?s\<lparr>ks_space := S\<rparr>) = (rights s)((q, i) \<mapsto> (p, b', r))"
    if "entry_at (ks_space s) q i ?e xs {} (sends_of (ks_space s) q) S" for S
    using entry_done [OF rights_okD(1) [OF ok], of q i ?e xs _ "?s\<lparr>ks_space := S\<rparr>"] that tn e'(2,4) by (simp_all add: vis_def)
  have rq: "requests_map port' = requests_map port" "requests_inv E port'"
    using port'(3) port_okD(2) [OF po] by (auto simp: requests_map_def requests_inv_def)
  have "rights_inv E ((rights s)((q, i) \<mapsto> (p, b', r))) ((ks_port s)(p \<mapsto> port')) (ks_pset s)"
  proof (rule rights_inv_change [OF inv x p])
    show "only_port p (Some (p, b', r))" by (simp add: only_port_def)
    show "link port' = link port \<or> b AND MACH_PORT_TYPE_RECEIVE \<noteq> 0 \<and> (\<not> ip_active port' \<or> ip_data port' = 0)" using port'(2) by simp
    show "right_ok ((ks_port s)(p \<mapsto> port')) (ks_pset s) (q, i) w" if "Some (p, b', r) = Some w" for w
      using that right_ok_portI [OF t(2) port_right(2) [OF ok x t(1)] _ t(5)] port_right(4,5) [OF ok x t(1)] by simp
    show "unat (ip_srights port) + one_if (is_send p) (Some (p, b', r)) \<le> unat (ip_srights port') + one_if (is_send p) (rights s (q, i))"
      "unat (ip_sorights port) + one_if (is_sonce p) (Some (p, b', r)) \<le> unat (ip_sorights port') + one_if (is_sonce p) (rights s (q, i))"
      using c x by (simp_all add: one_if_def is_send_def is_sonce_def)
    show "unat (ip_references port) + one_if (is_ref p) (Some (p, b', r)) + of_bool (ip_active port')
      \<le> unat (ip_references port') + one_if (is_ref p) (rights s (q, i)) + of_bool (ip_active port)"
      using port'(1,4) x t by (auto simp: one_if_def is_ref_def ip_active_def port_type_def ie_bits)
    show "refs_ok (ip_references port')" "destroyable E p port'" using port'(4,5) port_okD(1,3) [OF po] by simp_all
  qed (use port'(1) rq t(2) in \<open>auto simp: port_type_def ie_bits\<close>)
  then have "rights_ok E (?s\<lparr>ks_space := S2\<rparr>)" "rights_ok E (?s\<lparr>ks_space := S1\<rparr>)"
    using fin [OF S(3)] fin [OF S(4)] rights_okD(2) [OF ok] by (simp_all add: rights_ok_def)
  moreover have "get_entry q i (?s\<lparr>ks_space := S1\<rparr>) = Some ?e"
    using get_entry_at [of "ks_space s" q i ?e xs _ _ "?s\<lparr>ks_space := S1\<rparr>"] S(3) by simp
  ultimately show ?thesis using S(1,2) fin(2) [OF S(3)] fin(2) [OF S(4)] by auto
qed

text \<open>What the right of a space at a name may become, with everything else as before: no assertion fails.\<close>

definition right_step :: "kenv \<Rightarrow> kst \<Rightarrow> ptr \<times> nat \<Rightarrow> ('a \<times> kst) option \<Rightarrow> bool" where
  "right_step E s x res \<longleftrightarrow> (\<exists>a s' v. res = Some (a, s') \<and> rights_ok E s' \<and> rights s' = (rights s)(x := v))"

lemma right_stepI:
  "res = Some (a, s') \<Longrightarrow> rights_ok E s' \<Longrightarrow> rights s' = (rights s)(x := v) \<Longrightarrow> right_step E s x res"
  unfolding right_step_def by blast

lemma right_step_same:
  assumes ok: "rights_ok E s" and "res = Some (a, s')"
    and "ks_space s' = ks_space s" "ks_port s' = ks_port s" "ks_pset s' = ks_pset s" "ks_ith_assertions s' = ks_ith_assertions s"
  shows "right_step E s x res"
  by (rule right_stepI [OF assms(2), of _ _ _ "rights s x"]) (use rights_ok_log [OF ok assms(3-6)] in auto)

lemma ipc_right_dealloc_send_once_ok:
  assumes ok: "rights_ok E s" and x: "rights s (q, i) = Some (p, b, r)" and n: "named name i b"
    and t: "IE_BITS_TYPE b = MACH_PORT_TYPE_SEND_ONCE"
  shows "right_step E s (q, i) (ipc_right_dealloc_send_once q name i s)"
proof -
  note pt = port_typeI(2) [OF t]
  obtain port where p: "ks_port s p = Some port" "port_right_ok port q i b r" using port_right(1) [OF ok x pt] by blast
  obtain e xs where e: "entry_at (ks_space s) q i e xs {} (sends_of (ks_space s) q) (ks_space s)" "ie_object e = p" "ie_bits e = b"
    using entry_begin(1) [OF rights_okD(1) [OF ok] x] by blast
  have u: "IE_BITS_UREFS b = 1" "b AND MACH_PORT_TYPE_SEND_ONCE \<noteq> 0" using p(2) t by (auto simp: port_right_ok_def ie_bits)
  note pre = get_entry_at [OF e(1)] e(2,3) u(1) port_right(3) [OF ok x pt]
  show ?thesis
  proof (cases "ip_active port")
    case True
    obtain s' where s': "right_free_sonce q name i p s = Some (KERN_SUCCESS, s')" "rights_ok E s'" "rights s' = (rights s)((q, i) := None)"
      using right_free_sonce_ok [OF ok x n t p(1) True] by blast
    have "ipc_right_dealloc_send_once q name i s = Some (KERN_SUCCESS, s')"
      using pre s'(1) ipc_right_check_live [OF e(1,2) p(1) True] p(1) counts_pos(2) [OF ok x p(1) u(2)]
      by (simp add: ipc_right_dealloc_send_once_def)
    then show ?thesis using s'(2,3) by (rule right_stepI)
  next
    case False
    obtain s1 e1 s' req where d: "ipc_right_check q p name i IPC_OBJECT_COPYIN_FLAGS_NONE s = Some (True, s1)" "get_entry q i s1 = Some e1"
      "IE_BITS_TYPE (ie_bits e1) = MACH_PORT_TYPE_DEAD_NAME" "ipc_right_dealloc_dead_name q name i p s1 = Some (KERN_SUCCESS, s')"
      "rights_ok E s'" "rights s' = (rights s)((q, i) := dead_after b req)"
      using dead_right_dealloc [OF ok x n _ p(1) False] t by blast
    have "ipc_right_dealloc_send_once q name i s = Some (KERN_SUCCESS, s')"
      using pre d(1-4) by (simp add: ipc_right_dealloc_send_once_def)
    then show ?thesis using d(5,6) by (rule right_stepI)
  qed
qed

text \<open>The bits of a right to a port with other user references.\<close>

lemma port_right_urefs:
  assumes "port_right_ok port q i b r" "port_type b" "IE_BITS_TYPE b' = IE_BITS_TYPE b" "IE_BITS_GEN b' = IE_BITS_GEN b" "IE_BITS_UREFS b' \<noteq> 0"
    "b AND MACH_PORT_TYPE_SEND \<noteq> 0"
  shows "port_right_ok port q i b' r" "port_type b'" "b' AND MACH_PORT_TYPE_RECEIVE = b AND MACH_PORT_TYPE_RECEIVE"
    "b' AND MACH_PORT_TYPE_SEND = b AND MACH_PORT_TYPE_SEND" "b' AND MACH_PORT_TYPE_SEND_ONCE = b AND MACH_PORT_TYPE_SEND_ONCE"
proof -
  have m: "b' AND m = b AND m" if "m AND IE_BITS_TYPE_MASK = m" for m
    using type_test [OF assms(3) that] type_test [OF refl that] by simp
  show a: "b' AND MACH_PORT_TYPE_RECEIVE = b AND MACH_PORT_TYPE_RECEIVE" "b' AND MACH_PORT_TYPE_SEND = b AND MACH_PORT_TYPE_SEND"
    "b' AND MACH_PORT_TYPE_SEND_ONCE = b AND MACH_PORT_TYPE_SEND_ONCE" by (rule m, simp add: ie_bits_defs)+
  have "b AND MACH_PORT_TYPE_SEND_ONCE = 0" "IE_BITS_TYPE b \<noteq> MACH_PORT_TYPE_RECEIVE"
    using assms(2,6) by (auto simp: port_type_def ie_bits)
  then show "port_right_ok port q i b' r" using assms(1,3-5) a unfolding port_right_ok_def by simp
  show "port_type b'" using assms(2,3) by (simp add: port_type_def)
qed

lemma uref_change_ok:
  assumes ok: "rights_ok E s" and x: "rights s (q, i) = Some (p, b, r)" and n: "MACH_PORT_INDEX name = i"
    and b: "b AND MACH_PORT_TYPE_SEND \<noteq> 0" "port_type b" and e: "get_entry q i s = Some e"
    and b': "IE_BITS_TYPE b' = IE_BITS_TYPE b" "IE_BITS_GEN b' = IE_BITS_GEN b" "IE_BITS_UREFS b' \<noteq> 0"
  shows "\<exists>s1 s'. set_entry q i (e\<lparr>ie_bits := b'\<rparr>) s = Some s1 \<and> entry_modified q name i s1 = Some s'
    \<and> rights_ok E s' \<and> rights s' = (rights s)((q, i) \<mapsto> (p, b', r)) \<and> ks_port s' = ks_port s \<and> ks_pset s' = ks_pset s
    \<and> rights_ok E s1 \<and> rights s1 = rights s' \<and> ks_port s1 = ks_port s' \<and> get_entry q i s1 = Some (e\<lparr>ie_bits := b'\<rparr>)"
proof -
  obtain port where p: "ks_port s p = Some port" "port_right_ok port q i b r" using port_right(1) [OF ok x b(2)] by blast
  note u = port_right_urefs [OF p(2) b(2) b' b(1)]
  have "(ks_port s)(p \<mapsto> port) = ks_port s" using p(1) by auto
  then show ?thesis
    using right_rewrite_ok [OF ok x n p(1) e b(2) u(2) _ _ u(1)] b'(1) u(3-5) put_port_id [OF p(1)] by simp
qed

lemma ipc_right_dealloc_send_live:
  assumes ok: "rights_ok E s" and x: "rights s (q, i) = Some (p, b, r)" and n: "named name i b"
    and t: "IE_BITS_TYPE b = MACH_PORT_TYPE_SEND" and p: "ks_port s p = Some port" "ip_active port" and u: "IE_BITS_UREFS b \<noteq> 0"
  shows "right_step E s (q, i) (ipc_right_dealloc_send E q name i s)"
proof -
  note pt = port_typeI(1) [OF t]
  obtain e xs where e: "entry_at (ks_space s) q i e xs {} (sends_of (ks_space s) q) (ks_space s)" "ie_object e = p" "ie_bits e = b"
    using entry_begin(1) [OF rights_okD(1) [OF ok] x] by blast
  have sd: "b AND MACH_PORT_TYPE_SEND \<noteq> 0" using t by (simp add: ie_bits)
  note pre = get_entry_at [OF e(1)] e(2,3) u(1) [unfolded word_neq_0_conv] port_right(3) [OF ok x pt]
    ipc_right_check_live [OF e(1,2) p] p(1) counts_pos(1) [OF ok x p(1) sd]
  consider "IE_BITS_UREFS b = 1" "pinned_control_port_enabled E \<and> ip_pinned port" | "IE_BITS_UREFS b = 1" "\<not> (pinned_control_port_enabled E \<and> ip_pinned port)"
    | "IE_BITS_UREFS b \<noteq> 1" by blast
  then show ?thesis
  proof cases
    case 1
    then have "ipc_right_dealloc_send E q name i s = Some (KERN_INVALID_CAPABILITY, pinned_exception E name s)"
      using pre by (simp add: ipc_right_dealloc_send_def)
    then show ?thesis by (rule right_step_same [OF ok]) simp_all
  next
    case 2
    obtain previous s1 s' where s': "free_steps q name i p True (put_port s p (sright_off port)) = Some (previous, s1)"
      "ip_release p s1 = Some s'" "rights_ok E s'" "rights s' = (rights s)((q, i) := None)"
      using send_last_ok [OF ok x n t p] by blast
    let ?s' = "send_port_deleted previous name (send_no_senders (no_senders_of port) s')"
    have "ipc_right_dealloc_send E q name i s = Some (KERN_SUCCESS, ?s')"
      using pre 2 s'(1,2) drop_sright_eq [OF p(1)] by (auto simp: ipc_right_dealloc_send_def free_steps_def split: bind_splits)
    then show ?thesis
      by (rule right_stepI [where v = None]) (use rights_ok_log [OF s'(3), of ?s'] s'(4) in auto)
  next
    case 3
    note d = uref_decr [OF u 3]
    obtain s1 s' where s': "set_entry q i (e\<lparr>ie_bits := uref_decr b\<rparr>) s = Some s1" "entry_modified q name i s1 = Some s'"
        "rights_ok E s'" "rights s' = (rights s)((q, i) \<mapsto> (p, uref_decr b, r))"
      using uref_change_ok [OF ok x namedD(1) [OF n] sd pt get_entry_at [OF e(1)] d] by blast
    have "(if IE_BITS_UREFS b < MACH_PORT_UREFS_MAX then e\<lparr>ie_bits := b - 1\<rparr> else e) = e\<lparr>ie_bits := uref_decr b\<rparr>"
      using e(3) by (simp add: uref_decr_def)
    then have "ipc_right_dealloc_send E q name i s = Some (KERN_SUCCESS, s')"
      using pre 3 s'(1,2) by (simp add: ipc_right_dealloc_send_def)
    then show ?thesis using s'(3,4) by (rule right_stepI)
  qed
qed

lemma ipc_right_dealloc_send_ok:
  assumes ok: "rights_ok E s" and x: "rights s (q, i) = Some (p, b, r)" and n: "named name i b"
    and t: "IE_BITS_TYPE b = MACH_PORT_TYPE_SEND"
  shows "right_step E s (q, i) (ipc_right_dealloc_send E q name i s)"
proof -
  note pt = port_typeI(1) [OF t]
  obtain port where p: "ks_port s p = Some port" "port_right_ok port q i b r" using port_right(1) [OF ok x pt] by blast
  obtain e xs where e: "entry_at (ks_space s) q i e xs {} (sends_of (ks_space s) q) (ks_space s)" "ie_object e = p" "ie_bits e = b"
    using entry_begin(1) [OF rights_okD(1) [OF ok] x] by blast
  have u: "IE_BITS_UREFS b \<noteq> 0" using p(2) t by (auto simp: port_right_ok_def ie_bits)
  show ?thesis
  proof (cases "ip_active port")
    case True
    then show ?thesis using ipc_right_dealloc_send_live [OF ok x n t p(1)] u by blast
  next
    case False
    obtain s1 e1 s' req where d: "ipc_right_check q p name i IPC_OBJECT_COPYIN_FLAGS_NONE s = Some (True, s1)" "get_entry q i s1 = Some e1"
      "IE_BITS_TYPE (ie_bits e1) = MACH_PORT_TYPE_DEAD_NAME" "ipc_right_dealloc_dead_name q name i p s1 = Some (KERN_SUCCESS, s')"
      "rights_ok E s'" "rights s' = (rights s)((q, i) := dead_after b req)"
      using dead_right_dealloc [OF ok x n _ p(1) False] t by blast
    have "ipc_right_dealloc_send E q name i s = Some (KERN_SUCCESS, s')"
      using d(1-4) get_entry_at [OF e(1)] e(2,3) u [unfolded word_neq_0_conv] port_right(3) [OF ok x pt] by (simp add: ipc_right_dealloc_send_def)
    then show ?thesis using d(5,6) by (rule right_stepI)
  qed
qed

text \<open>A send-receive right that loses its send right.\<close>

lemma send_off_bits:
  assumes "IE_BITS_TYPE b = MACH_PORT_TYPE_SEND_RECEIVE" and b': "b' = b AND NOT (IE_BITS_UREFS_MASK OR MACH_PORT_TYPE_SEND)"
  shows "IE_BITS_TYPE b' = MACH_PORT_TYPE_RECEIVE" "IE_BITS_GEN b' = IE_BITS_GEN b" "IE_BITS_UREFS b' = 0"
proof -
  let ?m = "IE_BITS_UREFS_MASK OR MACH_PORT_TYPE_SEND"
  have c: "b' AND m = (b AND m) AND NOT ?m" for m unfolding b' by (simp add: and.assoc and.left_commute and.commute)
  have "IE_BITS_TYPE b' = MACH_PORT_TYPE_SEND_RECEIVE AND NOT ?m" using c [of IE_BITS_TYPE_MASK] assms(1) by (simp add: IE_BITS_TYPE_def)
  then show "IE_BITS_TYPE b' = MACH_PORT_TYPE_RECEIVE" by (simp add: ie_bits_defs)
  have "IE_BITS_GEN_MASK AND NOT ?m = IE_BITS_GEN_MASK" "IE_BITS_UREFS_MASK AND NOT ?m = 0" by (simp_all add: ie_bits_defs)
  then show "IE_BITS_GEN b' = IE_BITS_GEN b" "IE_BITS_UREFS b' = 0"
    using c [of IE_BITS_GEN_MASK] c [of IE_BITS_UREFS_MASK] by (simp_all add: IE_BITS_GEN_def IE_BITS_UREFS_def and.assoc)
qed

lemma send_off_ok:
  assumes ok: "rights_ok E s" and x: "rights s (q, i) = Some (p, b, r)" and n: "MACH_PORT_INDEX name = i"
    and t: "IE_BITS_TYPE b = MACH_PORT_TYPE_SEND_RECEIVE" and p: "ks_port s p = Some port" and e: "get_entry q i s = Some e"
    and b': "b' = b AND NOT (IE_BITS_UREFS_MASK OR MACH_PORT_TYPE_SEND)"
  shows "\<exists>s1 s'. set_entry q i (e\<lparr>ie_bits := b'\<rparr>) (put_port s p (sright_off port)) = Some s1 \<and> entry_modified q name i s1 = Some s'
    \<and> rights_ok E s' \<and> rights s' = (rights s)((q, i) \<mapsto> (p, b', r)) \<and> ks_port s' = (ks_port s)(p \<mapsto> sright_off port) \<and> ks_pset s' = ks_pset s
    \<and> rights_ok E s1 \<and> rights s1 = rights s' \<and> ks_port s1 = ks_port s' \<and> get_entry q i s1 = Some (e\<lparr>ie_bits := b'\<rparr>)"
proof (rule right_rewrite_ok [OF ok x n p e port_typeI(4) [OF t]])
  note u = send_off_bits [OF t b']
  have po: "port_right_ok port q i b r" using port_right(1) [OF ok x port_typeI(4) [OF t]] p by auto
  have s: "b AND MACH_PORT_TYPE_SEND \<noteq> 0" "b' AND MACH_PORT_TYPE_SEND = 0" using t u(1) by (simp_all add: ie_bits)
  show "port_type b'" using u(1) by (rule port_typeI(3))
  show "b' AND MACH_PORT_TYPE_RECEIVE = 0 \<longleftrightarrow> b AND MACH_PORT_TYPE_RECEIVE = 0"
    "IE_BITS_TYPE b' = MACH_PORT_TYPE_SEND \<longleftrightarrow> IE_BITS_TYPE b = MACH_PORT_TYPE_SEND" using t u(1) by (simp_all add: ie_bits)
  have "ip_receiver (sright_off port) = ip_receiver port" by (simp add: sright_off_def)
  then show "port_right_ok (sright_off port) q i b' r" using po t u by (simp add: port_right_ok_def ie_bits)
  show "unat (ip_srights port) + of_bool (b' AND MACH_PORT_TYPE_SEND \<noteq> 0)
      \<le> unat (ip_srights (sright_off port)) + of_bool (b AND MACH_PORT_TYPE_SEND \<noteq> 0)"
    using unat_minus_one_le [OF counts_pos(1) [OF ok x p s(1)]] s by simp
  show "unat (ip_sorights port) + of_bool (b' AND MACH_PORT_TYPE_SEND_ONCE \<noteq> 0)
      \<le> unat (ip_sorights (sright_off port)) + of_bool (b AND MACH_PORT_TYPE_SEND_ONCE \<noteq> 0)"
    using t u(1) by (simp add: ie_bits)
qed simp_all

lemma ipc_right_dealloc_send_receive_ok:
  assumes ok: "rights_ok E s" and x: "rights s (q, i) = Some (p, b, r)" and n: "named name i b"
    and t: "IE_BITS_TYPE b = MACH_PORT_TYPE_SEND_RECEIVE"
  shows "right_step E s (q, i) (ipc_right_dealloc_send_receive q name i s)"
proof -
  note pt = port_typeI(4) [OF t]
  obtain port where p: "ks_port s p = Some port" "port_right_ok port q i b r" using port_right(1) [OF ok x pt] by blast
  obtain e xs where e: "entry_at (ks_space s) q i e xs {} (sends_of (ks_space s) q) (ks_space s)" "ie_object e = p" "ie_bits e = b"
    using entry_begin(1) [OF rights_okD(1) [OF ok] x] by blast
  have u: "IE_BITS_UREFS b \<noteq> 0" "b AND MACH_PORT_TYPE_SEND \<noteq> 0" "ip_active port" "ip_receiver port = q" "ip_receiver_name port = name"
    using p(2) t namedD(3) [OF n] by (auto simp: port_right_ok_def ie_bits)
  note pre = get_entry_at [OF e(1)] e(2,3) u(1) [unfolded word_neq_0_conv] port_right(3) [OF ok x pt] p(1) u(3-5) counts_pos(1) [OF ok x p(1) u(2)]
  show ?thesis
  proof (cases "IE_BITS_UREFS b = 1")
    case True
    let ?b = "b AND NOT (IE_BITS_UREFS_MASK OR MACH_PORT_TYPE_SEND)"
    obtain s1 s' where s': "set_entry q i (e\<lparr>ie_bits := ?b\<rparr>) (put_port s p (sright_off port)) = Some s1" "entry_modified q name i s1 = Some s'"
        "rights_ok E s'" "rights s' = (rights s)((q, i) \<mapsto> (p, ?b, r))"
      using send_off_ok [OF ok x namedD(1) [OF n] t p(1) get_entry_at [OF e(1)] refl] by blast
    have "ipc_right_dealloc_send_receive q name i s = Some (KERN_SUCCESS, send_no_senders (no_senders_of port) s')"
      using pre True s'(1,2) drop_sright_eq [OF p(1)] by (simp add: ipc_right_dealloc_send_receive_def require_ip_active_def)
    then show ?thesis
      by (rule right_stepI) (use rights_ok_log [OF s'(3), of "send_no_senders (no_senders_of port) s'"] s'(4) in auto)
  next
    case False
    obtain s1 s' where s': "set_entry q i (e\<lparr>ie_bits := uref_decr b\<rparr>) s = Some s1" "entry_modified q name i s1 = Some s'"
        "rights_ok E s'" "rights s' = (rights s)((q, i) \<mapsto> (p, uref_decr b, r))"
      using uref_change_ok [OF ok x namedD(1) [OF n] u(2) pt get_entry_at [OF e(1)] uref_decr [OF u(1) False]] by blast
    have "(if IE_BITS_UREFS b < MACH_PORT_UREFS_MAX then e\<lparr>ie_bits := b - 1\<rparr> else e) = e\<lparr>ie_bits := uref_decr b\<rparr>"
      using e(3) by (simp add: uref_decr_def)
    then have "ipc_right_dealloc_send_receive q name i s = Some (KERN_SUCCESS, s')"
      using pre False s'(1,2) by (simp add: ipc_right_dealloc_send_receive_def require_ip_active_def send_no_senders_def)
    then show ?thesis using s'(3,4) by (rule right_stepI)
  qed
qed

text \<open>Port sets: the entry goes, and with it the only right to the set.\<close>

lemma pset_right:
  assumes ok: "rights_ok E s" and x: "rights s (q, i) = Some (obj, b, r)" and t: "IE_BITS_TYPE b = MACH_PORT_TYPE_PORT_SET"
  shows "r = IE_REQ_NONE" "IE_BITS_UREFS b = 0" "obj \<noteq> IO_NULL" "\<exists>ps. ks_pset s obj = Some ps \<and> ips_active ps \<and> refs_ok (ips_references ps)"
  using rights_inv_cases [OF rights_okD(3) [OF ok] x] t rights_invD(3) [OF rights_okD(3) [OF ok]] by (auto simp: right_ok_def ie_bits)

lemma psets_injD:
  "psets_inj R \<Longrightarrow> R x = Some (obj, b, r) \<Longrightarrow> R y = Some (obj, b', r') \<Longrightarrow> IE_BITS_TYPE b = MACH_PORT_TYPE_PORT_SET \<Longrightarrow>
     IE_BITS_TYPE b' = MACH_PORT_TYPE_PORT_SET \<Longrightarrow> x = y"
  unfolding psets_inj_def by blast

lemma rights_inv_pset_gone:
  assumes inv: "rights_inv E R P S" and x: "R x = Some (obj, b, r)" and t: "IE_BITS_TYPE b = MACH_PORT_TYPE_PORT_SET"
    and ps: "\<And>ps. po = Some ps \<Longrightarrow> refs_ok (ips_references ps)"
  shows "rights_inv E (R(x := None)) P (S(obj := po))"
proof -
  have z: "one_if (is_send p) (R x) = 0" "one_if (is_sonce p) (R x) = 0" "one_if (is_ref p) (R x) = 0" "only_port p (R x)" for p
    using x t by (simp_all add: one_if_def is_send_def is_sonce_def is_ref_def only_port_def ie_bits)
  have 1: "rights_inv E (R(x := None)) P S"
    by (rule rights_inv_nonport [OF inv z(4) _ z(1-3)]) (simp_all add: only_port_def one_if_def)
  have "right_ok P (S(obj := po)) y w" if y: "(R(x := None)) y = Some w" for y w
  proof -
    have "IE_BITS_TYPE (fst (snd w)) = MACH_PORT_TYPE_PORT_SET \<Longrightarrow> fst w \<noteq> obj"
      using y psets_injD [where y = y, OF rights_invD(4) [OF inv] x _ t] by (cases w, cases y) (auto split: if_splits)
    then show ?thesis using rights_inv_cases [OF 1 y] by (cases y, cases w) (auto simp: right_ok_def split: if_splits)
  qed
  then show ?thesis using 1 ps by (auto simp: rights_inv_def)
qed

lemma ipc_pset_destroy_ok:
  assumes "ks_pset s obj = Some ps" "ips_active ps" "refs_ok (ips_references ps)"
  shows "\<exists>s' po. ipc_pset_destroy q obj s = Some s' \<and> ks_space s' = ks_space s \<and> ks_port s' = ks_port s \<and> ks_ith_assertions s' = ks_ith_assertions s
    \<and> ks_pset s' = (ks_pset s)(obj := po) \<and> (\<forall>ps. po = Some ps \<longrightarrow> refs_ok (ips_references ps))"
proof -
  have "refs_ok (ips_references ps - 1)" if "ips_references ps \<noteq> 1"
    using assms(3) that by (auto simp: refs_ok_def word_less_nat_alt unat_minus_one)
  then show ?thesis
    using assms by (cases "ips_references ps = 1")
      (auto simp: ipc_pset_destroy_def ips_release_def io_release_def refs_ok_def Let_def not_le put_pset_def klog_def)
qed

lemma right_free_pset_ok:
  assumes ok: "rights_ok E s" and x: "rights s (q, i) = Some (obj, b, r)" and n: "named name i b" and t: "IE_BITS_TYPE b = MACH_PORT_TYPE_PORT_SET"
  shows "\<exists>s'. right_free_pset q name i s = Some (KERN_SUCCESS, s') \<and> rights_ok E s' \<and> rights s' = (rights s)((q, i) := None)"
proof -
  obtain ps where ps: "ks_pset s obj = Some ps" "ips_active ps" "refs_ok (ips_references ps)" using pset_right(4) [OF ok x t] by blast
  obtain e xs where e: "entry_at (ks_space s) q i e xs {} (sends_of (ks_space s) q) (ks_space s)" "ie_object e = obj" "ie_bits e = b" "ie_request e = r"
    using entry_begin(1) [OF rights_okD(1) [OF ok] x] by blast
  have h: "i \<notin> sends_of (ks_space s) q" using entry_begin(3) [OF rights_okD(1) [OF ok] x] t by (simp add: ie_bits)
  have m: "named name i (ie_bits e)" "ie_request e = IE_REQ_NONE" using n e(3,4) pset_right(1) [OF ok x t] by simp_all
  obtain S1 S2 where S: "set_entry q i (e\<lparr>ie_object := IO_NULL\<rparr>) s = Some (s\<lparr>ks_space := S1\<rparr>)"
    "entry_dealloc q name i (s\<lparr>ks_space := S1\<rparr>) = Some (s\<lparr>ks_space := S2\<rparr>)" "entry_freed (ks_space s) q i xs {} (sends_of (ks_space s) q) S2"
    using entry_clear_dealloc [OF e(1) m(1) h m(2)] by auto
  have fin: "spaces_ok (s\<lparr>ks_space := S2\<rparr>)" "rights (s\<lparr>ks_space := S2\<rparr>) = (rights s)((q, i) := None)"
    using entry_freed_done [OF rights_okD(1) [OF ok], of q i xs _ "s\<lparr>ks_space := S2\<rparr>"] S(3) h by simp_all
  obtain s' po where s': "ipc_pset_destroy q obj (s\<lparr>ks_space := S2\<rparr>) = Some s'" "ks_space s' = S2" "ks_port s' = ks_port s"
      "ks_ith_assertions s' = ks_ith_assertions s" "ks_pset s' = (ks_pset s)(obj := po)" "\<forall>ps. po = Some ps \<longrightarrow> refs_ok (ips_references ps)"
    using ipc_pset_destroy_ok [of "s\<lparr>ks_space := S2\<rparr>" obj ps q] ps by auto
  have "rights_ok E s'"
    using rights_inv_pset_gone [OF rights_okD(3) [OF ok] x t, of po] s'(2-6) fin rights_okD(2) [OF ok]
      spaces_ok_cong [of s' "s\<lparr>ks_space := S2\<rparr>"] rights_cong [of s' "s\<lparr>ks_space := S2\<rparr>"]
    by (simp add: rights_ok_def)
  moreover have "right_free_pset q name i s = Some (KERN_SUCCESS, s')"
    using S(1,2) s'(1) ps(1,2) e(2) pset_right(3) [OF ok x t] by (simp add: right_free_pset_def get_entry_at [OF e(1)])
  ultimately show ?thesis using fin(2) rights_cong [of s' "s\<lparr>ks_space := S2\<rparr>"] s'(2) by auto
qed

lemma right_types:
  assumes "rights_ok E s" "rights s x = Some (obj, b, r)"
  shows "IE_BITS_TYPE b \<in> {MACH_PORT_TYPE_DEAD_NAME, MACH_PORT_TYPE_PORT_SET, MACH_PORT_TYPE_SEND, MACH_PORT_TYPE_SEND_ONCE,
    MACH_PORT_TYPE_RECEIVE, MACH_PORT_TYPE_SEND_RECEIVE}"
  using rights_inv_cases [OF rights_okD(3) [OF assms(1)] assms(2)] by (cases x) (auto simp: right_ok_def port_type_def split: if_splits)

lemma ipc_right_dealloc_step:
  assumes ok: "rights_ok E s" and x: "rights s (q, i) = Some (obj, b, r)" and n: "named name i b"
  shows "right_step E s (q, i) (ipc_right_dealloc E q name i s)"
proof -
  obtain e xs where e: "entry_at (ks_space s) q i e xs {} (sends_of (ks_space s) q) (ks_space s)" "ie_object e = obj" "ie_bits e = b" "ie_request e = r"
    using entry_begin(1) [OF rights_okD(1) [OF ok] x] by blast
  note pre = get_entry_at [OF e(1)] e(2-4) assert_active_at [OF e(1)]
  have sp0: "spare_ref s IP_NULL" by (simp add: spare_ref_def)
  from right_types [OF ok x] show ?thesis
  proof (elim insertE)
    assume t: "IE_BITS_TYPE b = MACH_PORT_TYPE_DEAD_NAME"
    obtain s' v where "ipc_right_dealloc_dead_name q name i IP_NULL s = Some (KERN_SUCCESS, s')" "rights_ok E s'" "rights s' = (rights s)((q, i) := v)"
      using ipc_right_dealloc_dead_name_ok [OF ok x n t sp0] by blast
    then show ?thesis using pre t right_stepI [of "ipc_right_dealloc E q name i s" KERN_SUCCESS s'] by (auto simp: ipc_right_dealloc_def ie_bits)
  next
    assume t: "IE_BITS_TYPE b = MACH_PORT_TYPE_PORT_SET"
    obtain s' where "right_free_pset q name i s = Some (KERN_SUCCESS, s')" "rights_ok E s'" "rights s' = (rights s)((q, i) := None)"
      using right_free_pset_ok [OF ok x n t] by blast
    then show ?thesis using pre t pset_right [OF ok x t] right_stepI [of "ipc_right_dealloc E q name i s" KERN_SUCCESS s']
      by (auto simp: ipc_right_dealloc_def ipc_right_dealloc_port_set_def)
  next
    assume t: "IE_BITS_TYPE b = MACH_PORT_TYPE_SEND"
    show ?thesis using ipc_right_dealloc_send_ok [OF ok x n t] pre t by (simp add: ipc_right_dealloc_def ie_bits)
  next
    assume t: "IE_BITS_TYPE b = MACH_PORT_TYPE_SEND_ONCE"
    show ?thesis using ipc_right_dealloc_send_once_ok [OF ok x n t] pre t by (simp add: ipc_right_dealloc_def ie_bits)
  next
    assume t: "IE_BITS_TYPE b = MACH_PORT_TYPE_RECEIVE"
    show ?thesis by (rule right_step_same [OF ok, of _ _ "mach_port_guard_exception name 0 0 kGUARD_EXC_INVALID_RIGHT s"])
        (use pre t in \<open>simp_all add: ipc_right_dealloc_def ie_bits\<close>)
  next
    assume t: "IE_BITS_TYPE b = MACH_PORT_TYPE_SEND_RECEIVE"
    show ?thesis using ipc_right_dealloc_send_receive_ok [OF ok x n t] pre t by (simp add: ipc_right_dealloc_def ie_bits)
  qed simp
qed

end
