(* ===== verification/Ipc_Delta.thy ===== *)
theory Ipc_Delta
  imports Ipc_Destroy
begin

text \<open>
  \<open>ipc_right_delta\<close>, \<open>ipc_right_destruct\<close> and \<open>ipc_right_destroy\<close> on states that satisfy \<open>rights_ok\<close>: no assertion
  fails and the invariant is kept. User-reference counts saturate instead of overflowing, and \<open>ipc_right_dealloc\<close> is
  \<open>ipc_right_delta\<close> by one.
\<close>

section \<open>User references\<close>

lemma uint_add_signed: "uint (u + d) = (uint u + sint d) mod 2 ^ LENGTH('a)" for u d :: "'a :: len word"
proof -
  have "u + d = word_of_int (uint u + sint d)" by simp
  then show ?thesis by (simp only: uint_word_of_int)
qed

lemma urefs_max_int: "uint MACH_PORT_UREFS_MAX = 0xffff" "sint MACH_PORT_UREFS_MAX = 0xffff" "sint (- MACH_PORT_UREFS_MAX) = - 0xffff"
  by (simp_all add: MACH_PORT_UREFS_MAX_def)

lemma urefs_tests:
  assumes "u \<le> MACH_PORT_UREFS_MAX" "\<bar>sint delta\<bar> \<le> 0xffff"
  shows "MACH_PORT_UREFS_UNDERFLOW u delta \<longleftrightarrow> uint u + sint delta < 0"
    "MACH_PORT_UREFS_OVERFLOW u delta \<longleftrightarrow> 0 < sint delta \<and> 0xffff \<le> uint u + sint delta"
    "0 \<le> uint u + sint delta \<Longrightarrow> uint (u + delta) = uint u + sint delta"
proof -
  obtain m where m: "uint u = m" "0 \<le> m" by simp
  have U: "uint u \<le> 0xffff" using assms(1) by (simp add: word_le_def urefs_max_int)
  show add: "0 \<le> uint u + sint delta \<Longrightarrow> uint (u + delta) = uint u + sint delta"
    using U assms(2) by (simp add: uint_add_signed)
  have neg: "uint (- delta) = - sint delta" if "sint delta < 0"
  proof -
    have "- delta = word_of_int (- sint delta)" by simp
    then have "uint (- delta) = (- sint delta) mod 2 ^ 32" by (simp only: uint_word_of_int len_num1 len_bit0) simp
    then show ?thesis using that assms(2) by simp
  qed
  show "MACH_PORT_UREFS_UNDERFLOW u delta \<longleftrightarrow> uint u + sint delta < 0"
    using neg m by (cases "sint delta < 0") (auto simp: MACH_PORT_UREFS_UNDERFLOW_def word_sless_alt word_less_def)
  show "MACH_PORT_UREFS_OVERFLOW u delta \<longleftrightarrow> 0 < sint delta \<and> 0xffff \<le> uint u + sint delta"
    using add m by (auto simp: MACH_PORT_UREFS_OVERFLOW_def word_sless_alt word_le_def urefs_max_int)
qed

lemma urefs_delta_value:
  assumes u: "u \<le> MACH_PORT_UREFS_MAX"
  shows "map_option (\<lambda>d. uint (u + d)) (urefs_delta u delta) =
    (if \<bar>sint delta\<bar> > 0xffff then None
     else if u = MACH_PORT_UREFS_MAX then Some (if sint delta = - 0xffff then 0 else 0xffff)
     else if uint u + sint delta < 0 then None else Some (min 0xffff (uint u + sint delta)))"
proof (cases "\<bar>sint delta\<bar> > 0xffff")
  case True
  then show ?thesis by (auto simp: urefs_delta_def word_sless_alt urefs_max_int)
next
  case False
  note t = urefs_tests [OF u, of delta]
  have eq: "u = MACH_PORT_UREFS_MAX \<longleftrightarrow> uint u = 0xffff" using urefs_max_int(1) by (metis word_uint_eqI)
  have "delta = - MACH_PORT_UREFS_MAX \<longleftrightarrow> sint delta = - 0xffff" using urefs_max_int(3) by (metis signed_word_eqI)
  moreover have "uint u < 0xffff" if "u \<noteq> MACH_PORT_UREFS_MAX" using that u eq by (simp add: word_le_def urefs_max_int)
  ultimately show ?thesis using False t
    by (cases "u = MACH_PORT_UREFS_MAX") (auto simp: urefs_delta_def word_sless_alt urefs_max_int min_def)
qed

lemma urefs_deltaD:
  assumes "urefs_delta (IE_BITS_UREFS b) delta = Some d"
  shows "IE_BITS_UREFS b + d \<le> MACH_PORT_UREFS_MAX"
proof -
  have "uint (IE_BITS_UREFS b + d) \<le> 0xffff"
    using urefs_delta_value [OF IE_BITS_UREFS_le, of b delta] assms by (auto split: if_splits)
  then show ?thesis by (simp add: word_le_def urefs_max_int)
qed

lemma urefs_delta_bits:
  assumes "urefs_delta (IE_BITS_UREFS b) delta = Some d" "IE_BITS_UREFS b + d \<noteq> 0"
  shows "IE_BITS_TYPE (b + d) = IE_BITS_TYPE b" "IE_BITS_GEN (b + d) = IE_BITS_GEN b" "IE_BITS_UREFS (b + d) \<noteq> 0"
  using urefs_add [OF urefs_deltaD [OF assms(1)]] assms(2) by simp_all

section \<open>ipc\_right\_delta\<close>

lemma right_step_then:
  assumes "right_step E s x res" and "\<And>a s'. res = Some (a, s') \<Longrightarrow> res' = Some (f a, g s') \<and> same_but_log s' (g s')"
  shows "right_step E s x res'"
  using assms rights_ok_log unfolding right_step_def same_but_log_def by metis

lemma ipc_right_delta_port_set_ok:
  assumes ok: "rights_ok E s" and x: "rights s (q, i) = Some (obj, b, r)" and n: "named name i b"
  shows "right_step E s (q, i) (ipc_right_delta_port_set q name i delta s)"
proof -
  obtain e xs where e: "entry_at (ks_space s) q i e xs {} (sends_of (ks_space s) q) (ks_space s)" "ie_bits e = b" "ie_request e = r"
    using entry_begin(1) [OF rights_okD(1) [OF ok] x] by blast
  note pre = get_entry_at [OF e(1)] e(2,3)
  show ?thesis
  proof (cases "b AND MACH_PORT_TYPE_PORT_SET = 0")
    case True
    then show ?thesis using pre by (auto intro!: right_step_same [OF ok] simp: ipc_right_delta_port_set_def delta_invalid_right_def)
  next
    case False
    then have t: "IE_BITS_TYPE b = MACH_PORT_TYPE_PORT_SET" using right_types [OF ok x] by (auto simp: ie_bits)
    note pre = pre False t pset_right(1,2) [OF ok x t]
    show ?thesis
    proof (cases "delta = - 1")
      case True
      then have "ipc_right_delta_port_set q name i delta s = right_free_pset q name i s" using pre by (simp add: ipc_right_delta_port_set_def)
      then show ?thesis using right_free_pset_ok [OF ok x n t] right_stepI by metis
    qed (use pre in \<open>auto intro!: right_step_same [OF ok] simp: ipc_right_delta_port_set_def delta_invalid_value_def\<close>)
  qed
qed

text \<open>A right that turned out to be dead: the routine fails and gives up the reference of the former right.\<close>

lemma dead_invalid_right:
  assumes ok: "rights_ok E s1" and r1: "rights s1 = (rights s)(x := v)" and p: "spare_ref s1 p" "p \<noteq> IP_NULL" and l: "same_but_log s1 s2"
  shows "right_step E s x (delta_invalid_right p s2)"
proof -
  have "rights_ok E s2" "rights s2 = rights s1" using rights_ok_log [OF ok, of s2] l by (simp_all add: same_but_log_def)
  moreover have "spare_ref s2 p" using p(1) l calculation(2) by (simp add: spare_ref_def same_but_log_def)
  ultimately obtain s' where s': "ip_release p s2 = Some s'" "rights_ok E s'" "rights s' = (rights s)(x := v)"
    using release_spare [of E s2 p] p(2) r1 by auto
  then have "delta_invalid_right p s2 = Some (KERN_INVALID_RIGHT, s')" using p(2) by (simp add: delta_invalid_right_def)
  then show ?thesis using s'(2,3) by (rule right_stepI)
qed

lemma ipc_right_delta_send_once_ok:
  assumes ok: "rights_ok E s" and x: "rights s (q, i) = Some (p, b, r)" and n: "named name i b"
  shows "right_step E s (q, i) (ipc_right_delta_send_once q name i delta s)"
proof -
  obtain e xs where e: "entry_at (ks_space s) q i e xs {} (sends_of (ks_space s) q) (ks_space s)" "ie_object e = p" "ie_bits e = b"
    using entry_begin(1) [OF rights_okD(1) [OF ok] x] by blast
  note pre = get_entry_at [OF e(1)] e(2,3)
  show ?thesis
  proof (cases "b AND MACH_PORT_TYPE_SEND_ONCE = 0")
    case True
    then show ?thesis using pre by (auto intro!: right_step_same [OF ok] simp: ipc_right_delta_send_once_def delta_invalid_right_def)
  next
    case so: False
    then have t: "IE_BITS_TYPE b = MACH_PORT_TYPE_SEND_ONCE" using right_types [OF ok x] by (auto simp: ie_bits)
    note pt = port_typeI(2) [OF t]
    obtain port where p: "ks_port s p = Some port" "port_right_ok port q i b r" using port_right(1) [OF ok x pt] by blast
    have u: "IE_BITS_UREFS b = 1" using p(2) so by (simp add: port_right_ok_def)
    note pre = pre so t u port_right(3) [OF ok x pt]
    show ?thesis
    proof (cases "ip_active port")
      case True
      note pre = pre ipc_right_check_live [OF e(1,2) p(1) True] p(1) counts_pos(2) [OF ok x p(1) so]
      obtain s' where s': "right_free_sonce q name i p s = Some (KERN_SUCCESS, s')" "rights_ok E s'" "rights s' = (rights s)((q, i) := None)"
        using right_free_sonce_ok [OF ok x n t p(1) True] by blast
      consider "0 <s delta \<or> delta <s - 1" | "\<not> (0 <s delta \<or> delta <s - 1)" "delta = 0" | "\<not> (0 <s delta \<or> delta <s - 1)" "delta \<noteq> 0" by blast
      then show ?thesis
      proof cases
        case 3
        then have "ipc_right_delta_send_once q name i delta s = Some (KERN_SUCCESS, s')"
          using pre s'(1) by (simp add: ipc_right_delta_send_once_def)
        then show ?thesis using s'(2,3) by (rule right_stepI)
      qed (use pre in \<open>auto intro!: right_step_same [OF ok] simp: ipc_right_delta_send_once_def delta_invalid_value_def\<close>)
    next
      case False
      obtain s1 e1 b' where d: "ipc_right_check q p name i IPC_OBJECT_COPYIN_FLAGS_NONE s = Some (True, s1)" "rights_ok E s1"
          "rights s1 = (rights s)((q, i) \<mapsto> (IO_NULL, b', IE_REQ_NONE))" "spare_ref s1 p" "get_entry q i s1 = Some e1" "ie_bits e1 = b'"
          "IE_BITS_TYPE b' = MACH_PORT_TYPE_DEAD_NAME"
        using dead_check [OF ok x n _ p(1) False] t by blast
      have "ipc_right_delta_send_once q name i delta s = delta_invalid_right p (mach_port_guard_exception name 0 0 kGUARD_EXC_INVALID_RIGHT s1)"
        using pre d(1,5-7) by (simp add: ipc_right_delta_send_once_def ie_bits)
      then show ?thesis using dead_invalid_right [OF d(2-4) pre(7)] by (simp add: same_but_log_def)
    qed
  qed
qed

text \<open>The dead-name case keeps the invariant also when it forgets to release the reference.\<close>

lemma delta_dead_name_ok:
  assumes ok: "rights_ok E s" and x: "rights s (q, i) = Some (obj, b, r)" and n: "named name i b" and t: "IE_BITS_TYPE b = MACH_PORT_TYPE_DEAD_NAME"
    and p: "spare_ref s p"
  shows "right_step E s (q, i) (delta_dead_name q name i p delta s)"
proof -
  obtain e xs where e: "entry_at (ks_space s) q i e xs {} (sends_of (ks_space s) q) (ks_space s)" "ie_object e = obj" "ie_bits e = b" "ie_request e = r"
    using entry_begin(1) [OF rights_okD(1) [OF ok] x] by blast
  note d = dead_nameD [OF ok x t]
  note pre = get_entry_at [OF e(1)] e(2-4) t d(1-3)
  show ?thesis
  proof (cases "urefs_delta (IE_BITS_UREFS b) delta")
    case None
    then show ?thesis using pre by (auto intro!: right_step_same [OF ok] simp: delta_dead_name_def delta_invalid_value_def word_neq_0_conv)
  next
    case (Some dl)
    let ?mid = "if IE_BITS_UREFS b + dl = 0 then entry_dealloc q name i s
      else if dl \<noteq> 0 then do { s \<leftarrow> set_entry q i (e\<lparr>ie_bits := b + dl\<rparr>) s; entry_modified q name i s } else Some s"
    let ?v = "if IE_BITS_UREFS b + dl = 0 then None else Some (IO_NULL, b + dl, IE_REQ_NONE)"
    have "\<exists>S. ?mid = Some (s\<lparr>ks_space := S\<rparr>) \<and> rights_ok E (s\<lparr>ks_space := S\<rparr>) \<and> rights (s\<lparr>ks_space := S\<rparr>) = (rights s)((q, i) := ?v)"
    proof -
      consider "IE_BITS_UREFS b + dl = 0" | "IE_BITS_UREFS b + dl \<noteq> 0" "dl \<noteq> 0" | "IE_BITS_UREFS b + dl \<noteq> 0" "dl = 0" by blast
      then show ?thesis
      proof cases
        case 1
        then show ?thesis using dead_name_free [OF ok x n t] by simp
      next
        case 2
        note u = urefs_delta_bits [OF Some 2(1)]
        show ?thesis using dead_name_set [OF ok x n t pre(1) _ u(3)] u(1) t 2 by auto
      next
        case 3
        then have "(rights s)((q, i) := ?v) = rights s" using x d(1,2) by (auto simp: fun_eq_iff)
        then show ?thesis using 3 ok by (intro exI [of _ "ks_space s"]) simp
      qed
    qed
    then obtain S where S: "?mid = Some (s\<lparr>ks_space := S\<rparr>)" "rights_ok E (s\<lparr>ks_space := S\<rparr>)" "rights (s\<lparr>ks_space := S\<rparr>) = (rights s)((q, i) := ?v)" by blast
    have "one_if (is_ref p) ?v = 0" using t urefs_delta_bits [OF Some] by (simp add: one_if_def is_ref_def ie_bits)
    then have "spare_ref (s\<lparr>ks_space := S\<rparr>) p" using spare_ref_change [OF ok p d(10), of ?v] S(3) by simp
    from release_spare [OF S(2) this] obtain s' where
      "(if p \<noteq> IP_NULL then ip_release p (s\<lparr>ks_space := S\<rparr>) else Some (s\<lparr>ks_space := S\<rparr>)) = Some s'" "rights_ok E s'" "rights s' = (rights s)((q, i) := ?v)"
      using S(3) by auto
    moreover have "delta_dead_name q name i p delta s = Some (KERN_SUCCESS, s')"
      using S(1) calculation(1) pre Some by (simp add: delta_dead_name_def word_neq_0_conv)
    ultimately show ?thesis by (blast intro: right_stepI)
  qed
qed

lemma ipc_right_delta_dead_name_ok:
  assumes ok: "rights_ok E s" and x: "rights s (q, i) = Some (p, b, r)" and n: "named name i b"
  shows "right_step E s (q, i) (ipc_right_delta_dead_name q name i delta s)"
proof -
  obtain e xs where e: "entry_at (ks_space s) q i e xs {} (sends_of (ks_space s) q) (ks_space s)" "ie_object e = p" "ie_bits e = b"
    using entry_begin(1) [OF rights_okD(1) [OF ok] x] by blast
  note pre = get_entry_at [OF e(1)] e(2,3)
  show ?thesis
  proof (cases "b AND MACH_PORT_TYPE_SEND_RIGHTS = 0")
    case True
    show ?thesis
    proof (cases "b AND MACH_PORT_TYPE_DEAD_NAME = 0")
      case True
      then show ?thesis using pre \<open>b AND MACH_PORT_TYPE_SEND_RIGHTS = 0\<close>
        by (auto intro!: right_step_same [OF ok] simp: ipc_right_delta_dead_name_def delta_invalid_right_def)
    next
      case False
      then have t: "IE_BITS_TYPE b = MACH_PORT_TYPE_DEAD_NAME" using right_types [OF ok x] by (auto simp: ie_bits)
      have "spare_ref s IP_NULL" by (simp add: spare_ref_def)
      then show ?thesis using delta_dead_name_ok [OF ok x n t] pre True False by (simp add: ipc_right_delta_dead_name_def)
    qed
  next
    case sr: False
    then have pt: "port_type b" using right_types [OF ok x] by (auto simp: port_type_def ie_bits)
    obtain port where p: "ks_port s p = Some port" "port_right_ok port q i b r" using port_right(1) [OF ok x pt] by blast
    note pre = pre sr port_right(3) [OF ok x pt]
    show ?thesis
    proof (cases "ip_active port")
      case True
      then show ?thesis using pre ipc_right_check_live [OF e(1,2) p(1) True]
        by (auto intro!: right_step_same [OF ok] simp: ipc_right_delta_dead_name_def delta_invalid_right_def)
    next
      case False
      then have t: "IE_BITS_TYPE b = MACH_PORT_TYPE_SEND \<or> IE_BITS_TYPE b = MACH_PORT_TYPE_SEND_ONCE"
        using p(2) pt sr by (auto simp: port_type_def port_right_ok_def ie_bits)
      obtain s1 b' where d: "ipc_right_check q p name i IPC_OBJECT_COPYIN_FLAGS_NONE s = Some (True, s1)" "rights_ok E s1"
          "rights s1 = (rights s)((q, i) \<mapsto> (IO_NULL, b', IE_REQ_NONE))" "spare_ref s1 p" "named name i b'" "IE_BITS_TYPE b' = MACH_PORT_TYPE_DEAD_NAME"
        using dead_check [OF ok x n t p(1) False] by blast
      have "rights s1 (q, i) = Some (IO_NULL, b', IE_REQ_NONE)" using d(3) by simp
      from delta_dead_name_ok [OF d(2) this d(5,6,4), of delta] show ?thesis
        using pre d(1,3) by (auto simp: ipc_right_delta_dead_name_def right_step_def)
    qed
  qed
qed

lemma delta_send_last_ok:
  assumes ok: "rights_ok E s" and x: "rights s (q, i) = Some (p, b, r)" and n: "named name i b"
    and b: "b AND MACH_PORT_TYPE_SEND \<noteq> 0" and p: "ks_port s p = Some port" "ip_active port"
  shows "right_step E s (q, i) (delta_send_last E q name i p s)"
proof -
  have t: "IE_BITS_TYPE b = MACH_PORT_TYPE_SEND \<or> IE_BITS_TYPE b = MACH_PORT_TYPE_SEND_RECEIVE" using right_types [OF ok x] b by (auto simp: ie_bits)
  then have pt: "port_type b" by (auto simp: port_type_def)
  have po: "port_right_ok port q i b r" using port_right(1) [OF ok x pt] p(1) by auto
  obtain e xs where e: "entry_at (ks_space s) q i e xs {} (sends_of (ks_space s) q) (ks_space s)" "ie_object e = p" "ie_bits e = b"
    using entry_begin(1) [OF rights_okD(1) [OF ok] x] by blast
  note pre = get_entry_at [OF e(1)] e(2,3) p(1) drop_sright_eq [OF p(1)]
  consider "pinned_control_port_enabled E \<and> ip_pinned port" | "\<not> (pinned_control_port_enabled E \<and> ip_pinned port)" "IE_BITS_TYPE b = MACH_PORT_TYPE_SEND"
    | "\<not> (pinned_control_port_enabled E \<and> ip_pinned port)" "IE_BITS_TYPE b = MACH_PORT_TYPE_SEND_RECEIVE" using t by blast
  then show ?thesis
  proof cases
    case 1
    then show ?thesis using pre by (auto intro!: right_step_same [OF ok] simp: delta_send_last_def)
  next
    case 2
    obtain previous s1 s' where s': "free_steps q name i p True (put_port s p (sright_off port)) = Some (previous, s1)"
      "ip_release p s1 = Some s'" "rights_ok E s'" "rights s' = (rights s)((q, i) := None)"
      using send_last_ok [OF ok x n 2(2) p] by blast
    let ?s' = "send_port_deleted previous name (send_no_senders (no_senders_of port) s')"
    have "b AND MACH_PORT_TYPE_RECEIVE = 0" using 2(2) by (simp add: ie_bits)
    then have "delta_send_last E q name i p s = Some (KERN_SUCCESS, ?s')"
      using pre 2 s'(1,2) by (auto simp: delta_send_last_def free_steps_def split: bind_splits)
    then show ?thesis by (rule right_stepI [where v = None]) (use rights_ok_log [OF s'(3), of ?s'] s'(4) in auto)
  next
    case 3
    let ?b = "b AND NOT (IE_BITS_UREFS_MASK OR MACH_PORT_TYPE_SEND)"
    obtain s1 s' where s': "set_entry q i (e\<lparr>ie_bits := ?b\<rparr>) (put_port s p (sright_off port)) = Some s1" "entry_modified q name i s1 = Some s'"
        "rights_ok E s'" "rights s' = (rights s)((q, i) \<mapsto> (p, ?b, r))"
      using send_off_ok [OF ok x namedD(1) [OF n] 3(2) p(1) get_entry_at [OF e(1)] refl] by blast
    have "b AND MACH_PORT_TYPE_RECEIVE \<noteq> 0" "ip_receiver_name port = name" "ip_receiver port = q"
      using 3(2) po namedD(3) [OF n] by (auto simp: port_right_ok_def ie_bits)
    then have "delta_send_last E q name i p s = Some (KERN_SUCCESS, send_no_senders (no_senders_of port) s')"
      using pre 3 s'(1,2) by (simp add: delta_send_last_def)
    then show ?thesis
      by (rule right_stepI) (use rights_ok_log [OF s'(3), of "send_no_senders (no_senders_of port) s'"] s'(4) in auto)
  qed
qed

lemma ipc_right_delta_send_ok:
  assumes ok: "rights_ok E s" and x: "rights s (q, i) = Some (p, b, r)" and n: "named name i b"
  shows "right_step E s (q, i) (ipc_right_delta_send E q name i delta s)"
proof (cases "b AND MACH_PORT_TYPE_SEND = 0")
  case True
  obtain e xs where e: "entry_at (ks_space s) q i e xs {} (sends_of (ks_space s) q) (ks_space s)" "ie_object e = p" "ie_bits e = b"
    using entry_begin(1) [OF rights_okD(1) [OF ok] x] by blast
  then show ?thesis using get_entry_at [OF e(1)] True
    by (auto intro!: right_step_same [OF ok] simp: ipc_right_delta_send_def delta_invalid_right_def)
next
  case sd: False
  have t: "IE_BITS_TYPE b = MACH_PORT_TYPE_SEND \<or> IE_BITS_TYPE b = MACH_PORT_TYPE_SEND_RECEIVE" using right_types [OF ok x] sd by (auto simp: ie_bits)
  then have pt: "port_type b" by (auto simp: port_type_def)
  obtain port where p: "ks_port s p = Some port" "port_right_ok port q i b r" using port_right(1) [OF ok x pt] by blast
  obtain e xs where e: "entry_at (ks_space s) q i e xs {} (sends_of (ks_space s) q) (ks_space s)" "ie_object e = p" "ie_bits e = b"
    using entry_begin(1) [OF rights_okD(1) [OF ok] x] by blast
  note pre = get_entry_at [OF e(1)] e(2,3) sd port_right(3) [OF ok x pt]
  show ?thesis
  proof (cases "ip_active port")
    case False
    then have t: "IE_BITS_TYPE b = MACH_PORT_TYPE_SEND \<or> IE_BITS_TYPE b = MACH_PORT_TYPE_SEND_ONCE" using p(2) t by (auto simp: port_right_ok_def ie_bits)
    obtain s1 e1 b' where d: "ipc_right_check q p name i IPC_OBJECT_COPYIN_FLAGS_NONE s = Some (True, s1)" "rights_ok E s1"
        "rights s1 = (rights s)((q, i) \<mapsto> (IO_NULL, b', IE_REQ_NONE))" "spare_ref s1 p" "get_entry q i s1 = Some e1" "ie_bits e1 = b'"
        "IE_BITS_TYPE b' = MACH_PORT_TYPE_DEAD_NAME"
      using dead_check [OF ok x n t p(1) False] by blast
    have "ipc_right_delta_send E q name i delta s = delta_invalid_right p s1" using pre d(1,5-7) by (simp add: ipc_right_delta_send_def ie_bits)
    then show ?thesis using dead_invalid_right [OF d(2-4) pre(5)] by (simp add: same_but_log_def)
  next
    case True
    note pre = pre ipc_right_check_live [OF e(1,2) p(1) True] p(1) counts_pos(1) [OF ok x p(1) sd]
    consider "urefs_delta (IE_BITS_UREFS b) delta = None" | d where "urefs_delta (IE_BITS_UREFS b) delta = Some d" "IE_BITS_UREFS b + d = 0"
      | d where "urefs_delta (IE_BITS_UREFS b) delta = Some d" "IE_BITS_UREFS b + d \<noteq> 0" "d = 0"
      | d where "urefs_delta (IE_BITS_UREFS b) delta = Some d" "IE_BITS_UREFS b + d \<noteq> 0" "d \<noteq> 0" by blast
    then show ?thesis
    proof cases
      case (2 d)
      then have "ipc_right_delta_send E q name i delta s = delta_send_last E q name i p s" using pre by (simp add: ipc_right_delta_send_def)
      then show ?thesis using delta_send_last_ok [OF ok x n sd p(1) True] by simp
    next
      case (4 d)
      obtain s1 s' where s': "set_entry q i (e\<lparr>ie_bits := b + d\<rparr>) s = Some s1" "entry_modified q name i s1 = Some s'"
          "rights_ok E s'" "rights s' = (rights s)((q, i) \<mapsto> (p, b + d, r))"
        using uref_change_ok [OF ok x namedD(1) [OF n] sd pt get_entry_at [OF e(1)] urefs_delta_bits [OF 4(1,2)]] by blast
      have "ipc_right_delta_send E q name i delta s = Some (KERN_SUCCESS, s')" using pre 4 s'(1,2) by (simp add: ipc_right_delta_send_def)
      then show ?thesis using s'(3,4) by (rule right_stepI)
    qed (use pre in \<open>auto intro!: right_step_same [OF ok] simp: ipc_right_delta_send_def delta_invalid_value_def\<close>)
  qed
qed

lemma ipc_right_delta_step:
  assumes ok: "rights_ok E s" and x: "rights s (q, i) = Some (p, b, r)" and n: "named name i b" and room: "backup_room s (q, i)"
    and right: "\<And>k. right \<noteq> MACH_PORT_RIGHT_OTHER k"
  shows "right_step E s (q, i) (ipc_right_delta E q name i right delta s)"
proof -
  obtain e xs where e: "entry_at (ks_space s) q i e xs {} (sends_of (ks_space s) q) (ks_space s)"
    using entry_begin(1) [OF rights_okD(1) [OF ok] x] by blast
  have "right_step E s (q, i) (delta_invalid_right IP_NULL s)" by (rule right_step_same [OF ok]) (simp_all add: delta_invalid_right_def)
  then show ?thesis
    using get_entry_at [OF e] assert_active_at [OF e] right ipc_right_delta_port_set_ok [OF ok x n] ipc_right_delta_receive_ok [OF ok x n room]
      ipc_right_delta_send_once_ok [OF ok x n] ipc_right_delta_dead_name_ok [OF ok x n] ipc_right_delta_send_ok [OF ok x n]
    by (cases right) (auto simp: ipc_right_delta_def)
qed

section \<open>ipc\_right\_destruct\<close>

text \<open>The send right that goes with the receive right: none, all of it, or some of its user references.\<close>

lemma destruct_srights_ok:
  assumes ok: "rights_ok E s" and x: "rights s (q, i) = Some (p, b, r)" and n: "named name i b" and t: "IE_BITS_TYPE b = MACH_PORT_TYPE_SEND_RECEIVE"
    and p: "ks_port s p = Some port" and e: "get_entry q i s = Some e" "ie_bits e = b"
    and d: "IE_BITS_UREFS b + d \<le> MACH_PORT_UREFS_MAX"
  shows "\<exists>ns s1 e1 b1. destruct_srights q i p d e s = Some (ns, s1) \<and> rights_ok E s1 \<and> rights s1 = (rights s)((q, i) \<mapsto> (p, b1, r)) \<and> named name i b1
    \<and> (IE_BITS_TYPE b1 = MACH_PORT_TYPE_RECEIVE \<or> IE_BITS_TYPE b1 = MACH_PORT_TYPE_SEND_RECEIVE) \<and> get_entry q i s1 = Some e1 \<and> ie_bits e1 = b1
    \<and> (backup_room s (q, i) \<longrightarrow> backup_room s1 (q, i))"
proof (cases "IE_BITS_UREFS b + d = 0")
  case True
  let ?b = "b AND NOT (IE_BITS_UREFS_MASK OR MACH_PORT_TYPE_SEND)"
  obtain s1 s' where s': "set_entry q i (e\<lparr>ie_bits := ?b\<rparr>) (put_port s p (sright_off port)) = Some s1" "entry_modified q name i s1 = Some s'"
      "rights s' = (rights s)((q, i) \<mapsto> (p, ?b, r))" "rights_ok E s1" "rights s1 = rights s'" "get_entry q i s1 = Some (e\<lparr>ie_bits := ?b\<rparr>)"
    using send_off_ok [OF ok x namedD(1) [OF n] t p e(1) refl] by blast
  note u = send_off_bits [OF t refl]
  have "backup_room s1 (q, i)" using s'(3,5) u(1) by (simp add: backup_room_def ie_bits)
  then show ?thesis using True s' drop_sright_eq [OF p] t n u e(2) unfolding named_def destruct_srights_def by auto
next
  case False
  have sd: "b AND MACH_PORT_TYPE_SEND \<noteq> 0" using t by (simp add: ie_bits)
  note u = urefs_add [OF d]
  obtain s1 s' where s': "set_entry q i (e\<lparr>ie_bits := b + d\<rparr>) s = Some s1" "entry_modified q name i s1 = Some s'"
      "rights s' = (rights s)((q, i) \<mapsto> (p, b + d, r))" "rights_ok E s1" "rights s1 = rights s'" "get_entry q i s1 = Some (e\<lparr>ie_bits := b + d\<rparr>)"
      "ks_port s1 = ks_port s'" "ks_port s' = ks_port s"
    using uref_change_ok [OF ok x namedD(1) [OF n] sd port_typeI(4) [OF t] e(1) u(2,3)] u(1) False by metis
  have "backup_room s (q, i) \<longrightarrow> backup_room s1 (q, i)" using s'(3,5,7,8) x u(2) t by (simp add: backup_room_def)
  then show ?thesis using False s'(1,3-6) u t n e(2) unfolding named_def destruct_srights_def by auto
qed

lemma destruct_delta_le:
  assumes "\<not> 0 <s d" "d \<noteq> 0 \<longrightarrow> \<not> MACH_PORT_UREFS_UNDERFLOW u d" "u \<le> MACH_PORT_UREFS_MAX"
  shows "u + d \<le> MACH_PORT_UREFS_MAX"
proof (cases "d = 0")
  case False
  then have "d <s 0" using assms(1) by (simp add: word_sless_alt not_less signed_eq_0_iff order.order_iff_strict)
  then have "- d \<le> u" using assms(2) False by (simp add: MACH_PORT_UREFS_UNDERFLOW_def)
  then have "u - (- d) \<le> u" by (rule word_sub_le)
  then show ?thesis using assms(3) by simp
qed (use assms(3) in simp)

text \<open>The tail of \<open>ipc_right_destruct\<close>, after the send right was dealt with.\<close>

lemma destruct_tail:
  assumes ok: "rights_ok E s1" and x: "rights s1 (q, i) = Some (p, b, r)" and n: "named name i b" and room: "backup_room s1 (q, i)"
    and t: "IE_BITS_TYPE b = MACH_PORT_TYPE_RECEIVE \<or> IE_BITS_TYPE b = MACH_PORT_TYPE_SEND_RECEIVE"
    and e: "get_entry q i s1 = Some e" "ie_bits e = b"
  shows "right_step E s1 (q, i) (destruct_receive E q name i p ns s1)"
proof -
  have pt: "port_type b" using t by (auto simp: port_type_def)
  obtain port where "port_right_ok port q i b r" using port_right(1) [OF ok x pt] by blast
  then have a: "b AND MACH_PORT_TYPE_SEND \<noteq> 0 \<longrightarrow> 0 < IE_BITS_UREFS b \<and> IE_BITS_UREFS b \<le> MACH_PORT_UREFS_MAX"
    using IE_BITS_UREFS_le [of b] by (auto simp: port_right_ok_def word_neq_0_conv)
  obtain previous s2 v where l: "right_lose_receive q name i p s1 = Some (previous, s2)"
      "\<forall>s2'. same_but_log s2 s2' \<longrightarrow> (\<exists>s'. ipc_port_destroy E p s2' = Some s' \<and> rights_ok E s' \<and> rights s' = (rights s1)((q, i) := v))"
    using lose_and_destroy [OF ok x n room t] by blast
  obtain s' where s': "ipc_port_destroy E p (send_no_senders ns s2) = Some s'" "rights_ok E s'" "rights s' = (rights s1)((q, i) := v)"
    using l(2) [rule_format, of "send_no_senders ns s2"] by (auto simp: same_but_log_def)
  have g: "rights_ok E (send_port_deleted previous name s')" "rights (send_port_deleted previous name s') = rights s'"
    using rights_ok_log [OF s'(2), of "send_port_deleted previous name s'"] by simp_all
  show ?thesis
    by (rule right_stepI [where v = v, of _ KERN_SUCCESS, OF _ g(1)]) (use e a l(1) s'(1,3) g(2) in \<open>simp_all add: destruct_receive_def\<close>)
qed

lemma right_step_trans:
  assumes "rights s1 = (rights s)(x := v)" "right_step E s1 x res"
  shows "right_step E s x res"
  using assms by (auto simp: right_step_def)

lemma ipc_right_destruct_step:
  assumes ok: "rights_ok E s" and x: "rights s (q, i) = Some (p, b, r)" and n: "named name i b" and room: "backup_room s (q, i)"
  shows "right_step E s (q, i) (ipc_right_destruct E q name i srdelta guard s)"
proof (cases "b AND MACH_PORT_TYPE_RECEIVE = 0 \<or> srdelta \<noteq> 0 \<and> b AND MACH_PORT_TYPE_SEND = 0 \<or> 0 <s srdelta")
  case True
  obtain e xs where e: "entry_at (ks_space s) q i e xs {} (sends_of (ks_space s) q) (ks_space s)" "ie_bits e = b"
    using entry_begin(1) [OF rights_okD(1) [OF ok] x] by blast
  then show ?thesis using True get_entry_at [OF e(1)] assert_active_at [OF e(1)]
    by (auto intro!: right_step_same [OF ok] simp: ipc_right_destruct_def delta_invalid_value_def)
next
  case False
  then have c: "b AND MACH_PORT_TYPE_RECEIVE \<noteq> 0" "srdelta \<noteq> 0 \<longrightarrow> b AND MACH_PORT_TYPE_SEND \<noteq> 0" "\<not> 0 <s srdelta" by auto
  have t: "IE_BITS_TYPE b = MACH_PORT_TYPE_RECEIVE \<or> IE_BITS_TYPE b = MACH_PORT_TYPE_SEND_RECEIVE" using right_types [OF ok x] c(1) by (auto simp: ie_bits)
  then have pt: "port_type b" by (auto simp: port_type_def)
  obtain port where p: "ks_port s p = Some port" "port_right_ok port q i b r" using port_right(1) [OF ok x pt] by blast
  have u: "ip_active port" "ip_receiver_name port = name" "ip_receiver port = q" using p(2) c(1) namedD(3) [OF n] by (auto simp: port_right_ok_def)
  obtain e xs where e: "entry_at (ks_space s) q i e xs {} (sends_of (ks_space s) q) (ks_space s)" "ie_object e = p" "ie_bits e = b"
    using entry_begin(1) [OF rights_okD(1) [OF ok] x] by blast
  let ?u = "IE_BITS_UREFS b" let ?d = "if ?u = MACH_PORT_UREFS_MAX \<and> srdelta \<noteq> - MACH_PORT_UREFS_MAX then 0 else srdelta"
  note pre = get_entry_at [OF e(1)] assert_active_at [OF e(1)] e(2,3) c p(1) u port_right(3) [OF ok x pt] counts_pos(1) [OF ok x p(1)]
  consider "ip_guarded port \<and> guard \<noteq> ip_context port" | "\<not> (ip_guarded port \<and> guard \<noteq> ip_context port)" "srdelta \<noteq> 0 \<and> MACH_PORT_UREFS_UNDERFLOW ?u srdelta"
    | "\<not> (ip_guarded port \<and> guard \<noteq> ip_context port)" "srdelta \<noteq> 0" "\<not> MACH_PORT_UREFS_UNDERFLOW ?u srdelta"
    | "\<not> (ip_guarded port \<and> guard \<noteq> ip_context port)" "srdelta = 0" by blast
  then show ?thesis
  proof cases
    case 3
    have sr: "IE_BITS_TYPE b = MACH_PORT_TYPE_SEND_RECEIVE" using c(2) 3(2) t by (auto simp: ie_bits)
    have le: "?u + ?d \<le> MACH_PORT_UREFS_MAX" using destruct_delta_le [OF c(3) _ IE_BITS_UREFS_le, of b] 3(3) IE_BITS_UREFS_le [of b] by simp
    obtain ns s1 e1 b1 where d: "destruct_srights q i p ?d e s = Some (ns, s1)" "rights_ok E s1" "rights s1 = (rights s)((q, i) \<mapsto> (p, b1, r))" "named name i b1"
      "IE_BITS_TYPE b1 = MACH_PORT_TYPE_RECEIVE \<or> IE_BITS_TYPE b1 = MACH_PORT_TYPE_SEND_RECEIVE" "get_entry q i s1 = Some e1" "ie_bits e1 = b1"
      "backup_room s1 (q, i)"
      using destruct_srights_ok [OF ok x n sr p(1) get_entry_at [OF e(1)] e(3) le] room by blast
    have x1: "rights s1 (q, i) = Some (p, b1, r)" using d(3) by simp
    show ?thesis using right_step_trans [OF d(3) destruct_tail [OF d(2) x1 d(4,8,5-7), of ns]] pre 3 d(1)
      by (auto simp: ipc_right_destruct_def require_ip_active_def Let_def)
  next
    case 4
    then show ?thesis using destruct_tail [OF ok x n room t get_entry_at [OF e(1)] e(3), of "(IP_NULL, 0)"] pre
      by (auto simp: ipc_right_destruct_def require_ip_active_def Let_def)
  qed (use pre in \<open>auto intro!: right_step_same [OF ok] simp: ipc_right_destruct_def require_ip_active_def delta_invalid_value_def\<close>)
qed

end
