(* ===== verification/Ipc_Right_Destroy.thy ===== *)
theory Ipc_Right_Destroy
  imports Ipc_Delta
begin

text \<open>
  \<open>ipc_right_destroy\<close> on states that satisfy \<open>rights_ok\<close>. The routine clears the type of the entry before it
  looks at the guard of the port, so a guard violation leaves an entry without a type; in every other case no assertion fails
  and the invariant is kept.
\<close>

section \<open>The parts of ipc\_right\_destroy\<close>

text \<open>The right \<open>x\<close> to a live port has left its space, with its request cancelled; now the port loses it.\<close>

definition right_left :: "kenv \<Rightarrow> kst \<Rightarrow> ptr \<times> nat \<Rightarrow> ptr \<Rightarrow> nat \<Rightarrow> ipc_port \<Rightarrow> ipc_port \<Rightarrow> kst \<Rightarrow> bool" where
  "right_left E s x p r port port1 s1 \<longleftrightarrow> ks_port s p = Some port \<and> ip_active port \<and> spaces_ok s1 \<and> rights s1 = (rights s)(x := None)
     \<and> ks_pset s1 = ks_pset s \<and> ks_ith_assertions s1 = 0 \<and> ks_port s1 = (ks_port s)(p \<mapsto> port1)
     \<and> (\<exists>rt. port1 = port\<lparr>ip_requests := rt\<rparr>) \<and> requests_inv E port1 \<and> requests_map port1 = (requests_map port)(r := None)"

lemma drop_right_send:
  assumes ok: "rights_ok E s" and x: "rights s (q, i) = Some (p, b, r)" and t: "IE_BITS_TYPE b = MACH_PORT_TYPE_SEND"
    and l: "right_left E s (q, i) p r port port1 s1"
  shows "\<exists>ns s'. drop_right E q p (IE_BITS_TYPE b) recv s1 = Some (ns, s') \<and> rights_ok E s' \<and> rights s' = (rights s)((q, i) := None)"
proof -
  obtain rt where p: "ks_port s p = Some port" "ip_active port" "spaces_ok s1" "rights s1 = (rights s)((q, i) := None)"
     "ks_pset s1 = ks_pset s" "ks_ith_assertions s1 = 0" "ks_port s1 = (ks_port s)(p \<mapsto> port1)" "port1 = port\<lparr>ip_requests := rt\<rparr>"
     "requests_inv E port1" "requests_map port1 = (requests_map port)(r := None)" using l by (auto simp: right_left_def)
  note pt = port_typeI(1) [OF t]
  have po: "port_right_ok port q i b r" using port_right(1) [OF ok x pt] p(1) by auto
  have b: "b AND MACH_PORT_TYPE_SEND \<noteq> 0" "b AND MACH_PORT_TYPE_SEND_RIGHTS \<noteq> 0" "b AND MACH_PORT_TYPE_RECEIVE = 0"
    "ip_receiver port \<noteq> q" "0 < ip_srights port"
    using t po p(2) counts_pos(1) [OF ok x p(1)] by (auto simp: ie_bits port_right_ok_def)
  let ?s2 = "put_port s1 p (sright_off port1)"
  have sp: "spaces_ok ?s2" "rights ?s2 = (rights s)((q, i) := None)"
    using p(3,4) spaces_ok_cong [of ?s2 s1] rights_cong [of ?s2 s1] by simp_all
  have c: "unat (ip_srights port) \<le> Suc (unat (ip_srights port - 1))" using unat_minus_one_le [OF b(5)] by simp
  have eq: "ip_active (sright_off port1) = ip_active port" "ip_io_bits (sright_off port1) = ip_io_bits port" "link (sright_off port1) = link port"
    "ip_references (sright_off port1) = ip_references port" "ip_srights (sright_off port1) = ip_srights port - 1"
    "ip_sorights (sright_off port1) = ip_sorights port" "destroyable E p (sright_off port1) = destroyable E p port" "ip_receiver (sright_off port1) = ip_receiver port"
    using p(8) by (simp_all add: ip_active_def)
  have g: "rights_ok E ?s2"
    by (rule rights_ok_gone(1) [OF ok x p(1) sp, where port' = "sright_off port1"], use p(5-7,9,10) eq rights_okD(2) [OF ok] b(1) c in simp_all)
  have "spare_ref ?s2 p"
    by (rule rights_ok_gone(2) [OF ok x p(1) sp, where port' = "sright_off port1"], use p(5-7,9,10) eq rights_okD(2) [OF ok] b c in simp_all)
  from release_spare [OF g this] obtain s' where s': "ip_release p ?s2 = Some s'" "rights_ok E s'" "rights s' = (rights s)((q, i) := None)"
    using port_right(3) [OF ok x pt] sp(2) by auto
  have "drop_right E q p (IE_BITS_TYPE b) recv s1 = Some (no_senders_of port1, s')"
    using s'(1) p(7,8) b(4,5) t eq(8) drop_sright_eq [of s1 p port1] by (simp add: drop_right_def mach_port_type_consts)
  then show ?thesis using s'(2,3) by blast
qed

lemma drop_right_send_once:
  assumes ok: "rights_ok E s" and x: "rights s (q, i) = Some (p, b, r)" and t: "IE_BITS_TYPE b = MACH_PORT_TYPE_SEND_ONCE"
    and l: "right_left E s (q, i) p r port port1 s1"
  shows "\<exists>ns s'. drop_right E q p (IE_BITS_TYPE b) recv s1 = Some (ns, s') \<and> rights_ok E s' \<and> rights s' = (rights s)((q, i) := None)"
proof -
  obtain rt where p: "ks_port s p = Some port" "ip_active port" "spaces_ok s1" "rights s1 = (rights s)((q, i) := None)"
     "ks_pset s1 = ks_pset s" "ks_ith_assertions s1 = 0" "ks_port s1 = (ks_port s)(p \<mapsto> port1)" "port1 = port\<lparr>ip_requests := rt\<rparr>"
     "requests_inv E port1" "requests_map port1 = (requests_map port)(r := None)" using l by (auto simp: right_left_def)
  have b: "b AND MACH_PORT_TYPE_SEND_ONCE \<noteq> 0" "0 < ip_sorights port" using t counts_pos(2) [OF ok x p(1)] by (auto simp: ie_bits)
  let ?port = "port1\<lparr>ip_reply_context := 0\<rparr>" let ?s' = "ipc_notify_send_once p (put_port s1 p ?port)"
  have sp: "spaces_ok ?s'" "rights ?s' = (rights s)((q, i) := None)"
    using p(3,4) spaces_ok_cong [of ?s' s1] rights_cong [of ?s' s1] by simp_all
  have m: "requests_map ?port = requests_map port1" "requests_inv E ?port" using p(9) by (simp_all add: requests_map_def requests_inv_def)
  have "rights_ok E ?s'"
    by (rule rights_ok_gone(1) [OF ok x p(1) sp, where port' = ?port])
      (use p(5-8,10) m rights_okD(2) [OF ok] in \<open>simp_all add: link_def ip_active_def destroyable_def IP_PREALLOC_def\<close>)
  moreover have "drop_right E q p (IE_BITS_TYPE b) recv s1 = Some ((IP_NULL, 0), ?s')"
    using p(7,8) b(2) t by (simp add: drop_right_def mach_port_type_consts)
  ultimately show ?thesis using sp(2) by blast
qed

lemma drop_right_receive:
  assumes ok: "rights_ok E s" and x: "rights s (q, i) = Some (p, b, r)"
    and t: "IE_BITS_TYPE b = MACH_PORT_TYPE_RECEIVE \<or> IE_BITS_TYPE b = MACH_PORT_TYPE_SEND_RECEIVE"
    and l: "right_left E s (q, i) p r port port1 s1"
    and recv: "\<And>port'. link port' = link port \<Longrightarrow> recv port'"
  shows "\<exists>ns s'. drop_right E q p (IE_BITS_TYPE b) recv s1 = Some (ns, s') \<and> rights_ok E s' \<and> rights s' = (rights s)((q, i) := None)"
proof -
  obtain rt where p: "ks_port s p = Some port" "ip_active port" "spaces_ok s1" "rights s1 = (rights s)((q, i) := None)"
     "ks_pset s1 = ks_pset s" "ks_ith_assertions s1 = 0" "ks_port s1 = (ks_port s)(p \<mapsto> port1)" "port1 = port\<lparr>ip_requests := rt\<rparr>"
     "requests_inv E port1" "requests_map port1 = (requests_map port)(r := None)" using l by (auto simp: right_left_def)
  have pt: "port_type b" and rc: "b AND MACH_PORT_TYPE_RECEIVE \<noteq> 0" using t by (auto simp: port_type_def ie_bits)
  have po: "port_ok E (rights s) p port" using port_right(1) [OF ok x pt] p(1) by auto
  define sd where "sd \<longleftrightarrow> IE_BITS_TYPE b = MACH_PORT_TYPE_SEND_RECEIVE"
  define port2 where "port2 = (if sd then sright_off port1 else port1)"
  define s2 where "s2 = put_port s1 p port2"
  have sp: "spaces_ok s2" "rights s2 = (rights s)((q, i) := None)"
    using p(3,4) spaces_ok_cong [of s2 s1] rights_cong [of s2 s1] by (simp_all add: s2_def)
  have eq: "ip_io_bits port2 = ip_io_bits port" "link port2 = link port" "ip_references port2 = ip_references port" "ip_sorights port2 = ip_sorights port"
    "destroyable E p port2 = destroyable E p port" "requests_inv E port2" "requests_map port2 = (requests_map port)(r := None)"
    "ip_srights port2 = (if sd then ip_srights port - 1 else ip_srights port)"
    using p(8-10) by (simp_all add: port2_def)
  have s: "b AND MACH_PORT_TYPE_SEND \<noteq> 0 \<longleftrightarrow> sd" using t by (auto simp: sd_def ie_bits)
  have pos: "sd \<Longrightarrow> 0 < ip_srights port" using counts_pos(1) [OF ok x p(1)] s by simp
  have c: "unat (ip_srights port) \<le> unat (ip_srights port2) + of_bool (b AND MACH_PORT_TYPE_SEND \<noteq> 0)"
    using unat_minus_one_le [OF pos] eq(8) s by (cases sd) simp_all
  have "receive_lost E s (q, i) None p s2"
    by (rule receive_lostI [OF sp _ _ p(1) x, of port2])
      (use p(5-7) eq c port_okD(1,3) [OF po] in \<open>simp_all add: one_if_def s2_def\<close>)
  then obtain s' where s': "ipc_port_destroy E p s2 = Some s'" "rights_ok E s'" "rights s' = (rights s)((q, i) := None)"
    using destroy_receive [OF ok x rc pt] by blast
  have "ks_port s1 p = Some port1" using p(7) by simp
  note dr = drop_sright_eq [OF this] put_port_id [OF this]
  have "\<exists>ns. drop_right E q p (IE_BITS_TYPE b) recv s1 = Some (ns, s')"
  proof (cases sd)
    case True
    then show ?thesis using dr(1) p(7,8) pos recv [OF eq(2)] s'(1) by (simp add: drop_right_def sd_def s2_def port2_def mach_port_type_consts)
  next
    case False
    then have "ipc_port_destroy E p s1 = Some s'" using s'(1) dr(2) by (simp add: s2_def port2_def)
    then show ?thesis using False t p(7) recv [OF eq(2)] by (simp add: drop_right_def sd_def port2_def mach_port_type_consts)
  qed
  then show ?thesis using s'(2,3) by blast
qed

text \<open>The entry loses its type first, then leaves the hash table.\<close>

lemma destroy_begin:
  assumes ok: "rights_ok E s" and x: "rights s (q, i) = Some (p, b, r)" and n: "named name i b" and e: "get_entry q i s = Some e"
  shows "\<exists>xs S. set_entry q i (e\<lparr>ie_bits := b AND NOT IE_BITS_TYPE_MASK\<rparr>) s = Some (s\<lparr>ks_space := S\<rparr>)
    \<and> entry_at (ks_space s) q i (e\<lparr>ie_bits := b AND NOT IE_BITS_TYPE_MASK\<rparr>) xs {i} (sends_of (ks_space s) q) S
    \<and> named name i (b AND NOT IE_BITS_TYPE_MASK)"
proof -
  obtain xs where e': "entry_at (ks_space s) q i e xs {} (sends_of (ks_space s) q) (ks_space s)"
    using entry_begin(1) [OF rights_okD(1) [OF ok] x] get_entry_at e by fastforce
  have "named name i (b AND NOT IE_BITS_TYPE_MASK)" using n by (simp add: named_def ie_bits)
  then show ?thesis
    using set_entry_at [OF e', of "e\<lparr>ie_bits := b AND NOT IE_BITS_TYPE_MASK\<rparr>" "{i}"] by (auto simp: ie_bits)
qed

lemma destroy_hashed:
  assumes ok: "rights_ok E s" and x: "rights s (q, i) = Some (p, b, r)" and n: "named name i b" and e: "get_entry q i s = Some e"
  shows "\<exists>S1 S2 xs e2. set_entry q i (e\<lparr>ie_bits := b AND NOT IE_BITS_TYPE_MASK\<rparr>) s = Some (s\<lparr>ks_space := S1\<rparr>)
    \<and> (if IE_BITS_TYPE b = MACH_PORT_TYPE_SEND then hash_delete q p name (s\<lparr>ks_space := S1\<rparr>) else Some (s\<lparr>ks_space := S1\<rparr>)) = Some (s\<lparr>ks_space := S2\<rparr>)
    \<and> entry_at (ks_space s) q i e2 xs {i} (sends_of (ks_space s) q - {i}) S2 \<and> get_entry q i (s\<lparr>ks_space := S2\<rparr>) = Some e2
    \<and> ie_object e2 = p \<and> ie_request e2 = r \<and> named name i (ie_bits e2) \<and> assert_active q (s\<lparr>ks_space := S1\<rparr>) = Some ()"
proof -
  have e': "ie_object e = p" "ie_request e = r" using entry_begin(1) [OF rights_okD(1) [OF ok] x] get_entry_at e by fastforce+
  obtain xs S1 where S1: "set_entry q i (e\<lparr>ie_bits := b AND NOT IE_BITS_TYPE_MASK\<rparr>) s = Some (s\<lparr>ks_space := S1\<rparr>)"
      "entry_at (ks_space s) q i (e\<lparr>ie_bits := b AND NOT IE_BITS_TYPE_MASK\<rparr>) xs {i} (sends_of (ks_space s) q) S1" "named name i (b AND NOT IE_BITS_TYPE_MASK)"
    using destroy_begin [OF ok x n e] by blast
  have a: "entry_at (ks_space s) q i (e\<lparr>ie_bits := b AND NOT IE_BITS_TYPE_MASK\<rparr>) xs {i} (sends_of (ks_space s) q) (ks_space (s\<lparr>ks_space := S1\<rparr>))"
    using S1(2) by simp
  obtain S2 e2 where S2: "(if IE_BITS_TYPE b = MACH_PORT_TYPE_SEND then hash_delete q p name (s\<lparr>ks_space := S1\<rparr>) else Some (s\<lparr>ks_space := S1\<rparr>)) = Some (s\<lparr>ks_space := S2\<rparr>)"
      "entry_at (ks_space s) q i e2 xs {i} (sends_of (ks_space s) q - {i}) S2" "vis e2 = vis (e\<lparr>ie_bits := b AND NOT IE_BITS_TYPE_MASK\<rparr>)"
    using hash_delete_if_at [OF a namedD(1) [OF n], of p "IE_BITS_TYPE b = MACH_PORT_TYPE_SEND"] e'(1) entry_begin(3) [OF rights_okD(1) [OF ok] x] by auto
  have "ie_object e2 = p" "ie_request e2 = r" "ie_bits e2 = b AND NOT IE_BITS_TYPE_MASK" using S2(3) e' by (auto simp: vis_def)
  moreover have "get_entry q i (s\<lparr>ks_space := S2\<rparr>) = Some e2" using get_entry_at [of "ks_space s" q i e2 xs _ _ "s\<lparr>ks_space := S2\<rparr>"] S2(2) by simp
  moreover have "named name i (ie_bits e2)" using calculation(3) S1(3) by simp
  ultimately show ?thesis using S1(1) S2(1,2) assert_active_at [OF a] by blast
qed

lemma free_steps_at:
  assumes e: "entry_at S0 q i e xs pend H (ks_space s)" "i \<notin> H" and n: "named name i (ie_bits e)" and p: "ie_object e = p" "ks_port s p = Some port"
    and port: "ip_active port" "requests_inv E port"
    and rq: "ie_request e \<noteq> IE_REQ_NONE \<Longrightarrow> \<exists>n. requests_map port (ie_request e) = Some (name, n)"
  shows "\<exists>previous rt S. free_steps q name i p False s = Some (previous, (put_port s p (port\<lparr>ip_requests := rt\<rparr>))\<lparr>ks_space := S\<rparr>)
    \<and> entry_freed S0 q i xs (pend - {i}) H S \<and> requests_inv E (port\<lparr>ip_requests := rt\<rparr>)
    \<and> requests_map (port\<lparr>ip_requests := rt\<rparr>) = (requests_map port)(ie_request e := None)"
proof -
  obtain previous rt S1 where S1: "ipc_right_request_cancel_macro q p name i s = Some (previous, (put_port s p (port\<lparr>ip_requests := rt\<rparr>))\<lparr>ks_space := S1\<rparr>)"
      "entry_at S0 q i (e\<lparr>ie_request := IE_REQ_NONE\<rparr>) xs pend H S1"
      "requests_inv E (port\<lparr>ip_requests := rt\<rparr>)" "requests_map (port\<lparr>ip_requests := rt\<rparr>) = (requests_map port)(ie_request e := None)"
    using request_cancel_macro_at [OF e(1) namedD(1) [OF n] p port rq] by blast
  let ?s = "put_port s p (port\<lparr>ip_requests := rt\<rparr>)" let ?e = "e\<lparr>ie_request := IE_REQ_NONE\<rparr>"
  obtain S3 S4 where S3: "set_entry q i (?e\<lparr>ie_object := IO_NULL\<rparr>) (?s\<lparr>ks_space := S1\<rparr>) = Some (?s\<lparr>ks_space := S3\<rparr>)"
    "entry_dealloc q name i (?s\<lparr>ks_space := S3\<rparr>) = Some (?s\<lparr>ks_space := S4\<rparr>)" "entry_freed S0 q i xs (pend - {i}) H S4"
    using entry_clear_dealloc [of S0 q i ?e xs pend H "?s\<lparr>ks_space := S1\<rparr>" name] S1(2) e(2) n by auto
  have "get_entry q i (?s\<lparr>ks_space := S1\<rparr>) = Some ?e" using get_entry_at [of S0 q i ?e xs _ _ "?s\<lparr>ks_space := S1\<rparr>"] S1(2) by simp
  then have "free_steps q name i p False s = Some (previous, ?s\<lparr>ks_space := S4\<rparr>)" using S1(1) S3(1,2) by (simp add: free_steps_def)
  then show ?thesis using S3(3) S1(3,4) by blast
qed

section \<open>ipc\_right\_destroy\<close>

lemma destroy_dead_name:
  assumes ok: "rights_ok E s" and x: "rights s (q, i) = Some (obj, b, r)" and n: "named name i b" and t: "IE_BITS_TYPE b = MACH_PORT_TYPE_DEAD_NAME"
  shows "right_step E s (q, i) (ipc_right_destroy E q name i check_guard guard s)"
proof -
  note d = dead_nameD [OF ok x t]
  obtain e xs0 where e: "entry_at (ks_space s) q i e xs0 {} (sends_of (ks_space s) q) (ks_space s)" "ie_object e = obj" "ie_bits e = b" "ie_request e = r"
    using entry_begin(1) [OF rights_okD(1) [OF ok] x] by blast
  let ?e = "e\<lparr>ie_bits := b AND NOT IE_BITS_TYPE_MASK\<rparr>"
  obtain xs S1 where S1: "set_entry q i ?e s = Some (s\<lparr>ks_space := S1\<rparr>)"
      "entry_at (ks_space s) q i ?e xs {i} (sends_of (ks_space s) q) S1" "named name i (b AND NOT IE_BITS_TYPE_MASK)"
    using destroy_begin [OF ok x n get_entry_at [OF e(1)]] by blast
  have a: "entry_at (ks_space s) q i ?e xs {i} (sends_of (ks_space s) q) (ks_space (s\<lparr>ks_space := S1\<rparr>))" using S1(2) by simp
  obtain S where S: "entry_dealloc q name i (s\<lparr>ks_space := S1\<rparr>) = Some (s\<lparr>ks_space := S\<rparr>)" "entry_freed (ks_space s) q i xs {} (sends_of (ks_space s) q) S"
    using entry_dealloc_at [OF a namedD(1) [OF n]] e(2-4) d(1,2) namedD(2) [OF S1(3)] by auto
  have sp: "spaces_ok (s\<lparr>ks_space := S\<rparr>)" "rights (s\<lparr>ks_space := S\<rparr>) = (rights s)((q, i) := None)"
    using entry_freed_done [OF rights_okD(1) [OF ok], of q i xs "sends_of (ks_space s) q" "s\<lparr>ks_space := S\<rparr>"] S(2) d(6) by simp_all
  have "rights_inv E ((rights s)((q, i) := None)) (ks_port s) (ks_pset s)"
    by (rule rights_inv_nonport [OF rights_okD(3) [OF ok] d(7) _ d(8-10), of 0]) (simp_all add: only_port_def one_if_def)
  then have g: "rights_ok E (s\<lparr>ks_space := S\<rparr>)" using sp rights_okD(2) [OF ok] by (auto simp: rights_ok_def)
  have "ipc_right_destroy E q name i check_guard guard s = Some (KERN_SUCCESS, s\<lparr>ks_space := S\<rparr>)"
    using S1(1) S(1) e(2-4) d(1,2) t get_entry_at [OF e(1)] assert_active_at [OF a] by (simp add: ipc_right_destroy_def)
  then show ?thesis using g sp(2) by (rule right_stepI)
qed

lemma destroy_port_set:
  assumes ok: "rights_ok E s" and x: "rights s (q, i) = Some (obj, b, r)" and n: "named name i b" and t: "IE_BITS_TYPE b = MACH_PORT_TYPE_PORT_SET"
  shows "right_step E s (q, i) (ipc_right_destroy E q name i check_guard guard s)"
proof -
  obtain ps where ps: "ks_pset s obj = Some ps" "ips_active ps" "refs_ok (ips_references ps)" using pset_right(4) [OF ok x t] by blast
  note pr = pset_right(1,3) [OF ok x t]
  obtain e xs0 where e: "entry_at (ks_space s) q i e xs0 {} (sends_of (ks_space s) q) (ks_space s)" "ie_object e = obj" "ie_bits e = b" "ie_request e = r"
    using entry_begin(1) [OF rights_okD(1) [OF ok] x] by blast
  have h: "i \<notin> sends_of (ks_space s) q" using entry_begin(3) [OF rights_okD(1) [OF ok] x] t by (simp add: ie_bits)
  let ?e = "e\<lparr>ie_bits := b AND NOT IE_BITS_TYPE_MASK\<rparr>"
  obtain xs S0 where S0: "set_entry q i ?e s = Some (s\<lparr>ks_space := S0\<rparr>)"
      "entry_at (ks_space s) q i ?e xs {i} (sends_of (ks_space s) q) S0" "named name i (b AND NOT IE_BITS_TYPE_MASK)"
    using destroy_begin [OF ok x n get_entry_at [OF e(1)]] by blast
  have a: "entry_at (ks_space s) q i ?e xs {i} (sends_of (ks_space s) q) (ks_space (s\<lparr>ks_space := S0\<rparr>))" using S0(2) by simp
  obtain S1 S2 where S: "set_entry q i (?e\<lparr>ie_object := IO_NULL\<rparr>) (s\<lparr>ks_space := S0\<rparr>) = Some (s\<lparr>ks_space := S1\<rparr>)"
    "entry_dealloc q name i (s\<lparr>ks_space := S1\<rparr>) = Some (s\<lparr>ks_space := S2\<rparr>)" "entry_freed (ks_space s) q i xs {} (sends_of (ks_space s) q) S2"
    using entry_clear_dealloc [OF a _ h, of name] S0(3) e(4) pr(1) by auto
  have fin: "spaces_ok (s\<lparr>ks_space := S2\<rparr>)" "rights (s\<lparr>ks_space := S2\<rparr>) = (rights s)((q, i) := None)"
    using entry_freed_done [OF rights_okD(1) [OF ok], of q i xs _ "s\<lparr>ks_space := S2\<rparr>"] S(3) h by simp_all
  obtain s' po where s': "ipc_pset_destroy q obj (s\<lparr>ks_space := S2\<rparr>) = Some s'" "ks_space s' = S2" "ks_port s' = ks_port s"
      "ks_ith_assertions s' = ks_ith_assertions s" "ks_pset s' = (ks_pset s)(obj := po)" "\<forall>ps. po = Some ps \<longrightarrow> refs_ok (ips_references ps)"
    using ipc_pset_destroy_ok [of "s\<lparr>ks_space := S2\<rparr>" obj ps q] ps by auto
  have g: "rights_ok E s'" "rights s' = (rights s)((q, i) := None)"
    using rights_inv_pset_gone [OF rights_okD(3) [OF ok] x t, of po] s'(2-6) fin rights_okD(2) [OF ok]
      spaces_ok_cong [of s' "s\<lparr>ks_space := S2\<rparr>"] rights_cong [of s' "s\<lparr>ks_space := S2\<rparr>"]
    by (simp_all add: rights_ok_def)
  have "ipc_right_destroy E q name i check_guard guard s = Some (KERN_SUCCESS, s')"
    using S0(1) S(1,2) s'(1) ps(1,2) e(2-4) pr t get_entry_at [OF e(1)] assert_active_at [OF a] by (simp add: ipc_right_destroy_def ie_bits)
  then show ?thesis using g by (rule right_stepI)
qed

lemma destroy_dead_right:
  assumes ok: "rights_ok E s" and x: "rights s (q, i) = Some (p, b, r)" and n: "named name i b" and t: "port_type b"
    and p: "ks_port s p = Some port" "\<not> ip_active port"
  shows "right_step E s (q, i) (ipc_right_destroy E q name i check_guard guard s)"
proof -
  have po: "port_right_ok port q i b r" "port_ok E (rights s) p port" using port_right(1) [OF ok x t] p(1) by auto
  have rc: "b AND MACH_PORT_TYPE_RECEIVE = 0" "b AND MACH_PORT_TYPE_SEND_RIGHTS \<noteq> 0"
    "IE_BITS_TYPE b = MACH_PORT_TYPE_SEND \<or> IE_BITS_TYPE b = MACH_PORT_TYPE_SEND_ONCE" using po(1) p(2) t by (auto simp: port_right_ok_def port_type_def ie_bits)
  obtain e xs0 where e: "entry_at (ks_space s) q i e xs0 {} (sends_of (ks_space s) q) (ks_space s)" "ie_object e = p" "ie_bits e = b"
    using entry_begin(1) [OF rights_okD(1) [OF ok] x] by blast
  let ?e = "e\<lparr>ie_bits := b AND NOT IE_BITS_TYPE_MASK\<rparr>" let ?H = "sends_of (ks_space s) q - {i}"
  obtain S1 S2 xs e2 where S: "set_entry q i ?e s = Some (s\<lparr>ks_space := S1\<rparr>)"
      "(if IE_BITS_TYPE b = MACH_PORT_TYPE_SEND then hash_delete q p name (s\<lparr>ks_space := S1\<rparr>) else Some (s\<lparr>ks_space := S1\<rparr>)) = Some (s\<lparr>ks_space := S2\<rparr>)"
      "entry_at (ks_space s) q i e2 xs {i} ?H S2" "get_entry q i (s\<lparr>ks_space := S2\<rparr>) = Some e2" "named name i (ie_bits e2)"
      "assert_active q (s\<lparr>ks_space := S1\<rparr>) = Some ()"
    using destroy_hashed [OF ok x n get_entry_at [OF e(1)]] by blast
  let ?e3 = "e2\<lparr>ie_request := IE_REQ_NONE, ie_object := IO_NULL\<rparr>"
  obtain S3 where S3: "set_entry q i ?e3 (s\<lparr>ks_space := S2\<rparr>) = Some (s\<lparr>ks_space := S3\<rparr>)" "entry_at (ks_space s) q i ?e3 xs {i} ?H S3"
    using set_entry_same_type [of "ks_space s" q i e2 xs "{i}" ?H "s\<lparr>ks_space := S2\<rparr>" ?e3] S(3) by auto
  obtain S4 where S4: "entry_dealloc q name i (s\<lparr>ks_space := S3\<rparr>) = Some (s\<lparr>ks_space := S4\<rparr>)" "entry_freed (ks_space s) q i xs {} ?H S4"
    using entry_dealloc_at [of "ks_space s" q i ?e3 xs "{i}" ?H "s\<lparr>ks_space := S3\<rparr>" name] S3(2) namedD(1,2) [OF S(5)] by auto
  let ?s = "s\<lparr>ks_space := S4\<rparr>"
  have sp: "spaces_ok ?s" "rights ?s = (rights s)((q, i) := None)"
    using entry_freed_done [OF rights_okD(1) [OF ok], of q i xs ?H ?s] S4(2) by simp_all
  have g: "rights_ok E ?s"
    by (rule rights_ok_gone(1) [OF ok x p(1) sp, where port' = port], use p(1) port_okD(2) [OF po(2)] in \<open>simp_all add: map_upd_triv\<close>)
  have "spare_ref ?s p"
    by (rule rights_ok_gone(2) [OF ok x p(1) sp, where port' = port], use p(1) port_okD(2) [OF po(2)] rc in \<open>simp_all add: map_upd_triv\<close>)
  from release_spare [OF g this] obtain s' where s': "ip_release p ?s = Some s'" "rights_ok E s'" "rights s' = (rights s)((q, i) := None)"
    using port_right(3) [OF ok x t] sp(2) by auto
  have "ipc_right_destroy E q name i check_guard guard s = Some (KERN_SUCCESS, s')"
    using S(1,2,4,6) S3(1) S4(1) s'(1) e(2,3) p rc(3) port_right(3) [OF ok x t] get_entry_at [OF e(1)]
    by (auto simp: ipc_right_destroy_def mach_port_type_consts)
  then show ?thesis using s'(2,3) by (rule right_stepI)
qed

definition guard_violated :: "kst \<Rightarrow> ptr \<times> nat \<Rightarrow> bool \<Rightarrow> 64 word \<Rightarrow> bool" where
  "guard_violated s x check_guard guard \<longleftrightarrow> (\<exists>p b r port. rights s x = Some (p, b, r) \<and> ks_port s p = Some port \<and> ip_active port
     \<and> b AND MACH_PORT_TYPE_RECEIVE \<noteq> 0 \<and> check_guard \<and> ip_guarded port \<and> guard \<noteq> ip_context port)"

lemma destroy_live_entry:
  assumes ok: "rights_ok E s" and x: "rights s (q, i) = Some (p, b, r)" and n: "named name i b" and t: "port_type b"
    and p: "ks_port s p = Some port" "ip_active port" and e: "get_entry q i s = Some e"
  shows "\<exists>S1 S2 e2 previous port1 s1. set_entry q i (e\<lparr>ie_bits := b AND NOT IE_BITS_TYPE_MASK\<rparr>) s = Some (s\<lparr>ks_space := S1\<rparr>)
    \<and> (if IE_BITS_TYPE b = MACH_PORT_TYPE_SEND then hash_delete q p name (s\<lparr>ks_space := S1\<rparr>) else Some (s\<lparr>ks_space := S1\<rparr>)) = Some (s\<lparr>ks_space := S2\<rparr>)
    \<and> get_entry q i (s\<lparr>ks_space := S2\<rparr>) = Some e2 \<and> assert_active q (s\<lparr>ks_space := S1\<rparr>) = Some ()
    \<and> free_steps q name i p False (s\<lparr>ks_space := S2\<rparr>) = Some (previous, s1) \<and> right_left E s (q, i) p r port port1 s1"
proof -
  have po: "port_right_ok port q i b r" "port_ok E (rights s) p port" using port_right(1) [OF ok x t] p(1) by auto
  let ?e = "e\<lparr>ie_bits := b AND NOT IE_BITS_TYPE_MASK\<rparr>" let ?H = "sends_of (ks_space s) q - {i}"
  obtain S1 S2 xs e2 where S: "set_entry q i ?e s = Some (s\<lparr>ks_space := S1\<rparr>)"
      "(if IE_BITS_TYPE b = MACH_PORT_TYPE_SEND then hash_delete q p name (s\<lparr>ks_space := S1\<rparr>) else Some (s\<lparr>ks_space := S1\<rparr>)) = Some (s\<lparr>ks_space := S2\<rparr>)"
      "entry_at (ks_space s) q i e2 xs {i} ?H S2" "get_entry q i (s\<lparr>ks_space := S2\<rparr>) = Some e2" "ie_object e2 = p" "ie_request e2 = r" "named name i (ie_bits e2)"
      "assert_active q (s\<lparr>ks_space := S1\<rparr>) = Some ()"
    using destroy_hashed [OF ok x n e] by blast
  have a: "entry_at (ks_space s) q i e2 xs {i} ?H (ks_space (s\<lparr>ks_space := S2\<rparr>))" using S(3) by simp
  have rq: "ie_request e2 \<noteq> IE_REQ_NONE \<Longrightarrow> \<exists>n. requests_map port (ie_request e2) = Some (name, n)"
    using po(1) S(6) namedD(3) [OF n] by (auto simp: port_right_ok_def)
  obtain previous rt S3 where F: "free_steps q name i p False (s\<lparr>ks_space := S2\<rparr>) = Some (previous, (put_port (s\<lparr>ks_space := S2\<rparr>) p (port\<lparr>ip_requests := rt\<rparr>))\<lparr>ks_space := S3\<rparr>)"
      "entry_freed (ks_space s) q i xs {} ?H S3" "requests_inv E (port\<lparr>ip_requests := rt\<rparr>)" "requests_map (port\<lparr>ip_requests := rt\<rparr>) = (requests_map port)(r := None)"
    using free_steps_at [OF a _ S(7,5), of port E] p port_okD(2) [OF po(2)] rq S(6) by auto
  define s1 where "s1 = (put_port (s\<lparr>ks_space := S2\<rparr>) p (port\<lparr>ip_requests := rt\<rparr>))\<lparr>ks_space := S3\<rparr>"
  have sp: "spaces_ok s1" "rights s1 = (rights s)((q, i) := None)"
    using entry_freed_done [OF rights_okD(1) [OF ok], of q i xs ?H s1] F(2) by (simp_all add: s1_def)
  have "right_left E s (q, i) p r port (port\<lparr>ip_requests := rt\<rparr>) s1"
    using p sp F(3,4) rights_okD(2) [OF ok] by (auto simp: right_left_def s1_def)
  then show ?thesis using S(1,2,4,8) F(1) unfolding s1_def by blast
qed

lemma destroy_live_right:
  assumes ok: "rights_ok E s" and x: "rights s (q, i) = Some (p, b, r)" and n: "named name i b" and t: "port_type b"
    and p: "ks_port s p = Some port" "ip_active port" and g: "\<not> guard_violated s (q, i) check_guard guard"
  shows "right_step E s (q, i) (ipc_right_destroy E q name i check_guard guard s)"
proof -
  have po: "port_right_ok port q i b r" using port_right(1) [OF ok x t] p(1) by auto
  obtain e xs0 where e: "entry_at (ks_space s) q i e xs0 {} (sends_of (ks_space s) q) (ks_space s)" "ie_object e = p" "ie_bits e = b"
    using entry_begin(1) [OF rights_okD(1) [OF ok] x] by blast
  obtain S1 S2 e2 previous port1 s1 where S: "set_entry q i (e\<lparr>ie_bits := b AND NOT IE_BITS_TYPE_MASK\<rparr>) s = Some (s\<lparr>ks_space := S1\<rparr>)"
      "(if IE_BITS_TYPE b = MACH_PORT_TYPE_SEND then hash_delete q p name (s\<lparr>ks_space := S1\<rparr>) else Some (s\<lparr>ks_space := S1\<rparr>)) = Some (s\<lparr>ks_space := S2\<rparr>)"
      "get_entry q i (s\<lparr>ks_space := S2\<rparr>) = Some e2" "assert_active q (s\<lparr>ks_space := S1\<rparr>) = Some ()"
      "free_steps q name i p False (s\<lparr>ks_space := S2\<rparr>) = Some (previous, s1)" "right_left E s (q, i) p r port port1 s1"
    using destroy_live_entry [OF ok x n t p get_entry_at [OF e(1)]] by blast
  let ?recv = "\<lambda>port. ip_active port \<and> ip_receiver port = q"
  have "\<exists>ns s'. drop_right E q p (IE_BITS_TYPE b) ?recv s1 = Some (ns, s') \<and> rights_ok E s' \<and> rights s' = (rights s)((q, i) := None)"
  proof (cases "b AND MACH_PORT_TYPE_RECEIVE = 0")
    case True
    then show ?thesis using drop_right_send [OF ok x _ S(6)] drop_right_send_once [OF ok x _ S(6)] t by (auto simp: port_type_def ie_bits)
  next
    case False
    then have "?recv port'" if "link port' = link port" for port' using that p(2) po by (auto simp: link_def port_right_ok_def)
    then show ?thesis using drop_right_receive [OF ok x _ S(6), of ?recv] t False by (auto simp: port_type_def ie_bits)
  qed
  then obtain ns s' where s': "drop_right E q p (IE_BITS_TYPE b) ?recv s1 = Some (ns, s')" "rights_ok E s'" "rights s' = (rights s)((q, i) := None)" by blast
  let ?s' = "send_port_deleted previous name (send_no_senders ns s')"
  have tt: "IE_BITS_TYPE b AND MACH_PORT_TYPE_RECEIVE = b AND MACH_PORT_TYPE_RECEIVE" using type_test [OF refl, of MACH_PORT_TYPE_RECEIVE b] by (simp add: ie_bits_defs)
  have ng: "\<not> (b AND MACH_PORT_TYPE_RECEIVE \<noteq> 0 \<and> check_guard \<and> ip_guarded port \<and> guard \<noteq> ip_context port)"
    using g x p unfolding guard_violated_def by blast
  have pd: "IE_BITS_TYPE b \<noteq> MACH_PORT_TYPE_DEAD_NAME" "IE_BITS_TYPE b \<noteq> MACH_PORT_TYPE_PORT_SET" using t by (auto simp: port_type_def ie_bits)
  have "ipc_right_destroy E q name i check_guard guard s = Some (KERN_SUCCESS, ?s')"
    using S(1-5) s'(1) e(2,3) p t pd ng tt port_right(3) [OF ok x t] get_entry_at [OF e(1)]
    by (auto simp: ipc_right_destroy_def port_type_def free_steps_def split: bind_splits)
  then show ?thesis by (rule right_stepI [where v = None]) (use rights_ok_log [OF s'(2), of ?s'] s'(3) in auto)
qed

lemma ipc_right_destroy_step:
  assumes ok: "rights_ok E s" and x: "rights s (q, i) = Some (p, b, r)" and n: "named name i b"
    and g: "\<not> guard_violated s (q, i) check_guard guard"
  shows "right_step E s (q, i) (ipc_right_destroy E q name i check_guard guard s)"
proof -
  consider "IE_BITS_TYPE b = MACH_PORT_TYPE_DEAD_NAME" | "IE_BITS_TYPE b = MACH_PORT_TYPE_PORT_SET" | "port_type b"
    using right_types [OF ok x] by (auto simp: port_type_def)
  then show ?thesis
  proof cases
    case 3
    then obtain port where p: "ks_port s p = Some port" using port_right(1) [OF ok x] by blast
    show ?thesis using destroy_live_right [OF ok x n 3 p _ g] destroy_dead_right [OF ok x n 3 p] by blast
  qed (use destroy_dead_name [OF ok x n] destroy_port_set [OF ok x n] in blast)+
qed

end
