(* ===== verification/Mach_Calls.thy ===== *)
theory Mach_Calls
  imports Mach_Port Ipc_Right_Destroy
begin

text \<open>
  The port calls and the invariant of rights: a call looks its name up, works on the right it finds, and
  leaves a state in which all rights are consistent again.
\<close>

section \<open>Lookup\<close>

lemma lookup_write [consumes 2, case_names dead unknown found]:
  assumes ok: "rights_ok E s" and sp: "ks_space s q = Some sp"
  obtains (dead) "\<not> is_active sp" "ipc_right_lookup_write q name s = Some (KERN_INVALID_TASK, 0)"
    | (unknown) "is_active sp" "ipc_right_lookup_write q name s = Some (KERN_INVALID_NAME, 0)"
        "\<And>i obj b r. rights s (q, i) = Some (obj, b, r) \<Longrightarrow> \<not> named name i b"
    | (found) i obj b r where "is_active sp" "ipc_right_lookup_write q name s = Some (KERN_SUCCESS, i)"
        "rights s (q, i) = Some (obj, b, r)" "named name i b"
proof -
  have q: "q \<noteq> 0" using rights_okD(1) [OF ok] sp by (auto simp: spaces_ok_def)
  show thesis
  proof (cases "is_active sp")
    case False
    then show thesis using dead q sp by (simp add: ipc_right_lookup_write_def)
  next
    case act: True
    obtain xs where "space_ok sp xs {}" using rights_okD(1) [OF ok] sp act by (auto simp: spaces_ok_def)
    then have inv: "space_inv sp xs {} (send_entries (is_table sp))" by (simp add: space_ok_def)
    let ?i = "MACH_PORT_INDEX name" let ?e = "is_table sp ! ?i"
    have z: "entry_type (is_table sp) 0 = MACH_PORT_TYPE_NONE" using space_invD(10) [OF inv] by (simp add: entry_type_def IE_BITS_TYPE_def MACH_PORT_TYPE_NONE_def)
    note l = ipc_entry_lookup_eq [OF inv act, of name]
    show thesis
    proof (cases "?i < length (is_table sp) \<and> IE_BITS_GEN (ie_bits ?e) = MACH_PORT_GEN name \<and> entry_type (is_table sp) ?i \<noteq> MACH_PORT_TYPE_NONE")
      case True
      then have "0 < ?i" using z by (cases "?i = 0") auto
      then have "rights s (q, ?i) = Some (ie_object ?e, ie_bits ?e, ie_request ?e)" using True sp act by (simp add: rights_def vis_def)
      moreover have "ipc_right_lookup_write q name s = Some (KERN_SUCCESS, ?i)" using True l q sp act by (simp add: ipc_right_lookup_write_def)
      ultimately show thesis using found [OF act] True by (simp add: named_def)
    next
      case False
      have "\<not> named name i b" if "rights s (q, i) = Some (obj, b, r)" for i obj b r
        using that False sp act by (auto simp: rights_def named_def vis_def split: if_splits)
      moreover have "ipc_right_lookup_write q name s = Some (KERN_INVALID_NAME, 0)" using False l q sp act by (auto simp: ipc_right_lookup_write_def)
      ultimately show thesis using unknown [OF act] by blast
    qed
  qed
qed

section \<open>Changes of a port that no right depends on\<close>

lemma rights_ok_port_change:
  assumes ok: "rights_ok E s" and p: "ks_port s p = Some port"
    and same: "io_otype (ip_io_bits port') = io_otype (ip_io_bits port)" "link port' = link port"
      "\<And>r. requests_map port r \<noteq> None \<Longrightarrow> requests_map port' r = requests_map port r"
    and c: "ip_srights port \<le> ip_srights port'" "ip_sorights port \<le> ip_sorights port'" "ip_references port \<le> ip_references port'"
    and d: "refs_ok (ip_references port')" "requests_inv E port'" "destroyable E p port'"
  shows "rights_ok E (put_port s p port')" "rights (put_port s p port') = rights s"
proof -
  note inv = rights_okD(3) [OF ok]
  show R: "rights (put_port s p port') = rights s" by (rule rights_cong) simp
  have a: "ip_active port' = ip_active port" using same(2) by (simp add: link_def)
  have 1: "right_ok ((ks_port s)(p \<mapsto> port')) (ks_pset s) y w" if y: "rights s y = Some w" for y w
  proof (cases "on_port p w")
    case True
    note yok = rights_inv_cases [OF inv y]
    obtain q i b r where w: "w = (p, b, r)" "port_right_ok port q i b r" using on_port_type [OF yok True] p by auto
    have "requests_map port' (snd (snd w)) = requests_map port (snd (snd w))" if "snd (snd w) \<noteq> IE_REQ_NONE"
      using that w same(3) [of r] by (auto simp: port_right_ok_def)
    then show ?thesis using right_ok_same_link [OF yok True p same(1,2)] by blast
  qed (use right_ok_other_port [OF rights_inv_cases [OF inv y]] in \<open>auto simp: on_port_def\<close>)
  have 2: "port_ok E (rights s) p' po" if "((ks_port s)(p \<mapsto> port')) p' = Some po" for p' po
    using that rights_invD(2) [OF inv] p c d a by (fastforce simp: port_ok_def word_le_nat_alt split: if_splits)
  have "rights_inv E (rights s) ((ks_port s)(p \<mapsto> port')) (ks_pset s)" using inv 1 2 by (simp add: rights_inv_def)
  then show "rights_ok E (put_port s p port')"
    using R spaces_ok_cong [of "put_port s p port'" s] rights_okD(1,2) [OF ok] by (simp add: rights_ok_def put_port_def)
qed

section \<open>Receive rights\<close>

lemma receive_right:
  assumes ok: "rights_ok E s" and x: "rights s (q, i) = Some (p, b, r)" and t: "b AND MACH_PORT_TYPE_RECEIVE \<noteq> 0"
  shows "IE_BITS_TYPE b = MACH_PORT_TYPE_RECEIVE \<or> IE_BITS_TYPE b = MACH_PORT_TYPE_SEND_RECEIVE" "port_type b"
    "\<exists>port. ks_port s p = Some port \<and> ip_active port \<and> ip_receiver port = q \<and> ip_receiver_name port = MACH_PORT_MAKE i (IE_BITS_GEN b)"
proof -
  show a: "IE_BITS_TYPE b = MACH_PORT_TYPE_RECEIVE \<or> IE_BITS_TYPE b = MACH_PORT_TYPE_SEND_RECEIVE"
    using right_types [OF ok x] t by (auto simp: ie_bits)
  then show "port_type b" by (auto simp: port_type_def)
  then show "\<exists>port. ks_port s p = Some port \<and> ip_active port \<and> ip_receiver port = q \<and> ip_receiver_name port = MACH_PORT_MAKE i (IE_BITS_GEN b)"
    using port_right(1) [OF ok x] t by (auto simp: port_right_ok_def)
qed

lemma translate_receive [consumes 2, case_names failed receive]:
  assumes ok: "rights_ok E s" and sp: "ks_space s q = Some sp"
  obtains (failed) kr where "ipc_port_translate_receive q name s = Some (kr, 0)" "kr \<noteq> KERN_SUCCESS"
        "\<And>i p b r. rights s (q, i) = Some (p, b, r) \<Longrightarrow> named name i b \<Longrightarrow> b AND MACH_PORT_TYPE_RECEIVE = 0"
    | (receive) i p b r port where "ipc_port_translate_receive q name s = Some (KERN_SUCCESS, p)"
        "rights s (q, i) = Some (p, b, r)" "named name i b" "b AND MACH_PORT_TYPE_RECEIVE \<noteq> 0" "ks_port s p = Some port" "ip_active port"
proof -
  note d = ipc_port_translate_receive_def ipc_object_translate_def
  from ok sp show thesis
  proof (cases rule: lookup_write [where name = name])
    case dead
    then have "rights s (q, i) = None" for i using sp by (simp add: rights_def)
    then show thesis using failed [of KERN_INVALID_TASK] dead by (simp add: d)
  next
    case unknown
    then show thesis using failed [of KERN_INVALID_NAME] by (auto simp: d)
  next
    case (found i p b r)
    obtain e xs where e: "entry_at (ks_space s) q i e xs {} (sends_of (ks_space s) q) (ks_space s)" "ie_object e = p" "ie_bits e = b"
      using entry_begin(1) [OF rights_okD(1) [OF ok] found(3)] by blast
    note g = get_entry_at [OF e(1)]
    have u: "i' = i \<and> (p', b', r') = (p, b, r)" if "rights s (q, i') = Some (p', b', r')" "named name i' b'" for i' p' b' r'
      using that found(3,4) by (simp add: named_def)
    show thesis
    proof (cases "b AND MACH_PORT_TYPE_RECEIVE = 0")
      case True
      then have "ipc_port_translate_receive q name s = Some (KERN_INVALID_RIGHT, 0)"
        using found(2) g e(3) by (simp add: d MACH_PORT_TYPE_NONE_def MACH_PORT_TYPE_RECEIVE_def)
      moreover have "b' AND MACH_PORT_TYPE_RECEIVE = 0" if "rights s (q, i') = Some (p', b', r')" "named name i' b'" for i' p' b' r'
        using u [OF that] True by simp
      ultimately show thesis using failed [of KERN_INVALID_RIGHT] by simp
    next
      case False
      note rr = receive_right [OF ok found(3) False]
      obtain port where port: "ks_port s p = Some port" "ip_active port" using rr(3) by blast
      have "b AND MACH_PORT_TYPE_PORT_SET = 0" using rr(1) by (auto simp: ie_bits)
      moreover have "p \<noteq> IO_NULL" using port_right(3) [OF ok found(3) rr(2)] by (simp add: IP_NULL_def IO_NULL_def)
      ultimately have "ipc_port_translate_receive q name s = Some (KERN_SUCCESS, p)"
        using found(2) g e(2,3) False port by (simp add: d MACH_PORT_TYPE_NONE_def MACH_PORT_TYPE_RECEIVE_def object_active_def)
      then show thesis using receive found(3,4) False port by blast
    qed
  qed
qed

section \<open>Types and user references\<close>

text \<open>The pseudo-type bits that a registered request adds to a type.\<close>

definition request_types :: "32 word set" where
  "request_types = {0, MACH_PORT_TYPE_DNREQUEST, MACH_PORT_TYPE_DNREQUEST OR MACH_PORT_TYPE_SPREQUEST,
     MACH_PORT_TYPE_DNREQUEST OR (MACH_PORT_TYPE_SPREQUEST OR MACH_PORT_TYPE_SPREQUEST_DELAYED)}"

lemma request_type_value: "ipc_port_request_type port name r = Some t \<Longrightarrow> t \<in> request_types"
  by (auto simp: ipc_port_request_type_def request_types_def split: if_splits bind_splits)

lemma request_type_of_right:
  assumes "port_right_ok port q i b r" "named name i b"
  obtains t where "(if r \<noteq> IE_REQ_NONE then ipc_port_request_type port name r else Some 0) = Some t" "t \<in> request_types"
proof (cases "r = IE_REQ_NONE")
  case True
  then show thesis using that [of 0] by (simp add: request_types_def)
next
  case False
  then obtain n where "requests_map port r = Some (name, n)" using assms namedD(3) [OF assms(2)] by (auto simp: port_right_ok_def)
  then obtain t where "ipc_port_request_type port name r = Some t" using request_type_ok by blast
  then show thesis using that False request_type_value by simp
qed

text \<open>A send right or send-once right whose port is dead: it turns into a dead name when it is next looked at.\<close>

definition stale :: "kst \<Rightarrow> ptr \<Rightarrow> 32 word \<Rightarrow> bool" where
  "stale s p b \<longleftrightarrow> (IE_BITS_TYPE b = MACH_PORT_TYPE_SEND \<or> IE_BITS_TYPE b = MACH_PORT_TYPE_SEND_ONCE)
     \<and> (case ks_port s p of None \<Rightarrow> False | Some port \<Rightarrow> \<not> ip_active port)"

lemma ipc_right_info_ok:
  assumes ok: "rights_ok E s" and x: "rights s (q, i) = Some (obj, b, r)" and n: "named name i b"
  obtains t s' obj' b' r' where "ipc_right_info q name i s = Some ((t OR IE_BITS_TYPE b', IE_BITS_UREFS b'), s')" "t \<in> request_types"
    "rights_ok E s'" "rights s' = (rights s)((q, i) \<mapsto> (obj', b', r'))" "named name i b'"
    "if stale s obj b then IE_BITS_TYPE b' = MACH_PORT_TYPE_DEAD_NAME \<and> t = 0 else b' = b \<and> s' = s"
proof -
  obtain e xs where e: "entry_at (ks_space s) q i e xs {} (sends_of (ks_space s) q) (ks_space s)" "ie_object e = obj" "ie_bits e = b" "ie_request e = r"
    using entry_begin(1) [OF rights_okD(1) [OF ok] x] by blast
  note pre = get_entry_at [OF e(1)] e(2-4)
  have self: "rights s = (rights s)((q, i) \<mapsto> (obj, b, r))" using x by auto
  consider (none) "b AND MACH_PORT_TYPE_RECEIVE = 0" "b AND MACH_PORT_TYPE_SEND_RIGHTS = 0" | (receive) "b AND MACH_PORT_TYPE_RECEIVE \<noteq> 0"
    | (send) "b AND MACH_PORT_TYPE_RECEIVE = 0" "IE_BITS_TYPE b = MACH_PORT_TYPE_SEND \<or> IE_BITS_TYPE b = MACH_PORT_TYPE_SEND_ONCE" "b AND MACH_PORT_TYPE_SEND_RIGHTS \<noteq> 0"
    using right_types [OF ok x] by (auto simp: ie_bits)
  then show thesis
  proof cases
    case none
    then have "ipc_right_info q name i s = Some ((0 OR IE_BITS_TYPE b, IE_BITS_UREFS b), s)" using pre by (simp add: ipc_right_info_def)
    moreover have "\<not> stale s obj b" using none(2) by (auto simp: stale_def ie_bits)
    ultimately show thesis using that [of 0 b s obj r] ok self n by (simp add: request_types_def)
  next
    case receive
    note rr = receive_right [OF ok x receive]
    obtain port where port: "ks_port s obj = Some port" "port_right_ok port q i b r" "ip_active port"
      using port_right(1) [OF ok x rr(2)] rr(3) by auto
    obtain t where "(if r \<noteq> IE_REQ_NONE then ipc_port_request_type port name r else Some 0) = Some t" "t \<in> request_types"
      using request_type_of_right [OF port(2) n] .
    moreover have "\<not> stale s obj b" using port(1,3) by (simp add: stale_def)
    ultimately show thesis
      using that [of t b s obj r] ok self n pre receive port(1,3) port_right(2) [OF ok x rr(2)]
      by (auto simp: ipc_right_info_def require_ip_active_def split: if_splits)
  next
    case send
    then have pt: "port_type b" by (auto simp: port_type_def)
    obtain port where port: "ks_port s obj = Some port" "port_right_ok port q i b r" using port_right(1) [OF ok x pt] by auto
    show thesis
    proof (cases "ip_active port")
      case True
      obtain t where "(if r \<noteq> IE_REQ_NONE then ipc_port_request_type port name r else Some 0) = Some t" "t \<in> request_types"
        using request_type_of_right [OF port(2) n] .
      moreover have "\<not> stale s obj b" using port(1) True by (simp add: stale_def)
      ultimately show thesis
        using that [of t b s obj r] ok self n pre send port(1) ipc_right_check_live [OF e(1,2) port(1) True]
        by (auto simp: ipc_right_info_def split: if_splits)
    next
      case False
      obtain s1 e1 b1 where d: "ipc_right_check q obj name i IPC_OBJECT_COPYIN_FLAGS_NONE s = Some (True, s1)" "rights_ok E s1"
          "rights s1 = (rights s)((q, i) \<mapsto> (IO_NULL, b1, IE_REQ_NONE))" "spare_ref s1 obj" "get_entry q i s1 = Some e1" "ie_bits e1 = b1"
          "IE_BITS_TYPE b1 = MACH_PORT_TYPE_DEAD_NAME" "named name i b1"
        using dead_check [OF ok x n send(2) port(1) False] by blast
      obtain s2 where s2: "ip_release obj s1 = Some s2" "rights_ok E s2" "rights s2 = rights s1"
        using release_spare [OF d(2,4)] port_right(3) [OF ok x pt] by auto
      then have "ipc_right_info q name i s = Some ((0 OR IE_BITS_TYPE b1, IE_BITS_UREFS b1), s2)"
        using pre send d(1,5-7) by (simp add: ipc_right_info_def)
      moreover have "stale s obj b" using port(1) False send(2) by (simp add: stale_def)
      ultimately show thesis using that [of 0 b1 s2 IO_NULL IE_REQ_NONE] s2 d(3,7,8) by (simp add: request_types_def)
    qed
  qed
qed

section \<open>Calls on one name\<close>

text \<open>
  A call with a name in a space returns, keeps the rights consistent and touches no right but the one at the index of
  the name.
\<close>

definition call_step :: "kenv \<Rightarrow> kst \<Rightarrow> ptr \<Rightarrow> mach_port_name_t \<Rightarrow> ('a \<times> kst) option \<Rightarrow> bool" where
  "call_step E s q name res \<longleftrightarrow> (\<exists>a s'. res = Some (a, s') \<and> rights_ok E s'
     \<and> (\<forall>x. x \<noteq> (q, MACH_PORT_INDEX name) \<longrightarrow> rights s' x = rights s x))"

lemma call_step_same:
  assumes "rights_ok E s" "res = Some (a, s')"
    and "ks_space s' = ks_space s" "ks_port s' = ks_port s" "ks_pset s' = ks_pset s" "ks_ith_assertions s' = ks_ith_assertions s"
  shows "call_step E s q name res"
  using rights_ok_log [OF assms(1,3-6)] assms(2) by (auto simp: call_step_def)

lemma call_step_refl: "rights_ok E s \<Longrightarrow> call_step E s q name (Some (a, s))"
  by (auto simp: call_step_def)

lemma call_step_keep: "res = Some (a, s') \<Longrightarrow> rights_ok E s' \<Longrightarrow> rights s' = rights s \<Longrightarrow> call_step E s q name res"
  by (auto simp: call_step_def)

lemma right_step_call:
  assumes "right_step E s (q, i) res" "named name i b"
  shows "call_step E s q name res"
  using assms by (auto simp: right_step_def call_step_def named_def)

text \<open>The calls that look a right up and hand it to a routine of \<open>ipc_right.c\<close>.\<close>

lemma call_on_right:
  assumes ok: "rights_ok E s" and sp: "ks_space s q = Some sp"
    and f: "\<And>i obj b r. rights s (q, i) = Some (obj, b, r) \<Longrightarrow> named name i b \<Longrightarrow> right_step E s (q, i) (f i)"
  shows "call_step E s q name (do {
        (kr, i) \<leftarrow> ipc_right_lookup_write q name s;
        if kr \<noteq> KERN_SUCCESS then Some (kr, mach_port_guard_exception name 0 0 kGUARD_EXC_INVALID_NAME s)
        else f i
      })"
  using ok sp
proof (cases rule: lookup_write [where name = name])
  case (found i obj b r)
  then show ?thesis using right_step_call [OF f [OF found(3,4)] found(4)] by simp
qed (auto intro!: call_step_same [OF ok])

lemma space_nonnull: "rights_ok E s \<Longrightarrow> ks_space s q = Some sp \<Longrightarrow> q \<noteq> 0"
  by (auto simp: rights_ok_def spaces_ok_def)

lemma mach_port_deallocate_step:
  assumes ok: "rights_ok E s" and sp: "ks_space s q = Some sp"
  shows "call_step E s q name (mach_port_deallocate E q name s)"
  using call_on_right [OF ok sp, where f = "\<lambda>i. ipc_right_dealloc E q name i s"] ipc_right_dealloc_step [OF ok] space_nonnull [OF ok sp]
  by (simp add: mach_port_deallocate_def call_step_refl [OF ok])

text \<open>Every port has room for one more reference.\<close>

definition room :: "kst \<Rightarrow> bool" where
  "room s \<longleftrightarrow> (\<forall>p port. ks_port s p = Some port \<longrightarrow> refs_room 1 port)"

lemma room_backup: "room s \<Longrightarrow> backup_room s x"
  by (simp add: room_def backup_room_def)

lemma mach_port_mod_refs_step:
  assumes ok: "rights_ok E s" and sp: "ks_space s q = Some sp" and rm: "room s"
  shows "call_step E s q name (mach_port_mod_refs E q name right delta s)"
proof -
  have "right_step E s (q, i) (ipc_right_delta E q name i right delta s)"
    if "\<not> 6 \<le> right_number right" "rights s (q, i) = Some (obj, b, r)" "named name i b" for i obj b r
    using ipc_right_delta_step [OF ok that(2,3) room_backup [OF rm], of right delta] that(1) by (cases right) auto
  then show ?thesis
    using call_on_right [OF ok sp, where f = "\<lambda>i. ipc_right_delta E q name i right delta s"] space_nonnull [OF ok sp]
    by (simp add: mach_port_mod_refs_def call_step_refl [OF ok])
qed

lemma mach_port_destruct_step:
  assumes ok: "rights_ok E s" and sp: "ks_space s q = Some sp" and rm: "room s"
  shows "call_step E s q name (mach_port_destruct E q name srdelta guard s)"
  using call_on_right [OF ok sp, where f = "\<lambda>i. ipc_right_destruct E q name i srdelta guard s"] ipc_right_destruct_step [OF ok _ _ room_backup [OF rm]] space_nonnull [OF ok sp]
  by (simp add: mach_port_destruct_def call_step_refl [OF ok])

lemma mach_port_destroy_step:
  assumes ok: "rights_ok E s" and sp: "ks_space s q = Some sp" and g: "\<not> guard_violated s (q, MACH_PORT_INDEX name) True 0"
  shows "call_step E s q name (mach_port_destroy E q name s)"
proof -
  have "right_step E s (q, i) (ipc_right_destroy E q name i True 0 s)" if "rights s (q, i) = Some (obj, b, r)" "named name i b" for i obj b r
    by (rule ipc_right_destroy_step [OF ok that]) (use g that(2) in \<open>simp add: named_def\<close>)
  then show ?thesis
    using call_on_right [OF ok sp, where f = "\<lambda>i. ipc_right_destroy E q name i True 0 s"] space_nonnull [OF ok sp]
    by (simp add: mach_port_destroy_def call_step_refl [OF ok])
qed

section \<open>Calls on a receive right\<close>

lemma call_on_receive:
  assumes ok: "rights_ok E s" and sp: "ks_space s q = Some sp"
    and f: "\<And>i p b r port. rights s (q, i) = Some (p, b, r) \<Longrightarrow> named name i b \<Longrightarrow> b AND MACH_PORT_TYPE_RECEIVE \<noteq> 0 \<Longrightarrow>
      ks_port s p = Some port \<Longrightarrow> ip_active port \<Longrightarrow> call_step E s q name (f p)"
    and g: "\<And>kr. call_step E s q name (g kr)"
  shows "call_step E s q name (do { (kr, p) \<leftarrow> ipc_port_translate_receive q name s; if kr \<noteq> KERN_SUCCESS then g kr else f p })"
  using ok sp by (cases rule: translate_receive [where name = name]) (use f g in auto)

lemma call_step_if:
  "(c \<Longrightarrow> call_step E s q name t) \<Longrightarrow> (\<not> c \<Longrightarrow> call_step E s q name u) \<Longrightarrow> call_step E s q name (if c then t else u)"
  by simp

text \<open>The port changes in fields that no right depends on.\<close>

definition same_rights :: "kenv \<Rightarrow> ptr \<Rightarrow> ipc_port \<Rightarrow> ipc_port \<Rightarrow> bool" where
  "same_rights E p port port' \<longleftrightarrow> ip_io_bits port' = ip_io_bits port \<and> ip_receiver_name port' = ip_receiver_name port \<and> ip_data port' = ip_data port
     \<and> ip_requests port' = ip_requests port \<and> ip_srights port' = ip_srights port \<and> ip_sorights port' = ip_sorights port
     \<and> ip_references port' = ip_references port \<and> (destroyable E p port \<longrightarrow> destroyable E p port')"

lemma same_rights_ok:
  assumes ok: "rights_ok E s" and p: "ks_port s p = Some port" and same: "same_rights E p port port'"
  shows "rights_ok E (put_port s p port')" "rights (put_port s p port') = rights s"
proof -
  note po = port_okD [OF rights_invD(2) [OF rights_okD(3) [OF ok] p]]
  have "requests_map port' = requests_map port" "requests_inv E port'" "destroyable E p port'" "link port' = link port"
    using same po(2,3) by (simp_all add: same_rights_def requests_map_def requests_inv_def link_def ip_active_def)
  then show "rights_ok E (put_port s p port')" "rights (put_port s p port') = rights s"
    using rights_ok_port_change [OF ok p, of port'] same po(1) by (simp_all add: same_rights_def)
qed

lemma call_step_put:
  "rights_ok E s \<Longrightarrow> ks_port s p = Some port \<Longrightarrow> same_rights E p port port' \<Longrightarrow> call_step E s q name (Some (a, put_port s p port'))"
  using same_rights_ok by (blast intro: call_step_keep)

lemma call_step_log:
  assumes "call_step E s q name (Some (a, s1))"
    and "ks_space s' = ks_space s1" "ks_port s' = ks_port s1" "ks_pset s' = ks_pset s1" "ks_ith_assertions s' = ks_ith_assertions s1"
  shows "call_step E s q name (Some (a', s'))"
  using assms(1) rights_ok_log [OF _ assms(2-5)] by (auto simp: call_step_def)

lemma call_step_exception:
  "call_step E s q name (Some (a, s1)) \<Longrightarrow> call_step E s q name (Some (a', mach_port_guard_exception n g c e s1))"
  by (rule call_step_log) simp_all

lemmas same_rights_simps = same_rights_def destroyable_def IP_PREALLOC_def

lemma mach_port_set_mscount_step:
  assumes ok: "rights_ok E s" and sp: "ks_space s q = Some sp"
  shows "call_step E s q name (mach_port_set_mscount q name mscount s)"
  unfolding mach_port_set_mscount_def
  by (intro call_step_if call_on_receive [OF ok sp] call_step_refl [OF ok]) (auto intro!: call_step_put [OF ok] simp: same_rights_simps)

lemma mach_port_set_seqno_step:
  assumes ok: "rights_ok E s" and sp: "ks_space s q = Some sp"
  shows "call_step E s q name (mach_port_set_seqno q name seqno s)"
  unfolding mach_port_set_seqno_def
  by (intro call_step_if call_on_receive [OF ok sp] call_step_refl [OF ok])
    (auto intro!: call_step_put [OF ok] simp: ipc_mqueue_set_seqno_def same_rights_simps)

lemma mach_port_set_context_step:
  assumes ok: "rights_ok E s" and sp: "ks_space s q = Some sp"
  shows "call_step E s q name (mach_port_set_context q name context s)"
  unfolding mach_port_set_context_def
  by (intro call_step_if call_on_receive [OF ok sp] call_step_refl [OF ok])
    (auto intro!: call_step_put [OF ok] call_step_exception call_step_refl [OF ok] simp: same_rights_simps)

lemma mach_port_guard_with_flags_step:
  assumes ok: "rights_ok E s" and sp: "ks_space s q = Some sp"
  shows "call_step E s q name (mach_port_guard_with_flags q name guard flags s)"
  unfolding mach_port_guard_with_flags_def translate_exception_def
  by (intro call_step_if call_on_receive [OF ok sp] call_step_refl [OF ok] call_step_exception)
    (auto intro!: call_step_put [OF ok] call_step_exception call_step_refl [OF ok] simp: mach_port_guard_locked_def same_rights_simps)

lemma mach_port_guard_step:
  assumes ok: "rights_ok E s" and sp: "ks_space s q = Some sp"
  shows "call_step E s q name (mach_port_guard q name guard strict s)"
  unfolding mach_port_guard_def translate_exception_def
  by (intro call_step_if call_on_receive [OF ok sp] call_step_refl [OF ok] call_step_exception)
    (auto intro!: call_step_put [OF ok] call_step_exception call_step_refl [OF ok] simp: mach_port_guard_locked_def same_rights_simps)

lemma mach_port_unguard_step:
  assumes ok: "rights_ok E s" and sp: "ks_space s q = Some sp"
  shows "call_step E s q name (mach_port_unguard q name guard s)"
  unfolding mach_port_unguard_def translate_exception_def
  by (intro call_step_if call_on_receive [OF ok sp] call_step_refl [OF ok] call_step_exception)
    (auto intro!: call_step_put [OF ok] call_step_exception call_step_refl [OF ok] simp: mach_port_unguard_locked_def same_rights_simps)

lemma mach_port_swap_guard_step:
  assumes ok: "rights_ok E s" and sp: "ks_space s q = Some sp"
  shows "call_step E s q name (mach_port_swap_guard q name old_guard new_guard s)"
  unfolding mach_port_swap_guard_def translate_exception_def
  by (intro call_step_if call_on_receive [OF ok sp] call_step_refl [OF ok] call_step_exception)
    (auto intro!: call_step_put [OF ok] call_step_exception call_step_refl [OF ok] simp: same_rights_simps)

section \<open>Notification requests and attributes\<close>

lemma request_port_destroyed_step:
  assumes ok: "rights_ok E s" and sp: "ks_space s q = Some sp"
  shows "call_step E s q name (request_port_destroyed q name sync notify s)"
  unfolding request_port_destroyed_def
  by (intro call_step_if call_on_receive [OF ok sp] call_step_refl [OF ok])
    (auto intro!: call_step_put [OF ok] call_step_exception call_step_refl [OF ok]
      simp: ipc_port_pdrequest_def require_ip_active_def same_rights_simps)

lemma request_no_senders_step:
  assumes ok: "rights_ok E s" and sp: "ks_space s q = Some sp"
  shows "call_step E s q name (request_no_senders q name sync notify s)"
  unfolding request_no_senders_def
proof (intro call_step_if call_on_receive [OF ok sp] call_step_refl [OF ok])
  fix p port assume p: "ks_port s p = Some port" "ip_active port"
  have put: "call_step E s q name (Some (a, put_port s p (port\<lparr>ip_nsrequest := n\<rparr>)))" for a :: "kern_return_t \<times> ptr" and n
    by (rule call_step_put [OF ok p(1)]) (simp add: same_rights_simps)
  show "call_step E s q name (do { (previous, s) \<leftarrow> ipc_port_nsrequest p sync notify s; Some ((KERN_SUCCESS, previous), s) })"
    using p by (auto simp: ipc_port_nsrequest_def require_ip_active_def ipc_notify_no_senders_def Let_def
        intro!: put call_step_log [OF put])
qed

lemma ipc_mqueue_set_qlimit_step:
  assumes ok: "rights_ok E s" and p: "ks_port s p = Some port" and l: "qlimit \<le> MACH_PORT_QLIMIT_MAX"
  shows "call_step E s q name (do { s \<leftarrow> ipc_mqueue_set_qlimit E p qlimit s; Some (KERN_SUCCESS, s) })"
proof -
  have put: "call_step E s q name (Some (KERN_SUCCESS, put_port s p (port\<lparr>ip_msgcount := m, ip_qlimit := l\<rparr>)))" for m l
    by (rule call_step_put [OF ok p]) (simp add: same_rights_simps)
  have put': "call_step E s q name (Some (KERN_SUCCESS, put_port s p (port\<lparr>ip_qlimit := l\<rparr>)))" for l
    by (rule call_step_put [OF ok p]) (simp add: same_rights_simps)
  have "call_step E s q name (Some (KERN_SUCCESS, put_port (klog e s) p (port\<lparr>ip_msgcount := m, ip_qlimit := l\<rparr>)))" for e m l
    by (rule call_step_log [OF put [where m = m and l = l]]) (simp_all add: put_port_def klog_def)
  then show ?thesis using p l put' by (auto simp: ipc_mqueue_set_qlimit_def Let_def)
qed

lemma set_tempowner_step:
  assumes ok: "rights_ok E s" and p: "ks_port s p = Some port"
  shows "call_step E s q name (set_tempowner E p s)"
proof (cases "io_is_kobject (ip_io_bits port) \<or> ip_specialreply port")
  case True
  then show ?thesis using p by (simp add: set_tempowner_def call_step_refl [OF ok])
next
  case False
  have d: "ip_tempowner port \<Longrightarrow> ip_imp_task port \<noteq> 0 \<Longrightarrow> imp_task_is_any_receiver_type E (ip_imp_task port)"
    using port_okD(3) [OF rights_invD(2) [OF rights_okD(3) [OF ok] p]] by (simp add: destroyable_def)
  have put: "call_step E s q name (Some (KERN_SUCCESS, put_port s p (port\<lparr>ip_impdonation := True, ip_tempowner := True\<rparr>)))"
    by (rule call_step_put [OF ok p]) (use False in \<open>auto simp: same_rights_simps\<close>)
  have put0: "call_step E s q name (Some (KERN_SUCCESS, put_port s p (port\<lparr>ip_kdata := 0, ip_impdonation := True, ip_tempowner := True\<rparr>)))"
    by (rule call_step_put [OF ok p]) (use False in \<open>auto simp: same_rights_simps\<close>)
  show ?thesis
  proof (cases "ip_tempowner port \<and> ip_imp_task port \<noteq> 0")
    case True
    then show ?thesis using p False d by (simp add: set_tempowner_def Let_def call_step_log [OF put0])
  next
    case nt: False
    then show ?thesis using p False by (cases "ip_tempowner port") (simp_all add: set_tempowner_def Let_def put call_step_log [OF put])
  qed
qed

lemma set_impdonation_step:
  assumes ok: "rights_ok E s" and p: "ks_port s p = Some port"
  shows "call_step E s q name (set_impdonation p s)"
  using p by (auto simp: set_impdonation_def same_rights_simps intro!: call_step_refl [OF ok] call_step_put [OF ok p])

lemma mach_port_set_attributes_step:
  assumes ok: "rights_ok E s" and sp: "ks_space s q = Some sp" and f: "flavor \<noteq> MACH_PORT_DNREQUESTS_SIZE"
  shows "call_step E s q name (mach_port_set_attributes E others q name flavor info count s)"
proof (cases flavor)
  case MACH_PORT_LIMITS_INFO
  show ?thesis unfolding mach_port_set_attributes_def MACH_PORT_LIMITS_INFO mach_port_flavor_t.case
    by (intro call_step_if call_on_receive [OF ok sp] call_step_refl [OF ok] ipc_mqueue_set_qlimit_step [OF ok]) simp_all
next
  case MACH_PORT_TEMPOWNER
  show ?thesis unfolding mach_port_set_attributes_def MACH_PORT_TEMPOWNER mach_port_flavor_t.case
    by (intro call_step_if call_on_receive [OF ok sp] call_step_refl [OF ok] set_tempowner_step [OF ok])
next
  case MACH_PORT_IMPORTANCE_RECEIVER
  show ?thesis unfolding mach_port_set_attributes_def MACH_PORT_IMPORTANCE_RECEIVER mach_port_flavor_t.case
    by (intro call_step_if call_on_receive [OF ok sp] call_step_refl [OF ok] set_impdonation_step [OF ok])
next
  case MACH_PORT_DENAP_RECEIVER
  show ?thesis unfolding mach_port_set_attributes_def MACH_PORT_DENAP_RECEIVER mach_port_flavor_t.case
    by (intro call_step_if call_on_receive [OF ok sp] call_step_refl [OF ok] set_impdonation_step [OF ok])
qed (use f in \<open>simp_all add: mach_port_set_attributes_def call_step_refl [OF ok]\<close>)

end
