(* ===== verification/Mach_Alloc.thy ===== *)
theory Mach_Alloc
  imports Mach_Calls
begin

text \<open>
  New rights. A fresh entry of a space becomes a receive right to a new port, a port set or a dead name,
  and the rights of the kernel stay consistent. The address of a new object is one that no object has.
\<close>

section \<open>A fresh entry\<close>

text \<open>The space has a free entry, or its table grows without interference to a class that has room.\<close>

definition alloc_room :: "kenv \<Rightarrow> ipc_space \<Rightarrow> bool" where
  "alloc_room E sp \<longleftrightarrow> is_active sp \<and> (ipc_entries_hold sp 1 = Some KERN_SUCCESS \<or>
     \<not> is_growing sp \<and> can_grow (ipc_table_entries E) sp \<and> it_entries_alloc_ok E \<and> grow_others E = (\<lambda>k sp. sp)
     \<and> is_table_hashed sp + 1 \<le> its_size (ipc_table_entries E ! is_table_next sp) * 7 div 8)"

lemma rights_space_cong:
  assumes "ks_space s q = Some sp" "is_active sp" "is_active sp'" "ks_space s' = (ks_space s)(q \<mapsto> sp')"
    and "\<And>j. 0 < j \<Longrightarrow> j < length (is_table sp) \<Longrightarrow> entry_type (is_table sp) j \<noteq> MACH_PORT_TYPE_NONE \<Longrightarrow>
      j < length (is_table sp') \<and> vis (is_table sp' ! j) = vis (is_table sp ! j)"
    and "\<And>j. 0 < j \<Longrightarrow> j < length (is_table sp') \<Longrightarrow> entry_type (is_table sp') j \<noteq> MACH_PORT_TYPE_NONE \<Longrightarrow>
      j < length (is_table sp) \<and> entry_type (is_table sp) j \<noteq> MACH_PORT_TYPE_NONE"
  shows "rights s' = rights s"
proof
  fix x :: "ptr \<times> nat"
  obtain q' j where x: "x = (q', j)" by (cases x)
  show "rights s' x = rights s x"
  proof (cases "q' = q")
    case True
    have r: "rights s' x = (if 0 < j \<and> j < length (is_table sp') \<and> entry_type (is_table sp') j \<noteq> MACH_PORT_TYPE_NONE then Some (vis (is_table sp' ! j)) else None)"
      "rights s x = (if 0 < j \<and> j < length (is_table sp) \<and> entry_type (is_table sp) j \<noteq> MACH_PORT_TYPE_NONE then Some (vis (is_table sp ! j)) else None)"
      using x True assms(1-4) by (simp_all add: rights_def)
    have t: "entry_type (is_table sp') j = entry_type (is_table sp) j" if "vis (is_table sp' ! j) = vis (is_table sp ! j)"
      using that by (simp add: vis_def entry_type_def)
    show ?thesis unfolding r using assms(5) [of j] assms(6) [of j] t by metis
  qed (use x assms(4) in \<open>simp add: rights_def\<close>)
qed

lemma alloc_room_held:
  assumes ok: "spaces_ok s" and sp: "ks_space s q = Some sp" and rm: "alloc_room E sp"
  obtains sp1 i xs where "sp1 = sp \<or> (\<exists>kr. ipc_entries_hold sp 1 = Some kr \<and> kr \<noteq> KERN_SUCCESS)
      \<and> ipc_entry_grow_table (ipc_table_entries E) (it_entries_alloc_ok E) (grow_others E) None sp = Some (KERN_SUCCESS, sp1)"
    "ipc_entries_hold sp1 1 = Some KERN_SUCCESS"
    "space_ok sp1 (i # xs) {}" "is_active sp1" "rights (s\<lparr>ks_space := (ks_space s)(q \<mapsto> sp1)\<rparr>) = rights s"
proof (cases "ipc_entries_hold sp 1 = Some KERN_SUCCESS")
  case True
  have act: "is_active sp" using rm by (simp add: alloc_room_def)
  obtain xs where xs: "space_ok sp xs {}" using ok sp act by (auto simp: spaces_ok_def)
  then have "xs \<noteq> []" using True ipc_entries_hold_eq [OF xs [unfolded space_ok_def] act, of 1] by auto
  then obtain i ys where "xs = i # ys" by (cases xs) auto
  moreover have "rights (s\<lparr>ks_space := (ks_space s)(q \<mapsto> sp)\<rparr>) = rights s" by (rule rights_cong) (use sp in auto)
  ultimately show thesis using that [of sp] True xs act by blast
next
  case False
  note r = rm [unfolded alloc_room_def] False
  let ?its = "ipc_table_entries E"
  have act: "is_active sp" "\<not> is_growing sp" "can_grow ?its sp" "it_entries_alloc_ok E" "grow_others E = (\<lambda>k sp. sp)"
      "is_table_hashed sp + 1 \<le> its_size (?its ! is_table_next sp) * 7 div 8"
    using r by auto
  obtain xs where xs: "space_ok sp xs {}" using ok sp act(1) by (auto simp: spaces_ok_def)
  let ?n = "length (is_table sp)"
  obtain sp1 ys where g: "ipc_entry_grow_table ?its True (\<lambda>k s. s) None sp = Some (KERN_SUCCESS, sp1)"
      "space_ok sp1 (xs @ ?n # ys) {}" "set ys = {?n<..<its_size (?its ! is_table_next sp)}"
      "length (is_table sp1) = its_size (?its ! is_table_next sp)" "is_bits sp1 = is_bits sp" "is_table_hashed sp1 = is_table_hashed sp"
      "\<forall>j < ?n. j \<notin> set (0 # xs) \<longrightarrow> vis (is_table sp1 ! j) = vis (is_table sp ! j)"
    using ipc_entry_grow_table_ok [OF xs act(1-3)] by blast
  note inv = xs [unfolded space_ok_def] and inv1 = g(2) [unfolded space_ok_def]
  have act1: "is_active sp1" using act(1) g(5) by (simp add: is_active_def)
  obtain i zs where zs: "xs @ ?n # ys = i # zs" by (cases xs) auto
  have h: "ipc_entries_hold sp1 1 = Some KERN_SUCCESS"
    using ipc_entries_hold_eq [OF inv1 act1, of 1] act(6) g(4,6) space_invD(1) [OF inv1] by simp
  have c: "\<exists>kr. ipc_entries_hold sp 1 = Some kr \<and> kr \<noteq> KERN_SUCCESS" using False ipc_entries_hold_eq [OF inv act(1), of 1] by auto
  have le: "?n < length (is_table sp1)" using g(4) act(3) by (auto simp: can_grow_def Let_def)
  have "rights (s\<lparr>ks_space := (ks_space s)(q \<mapsto> sp1)\<rparr>) = rights s"
  proof (rule rights_space_cong [OF sp act(1) act1])
    fix j assume j: "0 < j" "j < ?n" "entry_type (is_table sp) j \<noteq> MACH_PORT_TYPE_NONE"
    then have "j \<notin> set xs" using space_inv_types [OF inv, of j] by blast
    then show "j < length (is_table sp1) \<and> vis (is_table sp1 ! j) = vis (is_table sp ! j)" using g(7) j(1,2) le by simp
  next
    fix j assume j: "0 < j" "j < length (is_table sp1)" "entry_type (is_table sp1) j \<noteq> MACH_PORT_TYPE_NONE"
    then have f: "j \<notin> set (xs @ ?n # ys)" using space_inv_types [OF inv1, of j] by blast
    then have "j < ?n" using g(3,4) j(2) by auto
    then show "j < ?n \<and> entry_type (is_table sp) j \<noteq> MACH_PORT_TYPE_NONE"
      using f space_invD(11) [OF inv j(1), of] by auto
  qed simp
  then show thesis using that [of sp1 i zs] c h g(1,2) zs act(4,5) act1 by simp
qed

text \<open>The bits of the entry after the type and the user references are added.\<close>

lemma ipc_entry_alloc_claim:
  assumes ok: "spaces_ok s" and sp: "ks_space s q = Some sp" and rm: "alloc_room E sp"
  obtains sp1 i xs where "ipc_entry_alloc (ipc_table_entries E) (it_entries_alloc_ok E) (grow_others E) sp = ipc_entry_claim sp1"
    "space_ok sp1 (i # xs) {}" "is_active sp1" "rights (s\<lparr>ks_space := (ks_space s)(q \<mapsto> sp1)\<rparr>) = rights s"
proof (rule alloc_room_held [OF assms], goal_cases)
  case (1 sp1 i xs)
  have act: "is_active sp" using rm by (simp add: alloc_room_def)
  have c: "ipc_entry_alloc (ipc_table_entries E) (it_entries_alloc_ok E) (grow_others E) sp1 = ipc_entry_claim sp1"
    using 1 by (subst ipc_entry_alloc.simps) simp
  then have "ipc_entry_alloc (ipc_table_entries E) (it_entries_alloc_ok E) (grow_others E) sp = ipc_entry_claim sp1"
    using 1 act by (cases "sp1 = sp") (simp, subst ipc_entry_alloc.simps, auto)
  then show thesis using that 1 by blast
qed

lemma new_bits:
  assumes "gen_only b" "type AND IE_BITS_TYPE_MASK = type" "urefs AND IE_BITS_UREFS_MASK = urefs"
  shows "IE_BITS_TYPE (b OR (type OR urefs)) = type" "IE_BITS_UREFS (b OR (type OR urefs)) = urefs"
    "IE_BITS_GEN (b OR (type OR urefs)) = IE_BITS_GEN b"
proof -
  have g: "b AND IE_BITS_TYPE_MASK = 0" "b AND IE_BITS_UREFS_MASK = 0"
    using gen_only_fields [OF assms(1)] by (simp_all add: IE_BITS_TYPE_def IE_BITS_UREFS_def MACH_PORT_TYPE_NONE_def)
  have m: "IE_BITS_TYPE_MASK AND IE_BITS_UREFS_MASK = 0" "IE_BITS_TYPE_MASK AND IE_BITS_GEN_MASK = 0" "IE_BITS_UREFS_MASK AND IE_BITS_TYPE_MASK = 0"
    "IE_BITS_UREFS_MASK AND IE_BITS_GEN_MASK = 0"
    by (simp_all add: ie_bits_masks)
  have t: "type AND IE_BITS_UREFS_MASK = 0" "type AND IE_BITS_GEN_MASK = 0" "urefs AND IE_BITS_TYPE_MASK = 0" "urefs AND IE_BITS_GEN_MASK = 0"
    using m by (metis and.assoc assms(2,3) bit.conj_zero_right)+
  show "IE_BITS_TYPE (b OR (type OR urefs)) = type" "IE_BITS_UREFS (b OR (type OR urefs)) = urefs"
    "IE_BITS_GEN (b OR (type OR urefs)) = IE_BITS_GEN b"
    by (simp_all only: IE_BITS_TYPE_def IE_BITS_UREFS_def IE_BITS_GEN_def bit.conj_disj_distrib2 g t assms(2,3) or.left_neutral or.right_neutral)
qed

lemma entry_alloc_ok:
  assumes ok: "spaces_ok s" and sp: "ks_space s q = Some sp" and rm: "alloc_room E sp"
    and t: "type AND IE_BITS_TYPE_MASK = type" "type \<noteq> MACH_PORT_TYPE_NONE" "type \<noteq> MACH_PORT_TYPE_SEND" and u: "urefs AND IE_BITS_UREFS_MASK = urefs"
  obtains name i b s1 e s2 s3 where "entry_alloc E q s = Some ((KERN_SUCCESS, name, i), s1)" "get_entry q i s1 = Some e" "ie_object e = IO_NULL"
    "set_entry q i (e\<lparr>ie_bits := ie_bits e OR (type OR urefs), ie_object := obj\<rparr>) s1 = Some s2" "entry_modified q name i s2 = Some s3"
    "spaces_ok s3" "rights s3 = (rights s)((q, i) \<mapsto> (obj, b, IE_REQ_NONE))" "rights s (q, i) = None" "named name i b"
    "IE_BITS_TYPE b = type" "IE_BITS_UREFS b = urefs" "MACH_PORT_VALID name"
    "ks_port s3 = ks_port s" "ks_pset s3 = ks_pset s" "ks_ith_assertions s3 = ks_ith_assertions s"
proof -
  obtain sp1 i xs where a: "ipc_entry_alloc (ipc_table_entries E) (it_entries_alloc_ok E) (grow_others E) sp = ipc_entry_claim sp1"
      "space_ok sp1 (i # xs) {}" "is_active sp1" "rights (s\<lparr>ks_space := (ks_space s)(q \<mapsto> sp1)\<rparr>) = rights s"
    using ipc_entry_alloc_claim [OF ok sp rm] .
  define S0 where "S0 = (ks_space s)(q \<mapsto> sp1)"
  note inv = a(2) [unfolded space_ok_def]
  have ok0: "spaces_ok (s\<lparr>ks_space := S0\<rparr>)" using ok a(2) sp by (auto simp: spaces_ok_def S0_def)
  obtain name sp2 where c: "ipc_entry_claim sp1 = Some ((KERN_SUCCESS, name, i), sp2)" "space_inv sp2 xs (insert i {}) (send_entries (is_table sp1))"
      "MACH_PORT_INDEX name = i" "MACH_PORT_VALID name" "space_frame {i} sp1 sp2"
      "ie_object (is_table sp2 ! i) = IO_NULL" "ie_request (is_table sp2 ! i) = IE_REQ_NONE"
      "gen_only (ie_bits (is_table sp2 ! i))" "IE_BITS_GEN (ie_bits (is_table sp2 ! i)) = MACH_PORT_GEN name"
    using ipc_entry_claim_ok [OF inv] by blast
  let ?e = "is_table sp2 ! i" let ?s1 = "s\<lparr>ks_space := S0(q \<mapsto> sp2)\<rparr>"
  let ?H = "sends_of S0 q" and ?e' = "?e\<lparr>ie_bits := ie_bits ?e OR (type OR urefs), ie_object := obj\<rparr>"
  have i: "0 < i" "i < length (is_table sp1)" "i \<notin> set xs" "entry_type (is_table sp1) i = MACH_PORT_TYPE_NONE"
    using space_inv_free(1,2) [OF inv, of i] space_invD(4) [OF inv] space_inv_types [OF inv, of i] by simp_all
  have H: "?H = send_entries (is_table sp1)" "i \<notin> ?H"
    using i(4) by (auto simp: sends_of_def S0_def send_entries_def MACH_PORT_TYPE_NONE_def MACH_PORT_TYPE_SEND_def MACH_PORT_TYPE_def)
  have act: "is_active sp2" "length (is_table sp2) = length (is_table sp1)"
    using space_frame_active [OF c(5)] a(3) c(5) by (simp_all add: space_frame_def)
  have at: "entry_at S0 q i ?e xs {i} ?H (ks_space ?s1)"
    unfolding entry_at_def using c(2,5) i act H(1) by (intro exI [of _ sp1] exI [of _ sp2]) (simp add: S0_def)
  note b = new_bits [OF c(8) t(1) u]
  obtain S2 where S2: "set_entry q i ?e' ?s1 = Some (?s1\<lparr>ks_space := S2\<rparr>)" "entry_at S0 q i ?e' xs {} ?H S2"
    using set_entry_at [OF at, of ?e' "{}"] H(2) b(1) t(2) by auto
  have at2: "entry_at S0 q i ?e' xs {} ?H (ks_space (?s1\<lparr>ks_space := S2\<rparr>))" using S2(2) by simp
  obtain S3 where S3: "entry_modified q name i (?s1\<lparr>ks_space := S2\<rparr>) = Some (?s1\<lparr>ks_space := S3\<rparr>)" "entry_at S0 q i ?e' xs {} ?H S3"
    using entry_modified_at [OF at2 c(3)] by auto
  have Hd: "?H = (sends_of (ks_space (s\<lparr>ks_space := S0\<rparr>)) q - {i}) \<union> (if IE_BITS_TYPE (ie_bits ?e') = MACH_PORT_TYPE_SEND then {i} else {})" using H(2) b(1) t(3) by simp
  have tn: "IE_BITS_TYPE (ie_bits ?e') \<noteq> MACH_PORT_TYPE_NONE" using b(1) t(2) by simp
  have at3: "entry_at (ks_space (s\<lparr>ks_space := S0\<rparr>)) q i ?e' xs {} ?H (ks_space (?s1\<lparr>ks_space := S3\<rparr>))" using S3(2) by simp
  have d: "spaces_ok (?s1\<lparr>ks_space := S3\<rparr>)" "rights (?s1\<lparr>ks_space := S3\<rparr>) = (rights (s\<lparr>ks_space := S0\<rparr>))((q, i) \<mapsto> vis ?e')"
    by (rule entry_done [OF ok0 at3 tn Hd])+
  have "entry_alloc E q s = Some ((KERN_SUCCESS, name, i), ?s1)"
    using sp a(1) c(1) by (simp add: entry_alloc_def put_space_def S0_def)
  moreover have "rights s (q, i) = None" using i(4) a(3) unfolding a(4) [symmetric] by (simp add: rights_def)
  moreover have "named name i (ie_bits ?e OR (type OR urefs))" using c(3,9) b(3) by (simp add: named_def)
  moreover have "get_entry q i ?s1 = Some ?e" by (rule get_entry_at [OF at])
  moreover have "vis ?e' = (obj, ie_bits ?e OR (type OR urefs), IE_REQ_NONE)" using c(7) by (simp add: vis_def)
  ultimately show thesis using that [OF _ _ c(6) S2(1) S3(1) d(1)] d(2) a(4) b(1,2) c(4) by (simp add: S0_def)
qed

section \<open>New objects\<close>

lemma cnt_absent:
  assumes "rights_inv E R P S" "P p = None"
  shows "cnt (is_send p) R = 0" "cnt (is_sonce p) R = 0" "cnt (is_ref p) R = 0" "R x = Some w \<Longrightarrow> \<not> on_port p w"
proof -
  have n: "\<not> on_port p w" if "R x = Some w" for x w using on_port_type [OF rights_inv_cases [OF assms(1) that], of p] assms(2) by force
  then show "R x = Some w \<Longrightarrow> \<not> on_port p w" .
  have nn: "\<not> is_send p v" "\<not> is_sonce p v" "\<not> is_ref p v" if "R x = Some v" for x v
    using n [OF that] port_rights_bits(1-3) [of "fst (snd v)"] unfolding is_send_def is_sonce_def is_ref_def on_port_def by blast+
  have "{x. \<exists>v. R x = Some v \<and> is_send p v} = {}" "{x. \<exists>v. R x = Some v \<and> is_sonce p v} = {}" "{x. \<exists>v. R x = Some v \<and> is_ref p v} = {}"
    using nn by blast+
  then show "cnt (is_send p) R = 0" "cnt (is_sonce p) R = 0" "cnt (is_ref p) R = 0" by (simp_all only: cnt_def card.empty)
qed

lemma rights_inv_new_port:
  assumes inv: "rights_inv E R P S" and x: "R x = None" and p: "P p = None" and t: "port_type b"
    and ok: "right_ok (P(p \<mapsto> port)) S x (p, b, IE_REQ_NONE)"
    and c: "one_if (is_send p) (Some (p, b, IE_REQ_NONE)) \<le> unat (ip_srights port)"
      "one_if (is_sonce p) (Some (p, b, IE_REQ_NONE)) \<le> unat (ip_sorights port)"
      "one_if (is_ref p) (Some (p, b, IE_REQ_NONE)) + of_bool (ip_active port) \<le> unat (ip_references port)"
    and d: "refs_ok (ip_references port)" "requests_inv E port" "destroyable E p port"
  shows "rights_inv E (R(x \<mapsto> (p, b, IE_REQ_NONE))) (P(p \<mapsto> port)) S"
proof (rule rights_inv_update [OF inv])
  have "y = x" if "(R(x \<mapsto> (p, b, IE_REQ_NONE))) y = Some (p, b', r)" "r \<noteq> IE_REQ_NONE" for y b' r
  proof (rule ccontr)
    assume y: "y \<noteq> x"
    then have R: "R y = Some (p, b', r)" using that(1) by simp
    have "right_ok P S y (p, b', r)" by (rule rights_inv_cases [OF inv R])
    then show False using p that(2) by (cases y) (auto simp: right_ok_def split: if_splits)
  qed
  then have "requests_inj (R(x \<mapsto> (p, b, IE_REQ_NONE))) p" unfolding requests_inj_def by metis
  moreover note cnt_upd [OF rights_invD(1) [OF inv], of _ x "Some (p, b, IE_REQ_NONE)"]
  ultimately show "port_ok E (R(x \<mapsto> (p, b, IE_REQ_NONE))) p port'" if "Some port = Some port'" for port'
    using that c d x cnt_absent(1-3) [OF inv p] by (simp add: port_ok_def one_if_def)
qed (use x ok t cnt_absent(4) [OF inv p] in \<open>auto simp: only_port_def port_type_def ie_bits\<close>)

lemma rights_inv_new_pset:
  assumes inv: "rights_inv E R P S" and x: "R x = None" and p: "S p = None" and t: "IE_BITS_TYPE b = MACH_PORT_TYPE_PORT_SET"
    and ok: "right_ok P (S(p \<mapsto> ps)) x (p, b, IE_REQ_NONE)" and d: "refs_ok (ips_references ps)"
  shows "rights_inv E (R(x \<mapsto> (p, b, IE_REQ_NONE))) P (S(p \<mapsto> ps))"
proof -
  let ?R = "R(x \<mapsto> (p, b, IE_REQ_NONE))"
  have np: "R y = Some (p, b', r) \<Longrightarrow> IE_BITS_TYPE b' \<noteq> MACH_PORT_TYPE_PORT_SET" for y b' r
    using rights_inv_cases [OF inv, of y "(p, b', r)"] p by (cases y) (auto simp: right_ok_def ie_bits split: if_splits)
  have "right_ok P (S(p \<mapsto> ps)) y w" if "?R y = Some w" for y w
  proof (cases "y = x")
    case False
    then have "R y = Some w" using that by simp
    then have "right_ok P S y w" "fst w = p \<Longrightarrow> IE_BITS_TYPE (fst (snd w)) \<noteq> MACH_PORT_TYPE_PORT_SET"
      using rights_inv_cases [OF inv] np by (cases w, auto)+
    then show ?thesis by (cases y; cases w) (auto simp: right_ok_def split: if_splits)
  qed (use that ok in simp)
  moreover have "port_ok E ?R q port" if "P q = Some port" for q port
  proof (rule port_ok_update [OF rights_invD(2) [OF inv that] rights_invD(1) [OF inv]])
    show "y = x" if "Some (p, b, IE_REQ_NONE) = Some (q, b', r)" "r \<noteq> IE_REQ_NONE" for b' r and y :: "ptr \<times> nat" using that by simp
  qed (use t x port_okD [OF rights_invD(2) [OF inv that]] in \<open>auto simp: one_if_def is_send_def is_sonce_def is_ref_def ie_bits\<close>)
  moreover have "psets_inj ?R"
    unfolding psets_inj_def
  proof (intro allI impI)
    fix y z obj b1 b2 r1 r2
    assume h: "?R y = Some (obj, b1, r1)" "?R z = Some (obj, b2, r2)" "IE_BITS_TYPE b1 = MACH_PORT_TYPE_PORT_SET" "IE_BITS_TYPE b2 = MACH_PORT_TYPE_PORT_SET"
    show "y = z"
      using h np [of y b1 r1] np [of z b2 r2] psets_injD [OF rights_invD(4) [OF inv], of y obj b1 r1 z b2 r2]
      by (cases "y = x"; cases "z = x") simp_all
  qed
  ultimately show ?thesis using inv d by (simp add: rights_inv_def)
qed

section \<open>Allocation of objects\<close>

text \<open>A new right of type \<open>type\<close> with \<open>urefs\<close> user references to \<open>obj\<close> under a name of the space that denoted nothing.\<close>

definition gains_right :: "kst \<Rightarrow> ptr \<Rightarrow> mach_port_name_t \<Rightarrow> ptr \<Rightarrow> 32 word \<Rightarrow> 32 word \<Rightarrow> kst \<Rightarrow> bool" where
  "gains_right s q name obj type urefs s' \<longleftrightarrow> MACH_PORT_VALID name \<and> rights s (q, MACH_PORT_INDEX name) = None
     \<and> (\<exists>b. rights s' = (rights s)((q, MACH_PORT_INDEX name) \<mapsto> (obj, b, IE_REQ_NONE)) \<and> named name (MACH_PORT_INDEX name) b
          \<and> IE_BITS_TYPE b = type \<and> IE_BITS_UREFS b = urefs)"

lemma gains_rightI:
  assumes "rights s' = (rights s)((q, i) \<mapsto> (obj, b, IE_REQ_NONE))" "rights s (q, i) = None" "named name i b" "IE_BITS_TYPE b = type" "IE_BITS_UREFS b = urefs"
    "MACH_PORT_VALID name"
  shows "gains_right s q name obj type urefs s'"
  using assms namedD(1) [OF assms(3)] by (auto simp: gains_right_def)

lemma type_masks:
  "MACH_PORT_TYPE_RECEIVE AND IE_BITS_TYPE_MASK = MACH_PORT_TYPE_RECEIVE" "(MACH_PORT_TYPE_RECEIVE OR MACH_PORT_TYPE_SEND) AND IE_BITS_TYPE_MASK = MACH_PORT_TYPE_SEND_RECEIVE"
  "MACH_PORT_TYPE_PORT_SET AND IE_BITS_TYPE_MASK = MACH_PORT_TYPE_PORT_SET" "MACH_PORT_TYPE_DEAD_NAME AND IE_BITS_TYPE_MASK = MACH_PORT_TYPE_DEAD_NAME"
  "(1 :: 32 word) AND IE_BITS_UREFS_MASK = 1" "MACH_PORT_TYPE_RECEIVE OR MACH_PORT_TYPE_SEND = MACH_PORT_TYPE_SEND_RECEIVE"
  "MACH_PORT_TYPE_RECEIVE AND MACH_PORT_TYPE_ALL_RIGHTS = MACH_PORT_TYPE_RECEIVE" "MACH_PORT_TYPE_SEND_RECEIVE AND MACH_PORT_TYPE_ALL_RIGHTS = MACH_PORT_TYPE_SEND_RECEIVE"
  "MACH_PORT_TYPE_PORT_SET AND MACH_PORT_TYPE_ALL_RIGHTS = MACH_PORT_TYPE_PORT_SET"
  by (simp_all add: ie_bits_defs ie_bits_masks)

lemma ipc_object_alloc_dead_ok:
  assumes ok: "rights_ok E s" and sp: "ks_space s q = Some sp" and rm: "alloc_room E sp"
  obtains name s' where "ipc_object_alloc_dead E q s = Some ((KERN_SUCCESS, name), s')" "rights_ok E s'"
    "gains_right s q name IO_NULL MACH_PORT_TYPE_DEAD_NAME 1 s'"
proof -
  note inv = rights_okD(3) [OF ok]
  have t: "MACH_PORT_TYPE_DEAD_NAME \<noteq> MACH_PORT_TYPE_NONE" "MACH_PORT_TYPE_DEAD_NAME \<noteq> MACH_PORT_TYPE_SEND" by (simp_all add: ie_bits_defs)
  obtain name i b s1 e s2 s3 where a: "entry_alloc E q s = Some ((KERN_SUCCESS, name, i), s1)" "get_entry q i s1 = Some e" "ie_object e = IO_NULL"
      "set_entry q i (e\<lparr>ie_bits := ie_bits e OR (MACH_PORT_TYPE_DEAD_NAME OR 1), ie_object := IO_NULL\<rparr>) s1 = Some s2" "entry_modified q name i s2 = Some s3"
      "spaces_ok s3" "rights s3 = (rights s)((q, i) \<mapsto> (IO_NULL, b, IE_REQ_NONE))" "rights s (q, i) = None" "named name i b"
      "IE_BITS_TYPE b = MACH_PORT_TYPE_DEAD_NAME" "IE_BITS_UREFS b = 1" "MACH_PORT_VALID name"
      "ks_port s3 = ks_port s" "ks_pset s3 = ks_pset s" "ks_ith_assertions s3 = ks_ith_assertions s"
    using entry_alloc_ok [OF rights_okD(1) [OF ok] sp rm type_masks(4) t type_masks(5), where obj = IO_NULL] .
  have e: "e\<lparr>ie_bits := w, ie_object := IO_NULL\<rparr> = e\<lparr>ie_bits := w\<rparr>" for w using a(3) by (cases e) simp
  have "ipc_object_alloc_dead E q s = Some ((KERN_SUCCESS, name), s3)" using a(1-5) by (simp add: ipc_object_alloc_dead_def e)
  moreover have "right_ok (ks_port s) (ks_pset s) (q, i) (IO_NULL, b, IE_REQ_NONE)"
    using a(10,11) namedD(1) [OF a(9)] MACH_PORT_INDEX_less [of name] space_nonnull [OF ok sp] by (auto simp: right_ok_def)
  then have "rights_inv E (rights s3) (ks_port s3) (ks_pset s3)"
    unfolding a(7,13,14)
    by (intro rights_inv_nonport [OF inv, where p = IP_NULL])
      (use a(8,10) in \<open>auto simp: only_port_def one_if_def is_send_def is_sonce_def is_ref_def ie_bits\<close>)
  then have "rights_ok E s3" using a(6,15) rights_okD(2) [OF ok] by (simp add: rights_ok_def)
  ultimately show thesis using that gains_rightI [OF a(7-12)] by blast
qed

lemma ipc_object_alloc_ok:
  assumes ok: "rights_ok E s" and sp: "ks_space s q = Some sp" and rm: "alloc_room E sp" and obj: "obj \<noteq> IO_NULL"
    and t: "type AND IE_BITS_TYPE_MASK = type" "type \<noteq> MACH_PORT_TYPE_NONE" "type \<noteq> MACH_PORT_TYPE_SEND" "type AND MACH_PORT_TYPE_ALL_RIGHTS = type"
    and u: "urefs AND IE_BITS_UREFS_MASK = urefs" "urefs \<le> MACH_PORT_UREFS_MAX" and o: "otype = IOT_PORT \<or> otype = IOT_PORT_SET"
  obtains name s3 b where "ipc_object_alloc E obj q otype type urefs s = Some ((KERN_SUCCESS, name, obj), put_object otype obj s3)"
    "spaces_ok s3" "rights s3 = (rights s)((q, MACH_PORT_INDEX name) \<mapsto> (obj, b, IE_REQ_NONE))" "rights s (q, MACH_PORT_INDEX name) = None"
    "named name (MACH_PORT_INDEX name) b" "IE_BITS_TYPE b = type" "IE_BITS_UREFS b = urefs" "MACH_PORT_VALID name"
    "ks_port s3 = ks_port s" "ks_pset s3 = ks_pset s" "ks_ith_assertions s3 = ks_ith_assertions s"
proof -
  obtain name i b s1 e s2 s3 where a: "entry_alloc E q s = Some ((KERN_SUCCESS, name, i), s1)" "get_entry q i s1 = Some e" "ie_object e = IO_NULL"
      "set_entry q i (e\<lparr>ie_bits := ie_bits e OR (type OR urefs), ie_object := obj\<rparr>) s1 = Some s2" "entry_modified q name i s2 = Some s3"
      "spaces_ok s3" "rights s3 = (rights s)((q, i) \<mapsto> (obj, b, IE_REQ_NONE))" "rights s (q, i) = None" "named name i b"
      "IE_BITS_TYPE b = type" "IE_BITS_UREFS b = urefs" "MACH_PORT_VALID name"
      "ks_port s3 = ks_port s" "ks_pset s3 = ks_pset s" "ks_ith_assertions s3 = ks_ith_assertions s"
    using entry_alloc_ok [OF rights_okD(1) [OF ok] sp rm t(1-3) u(1), where obj = obj] .
  have "ipc_object_alloc E obj q otype type urefs s = Some ((KERN_SUCCESS, name, obj), put_object otype obj s3)"
    using a(1-5) obj t(2,4) u(2) o by (auto simp: ipc_object_alloc_def)
  then show thesis using that [of name s3 b] a(6-15) namedD(1) [OF a(9)] by simp
qed

lemma new_port_right:
  fixes b :: "32 word"
  defines "z \<equiv> zero_port\<lparr>ip_io_bits := io_makebits True IOT_PORT 0, ip_references := 1\<rparr>"
  assumes n: "named name i b" and t: "(IE_BITS_TYPE b, IE_BITS_UREFS b) = port_alloc_type flags"
  shows "port_right_ok (ipc_port_init z q flags name) q i b IE_REQ_NONE" "ip_active (ipc_port_init z q flags name)"
    "destroyable E p (ipc_port_init z q flags name)" "requests_inv E (ipc_port_init z q flags name)"
    "ip_references (ipc_port_init z q flags name) = 1" "ip_srights (ipc_port_init z q flags name) = of_bool (b AND MACH_PORT_TYPE_SEND \<noteq> 0)"
    "b AND MACH_PORT_TYPE_RECEIVE \<noteq> 0" "b AND MACH_PORT_TYPE_SEND_ONCE = 0" "port_type b"
proof -
  have ty: "IE_BITS_TYPE b = (if flags AND IPC_PORT_INIT_MAKE_SEND_RIGHT \<noteq> 0 then MACH_PORT_TYPE_SEND_RECEIVE else MACH_PORT_TYPE_RECEIVE)"
    "IE_BITS_UREFS b = of_bool (flags AND IPC_PORT_INIT_MAKE_SEND_RIGHT \<noteq> 0)"
    using t by (auto simp: port_alloc_type_def type_masks(6) split: if_splits)
  show bits: "b AND MACH_PORT_TYPE_RECEIVE \<noteq> 0" "b AND MACH_PORT_TYPE_SEND_ONCE = 0" "port_type b"
    using ty(1) by (auto simp: port_type_def ie_bits split: if_splits)
  have sd: "b AND MACH_PORT_TYPE_SEND \<noteq> 0 \<longleftrightarrow> flags AND IPC_PORT_INIT_MAKE_SEND_RIGHT \<noteq> 0" using ty(1) by (auto simp: ie_bits split: if_splits)
  let ?p = "ipc_port_init z q flags name"
  have f: "ip_io_bits ?p \<in> {io_makebits True IOT_PORT 0, io_makebits True IOT_PORT 0 OR IP_BIT_FILTER_MSG}" "ip_data ?p = q" "ip_receiver_name ?p = name"
      "ip_requests ?p = None" "ip_pdrequest ?p = 0" "\<not> ip_tempowner ?p" "ip_kdata ?p = 0"
    by (simp_all add: ipc_port_init_def Let_def z_def zero_port_def)
  show "ip_references ?p = 1" "ip_srights ?p = of_bool (b AND MACH_PORT_TYPE_SEND \<noteq> 0)"
    using sd by (auto simp: ipc_port_init_def Let_def z_def zero_port_def)
  have io: "io_otype (ip_io_bits ?p) = IOT_PORT" "io_active (ip_io_bits ?p)" "ip_io_bits ?p AND IP_BIT_PREALLOC = 0"
    using f(1) by (auto simp: io_otype_def io_active_def io_makebits_def IOT_PORT_def IO_BITS_OTYPE_def IO_BITS_ACTIVE_def IP_BIT_FILTER_MSG_def IP_BIT_PREALLOC_def)
  then show "ip_active ?p" "destroyable E p ?p" "requests_inv E ?p"
    using f(4-7) by (simp_all add: ip_active_def destroyable_def IP_PREALLOC_def IP_NULL_def requests_inv_def)
  show "port_right_ok ?p q i b IE_REQ_NONE"
    using io bits f(2,3) namedD(3) [OF n] ty sd by (auto simp: port_right_ok_def ip_active_def split: if_splits simp: ie_bits)
qed

lemma ipc_port_alloc_ok:
  assumes ok: "rights_ok E s" and sp: "ks_space s q = Some sp" and rm: "alloc_room E sp" and obj: "IP_VALID obj" "ks_port s obj = None"
  obtains name s' where "ipc_port_alloc E obj q flags s = Some ((KERN_SUCCESS, name, obj), s')" "rights_ok E s'"
    "gains_right s q name obj (fst (port_alloc_type flags)) (snd (port_alloc_type flags)) s'"
    "ks_port s' = (ks_port s)(obj \<mapsto> ipc_port_init (zero_port\<lparr>ip_io_bits := io_makebits True IOT_PORT 0, ip_references := 1\<rparr>) q flags name)"
    "ks_pset s' = ks_pset s"
proof -
  note inv = rights_okD(3) [OF ok]
  let ?t = "fst (port_alloc_type flags)" and ?u = "snd (port_alloc_type flags)"
  have tu: "?t AND IE_BITS_TYPE_MASK = ?t" "?t \<noteq> MACH_PORT_TYPE_NONE" "?t \<noteq> MACH_PORT_TYPE_SEND" "?t AND MACH_PORT_TYPE_ALL_RIGHTS = ?t"
      "?u AND IE_BITS_UREFS_MASK = ?u" "?u \<le> MACH_PORT_UREFS_MAX"
    by (auto simp: port_alloc_type_def ie_bits_defs ie_bits_masks MACH_PORT_UREFS_MAX_def)
  have ob: "obj \<noteq> IO_NULL" using obj(1) by (simp add: IP_VALID_def IP_NULL_def IO_NULL_def)
  obtain name s3 b where a: "ipc_object_alloc E obj q IOT_PORT ?t ?u s = Some ((KERN_SUCCESS, name, obj), put_object IOT_PORT obj s3)"
      "spaces_ok s3" "rights s3 = (rights s)((q, MACH_PORT_INDEX name) \<mapsto> (obj, b, IE_REQ_NONE))" "rights s (q, MACH_PORT_INDEX name) = None"
      "named name (MACH_PORT_INDEX name) b" "IE_BITS_TYPE b = ?t" "IE_BITS_UREFS b = ?u" "MACH_PORT_VALID name"
      "ks_port s3 = ks_port s" "ks_pset s3 = ks_pset s" "ks_ith_assertions s3 = ks_ith_assertions s"
    using ipc_object_alloc_ok [OF ok sp rm ob tu(1-6)] by (metis disjI1)
  let ?z = "zero_port\<lparr>ip_io_bits := io_makebits True IOT_PORT 0, ip_references := 1\<rparr>"
  let ?p = "ipc_port_init ?z q flags name" and ?s = "put_port (put_object IOT_PORT obj s3) obj (ipc_port_init ?z q flags name)"
  have ks: "ks_port ?s = (ks_port s)(obj \<mapsto> ?p)" "ks_space ?s = ks_space s3" "ks_pset ?s = ks_pset s" "ks_ith_assertions ?s = ks_ith_assertions s"
    using a(9-11) by (simp_all add: put_object_def put_port_def)
  have R: "rights ?s = rights s3" by (rule rights_cong) (rule ks(2))
  have tt: "(IE_BITS_TYPE b, IE_BITS_UREFS b) = port_alloc_type flags" using a(6,7) by simp
  note new = new_port_right(1,2,5,6) [OF a(5) tt, where q = q] new_port_right(7-9) [OF a(5) tt]
    new_port_right(3) [OF a(5) tt, where q = q and E = E and p = obj] new_port_right(4) [OF a(5) tt, where q = q and E = E]
  have "ipc_port_alloc E obj q flags s = Some ((KERN_SUCCESS, name, obj), ?s)"
    using a(1) by (simp add: ipc_port_alloc_def case_prod_beta put_object_def)
  moreover have "rights_inv E (rights ?s) (ks_port ?s) (ks_pset ?s)"
    unfolding R a(3) ks
  proof (rule rights_inv_new_port [OF inv a(4) obj(2)])
    show "right_ok ((ks_port s)(obj \<mapsto> ?p)) (ks_pset s) (q, MACH_PORT_INDEX name) (obj, b, IE_REQ_NONE)"
      using new obj(1) space_nonnull [OF ok sp] MACH_PORT_INDEX_less [of name] by (intro right_ok_portI) auto
  qed (use new in \<open>auto simp: one_if_def is_send_def is_sonce_def is_ref_def refs_ok_def IO_MAX_REFERENCES_def\<close>)
  then have "rights_ok E ?s"
    using a(2) spaces_ok_cong [OF ks(2)] ks(4) rights_okD(2) [OF ok] by (simp add: rights_ok_def)
  moreover have "gains_right s q name obj ?t ?u ?s"
    by (rule gains_rightI [OF _ a(4-8)]) (simp add: R a(3))
  ultimately show thesis using that ks(1,3) by blast
qed

lemma ipc_pset_alloc_ok:
  assumes ok: "rights_ok E s" and sp: "ks_space s q = Some sp" and rm: "alloc_room E sp" and obj: "obj \<noteq> IO_NULL" "ks_pset s obj = None"
  obtains name s' where "ipc_pset_alloc E obj q s = Some ((KERN_SUCCESS, name, obj), s')" "rights_ok E s'"
    "gains_right s q name obj MACH_PORT_TYPE_PORT_SET 0 s'" "ks_port s' = ks_port s"
proof -
  note inv = rights_okD(3) [OF ok]
  have t: "MACH_PORT_TYPE_PORT_SET \<noteq> MACH_PORT_TYPE_NONE" "MACH_PORT_TYPE_PORT_SET \<noteq> MACH_PORT_TYPE_SEND" by (simp_all add: ie_bits_defs)
  have u: "(0 :: 32 word) AND IE_BITS_UREFS_MASK = 0" "0 \<le> MACH_PORT_UREFS_MAX" by simp_all
  obtain name s3 b where a: "ipc_object_alloc E obj q IOT_PORT_SET MACH_PORT_TYPE_PORT_SET 0 s = Some ((KERN_SUCCESS, name, obj), put_object IOT_PORT_SET obj s3)"
      "spaces_ok s3" "rights s3 = (rights s)((q, MACH_PORT_INDEX name) \<mapsto> (obj, b, IE_REQ_NONE))" "rights s (q, MACH_PORT_INDEX name) = None"
      "named name (MACH_PORT_INDEX name) b" "IE_BITS_TYPE b = MACH_PORT_TYPE_PORT_SET" "IE_BITS_UREFS b = 0" "MACH_PORT_VALID name"
      "ks_port s3 = ks_port s" "ks_pset s3 = ks_pset s" "ks_ith_assertions s3 = ks_ith_assertions s"
    using ipc_object_alloc_ok [OF ok sp rm obj(1) type_masks(3) t type_masks(9) u] by (metis disjI2)
  let ?ps = "\<lparr>ips_bits = io_makebits True IOT_PORT_SET 0, ips_references = 1\<rparr>" and ?s = "put_object IOT_PORT_SET obj s3"
  have ks: "ks_pset ?s = (ks_pset s)(obj \<mapsto> ?ps)" "ks_space ?s = ks_space s3" "ks_port ?s = ks_port s" "ks_ith_assertions ?s = ks_ith_assertions s"
    using a(9-11) by (simp_all add: put_object_def put_pset_def IOT_PORT_def IOT_PORT_SET_def)
  have R: "rights ?s = rights s3" by (rule rights_cong) (rule ks(2))
  have act: "ips_active ?ps" by (simp add: ips_active_def io_active_def io_makebits_def IOT_PORT_SET_def IO_BITS_ACTIVE_def)
  have "rights_inv E (rights ?s) (ks_port ?s) (ks_pset ?s)"
    unfolding R a(3) ks
    by (rule rights_inv_new_pset [OF inv a(4) obj(2) a(6)])
      (use a(6,7) obj(1) act space_nonnull [OF ok sp] MACH_PORT_INDEX_less [of name] in
        \<open>auto simp: right_ok_def refs_ok_def IO_MAX_REFERENCES_def ie_bits\<close>)
  then have "rights_ok E ?s"
    using a(2) spaces_ok_cong [OF ks(2)] ks(4) rights_okD(2) [OF ok] by (simp add: rights_ok_def)
  moreover have "gains_right s q name obj MACH_PORT_TYPE_PORT_SET 0 ?s"
    by (rule gains_rightI [OF _ a(4-8)]) (simp add: R a(3))
  ultimately show thesis using that a(1) ks(3) by (simp add: ipc_pset_alloc_def)
qed

end
