(* ===== verification/Mach_Construct.thy ===== *)
theory Mach_Construct
  imports Mach_Alloc
begin

text \<open>
  The calls that create rights: \<open>mach_port_allocate\<close> gives the space exactly one new right of the kind asked for,
  and \<open>mach_port_construct\<close> gives it a receive right that is set up as the options say, or, when a setting is
  refused, takes it back.
\<close>

section \<open>mach\_port\_allocate\<close>

definition allocatable :: "mach_port_right_t \<Rightarrow> bool" where
  "allocatable right \<longleftrightarrow> right = MACH_PORT_RIGHT_RECEIVE \<or> right = MACH_PORT_RIGHT_PORT_SET \<or> right = MACH_PORT_RIGHT_DEAD_NAME"

definition fresh_object :: "ptr \<Rightarrow> kst \<Rightarrow> bool" where
  "fresh_object obj s \<longleftrightarrow> IP_VALID obj \<and> ks_port s obj = None \<and> ks_pset s obj = None"

lemma fresh_objectD:
  assumes "fresh_object obj s"
  shows "IP_VALID obj" "ks_port s obj = None" "ks_pset s obj = None" "obj \<noteq> IO_NULL"
  using assms by (auto simp: fresh_object_def IP_VALID_def IP_NULL_def IO_NULL_def)

lemma mach_port_allocate_ok:
  assumes ok: "rights_ok E s" and sp: "ks_space s q = Some sp" and rm: "alloc_room E sp" and obj: "fresh_object obj s"
    and r: "allocatable right"
  obtains new s' where "mach_port_allocate E obj q right name s = Some ((KERN_SUCCESS, new), s')" "rights_ok E s'"
    "gains_right s q new (if right = MACH_PORT_RIGHT_DEAD_NAME then IO_NULL else obj) (MACH_PORT_TYPE right)
       (of_bool (right = MACH_PORT_RIGHT_DEAD_NAME)) s'"
proof -
  note o = fresh_objectD [OF obj]
  have q: "q \<noteq> 0" using space_nonnull [OF ok sp] .
  note d = mach_port_allocate_def mach_port_allocate_full_def mach_port_allocate_internal_def qos_template_def q
    allocate_receive_def allocate_prealloc_def allocate_port_set_def
  consider "right = MACH_PORT_RIGHT_RECEIVE" | "right = MACH_PORT_RIGHT_PORT_SET" | "right = MACH_PORT_RIGHT_DEAD_NAME"
    using r by (auto simp: allocatable_def)
  then show thesis
  proof cases
    case 1
    have t: "port_alloc_type IPC_PORT_INIT_MESSAGE_QUEUE = (MACH_PORT_TYPE_RECEIVE, 0)"
      by (simp add: port_alloc_type_def IPC_PORT_INIT_MESSAGE_QUEUE_def IPC_PORT_INIT_MAKE_SEND_RIGHT_def)
    obtain new s' where "ipc_port_alloc E obj q IPC_PORT_INIT_MESSAGE_QUEUE s = Some ((KERN_SUCCESS, new, obj), s')" "rights_ok E s'"
        "gains_right s q new obj MACH_PORT_TYPE_RECEIVE 0 s'"
      using ipc_port_alloc_ok [OF ok sp rm o(1,2), of IPC_PORT_INIT_MESSAGE_QUEUE] unfolding t by (metis fst_conv snd_conv)
    then show thesis using 1 by (intro that [of new s']) (simp_all add: d MACH_PORT_TYPE_RECEIVE_def)
  next
    case 2
    obtain new s' where "ipc_pset_alloc E obj q s = Some ((KERN_SUCCESS, new, obj), s')" "rights_ok E s'"
        "gains_right s q new obj MACH_PORT_TYPE_PORT_SET 0 s'"
      using ipc_pset_alloc_ok [OF ok sp rm o(4,3)] by metis
    then show thesis using 2 by (intro that [of new s']) (simp_all add: d MACH_PORT_TYPE_PORT_SET_def)
  next
    case 3
    obtain new s' where "ipc_object_alloc_dead E q s = Some ((KERN_SUCCESS, new), s')" "rights_ok E s'"
        "gains_right s q new IO_NULL MACH_PORT_TYPE_DEAD_NAME 1 s'"
      using ipc_object_alloc_dead_ok [OF ok sp rm] by metis
    then show thesis using 3 by (intro that [of new s']) (simp_all add: d MACH_PORT_TYPE_DEAD_NAME_def)
  qed
qed

section \<open>mach\_port\_construct\<close>

text \<open>The state while the port is set up: the space holds the receive right, the port is ordinary, and its guard and context are set.\<close>

definition setting_up :: "kenv \<Rightarrow> ptr \<Rightarrow> mach_port_name_t \<Rightarrow> ptr \<Rightarrow> 32 word \<Rightarrow> bool \<Rightarrow> 64 word \<Rightarrow> kst \<Rightarrow> bool" where
  "setting_up E q name p b g c s \<longleftrightarrow> rights_ok E s \<and> q \<in> dom (ks_space s) \<and> MACH_PORT_VALID name
     \<and> rights s (q, MACH_PORT_INDEX name) = Some (p, b, IE_REQ_NONE) \<and> named name (MACH_PORT_INDEX name) b \<and> b AND MACH_PORT_TYPE_RECEIVE \<noteq> 0
     \<and> (\<exists>port. ks_port s p = Some port \<and> \<not> io_is_kobject (ip_io_bits port) \<and> \<not> ip_specialreply port \<and> ip_guarded port = g \<and> ip_context port = c)"

lemma setting_up_translate:
  assumes "setting_up E q name p b g c s"
  shows "ipc_port_translate_receive q name s = Some (KERN_SUCCESS, p)"
proof -
  obtain sp where ok: "rights_ok E s" and sp: "ks_space s q = Some sp" and x: "rights s (q, MACH_PORT_INDEX name) = Some (p, b, IE_REQ_NONE)"
      "named name (MACH_PORT_INDEX name) b" "b AND MACH_PORT_TYPE_RECEIVE \<noteq> 0"
    using assms by (auto simp: setting_up_def)
  from ok sp show ?thesis
  proof (cases rule: translate_receive [where name = name])
    case failed
    then show ?thesis using x by blast
  next
    case (receive i p' b' r port)
    then show ?thesis using x(1) namedD(1) [OF receive(3)] by simp
  qed
qed

lemma setting_up_put:
  assumes s: "setting_up E q name p b g c s" and p: "ks_port s p = Some port" and same: "same_rights E p port port'"
    and k: "ip_specialreply port' = ip_specialreply port" "ip_guarded port' = ip_guarded port" "ip_context port' = ip_context port"
    and f: "ks_space s' = ks_space s" "ks_port s' = (ks_port s)(p \<mapsto> port')" "ks_pset s' = ks_pset s" "ks_ith_assertions s' = ks_ith_assertions s"
  shows "setting_up E q name p b g c s' \<and> rights s' = rights s"
proof -
  have ok: "rights_ok E s" using s by (simp add: setting_up_def)
  have "rights_ok E s'"
    using rights_ok_log(1) [OF same_rights_ok(1) [OF ok p same], of s'] f by (simp add: put_port_def)
  moreover have "rights s' = rights s" using f(1) by (rule rights_cong)
  moreover have "ip_io_bits port' = ip_io_bits port" using same by (simp add: same_rights_def)
  ultimately show ?thesis using s p k f by (simp add: setting_up_def)
qed

lemma set_limits_ok:
  assumes s: "setting_up E q name p b g c s" and l: "qlimit \<le> MACH_PORT_QLIMIT_MAX"
  shows "\<exists>s'. ipc_mqueue_set_qlimit E p qlimit s = Some s' \<and> setting_up E q name p b g c s' \<and> rights s' = rights s"
proof -
  obtain port where p: "ks_port s p = Some port" using s by (auto simp: setting_up_def)
  let ?l = "ucast (ip_qlimit port) < qlimit"
  have "\<exists>m s1. ipc_mqueue_set_qlimit E p qlimit s = Some (put_port s1 p (port\<lparr>ip_msgcount := m, ip_qlimit := ucast qlimit\<rparr>))
      \<and> ks_space s1 = ks_space s \<and> ks_port s1 = ks_port s \<and> ks_pset s1 = ks_pset s \<and> ks_ith_assertions s1 = ks_ith_assertions s"
  proof (cases ?l)
    case True
    then show ?thesis using p l unfolding ipc_mqueue_set_qlimit_def by (simp add: Let_def) (rule exI, rule exI, rule conjI, rule refl, simp)
  next
    case False
    then show ?thesis using p l unfolding ipc_mqueue_set_qlimit_def
      by (intro exI [of _ "ip_msgcount port"] exI [of _ s]) (cases port, simp add: Let_def)
  qed
  then obtain m s1 where "ipc_mqueue_set_qlimit E p qlimit s = Some (put_port s1 p (port\<lparr>ip_msgcount := m, ip_qlimit := ucast qlimit\<rparr>))"
      "ks_space s1 = ks_space s" "ks_port s1 = ks_port s" "ks_pset s1 = ks_pset s" "ks_ith_assertions s1 = ks_ith_assertions s"
    by blast
  then show ?thesis
    using setting_up_put [OF s p, of "port\<lparr>ip_msgcount := m, ip_qlimit := ucast qlimit\<rparr>"] by (simp add: same_rights_simps put_port_def)
qed

lemma set_impdonation_ok:
  assumes s: "setting_up E q name p b g c s"
  shows "\<exists>s'. set_impdonation p s = Some (KERN_SUCCESS, s') \<and> setting_up E q name p b g c s' \<and> rights s' = rights s"
proof -
  obtain port where p: "ks_port s p = Some port" "\<not> io_is_kobject (ip_io_bits port)" "\<not> ip_specialreply port"
    using s by (auto simp: setting_up_def)
  then show ?thesis
    using setting_up_put [OF s p(1), of "port\<lparr>ip_impdonation := True\<rparr>"] by (simp add: set_impdonation_def same_rights_simps put_port_def)
qed

lemma set_tempowner_ok:
  assumes s: "setting_up E q name p b g c s"
  shows "\<exists>s'. set_tempowner E p s = Some (KERN_SUCCESS, s') \<and> setting_up E q name p b g c s' \<and> rights s' = rights s"
proof -
  obtain port where p: "ks_port s p = Some port" "\<not> io_is_kobject (ip_io_bits port)" "\<not> ip_specialreply port" and ok: "rights_ok E s"
    using s by (auto simp: setting_up_def)
  have d: "ip_tempowner port \<Longrightarrow> ip_imp_task port \<noteq> 0 \<Longrightarrow> imp_task_is_any_receiver_type E (ip_imp_task port)"
    using port_okD(3) [OF rights_invD(2) [OF rights_okD(3) [OF ok] p(1)]] by (simp add: destroyable_def)
  let ?k = "if ip_tempowner port \<and> ip_imp_task port \<noteq> 0 then 0 else ip_kdata port"
  let ?p = "port\<lparr>ip_kdata := ?k, ip_impdonation := True, ip_tempowner := True\<rparr>"
  have id: "port\<lparr>ip_kdata := ip_kdata port\<rparr> = port" "ip_imp_task port = 0 \<Longrightarrow> port\<lparr>ip_kdata := 0\<rparr> = port"
    by (cases port, simp)+
  have same: "same_rights E p port ?p" using p(2,3) by (auto simp: same_rights_simps)
  have "\<exists>s'. set_tempowner E p s = Some (KERN_SUCCESS, s') \<and> ks_space s' = ks_space s \<and> ks_port s' = (ks_port s)(p \<mapsto> ?p)
      \<and> ks_pset s' = ks_pset s \<and> ks_ith_assertions s' = ks_ith_assertions s"
    using p d by (cases "ip_tempowner port \<and> ip_imp_task port \<noteq> 0"; cases "ip_tempowner port")
      (simp_all add: set_tempowner_def Let_def put_port_def klog_def id)
  then show ?thesis using setting_up_put [OF s p(1) same] by (auto simp del: fun_upd_apply)
qed

text \<open>The only attribute that the options can ask for and that is refused is a queue limit that is too large.\<close>

definition refused :: "mach_port_flavor_t \<times> 32 word \<times> nat \<Rightarrow> bool" where
  "refused a \<longleftrightarrow> fst a = MACH_PORT_LIMITS_INFO \<and> MACH_PORT_QLIMIT_MAX < fst (snd a)"

definition optional :: "mach_port_flavor_t \<times> 32 word \<times> nat \<Rightarrow> bool" where
  "optional a \<longleftrightarrow> fst a = MACH_PORT_LIMITS_INFO \<and> snd (snd a) = 1
     \<or> fst a \<in> {MACH_PORT_TEMPOWNER, MACH_PORT_IMPORTANCE_RECEIVER, MACH_PORT_DENAP_RECEIVER}"

lemma construct_set_ok:
  assumes "setting_up E q name p b g c s" and "\<forall>a \<in> set as. optional a"
  shows "\<exists>s'. construct_set E alone k q name as s = Some (if \<exists>a \<in> set as. refused a then KERN_INVALID_VALUE else KERN_SUCCESS, s')
    \<and> setting_up E q name p b g c s' \<and> rights s' = rights s"
  using assms
proof (induction as arbitrary: k s)
  case Nil
  then show ?case by simp
next
  case (Cons a as)
  obtain flavor info n where a: "a = (flavor, info, n)" by (cases a)
  note s = Cons.prems(1) and tr = setting_up_translate [OF Cons.prems(1)]
  have v: "q \<noteq> 0" "MACH_PORT_VALID name" using s space_nonnull by (auto simp: setting_up_def)
  show ?case
  proof (cases "refused a")
    case True
    then show ?thesis using a v s Cons.prems(2) by (auto simp: refused_def optional_def mach_port_set_attributes_def MACH_PORT_LIMITS_INFO_COUNT_def)
  next
    case False
    have "\<exists>s1. mach_port_set_attributes E (\<lambda>s. s) q name flavor info n s = Some (KERN_SUCCESS, s1) \<and> setting_up E q name p b g c s1 \<and> rights s1 = rights s"
      using Cons.prems(2) a False v tr set_limits_ok [OF s, of info] set_impdonation_ok [OF s] set_tempowner_ok [OF s]
      by (auto simp: refused_def optional_def mach_port_set_attributes_def MACH_PORT_LIMITS_INFO_COUNT_def not_less)
    then obtain s1 where s1: "mach_port_set_attributes E (\<lambda>s. s) q name flavor info n s = Some (KERN_SUCCESS, s1)"
        "setting_up E q name p b g c s1" "rights s1 = rights s" by blast
    then show ?thesis using Cons.IH [OF s1(2)] Cons.prems(2) a False by auto
  qed
qed

text \<open>Destructing a port whose receive right stands alone, or goes with its last send reference, leaves nothing behind.\<close>

lemma destruct_receive_gone:
  assumes ok: "rights_ok E s" and x: "rights s (q, i) = Some (p, b, r)" and n: "named name i b" and t: "IE_BITS_TYPE b = MACH_PORT_TYPE_RECEIVE"
    and e: "get_entry q i s = Some e" "ie_bits e = b"
  shows "\<exists>s'. destruct_receive E q name i p ns s = Some (KERN_SUCCESS, s') \<and> rights_ok E s' \<and> rights s' = (rights s)((q, i) := None)"
proof -
  have pt: "port_type b" "b AND MACH_PORT_TYPE_RECEIVE \<noteq> 0" "b AND MACH_PORT_TYPE_SEND = 0" using t by (simp_all add: port_type_def ie_bits)
  obtain previous s1 where l: "right_lose_receive q name i p s = Some (previous, s1)" "receive_lost E s (q, i) None p s1"
    using lose_receive_only [OF ok x n t] by blast
  have "receive_lost E s (q, i) None p (send_no_senders ns s1)" by (rule receive_lost_log [OF l(2)]) (simp add: same_but_log_def)
  from destroy_receive [OF ok x pt(2,1) this]
  obtain s' where s': "ipc_port_destroy E p (send_no_senders ns s1) = Some s'" "rights_ok E s'" "rights s' = (rights s)((q, i) := None)" by blast
  then show ?thesis using rights_ok_log [OF s'(2), of "send_port_deleted previous name s'"] e l(1) pt(3) by (simp add: destruct_receive_def)
qed

lemma ipc_right_destruct_gone:
  assumes ok: "rights_ok E s" and x: "rights s (q, i) = Some (p, b, r)" and n: "named name i b"
    and t: "IE_BITS_TYPE b = MACH_PORT_TYPE_RECEIVE \<and> d = 0 \<or> IE_BITS_TYPE b = MACH_PORT_TYPE_SEND_RECEIVE \<and> IE_BITS_UREFS b = 1 \<and> d = - 1"
    and p: "ks_port s p = Some port" "ip_guarded port \<longrightarrow> guard = ip_context port"
  shows "\<exists>s'. ipc_right_destruct E q name i d guard s = Some (KERN_SUCCESS, s') \<and> rights_ok E s' \<and> rights s' = (rights s)((q, i) := None)"
proof -
  have pt: "port_type b" "b AND MACH_PORT_TYPE_RECEIVE \<noteq> 0" using t by (auto simp: port_type_def ie_bits)
  have po: "port_right_ok port q i b r" using port_right(1) [OF ok x pt(1)] p(1) by auto
  then have u: "ip_active port" "ip_receiver_name port = name" "ip_receiver port = q" using pt(2) namedD(3) [OF n] by (auto simp: port_right_ok_def)
  obtain e xs where e: "entry_at (ks_space s) q i e xs {} (sends_of (ks_space s) q) (ks_space s)" "ie_object e = p" "ie_bits e = b"
    using entry_begin(1) [OF rights_okD(1) [OF ok] x] by blast
  note pre = get_entry_at [OF e(1)] assert_active_at [OF e(1)] e(2,3) p u pt(2) port_right(3) [OF ok x pt(1)] counts_pos(1) [OF ok x p(1)]
  from t show ?thesis
  proof (elim disjE conjE)
    assume "IE_BITS_TYPE b = MACH_PORT_TYPE_RECEIVE" "d = 0"
    then show ?thesis using destruct_receive_gone [OF ok x n _ get_entry_at [OF e(1)] e(3), of "(IP_NULL, 0)"] pre
      by (auto simp: ipc_right_destruct_def require_ip_active_def Let_def)
  next
    assume sr: "IE_BITS_TYPE b = MACH_PORT_TYPE_SEND_RECEIVE" "IE_BITS_UREFS b = 1" "d = - 1"
    let ?b = "b AND NOT (IE_BITS_UREFS_MASK OR MACH_PORT_TYPE_SEND)"
    obtain s1 s' where s': "set_entry q i (e\<lparr>ie_bits := ?b\<rparr>) (put_port s p (sright_off port)) = Some s1"
        "rights s' = (rights s)((q, i) \<mapsto> (p, ?b, r))" "rights_ok E s1" "rights s1 = rights s'" "get_entry q i s1 = Some (e\<lparr>ie_bits := ?b\<rparr>)"
      using send_off_ok [OF ok x namedD(1) [OF n] sr(1) p(1) get_entry_at [OF e(1)] refl] by blast
    note v = send_off_bits [OF sr(1) refl]
    obtain ns where d: "destruct_srights q i p d e s = Some (ns, s1)"
      using sr s' drop_sright_eq [OF p(1)] e(3) unfolding destruct_srights_def by auto
    have x1: "rights s1 (q, i) = Some (p, ?b, r)" and n1: "named name i ?b" using s'(2,4) n v unfolding named_def by auto
    have "MACH_PORT_TYPE_SEND_RECEIVE AND MACH_PORT_TYPE_SEND \<noteq> 0" by (simp add: ie_bits_defs)
    then have bs: "b AND MACH_PORT_TYPE_SEND \<noteq> 0" using sr(1) by (simp add: ie_bits)
    have m: "IE_BITS_UREFS b \<noteq> MACH_PORT_UREFS_MAX" "\<not> MACH_PORT_UREFS_UNDERFLOW (IE_BITS_UREFS b) (- 1)" "\<not> 0 <s (- 1 :: 32 word)"
      using sr(2) by (simp_all add: MACH_PORT_UREFS_MAX_def MACH_PORT_UREFS_UNDERFLOW_def)
    show ?thesis using destruct_receive_gone [OF s'(3) x1 n1 _ s'(5), of ns] v(1) pre sr d m bs s'(2,4)
      by (simp add: ipc_right_destruct_def require_ip_active_def Let_def)
  qed
qed

lemma construct_flags_type:
  assumes "construct_flags E options = (KERN_SUCCESS, fl)"
  shows "fl AND IPC_PORT_INIT_SPECIAL_REPLY = 0"
    "port_alloc_type fl = (if mpo_flags options AND MPO_INSERT_SEND_RIGHT \<noteq> 0 then (MACH_PORT_TYPE_SEND_RECEIVE, 1) else (MACH_PORT_TYPE_RECEIVE, 0))"
proof -
  have fl: "fl = (IPC_PORT_INIT_MESSAGE_QUEUE OR (if mpo_flags options AND MPO_INSERT_SEND_RIGHT \<noteq> 0 then IPC_PORT_INIT_MAKE_SEND_RIGHT else 0) OR
        (if mpo_flags options AND MPO_FILTER_MSG \<noteq> 0 then IPC_PORT_INIT_FILTER_MESSAGE else 0)) OR
        (if mpo_flags options AND MPO_TG_BLOCK_TRACKING \<noteq> 0 then IPC_PORT_INIT_TG_BLOCK_TRACKING else 0)"
    using assms unfolding construct_flags_def Let_def by (simp split: if_splits)
  show "fl AND IPC_PORT_INIT_SPECIAL_REPLY = 0"
    unfolding fl by (simp add: IPC_PORT_INIT_MESSAGE_QUEUE_def IPC_PORT_INIT_MAKE_SEND_RIGHT_def IPC_PORT_INIT_SPECIAL_REPLY_def
        IPC_PORT_INIT_FILTER_MESSAGE_def IPC_PORT_INIT_TG_BLOCK_TRACKING_def)
  have "fl AND IPC_PORT_INIT_MAKE_SEND_RIGHT \<noteq> 0 \<longleftrightarrow> mpo_flags options AND MPO_INSERT_SEND_RIGHT \<noteq> 0"
    unfolding fl by (simp add: IPC_PORT_INIT_MESSAGE_QUEUE_def IPC_PORT_INIT_MAKE_SEND_RIGHT_def
        IPC_PORT_INIT_FILTER_MESSAGE_def IPC_PORT_INIT_TG_BLOCK_TRACKING_def)
  then show "port_alloc_type fl = (if mpo_flags options AND MPO_INSERT_SEND_RIGHT \<noteq> 0 then (MACH_PORT_TYPE_SEND_RECEIVE, 1) else (MACH_PORT_TYPE_RECEIVE, 0))"
    by (simp add: port_alloc_type_def type_masks(6))
qed

lemma new_port_fields:
  defines "z \<equiv> zero_port\<lparr>ip_io_bits := io_makebits True IOT_PORT 0, ip_references := 1\<rparr>"
  assumes "flags AND IPC_PORT_INIT_SPECIAL_REPLY = 0"
  shows "ip_context (ipc_port_init z q flags name) = 0" "\<not> ip_guarded (ipc_port_init z q flags name)"
    "\<not> ip_specialreply (ipc_port_init z q flags name)" "\<not> io_is_kobject (ip_io_bits (ipc_port_init z q flags name))"
  using assms by (simp_all add: z_def ipc_port_init_def Let_def zero_port_def io_is_kobject_def io_makebits_def IOT_PORT_def
      IO_BITS_ACTIVE_def IP_BIT_FILTER_MSG_def IO_BITS_KOBJECT_def)

lemma construct_guard_ok:
  assumes ok: "rights_ok E s" and p: "ks_port s p = Some port" "ip_context port = 0" "\<not> ip_guarded port"
  shows "\<exists>s' port'. construct_guard options c p s = Some s' \<and> rights_ok E s' \<and> ks_space s' = ks_space s \<and> ks_port s' p = Some port'
    \<and> ip_io_bits port' = ip_io_bits port \<and> ip_specialreply port' = ip_specialreply port \<and> ip_context port' = c
    \<and> ip_guarded port' = (mpo_flags options AND MPO_CONTEXT_AS_GUARD \<noteq> 0)"
proof (cases "mpo_flags options AND MPO_CONTEXT_AS_GUARD \<noteq> 0")
  case True
  let ?p = "\<lambda>st im. port\<lparr>ip_context := c, ip_guarded := True, ip_strict_guard := st, ip_immovable_receive := im\<rparr>"
  have "rights_ok E (put_port s p (?p st im))" for st im by (rule same_rights_ok [OF ok p(1)]) (simp add: same_rights_simps)
  then show ?thesis using True p by (simp add: construct_guard_def mach_port_guard_locked_def put_port_def Let_def)
next
  case False
  have "rights_ok E (put_port s p (port\<lparr>ip_context := c\<rparr>))" by (rule same_rights_ok [OF ok p(1)]) (simp add: same_rights_simps)
  then show ?thesis using False p by (simp add: construct_guard_def put_port_def)
qed

definition limit_too_large :: "mach_port_options_t \<Rightarrow> bool" where
  "limit_too_large options \<longleftrightarrow> mpo_flags options AND MPO_QLIMIT \<noteq> 0 \<and> MACH_PORT_QLIMIT_MAX < mpl_qlimit options"

lemma construct_attributes_ok:
  "\<forall>a \<in> set (construct_attributes options). optional a" "(\<exists>a \<in> set (construct_attributes options). refused a) \<longleftrightarrow> limit_too_large options"
  by (auto simp: construct_attributes_def Let_def optional_def refused_def limit_too_large_def split: if_splits)

lemma mach_port_destruct_gone:
  assumes s: "setting_up E q name p b g c s"
    and t: "IE_BITS_TYPE b = MACH_PORT_TYPE_RECEIVE \<and> d = 0 \<or> IE_BITS_TYPE b = MACH_PORT_TYPE_SEND_RECEIVE \<and> IE_BITS_UREFS b = 1 \<and> d = - 1"
  shows "\<exists>s'. mach_port_destruct E q name d c s = Some (KERN_SUCCESS, s') \<and> rights_ok E s' \<and> rights s' = (rights s)((q, MACH_PORT_INDEX name) := None)"
proof -
  obtain sp port where ok: "rights_ok E s" and sp: "ks_space s q = Some sp" and x: "rights s (q, MACH_PORT_INDEX name) = Some (p, b, IE_REQ_NONE)"
      "named name (MACH_PORT_INDEX name) b" "MACH_PORT_VALID name" "ks_port s p = Some port" "ip_context port = c"
    using s by (auto simp: setting_up_def)
  have act: "is_active sp" using x(1) sp by (auto simp: rights_def split: if_splits option.splits)
  have "\<exists>s'. ipc_right_destruct E q name (MACH_PORT_INDEX name) d c s = Some (KERN_SUCCESS, s') \<and> rights_ok E s' \<and> rights s' = (rights s)((q, MACH_PORT_INDEX name) := None)"
    by (rule ipc_right_destruct_gone [OF ok x(1,2) t x(4)]) (simp add: x(5))
  moreover from ok sp have "ipc_right_lookup_write q name s = Some (KERN_SUCCESS, MACH_PORT_INDEX name)"
  proof (cases rule: lookup_write [where name = name])
    case unknown
    then show ?thesis using x by blast
  next
    case (found i obj b r)
    then show ?thesis using namedD(1) [OF found(4)] by simp
  qed (use act in simp)
  ultimately show ?thesis using x(3) space_nonnull [OF ok sp] by (simp add: mach_port_destruct_def)
qed

lemma mach_port_construct_ok:
  assumes ok: "rights_ok E s" and sp: "ks_space s q = Some sp" and rm: "alloc_room E sp" and obj: "fresh_object obj s"
    and fl: "construct_flags E options = (KERN_SUCCESS, fl)"
  defines "send \<equiv> mpo_flags options AND MPO_INSERT_SEND_RIGHT \<noteq> 0"
  shows "\<exists>name s'. mach_port_construct E alone obj q options c s
       = Some ((if limit_too_large options then KERN_INVALID_VALUE else KERN_SUCCESS, name), s') \<and> rights_ok E s'
     \<and> (if limit_too_large options then rights s' = rights s
        else gains_right s q name obj (if send then MACH_PORT_TYPE_SEND_RECEIVE else MACH_PORT_TYPE_RECEIVE) (of_bool send) s'
          \<and> (\<exists>port. ks_port s' obj = Some port \<and> ip_context port = c
               \<and> ip_guarded port = (mpo_flags options AND MPO_CONTEXT_AS_GUARD \<noteq> 0)))"
proof -
  note o = fresh_objectD [OF obj]
  let ?ty = "if send then MACH_PORT_TYPE_SEND_RECEIVE else MACH_PORT_TYPE_RECEIVE" and ?g = "mpo_flags options AND MPO_CONTEXT_AS_GUARD \<noteq> 0"
  have ty: "fst (port_alloc_type fl) = ?ty" "snd (port_alloc_type fl) = of_bool send" using construct_flags_type(2) [OF fl] by (simp_all add: send_def)
  let ?z = "\<lambda>name. ipc_port_init (zero_port\<lparr>ip_io_bits := io_makebits True IOT_PORT 0, ip_references := 1\<rparr>) q fl name"
  obtain name s1 where a: "ipc_port_alloc E obj q fl s = Some ((KERN_SUCCESS, name, obj), s1)" "rights_ok E s1"
      "gains_right s q name obj ?ty (of_bool send) s1" "ks_port s1 = (ks_port s)(obj \<mapsto> ?z name)"
    using ipc_port_alloc_ok [OF ok sp rm o(1,2), of fl] unfolding ty by metis
  obtain b where b: "rights s1 = (rights s)((q, MACH_PORT_INDEX name) \<mapsto> (obj, b, IE_REQ_NONE))" "named name (MACH_PORT_INDEX name) b"
      "IE_BITS_TYPE b = ?ty" "IE_BITS_UREFS b = of_bool send" "MACH_PORT_VALID name" "rights s (q, MACH_PORT_INDEX name) = None"
    using a(3) by (auto simp: gains_right_def)
  note z = new_port_fields [OF construct_flags_type(1) [OF fl], of q name]
  obtain s2 port where g: "construct_guard options c obj s1 = Some s2" "rights_ok E s2" "ks_space s2 = ks_space s1" "ks_port s2 obj = Some port"
      "ip_io_bits port = ip_io_bits (?z name)" "ip_specialreply port = ip_specialreply (?z name)" "ip_context port = c" "ip_guarded port = ?g"
    using construct_guard_ok [OF a(2) _ z(1,2), of obj options c] a(4) by auto
  have R: "rights s2 = rights s1" by (rule rights_cong [OF g(3)])
  have "rights s2 (q, MACH_PORT_INDEX name) \<noteq> None" using R b(1) by simp
  then have "q \<in> dom (ks_space s2)" by (auto simp: rights_def split: option.splits)
  moreover have "b AND MACH_PORT_TYPE_RECEIVE \<noteq> 0" using b(3) by (auto simp: ie_bits split: if_splits)
  ultimately have "setting_up E q name obj b ?g c s2" using g(2,4-8) z R b(1,2,5) by (simp add: setting_up_def)
  from construct_set_ok [OF this construct_attributes_ok(1) [of options]]
  obtain s3 where c: "construct_set E alone 0 q name (construct_attributes options) s2
        = Some (if limit_too_large options then KERN_INVALID_VALUE else KERN_SUCCESS, s3)" "setting_up E q name obj b ?g c s3" "rights s3 = rights s2"
    unfolding construct_attributes_ok(2) by blast
  note q = space_nonnull [OF ok sp]
  show ?thesis
  proof (cases "limit_too_large options")
    case True
    obtain s4 where "mach_port_destruct E q name (if send then - 1 else 0) c s3 = Some (KERN_SUCCESS, s4)" "rights_ok E s4"
        "rights s4 = (rights s3)((q, MACH_PORT_INDEX name) := None)"
      using mach_port_destruct_gone [OF c(2), of "if send then - 1 else 0"] b(3,4) by (auto split: if_splits)
    then show ?thesis using True q fl a(1) g(1) c(1,3) R b(1,6) by (simp add: mach_port_construct_def send_def fun_upd_idem)
  next
    case False
    then show ?thesis using q fl a(1,3) g(1) c R by (auto simp: mach_port_construct_def setting_up_def gains_right_def)
  qed
qed

section \<open>An example\<close>

text \<open>Two new spaces, as \<open>ipc_space_create\<close> makes them, with room for three rights each.\<close>

definition example_space :: ipc_space where
  "example_space = \<lparr>is_bits = 2, is_table_size = 4, is_table_hashed = 0, is_table_free = 3,
     is_table = [(freelist_entry 1)\<lparr>ie_bits := 0\<rparr>, freelist_entry 2, freelist_entry 3, freelist_entry 0],
     is_table_next = 1, is_task = 0, is_label = 0, is_low_mod = 4,
     is_high_mod = 0, is_bool_gen = sample_gen, is_entropy = [0], is_node_id = -1\<rparr>"

definition new_kst :: kst where
  "new_kst = empty_kst\<lparr>ks_space := [0x20 \<mapsto> example_space, 0x30 \<mapsto> example_space]\<rparr>"

lemma example_space_entries:
  assumes "i < 4"
  shows "entry_type (is_table example_space) i = MACH_PORT_TYPE_NONE" "ie_index (is_table example_space ! i) = 0"
  using assms
  by (auto simp: less_Suc_eq numeral_eq_Suc example_space_def freelist_entry_def entry_type_def ie_bits_defs ie_bits_masks IE_BITS_TYPE_def)

lemma example_space_ok: "space_ok example_space [1, 2, 3] {}" "is_active example_space" "alloc_room example_env example_space"
proof -
  note t = example_space_entries
  have l: "length (is_table example_space) = 4" by (simp add: example_space_def)
  have h: "hashed (is_table example_space) = {}" "send_entries (is_table example_space) = {}"
    using t l by (auto simp: hashed_def send_entries_def ie_bits_defs)
  have rh: "hash_table_ok (is_table example_space)"
    using t l by (auto simp: hash_table_ok_def rh_ok_def rh_distinct_def rh_slot_def IPC_ENTRY_DIST_MAX_def)
  have iff: "entry_type (is_table example_space) i = MACH_PORT_TYPE_NONE \<longleftrightarrow> i \<in> set [1, 2, 3] \<union> {}" if "i \<in> {0<..<length (is_table example_space)}" for i
    using that t(1) [of i] l by auto
  show s: "space_ok example_space [1, 2, 3] {}" unfolding space_ok_def space_inv_def h
    using iff rh by (simp add: example_space_def free_entry_def freelist_entry_def ie_bits_masks)
  show act: "is_active example_space" by (simp add: is_active_def example_space_def IS_INACTIVE_def)
  show "alloc_room example_env example_space"
    using act ipc_entries_hold_eq [OF s [unfolded space_ok_def] act, of 1] by (simp add: alloc_room_def example_space_def)
qed

lemma new_kst_ok: "rights_ok example_env new_kst" "ks_space new_kst 0x20 = Some example_space" "rights new_kst = Map.empty" "fresh_object 0x1000 new_kst"
proof -
  have l: "length (is_table example_space) = 4" by (simp add: example_space_def)
  show r: "rights new_kst = Map.empty" using example_space_entries l by (auto simp: rights_def new_kst_def empty_kst_def fun_eq_iff)
  have "spaces_ok new_kst" using example_space_ok(1) by (auto simp: spaces_ok_def new_kst_def empty_kst_def)
  then show "rights_ok example_env new_kst"
    unfolding rights_ok_def r using example_request_classes by (simp add: new_kst_def empty_kst_def rights_inv_def psets_inj_def)
  show "ks_space new_kst 0x20 = Some example_space" "fresh_object 0x1000 new_kst"
    by (simp_all add: new_kst_def empty_kst_def fresh_object_def IP_VALID_def IP_NULL_def IP_DEAD_def)
qed

text \<open>The first of them with a port that has a receive right and one send reference.\<close>

definition example_options :: mach_port_options_t where
  "example_options = \<lparr>mpo_flags = MPO_INSERT_SEND_RIGHT OR MPO_QLIMIT, mpl_qlimit = 5, mpo_work_interval_port = 0\<rparr>"

definition built_kst :: kst where
  "built_kst = snd (the (mach_port_construct example_env alone 0x1000 0x20 example_options 7 new_kst))"

definition built_name :: mach_port_name_t where
  "built_name = snd (fst (the (mach_port_construct example_env alone 0x1000 0x20 example_options 7 new_kst)))"

lemma example_options_simps:
  "mpo_flags (example_options\<lparr>mpl_qlimit := l\<rparr>) AND MPO_INSERT_SEND_RIGHT \<noteq> 0"
  "mpo_flags (example_options\<lparr>mpl_qlimit := l\<rparr>) AND MPO_CONTEXT_AS_GUARD = 0"
  "limit_too_large (example_options\<lparr>mpl_qlimit := l\<rparr>) \<longleftrightarrow> 1024 < l"
  "construct_flags example_env (example_options\<lparr>mpl_qlimit := l\<rparr>) = (KERN_SUCCESS, IPC_PORT_INIT_MESSAGE_QUEUE OR IPC_PORT_INIT_MAKE_SEND_RIGHT)"
  "example_options\<lparr>mpl_qlimit := 5\<rparr> = example_options"
  by (simp_all add: example_options_def MPO_INSERT_SEND_RIGHT_def MPO_QLIMIT_def MPO_CONTEXT_AS_GUARD_def limit_too_large_def MACH_PORT_QLIMIT_MAX_def
      construct_flags_def Let_def MPO_FILTER_MSG_def MPO_TG_BLOCK_TRACKING_def)

lemma built_ok:
  "rights_ok example_env built_kst" "gains_right new_kst 0x20 built_name 0x1000 MACH_PORT_TYPE_SEND_RECEIVE 1 built_kst"
  "\<exists>port. ks_port built_kst 0x1000 = Some port \<and> ip_context port = 7 \<and> \<not> ip_guarded port"
proof -
  note c = mach_port_construct_ok [OF new_kst_ok(1,2) example_space_ok(3) new_kst_ok(4) example_options_simps(4) [of 5], unfolded example_options_simps(5), of 7]
  from c obtain name s' where "mach_port_construct example_env alone 0x1000 0x20 example_options 7 new_kst = Some ((KERN_SUCCESS, name), s')" "rights_ok example_env s'"
      "gains_right new_kst 0x20 name 0x1000 MACH_PORT_TYPE_SEND_RECEIVE 1 s'"
      "\<exists>port. ks_port s' 0x1000 = Some port \<and> ip_context port = 7 \<and> \<not> ip_guarded port"
    using example_options_simps(1-3) [of 5, unfolded example_options_simps(5)] by auto
  then show "rights_ok example_env built_kst" "gains_right new_kst 0x20 built_name 0x1000 MACH_PORT_TYPE_SEND_RECEIVE 1 built_kst"
    "\<exists>port. ks_port built_kst 0x1000 = Some port \<and> ip_context port = 7 \<and> \<not> ip_guarded port"
    by (simp_all add: built_kst_def built_name_def)
qed

section \<open>Properties\<close>

text \<open>
  C12. Where a space has room and the kernel has a new object, \<open>mach_port_allocate\<close> of a receive right, a port set or a
  dead name succeeds. The space gains exactly one right: its name was unused, it has the type asked for (a dead name with
  one user reference), it denotes the new object, and every other right of every space is what it was. The rights stay consistent.
\<close>

theorem mach_port_allocate_gains_right:
  assumes "rights_ok E s" "ks_space s q = Some sp" "alloc_room E sp" "fresh_object obj s" "allocatable right"
  shows "\<exists>new s'. mach_port_allocate E obj q right name s = Some ((KERN_SUCCESS, new), s') \<and> rights_ok E s'
    \<and> gains_right s q new (if right = MACH_PORT_RIGHT_DEAD_NAME then IO_NULL else obj) (MACH_PORT_TYPE right)
        (of_bool (right = MACH_PORT_RIGHT_DEAD_NAME)) s'"
  using mach_port_allocate_ok [OF assms, of name] by metis

theorem mach_port_allocate_gains_right_witness:
  "\<exists>new s'. mach_port_allocate example_env 0x1000 0x20 MACH_PORT_RIGHT_PORT_SET 0 new_kst = Some ((KERN_SUCCESS, new), s')
    \<and> rights_ok example_env s' \<and> gains_right new_kst 0x20 new 0x1000 MACH_PORT_TYPE_PORT_SET 0 s'"
  using mach_port_allocate_gains_right [OF new_kst_ok(1,2) example_space_ok(3) new_kst_ok(4), of MACH_PORT_RIGHT_PORT_SET 0]
  by (simp add: allocatable_def MACH_PORT_TYPE_PORT_SET_def)



end
