(* ===== verification/Mach_Info.thy ===== *)
theory Mach_Info
  imports Mach_Construct
begin

text \<open>
  What the calls that ask about a name tell the caller: \<open>mach_port_type\<close> the type of the right, \<open>mach_port_get_refs\<close>
  the user references of each kind, \<open>mach_port_names\<close> all of it.
\<close>

section \<open>mach\_port\_type and mach\_port\_get\_refs\<close>

text \<open>The right that a name denotes in a space.\<close>

definition right_of :: "kst \<Rightarrow> ptr \<Rightarrow> mach_port_name_t \<Rightarrow> right option" where
  "right_of s q name = (case rights s (q, MACH_PORT_INDEX name) of None \<Rightarrow> None
     | Some (obj, b, r) \<Rightarrow> if IE_BITS_GEN b = MACH_PORT_GEN name then Some (obj, b, r) else None)"

lemma right_of_iff:
  "right_of s q name = Some (obj, b, r) \<longleftrightarrow> rights s (q, MACH_PORT_INDEX name) = Some (obj, b, r) \<and> named name (MACH_PORT_INDEX name) b"
  by (auto simp: right_of_def named_def split: option.splits if_splits)

lemma right_of_found:
  assumes ok: "rights_ok E s" and d: "right_of s q name = Some (obj, b, r)"
  obtains sp where "ks_space s q = Some sp" "is_active sp" "q \<noteq> 0" "ipc_right_lookup_write q name s = Some (KERN_SUCCESS, MACH_PORT_INDEX name)"
proof -
  have x: "rights s (q, MACH_PORT_INDEX name) = Some (obj, b, r)" "named name (MACH_PORT_INDEX name) b" using d by (simp_all add: right_of_iff)
  obtain sp where sp: "ks_space s q = Some sp" "is_active sp" using x(1) by (auto simp: rights_def split: if_splits option.splits)
  from ok sp(1) have "ipc_right_lookup_write q name s = Some (KERN_SUCCESS, MACH_PORT_INDEX name)"
  proof (cases rule: lookup_write [where name = name])
    case unknown
    then show ?thesis using x by blast
  next
    case (found i obj b r)
    then show ?thesis using namedD(1) [OF found(4)] by simp
  qed (use sp(2) in simp)
  then show thesis using that sp space_nonnull [OF ok sp(1)] by blast
qed

lemma ipc_right_info_right_of:
  assumes ok: "rights_ok E s" and d: "right_of s q name = Some (obj, b, r)"
  obtains t s' obj' b' r' where "ipc_right_info q name (MACH_PORT_INDEX name) s = Some ((t OR IE_BITS_TYPE b', IE_BITS_UREFS b'), s')" "t \<in> request_types"
    "rights_ok E s'" "rights s' = (rights s)((q, MACH_PORT_INDEX name) \<mapsto> (obj', b', r'))" "right_of s' q name = Some (obj', b', r')"
    "if stale s obj b then IE_BITS_TYPE b' = MACH_PORT_TYPE_DEAD_NAME \<and> t = 0 else b' = b \<and> s' = s"
proof -
  have x: "rights s (q, MACH_PORT_INDEX name) = Some (obj, b, r)" "named name (MACH_PORT_INDEX name) b" using d by (simp_all add: right_of_iff)
  show thesis by (rule ipc_right_info_ok [OF ok x]) (rule that, auto simp: right_of_iff)
qed

definition right_type_set :: "32 word set" where
  "right_type_set = {MACH_PORT_TYPE_DEAD_NAME, MACH_PORT_TYPE_PORT_SET, MACH_PORT_TYPE_SEND, MACH_PORT_TYPE_SEND_ONCE,
     MACH_PORT_TYPE_RECEIVE, MACH_PORT_TYPE_SEND_RECEIVE}"

lemma type_masked:
  assumes "t \<in> request_types" "ty \<in> right_type_set"
  shows "(t OR ty) AND NOT (MACH_PORT_TYPE_SPREQUEST OR MACH_PORT_TYPE_SPREQUEST_DELAYED) \<in> {ty, ty OR MACH_PORT_TYPE_DNREQUEST}"
    "(t OR ty) AND NOT (MACH_PORT_TYPE_SPREQUEST OR MACH_PORT_TYPE_SPREQUEST_DELAYED) = ty \<longleftrightarrow> t = 0"
  using assms unfolding request_types_def right_type_set_def
  by (auto simp: ie_bits_defs MACH_PORT_TYPE_DNREQUEST_def MACH_PORT_TYPE_SPREQUEST_def MACH_PORT_TYPE_SPREQUEST_DELAYED_def)

lemma request_types_right:
  assumes "t \<in> request_types" "right_number right < 6"
  shows "(t OR ty) AND MACH_PORT_TYPE right = ty AND MACH_PORT_TYPE right"
proof -
  have "t AND MACH_PORT_TYPE right = 0"
    using assms unfolding request_types_def
    by (cases right) (auto simp: MACH_PORT_TYPE_def MACH_PORT_TYPE_DNREQUEST_def MACH_PORT_TYPE_SPREQUEST_def MACH_PORT_TYPE_SPREQUEST_DELAYED_def)
  then show ?thesis by (simp add: bit.conj_disj_distrib2)
qed

lemma right_of_none:
  assumes ok: "rights_ok E s" and sp: "ks_space s q = Some sp" "is_active sp" and d: "right_of s q name = None"
  shows "ipc_right_lookup_write q name s = Some (KERN_INVALID_NAME, 0)"
  using ok sp(1)
proof (cases rule: lookup_write [where name = name])
  case (found i obj b r)
  then have "right_of s q name = Some (obj, b, r)" using namedD(1) [OF found(4)] by (simp add: right_of_iff)
  then show ?thesis using d by simp
qed (use sp(2) in simp_all)

definition current_type :: "kst \<Rightarrow> right \<Rightarrow> 32 word" where
  "current_type s = (\<lambda>(obj, b, r). if stale s obj b then MACH_PORT_TYPE_DEAD_NAME else IE_BITS_TYPE b)"

lemma info_types:
  assumes "rights_ok E s" "right_of s q name = Some (obj, b, r)"
  shows "IE_BITS_TYPE b \<in> right_type_set"
  using right_types [OF assms(1)] assms(2) unfolding right_type_set_def right_of_iff by blast

lemma info_urefs:
  assumes "rights_ok E s" "right_of s q name = Some (obj, b, r)"
  shows "b AND MACH_PORT_TYPE_SEND_ONCE \<noteq> 0 \<Longrightarrow> IE_BITS_UREFS b = 1" "b AND MACH_PORT_TYPE_SEND \<noteq> 0 \<Longrightarrow> IE_BITS_UREFS b \<noteq> 0"
    "b AND MACH_PORT_TYPE_DEAD_NAME \<noteq> 0 \<Longrightarrow> IE_BITS_UREFS b \<noteq> 0"
proof -
  have x: "rights s (q, MACH_PORT_INDEX name) = Some (obj, b, r)" using assms(2) by (simp add: right_of_iff)
  have r: "right_ok (ks_port s) (ks_pset s) (q, MACH_PORT_INDEX name) (obj, b, r)" by (rule rights_inv_cases [OF rights_okD(3) [OF assms(1)] x])
  note ty = info_types [OF assms, unfolded right_type_set_def]
  show "b AND MACH_PORT_TYPE_SEND_ONCE \<noteq> 0 \<Longrightarrow> IE_BITS_UREFS b = 1" "b AND MACH_PORT_TYPE_SEND \<noteq> 0 \<Longrightarrow> IE_BITS_UREFS b \<noteq> 0"
    "b AND MACH_PORT_TYPE_DEAD_NAME \<noteq> 0 \<Longrightarrow> IE_BITS_UREFS b \<noteq> 0"
    using r ty by (auto simp: right_ok_def port_right_ok_def ie_bits split: if_splits)
qed

text \<open>What a call that looks at a right leaves: the same rights, but for a stale one, which is now a dead name.\<close>

definition looked_at :: "kenv \<Rightarrow> kst \<Rightarrow> ptr \<Rightarrow> mach_port_name_t \<Rightarrow> right \<Rightarrow> kst \<Rightarrow> right \<Rightarrow> bool" where
  "looked_at E s q name v s' v' \<longleftrightarrow> rights_ok E s' \<and> rights s' = (rights s)((q, MACH_PORT_INDEX name) \<mapsto> v') \<and> right_of s' q name = Some v'
     \<and> IE_BITS_TYPE (fst (snd v')) = current_type s v \<and> current_type s v \<in> right_type_set \<and> (\<not> stale s (fst v) (fst (snd v)) \<longrightarrow> s' = s)"

lemma info_looked_at:
  assumes ok: "rights_ok E s" and v: "right_of s q name = Some v"
  obtains t s' v' where "ipc_right_info q name (MACH_PORT_INDEX name) s = Some ((t OR current_type s v, IE_BITS_UREFS (fst (snd v'))), s')"
    "t \<in> request_types" "looked_at E s q name v s' v'"
proof -
  obtain obj b r where o: "v = (obj, b, r)" by (cases v)
  obtain t s' obj' b' r' where i: "ipc_right_info q name (MACH_PORT_INDEX name) s = Some ((t OR IE_BITS_TYPE b', IE_BITS_UREFS b'), s')" "t \<in> request_types"
      "rights_ok E s'" "rights s' = (rights s)((q, MACH_PORT_INDEX name) \<mapsto> (obj', b', r'))" "right_of s' q name = Some (obj', b', r')"
      "if stale s obj b then IE_BITS_TYPE b' = MACH_PORT_TYPE_DEAD_NAME \<and> t = 0 else b' = b \<and> s' = s"
    using ipc_right_info_right_of [OF ok v [unfolded o]] by metis
  have "current_type s v = IE_BITS_TYPE b'" using i(6) o by (simp add: current_type_def split: if_splits)
  then show thesis using that [of t "(obj', b', r')" s'] i info_types [OF i(3,5)] o by (auto simp: looked_at_def split: if_splits)
qed

lemma mach_port_type_ok:
  assumes ok: "rights_ok E s" and v: "right_of s q name = Some v" and n: "MACH_PORT_VALID name"
  shows "\<exists>t s' v'. mach_port_type q name s = Some ((KERN_SUCCESS, t), s') \<and> looked_at E s q name v s' v'
     \<and> t \<in> {current_type s v, current_type s v OR MACH_PORT_TYPE_DNREQUEST}"
proof -
  obtain obj b r where o: "v = (obj, b, r)" by (cases v)
  obtain t s' v' where i: "ipc_right_info q name (MACH_PORT_INDEX name) s = Some ((t OR current_type s v, IE_BITS_UREFS (fst (snd v'))), s')"
      "t \<in> request_types" "looked_at E s q name v s' v'" using info_looked_at [OF ok v] .
  have q: "q \<noteq> 0" "ipc_right_lookup_write q name s = Some (KERN_SUCCESS, MACH_PORT_INDEX name)"
    using right_of_found [OF ok v [unfolded o]] by metis+
  have "current_type s v \<in> right_type_set" using i(3) by (simp add: looked_at_def)
  from type_masked(1) [OF i(2) this] show ?thesis
    using q n i(1,3) by (intro exI [of _ s'] exI [of _ v'] exI) (simp add: mach_port_type_def MACH_PORT_VALID_def)
qed

lemma mach_port_get_refs_ok:
  assumes ok: "rights_ok E s" and v: "right_of s q name = Some v" and n: "MACH_PORT_VALID name" and r: "right_number right < 6"
  shows "\<exists>s' v'. mach_port_get_refs q name right s
       = Some ((KERN_SUCCESS, if current_type s v AND MACH_PORT_TYPE right = 0 then 0
           else if right = MACH_PORT_RIGHT_SEND \<or> right = MACH_PORT_RIGHT_DEAD_NAME then IE_BITS_UREFS (fst (snd v')) else 1), s')
     \<and> looked_at E s q name v s' v'"
proof -
  obtain obj b r0 where o: "v = (obj, b, r0)" by (cases v)
  obtain t s' v' where i: "ipc_right_info q name (MACH_PORT_INDEX name) s = Some ((t OR current_type s v, IE_BITS_UREFS (fst (snd v'))), s')"
      "t \<in> request_types" "looked_at E s q name v s' v'" using info_looked_at [OF ok v] .
  have q: "q \<noteq> 0" "ipc_right_lookup_write q name s = Some (KERN_SUCCESS, MACH_PORT_INDEX name)"
    using right_of_found [OF ok v [unfolded o]] by metis+
  obtain obj' b' r' where v': "v' = (obj', b', r')" by (cases v')
  have l: "rights_ok E s'" "right_of s' q name = Some (obj', b', r')" "IE_BITS_TYPE b' = current_type s v" "current_type s v \<in> right_type_set"
    using i(3) v' by (simp_all add: looked_at_def)
  have b': "b' AND MACH_PORT_TYPE right = current_type s v AND MACH_PORT_TYPE right" if "right \<noteq> MACH_PORT_RIGHT_LABELH"
    by (rule type_test [OF l(3)]) (use r that in \<open>cases right, simp_all add: MACH_PORT_TYPE_def IE_BITS_TYPE_MASK_def\<close>)
  have lh: "current_type s v AND MACH_PORT_TYPE MACH_PORT_RIGHT_LABELH = 0" using l(4) unfolding right_type_set_def by (auto simp: ie_bits_defs)
  note u = info_urefs [OF l(1,2)]
  show ?thesis
    using q n r i(1,3) request_types_right [OF i(2) r] u b' v' word_neq_0_conv [of "IE_BITS_UREFS b'"]
    by (intro exI [of _ s'] exI [of _ v'])
      (cases right; use lh in \<open>auto simp: mach_port_get_refs_def MACH_PORT_TYPE_SEND_def MACH_PORT_TYPE_SEND_ONCE_def MACH_PORT_TYPE_DEAD_NAME_def\<close>)
qed

section \<open>mach\_port\_names\<close>

text \<open>The room for the names: the size grows in every turn, so the loop ends when the table of the space is bounded.\<close>

definition table_bounded :: "ptr \<Rightarrow> nat \<Rightarrow> kst \<Rightarrow> bool" where
  "table_bounded q B s \<longleftrightarrow> (\<exists>sp. ks_space s q = Some sp \<and> is_table_size sp \<le> B)"

lemma names_buffer_ok:
  assumes "table_bounded q B s" and oth: "\<And>k s. table_bounded q B s \<Longrightarrow> table_bounded q B (others k s)"
  shows "\<exists>kr s'. names_buffer page mem_ok others q k sz s = Some (kr, s') \<and> table_bounded q B s'
    \<and> (kr = KERN_SUCCESS \<longrightarrow> (\<exists>sp. ks_space s' q = Some sp \<and> is_active sp)) \<and> kr \<in> {KERN_SUCCESS, KERN_INVALID_TASK, KERN_RESOURCE_SHORTAGE}"
  using assms(1)
proof (induction "vm_map_round_page page (B * 4) - sz" arbitrary: k sz s rule: less_induct)
  case less
  obtain sp where sp: "ks_space s q = Some sp" "is_table_size sp \<le> B" using less.prems by (auto simp: table_bounded_def)
  let ?n = "vm_map_round_page page (is_table_size sp * 4)"
  have le: "?n \<le> vm_map_round_page page (B * 4)" using sp(2) unfolding vm_map_round_page_def by (intro mult_right_mono div_le_mono) simp_all
  show ?case
  proof (cases "is_active sp \<and> sz < ?n \<and> mem_ok ?n")
    case True
    have "vm_map_round_page page (B * 4) - ?n < vm_map_round_page page (B * 4) - sz" using True le by linarith
    from less.hyps [OF this oth [OF less.prems], of "k + 1" k] show ?thesis
      using True sp(1) by (subst names_buffer.simps) (simp add: Let_def)
  next
    case False
    then show ?thesis using sp less.prems by (subst names_buffer.simps) (auto simp: Let_def)
  qed
qed

lemma names_buffer_alone:
  assumes "ks_space s q = Some sp" "is_active sp" "mem_ok (vm_map_round_page page (is_table_size sp * 4))"
  shows "names_buffer page mem_ok (\<lambda>k s. s) q k sz s = Some (KERN_SUCCESS, s)"
proof (cases "vm_map_round_page page (is_table_size sp * 4) \<le> sz")
  case True
  then show ?thesis using assms by (subst names_buffer.simps) (simp add: Let_def)
next
  case False
  have "names_buffer page mem_ok (\<lambda>k s. s) q (k + 1) (vm_map_round_page page (is_table_size sp * 4)) s = Some (KERN_SUCCESS, s)"
    using assms by (subst names_buffer.simps) (simp add: Let_def)
  then show ?thesis using False assms by (subst names_buffer.simps) (simp add: Let_def)
qed

definition entry_name :: "nat \<Rightarrow> ipc_entry \<Rightarrow> mach_port_name_t" where
  "entry_name i e = MACH_PORT_MAKE i (IE_BITS_GEN (ie_bits e))"

definition in_use :: "ipc_table \<Rightarrow> nat list" where
  "in_use tab = filter (\<lambda>i. entry_type tab i \<noteq> MACH_PORT_TYPE_NONE) [0..<length tab]"

lemma in_use_simps:
  "in_use [] = []" "in_use (e # tab) = (if IE_BITS_TYPE (ie_bits e) \<noteq> MACH_PORT_TYPE_NONE then [0] else []) @ map Suc (in_use tab)"
proof -
  have "[0..<length (e # tab)] = 0 # map Suc [0..<length tab]" by (simp add: upt_conv_Cons map_Suc_upt del: upt_Suc)
  then show "in_use [] = []" "in_use (e # tab) = (if IE_BITS_TYPE (ie_bits e) \<noteq> MACH_PORT_TYPE_NONE then [0] else []) @ map Suc (in_use tab)"
    unfolding in_use_def by (simp_all add: filter_map o_def entry_type_def del: upt_Suc)
qed

lemma set_in_use: "set (in_use tab) = {i. i < length tab \<and> entry_type tab i \<noteq> MACH_PORT_TYPE_NONE}" "distinct (in_use tab)"
  by (auto simp: in_use_def)

lemma names_scan_ok:
  assumes "\<And>i. i \<in> set (in_use tab) \<Longrightarrow>
     mach_port_names_helper ts (tab ! i) (entry_name (k + i) (tab ! i)) s = Some (entry_name (k + i) (tab ! i), f (k + i))"
  shows "names_scan ts k tab s = Some (map (\<lambda>i. (entry_name (k + i) (tab ! i), f (k + i))) (in_use tab))"
  using assms
proof (induction tab arbitrary: k)
  case Nil
  then show ?case by (simp add: in_use_simps)
next
  case (Cons e tab)
  have "names_scan ts (Suc k) tab s = Some (map (\<lambda>i. (entry_name (Suc k + i) (tab ! i), f (Suc k + i))) (in_use tab))"
    using Cons.prems [of "Suc i" for i] by (intro Cons.IH) (auto simp: in_use_simps)
  then show ?case using Cons.prems [of 0] by (auto simp: in_use_simps entry_name_def)
qed

text \<open>What is listed for a right is what \<open>ipc_right_info\<close> tells of it, unless it is stale.\<close>

lemma names_helper_ok:
  assumes ok: "rights_ok E s" and x: "rights s (q, i) = Some (ie_object e, ie_bits e, ie_request e)" and n: "named name i (ie_bits e)"
  shows "\<exists>t. mach_port_names_helper ts e name s = Some (name, t)
    \<and> (\<not> stale s (ie_object e) (ie_bits e) \<longrightarrow> ipc_right_info q name i s = Some ((t, IE_BITS_UREFS (ie_bits e)), s))"
proof -
  let ?b = "ie_bits e" and ?p = "ie_object e"
  obtain e' xs where e': "entry_at (ks_space s) q i e' xs {} (sends_of (ks_space s) q) (ks_space s)" "ie_object e' = ?p" "ie_bits e' = ?b" "ie_request e' = ie_request e"
    using entry_begin(1) [OF rights_okD(1) [OF ok] x] by blast
  note pre = get_entry_at [OF e'(1)] e'(2-4)
  consider (none) "?b AND MACH_PORT_TYPE_RECEIVE = 0" "?b AND MACH_PORT_TYPE_SEND_RIGHTS = 0" | (receive) "?b AND MACH_PORT_TYPE_RECEIVE \<noteq> 0"
    | (send) "?b AND MACH_PORT_TYPE_RECEIVE = 0" "IE_BITS_TYPE ?b = MACH_PORT_TYPE_SEND \<or> IE_BITS_TYPE ?b = MACH_PORT_TYPE_SEND_ONCE" "?b AND MACH_PORT_TYPE_SEND_RIGHTS \<noteq> 0"
    using right_types [OF ok x] by (auto simp: ie_bits)
  then show ?thesis
  proof cases
    case none
    then show ?thesis using pre by (simp add: mach_port_names_helper_def ipc_right_info_def Let_def)
  next
    case receive
    note rr = receive_right [OF ok x receive]
    obtain port where port: "ks_port s ?p = Some port" "port_right_ok port q i ?b (ie_request e)" "ip_active port"
      using port_right(1) [OF ok x rr(2)] rr(3) by auto
    obtain t where "(if ie_request e \<noteq> IE_REQ_NONE then ipc_port_request_type port name (ie_request e) else Some 0) = Some t"
      using request_type_of_right [OF port(2) n] .
    then show ?thesis using pre receive port(1,3) port_right(2) [OF ok x rr(2)]
      by (auto simp: mach_port_names_helper_def ipc_right_info_def require_ip_active_def Let_def split: if_splits)
  next
    case send
    then have pt: "port_type ?b" by (auto simp: port_type_def)
    obtain port where port: "ks_port s ?p = Some port" "port_right_ok port q i ?b (ie_request e)" using port_right(1) [OF ok x pt] by auto
    obtain t where t: "(if ie_request e \<noteq> IE_REQ_NONE then ipc_port_request_type port name (ie_request e) else Some 0) = Some t"
      using request_type_of_right [OF port(2) n] .
    show ?thesis
    proof (cases "ip_active port")
      case True
      then show ?thesis using t pre send port(1) ipc_right_check_live [OF e'(1,2) port(1) True] port_right(2) [OF ok x pt]
        by (auto simp: mach_port_names_helper_def ipc_right_info_def Let_def split: if_splits)
    next
      case False
      then have "stale s ?p ?b" using port(1) send(2) by (simp add: stale_def)
      then show ?thesis using t send port(1) port_right(2) [OF ok x pt]
        by (auto simp: mach_port_names_helper_def Let_def split: if_splits)
    qed
  qed
qed

lemma names_scan_cong:
  assumes "ks_port s' = ks_port s"
  shows "names_scan ts k tab s' = names_scan ts k tab s"
proof -
  have "mach_port_names_helper ts e name s' = mach_port_names_helper ts e name s" for e name
    unfolding mach_port_names_helper_def assms ..
  then show ?thesis by (induction tab arbitrary: k) simp_all
qed

lemma right_of_entry:
  assumes ok: "rights_ok E s" and sp: "ks_space s q = Some sp" "is_active sp"
  shows "right_of s q name = Some v \<longleftrightarrow> (\<exists>i \<in> set (in_use (is_table sp)). name = entry_name i (is_table sp ! i) \<and> v = vis (is_table sp ! i))"
    and "i \<in> set (in_use (is_table sp)) \<Longrightarrow> rights s (q, i) = Some (vis (is_table sp ! i)) \<and> named (entry_name i (is_table sp ! i)) i (ie_bits (is_table sp ! i))
       \<and> MACH_PORT_VALID (entry_name i (is_table sp ! i))"
proof -
  obtain xs where "space_ok sp xs {}" using rights_okD(1) [OF ok] sp by (auto simp: spaces_ok_def)
  then have inv: "space_inv sp xs {} (send_entries (is_table sp))" by (simp add: space_ok_def)
  have z: "entry_type (is_table sp) 0 = MACH_PORT_TYPE_NONE" using space_invD(10) [OF inv] by (simp add: entry_type_def IE_BITS_TYPE_def MACH_PORT_TYPE_NONE_def)
  have len: "i < 2 ^ 24 - 1" if "i < length (is_table sp)" for i using that space_inv_length(2) [OF inv] by (simp add: IPC_ENTRY_DIST_MAX_def)
  have use: "i \<in> set (in_use (is_table sp)) \<longleftrightarrow> rights s (q, i) = Some (vis (is_table sp ! i))" for i
    using sp z by (cases "i = 0") (auto simp: rights_def set_in_use)
  have nm: "named (entry_name i (is_table sp ! i)) i (ie_bits (is_table sp ! i))" if "i \<in> set (in_use (is_table sp))" for i
    using len [of i] that by (simp add: set_in_use entry_name_def named_def)
  have "MACH_PORT_INDEX MACH_PORT_NULL = 0" "MACH_PORT_INDEX MACH_PORT_DEAD = 2 ^ 24 - 1"
    by (simp_all add: MACH_PORT_INDEX_def MACH_PORT_NULL_def MACH_PORT_DEAD_def mask_eq_exp_minus_1)
  moreover have "0 < i" if "i \<in> set (in_use (is_table sp))" for i using that z by (cases "i = 0") (auto simp: set_in_use)
  ultimately show "i \<in> set (in_use (is_table sp)) \<Longrightarrow> rights s (q, i) = Some (vis (is_table sp ! i)) \<and> named (entry_name i (is_table sp ! i)) i (ie_bits (is_table sp ! i))
       \<and> MACH_PORT_VALID (entry_name i (is_table sp ! i))"
    using use nm len [of i] namedD(1) [OF nm] by (fastforce simp: MACH_PORT_VALID_def set_in_use)
  show "right_of s q name = Some v \<longleftrightarrow> (\<exists>i \<in> set (in_use (is_table sp)). name = entry_name i (is_table sp ! i) \<and> v = vis (is_table sp ! i))"
  proof
    assume "right_of s q name = Some v"
    then have v: "rights s (q, MACH_PORT_INDEX name) = Some v" "named name (MACH_PORT_INDEX name) (fst (snd v))" by (cases v; simp add: right_of_iff)+
    then have "v = vis (is_table sp ! MACH_PORT_INDEX name)" using sp by (auto simp: rights_def split: if_splits)
    then show "\<exists>i \<in> set (in_use (is_table sp)). name = entry_name i (is_table sp ! i) \<and> v = vis (is_table sp ! i)"
      using v use [of "MACH_PORT_INDEX name"] namedD(3) [OF v(2)] by (intro bexI [of _ "MACH_PORT_INDEX name"]) (simp_all add: entry_name_def vis_def)
  next
    assume "\<exists>i \<in> set (in_use (is_table sp)). name = entry_name i (is_table sp ! i) \<and> v = vis (is_table sp ! i)"
    then show "right_of s q name = Some v" using use nm namedD(1) [OF nm] by (auto simp: right_of_iff vis_def)
  qed
qed

lemma mach_port_names_ok:
  assumes ok: "rights_ok E s" and sp: "ks_space s q = Some sp" "is_active sp" and m: "mem_ok (vm_map_round_page page (is_table_size sp * 4))"
  obtains xs s' where "mach_port_names page mem_ok (\<lambda>k s. s) q s = Some ((KERN_SUCCESS, xs), s')" "rights_ok E s'" "rights s' = rights s"
    "distinct (map fst xs)" "\<And>name. name \<in> fst ` set xs \<longleftrightarrow> right_of s q name \<noteq> None"
    "\<And>name t obj b r. (name, t) \<in> set xs \<Longrightarrow> right_of s q name = Some (obj, b, r) \<Longrightarrow> \<not> stale s obj b \<Longrightarrow> mach_port_type q name s
       = Some ((KERN_SUCCESS, t AND NOT (MACH_PORT_TYPE_SPREQUEST OR MACH_PORT_TYPE_SPREQUEST_DELAYED)), s)"
proof -
  let ?tab = "is_table sp" and ?s = "snd (ipc_port_timestamp s)" and ?ts = "fst (ipc_port_timestamp s)"
  let ?n = "\<lambda>i. entry_name i (?tab ! i)"
  note re = right_of_entry [OF ok sp]
  have s': "rights_ok E ?s" "rights ?s = rights s" using rights_ok_log [OF ok, of ?s] by (simp_all add: ipc_port_timestamp_def)
  have "\<exists>t. mach_port_names_helper ?ts (?tab ! i) (?n i) s = Some (?n i, t) \<and>
      (\<not> stale s (ie_object (?tab ! i)) (ie_bits (?tab ! i)) \<longrightarrow> ipc_right_info q (?n i) i s = Some ((t, IE_BITS_UREFS (ie_bits (?tab ! i))), s))"
    if "i \<in> set (in_use ?tab)" for i
    using names_helper_ok [OF ok, of q i "?tab ! i"] re(2) [OF that] by (simp add: vis_def)
  then obtain f where f: "\<And>i. i \<in> set (in_use ?tab) \<Longrightarrow> mach_port_names_helper ?ts (?tab ! i) (?n i) s = Some (?n i, f i)"
      "\<And>i. i \<in> set (in_use ?tab) \<Longrightarrow> \<not> stale s (ie_object (?tab ! i)) (ie_bits (?tab ! i)) \<Longrightarrow>
         ipc_right_info q (?n i) i s = Some ((f i, IE_BITS_UREFS (ie_bits (?tab ! i))), s)"
    by metis
  let ?xs = "map (\<lambda>i. (?n i, f i)) (in_use ?tab)"
  have "names_scan ?ts 0 ?tab s = Some ?xs" using names_scan_ok [of ?tab ?ts 0 s f] f(1) by simp
  then have scan: "names_scan ?ts 0 ?tab ?s = Some ?xs" using names_scan_cong [of ?s s] by (simp add: ipc_port_timestamp_def)
  obtain ys where "space_ok sp ys {}" using rights_okD(1) [OF ok] sp by (auto simp: spaces_ok_def)
  then have sz: "is_table_size sp = length ?tab" by (simp add: space_ok_def space_inv_def)
  show thesis
  proof (rule that [OF _ s'])
    show "mach_port_names page mem_ok (\<lambda>k s. s) q s = Some ((KERN_SUCCESS, ?xs), ?s)"
      using scan sp sz space_nonnull [OF ok sp(1)] names_buffer_alone [OF sp, of mem_ok page, OF m]
      by (simp add: mach_port_names_def case_prod_beta ipc_port_timestamp_def)
    have "inj_on ?n (set (in_use ?tab))" using re(2) namedD(1) by (metis (no_types, lifting) inj_onI)
    then show "distinct (map fst ?xs)" by (simp add: o_def distinct_map set_in_use(2))
    show "name \<in> fst ` set ?xs \<longleftrightarrow> right_of s q name \<noteq> None" for name
    proof -
      have "name \<in> fst ` set ?xs \<longleftrightarrow> (\<exists>i \<in> set (in_use ?tab). name = ?n i)" by (auto simp: image_iff)
      also have "\<dots> \<longleftrightarrow> (\<exists>v. right_of s q name = Some v)" unfolding re(1) by blast
      finally show ?thesis by simp
    qed
  next
    fix name t obj b r assume a: "(name, t) \<in> set ?xs" "right_of s q name = Some (obj, b, r)" "\<not> stale s obj b"
    then obtain i where i: "i \<in> set (in_use ?tab)" "name = ?n i" "t = f i" by auto
    have "MACH_PORT_INDEX name = i" using re(2) [OF i(1)] i(2) namedD(1) by blast
    then have "ie_object (?tab ! i) = obj" "ie_bits (?tab ! i) = b" using a(2) re(2) [OF i(1)] by (simp_all add: right_of_iff vis_def)
    then have "ipc_right_info q name i s = Some ((t, IE_BITS_UREFS b), s)" using f(2) [OF i(1)] a(3) i(2,3) by simp
    moreover have "q \<noteq> 0" "ipc_right_lookup_write q name s = Some (KERN_SUCCESS, i)"
      using right_of_found [OF ok a(2)] \<open>MACH_PORT_INDEX name = i\<close> by metis+
    ultimately show "mach_port_type q name s = Some ((KERN_SUCCESS, t AND NOT (MACH_PORT_TYPE_SPREQUEST OR MACH_PORT_TYPE_SPREQUEST_DELAYED)), s)"
      using re(2) [OF i(1)] i(2) by (auto simp: mach_port_type_def MACH_PORT_VALID_def)
  qed
qed

section \<open>Properties\<close>

lemma built_right: "\<exists>b. right_of built_kst 0x20 built_name = Some (0x1000, b, IE_REQ_NONE) \<and> IE_BITS_TYPE b = MACH_PORT_TYPE_SEND_RECEIVE \<and> IE_BITS_UREFS b = 1"
  "MACH_PORT_VALID built_name"
  using built_ok(2) by (auto simp: gains_right_def right_of_iff)

lemma built_current: "right_of built_kst 0x20 built_name = Some v \<Longrightarrow> current_type built_kst v = MACH_PORT_TYPE_SEND_RECEIVE"
  using built_right(1) by (auto simp: current_type_def stale_def ie_bits_defs)

text \<open>
  C19. \<open>mach_port_type\<close> is sound: for a name that denotes a right it returns, never panics and tells the type that the right
  has when the call returns, one of the six legal types, with no other bit than \<open>MACH_PORT_TYPE_DNREQUEST\<close>. A send or
  send-once right whose port is dead has turned into a dead name; any other right, and every right of another name,
  is untouched.
\<close>

theorem mach_port_type_sound:
  assumes "rights_ok E s" "right_of s q name = Some v" "MACH_PORT_VALID name"
  shows "\<exists>t s' v'. mach_port_type q name s = Some ((KERN_SUCCESS, t), s') \<and> looked_at E s q name v s' v'
     \<and> t \<in> {current_type s v, current_type s v OR MACH_PORT_TYPE_DNREQUEST}"
  by (rule mach_port_type_ok [OF assms])

theorem mach_port_type_sound_witness:
  "\<exists>v t s' v'. right_of built_kst 0x20 built_name = Some v \<and> mach_port_type 0x20 built_name built_kst = Some ((KERN_SUCCESS, t), s')
    \<and> looked_at example_env built_kst 0x20 built_name v s' v' \<and> t \<in> {MACH_PORT_TYPE_SEND_RECEIVE, MACH_PORT_TYPE_SEND_RECEIVE OR MACH_PORT_TYPE_DNREQUEST}"
proof -
  obtain v where v: "right_of built_kst 0x20 built_name = Some v" using built_right(1) by blast
  show ?thesis using mach_port_type_sound [OF built_ok(1) v built_right(2)] v built_current [OF v] by metis
qed

text \<open>
  C20. \<open>mach_port_get_refs\<close> counts exactly: for a name that denotes a right and any kind of right it returns the user references
  of that kind, zero when the name has no right of the kind, one for receive rights, send-once rights and port sets, and the
  user references of the entry for send rights and dead names. Its assertions on the counts never fail.
\<close>

theorem mach_port_get_refs_exact:
  assumes "rights_ok E s" "right_of s q name = Some v" "MACH_PORT_VALID name" "right_number right < 6"
  shows "\<exists>s' v'. mach_port_get_refs q name right s
       = Some ((KERN_SUCCESS, if current_type s v AND MACH_PORT_TYPE right = 0 then 0
           else if right = MACH_PORT_RIGHT_SEND \<or> right = MACH_PORT_RIGHT_DEAD_NAME then IE_BITS_UREFS (fst (snd v')) else 1), s')
     \<and> looked_at E s q name v s' v'"
  by (rule mach_port_get_refs_ok [OF assms])

theorem mach_port_get_refs_exact_witness:
  "\<exists>s' v v'. mach_port_get_refs 0x20 built_name MACH_PORT_RIGHT_RECEIVE built_kst = Some ((KERN_SUCCESS, 1), s')
    \<and> looked_at example_env built_kst 0x20 built_name v s' v'"
proof -
  obtain v where v: "right_of built_kst 0x20 built_name = Some v" using built_right(1) by blast
  have "MACH_PORT_TYPE_SEND_RECEIVE AND MACH_PORT_TYPE MACH_PORT_RIGHT_RECEIVE \<noteq> 0" by (simp add: ie_bits_defs)
  moreover obtain s' v' where "mach_port_get_refs 0x20 built_name MACH_PORT_RIGHT_RECEIVE built_kst
      = Some ((KERN_SUCCESS, if current_type built_kst v AND MACH_PORT_TYPE MACH_PORT_RIGHT_RECEIVE = 0 then 0 else 1), s')"
      "looked_at example_env built_kst 0x20 built_name v s' v'"
    using mach_port_get_refs_exact [OF built_ok(1) v built_right(2), of MACH_PORT_RIGHT_RECEIVE] by auto
  ultimately show ?thesis using built_current [OF v] by (intro exI [of _ s'] exI [of _ v] exI [of _ v']) simp
qed

text \<open>
  C26. The loop with which \<open>mach_port_names\<close> makes room for the names ends, whatever other threads do to the space while the
  lock is dropped, as long as the table of the space stays below some bound, since the room grows in every
  turn. It ends with an error, or with the lock held on an active space.
\<close>

theorem mach_port_names_buffer_ends:
  assumes "table_bounded q B s" "\<And>k s. table_bounded q B s \<Longrightarrow> table_bounded q B (others k s)"
  shows "\<exists>kr s'. names_buffer page mem_ok others q 0 0 s = Some (kr, s') \<and> table_bounded q B s'
    \<and> (kr = KERN_SUCCESS \<longrightarrow> (\<exists>sp. ks_space s' q = Some sp \<and> is_active sp)) \<and> kr \<in> {KERN_SUCCESS, KERN_INVALID_TASK, KERN_RESOURCE_SHORTAGE}"
  by (rule names_buffer_ok [OF assms])

theorem mach_port_names_buffer_ends_witness:
  "\<exists>kr s'. names_buffer 4096 (\<lambda>n. True) (\<lambda>k s. put_space s 0x20 (example_space\<lparr>is_table_size := if k < 3 then 2000 * k else 4\<rparr>)) 0x20 0 0 new_kst = Some (kr, s')
    \<and> table_bounded 0x20 4000 s'"
proof -
  let ?others = "\<lambda>k s. put_space s 0x20 (example_space\<lparr>is_table_size := if k < 3 then 2000 * k else 4\<rparr>)"
  have "table_bounded 0x20 4000 new_kst" using new_kst_ok(2) by (auto simp: table_bounded_def example_space_def)
  moreover have "table_bounded 0x20 4000 (?others k s)" for k s by (auto simp: table_bounded_def)
  ultimately show ?thesis
    using mach_port_names_buffer_ends [of "0x20" 4000 new_kst ?others 4096 "\<lambda>n. True"] by blast
qed


lemma built_space: "\<exists>sp. ks_space built_kst 0x20 = Some sp \<and> is_active sp"
proof -
  obtain b where "right_of built_kst 0x20 built_name = Some (0x1000, b, IE_REQ_NONE)" using built_right(1) by blast
  then show ?thesis by (rule right_of_found [OF built_ok(1)]) blast
qed


end
