(* ===== verification/Mach_Trace.thy ===== *)
theory Mach_Trace
  imports Mach_Info
begin

text \<open>
  Sequences of system calls of several tasks. A task is its space; a step is one call of one task, in any order, as the locks
  of the kernel arrange it. The interface \<open>isolated_calls\<close> says what each call promises: it returns, keeps the invariant and
  changes nothing in the view of another task. What follows for all sequences is proved from the interface.
\<close>

section \<open>Sequences of calls\<close>

fun run_calls :: "('t \<Rightarrow> 'c \<Rightarrow> 's \<Rightarrow> ('r \<times> 's) option) \<Rightarrow> ('t \<times> 'c) list \<Rightarrow> 's \<Rightarrow> ('r list \<times> 's) option" where
  "run_calls step [] s = Some ([], s)"
| "run_calls step ((t, c) # cs) s = do {
     (r, s) \<leftarrow> step t c s;
     (rs, s) \<leftarrow> run_calls step cs s;
     Some (r # rs, s)
   }"

text \<open>Every call of a sequence is allowed in the state in which it is made.\<close>

fun all_allowed :: "('t \<Rightarrow> 'c \<Rightarrow> 's \<Rightarrow> ('r \<times> 's) option) \<Rightarrow> ('t \<Rightarrow> 'c \<Rightarrow> 's \<Rightarrow> bool) \<Rightarrow> ('t \<times> 'c) list \<Rightarrow> 's \<Rightarrow> bool" where
  "all_allowed step allowed [] s = True"
| "all_allowed step allowed ((t, c) # cs) s = (allowed t c s \<and>
     (case step t c s of None \<Rightarrow> True | Some (r, s) \<Rightarrow> all_allowed step allowed cs s))"

inductive reachable :: "('t \<Rightarrow> 'c \<Rightarrow> 's \<Rightarrow> ('r \<times> 's) option) \<Rightarrow> ('t \<Rightarrow> 'c \<Rightarrow> 's \<Rightarrow> bool) \<Rightarrow> 's \<Rightarrow> 's \<Rightarrow> bool"
  for step allowed s0 where
  start: "reachable step allowed s0 s0"
| call: "reachable step allowed s0 s \<Longrightarrow> allowed t c s \<Longrightarrow> step t c s = Some (r, s') \<Longrightarrow> reachable step allowed s0 s'"

locale isolated_calls =
  fixes step :: "'t \<Rightarrow> 'c \<Rightarrow> 's \<Rightarrow> ('r \<times> 's) option" and allowed :: "'t \<Rightarrow> 'c \<Rightarrow> 's \<Rightarrow> bool"
    and inv :: "'s \<Rightarrow> bool" and view :: "'t \<Rightarrow> 's \<Rightarrow> 'v"
  assumes returns: "inv s \<Longrightarrow> allowed t c s \<Longrightarrow> \<exists>r s'. step t c s = Some (r, s') \<and> inv s' \<and> (\<forall>u. u \<noteq> t \<longrightarrow> view u s' = view u s)"
begin

lemma step_inv: "inv s \<Longrightarrow> allowed t c s \<Longrightarrow> step t c s = Some (r, s') \<Longrightarrow> inv s'"
  using returns [of s t c] by auto

lemma reachable_inv: "reachable step allowed s0 s \<Longrightarrow> inv s0 \<Longrightarrow> inv s"
  by (induction rule: reachable.induct) (auto intro: step_inv)

lemma reachable_progress:
  assumes "reachable step allowed s0 s" "inv s0" "allowed t c s"
  shows "\<exists>r s'. step t c s = Some (r, s') \<and> inv s'"
  using returns [OF reachable_inv [OF assms(1,2)] assms(3)] by blast

lemma run_isolated:
  assumes "inv s" "all_allowed step allowed cs s"
  shows "\<exists>rs s'. run_calls step cs s = Some (rs, s') \<and> length rs = length cs \<and> inv s' \<and> (\<forall>u. u \<notin> fst ` set cs \<longrightarrow> view u s' = view u s)"
  using assms
proof (induction cs arbitrary: s)
  case Nil
  then show ?case by simp
next
  case (Cons a cs)
  obtain t c where a: "a = (t, c)" by (cases a)
  obtain r s1 where s1: "step t c s = Some (r, s1)" "inv s1" "\<forall>u. u \<noteq> t \<longrightarrow> view u s1 = view u s"
    using returns [of s t c] Cons.prems a by auto
  obtain rs s' where "run_calls step cs s1 = Some (rs, s')" "length rs = length cs" "inv s'" "\<forall>u. u \<notin> fst ` set cs \<longrightarrow> view u s' = view u s1"
    using Cons.IH [OF s1(2)] Cons.prems(2) a s1(1) by auto
  then show ?case using a s1 by (auto simp: image_iff)
qed

lemma run_reachable: "reachable step allowed s0 s \<Longrightarrow> all_allowed step allowed cs s \<Longrightarrow> run_calls step cs s = Some (rs, s') \<Longrightarrow> reachable step allowed s0 s'"
proof (induction cs arbitrary: s rs)
  case (Cons a cs)
  then show ?case by (cases a) (auto split: bind_splits, blast intro: reachable.call)
qed simp

end

section \<open>The calls on ports\<close>

datatype port_call =
    Port_allocate ptr mach_port_right_t | Port_construct ptr mach_port_options_t "64 word"
  | Port_destroy mach_port_name_t | Port_deallocate mach_port_name_t
  | Port_mod_refs mach_port_name_t mach_port_right_t "32 word" | Port_destruct mach_port_name_t "32 word" "64 word"
  | Port_type mach_port_name_t | Port_get_refs mach_port_name_t mach_port_right_t
  | Port_set_mscount mach_port_name_t "32 word" | Port_set_seqno mach_port_name_t "32 word"
  | Port_set_context mach_port_name_t "64 word" | Port_guard mach_port_name_t "64 word" bool
  | Port_guard_with_flags mach_port_name_t "64 word" "64 word"
  | Port_unguard mach_port_name_t "64 word" | Port_swap_guard mach_port_name_t "64 word" "64 word"
  | Port_set_attributes mach_port_name_t mach_port_flavor_t "32 word" nat
  | Port_request_notification mach_port_name_t mach_msg_id_t "32 word" ptr

fun do_call :: "kenv \<Rightarrow> ptr \<Rightarrow> port_call \<Rightarrow> kst \<Rightarrow> (kern_return_t \<times> kst) option" where
  "do_call E q (Port_allocate obj right) s = map_option (map_prod fst id) (mach_port_allocate E obj q right 0 s)"
| "do_call E q (Port_construct obj options c) s = map_option (map_prod fst id) (mach_port_construct E alone obj q options c s)"
| "do_call E q (Port_destroy name) s = mach_port_destroy E q name s"
| "do_call E q (Port_deallocate name) s = mach_port_deallocate E q name s"
| "do_call E q (Port_mod_refs name right delta) s = mach_port_mod_refs E q name right delta s"
| "do_call E q (Port_destruct name srdelta guard) s = mach_port_destruct E q name srdelta guard s"
| "do_call E q (Port_type name) s = map_option (map_prod fst id) (mach_port_type q name s)"
| "do_call E q (Port_get_refs name right) s = map_option (map_prod fst id) (mach_port_get_refs q name right s)"
| "do_call E q (Port_set_mscount name n) s = mach_port_set_mscount q name n s"
| "do_call E q (Port_set_seqno name n) s = mach_port_set_seqno q name n s"
| "do_call E q (Port_set_context name c) s = mach_port_set_context q name c s"
| "do_call E q (Port_guard name guard strict) s = mach_port_guard q name guard strict s"
| "do_call E q (Port_guard_with_flags name guard flags) s = mach_port_guard_with_flags q name guard flags s"
| "do_call E q (Port_unguard name guard) s = mach_port_unguard q name guard s"
| "do_call E q (Port_swap_guard name old new) s = mach_port_swap_guard q name old new s"
| "do_call E q (Port_set_attributes name flavor info count) s = mach_port_set_attributes E (\<lambda>s. s) q name flavor info count s"
| "do_call E q (Port_request_notification name mid sync notify) s =
     map_option (map_prod fst id) (mach_port_request_notification E (\<lambda>k s. s) q name mid sync notify s)"

text \<open>
  What a call relies on: the space of the task exists; a call that creates a right finds room in it and is given a new
  object; a port that keeps a backup has room for a reference; and, where the code does not keep the
  invariant, that the call is not made: \<open>mach_port_destroy\<close> of a guarded receive right.
\<close>

fun call_allowed :: "kenv \<Rightarrow> ptr \<Rightarrow> port_call \<Rightarrow> kst \<Rightarrow> bool" where
  "call_allowed E q (Port_allocate obj right) s \<longleftrightarrow> fresh_object obj s \<and> (case ks_space s q of None \<Rightarrow> False | Some sp \<Rightarrow> alloc_room E sp)"
| "call_allowed E q (Port_construct obj options c) s \<longleftrightarrow> fresh_object obj s \<and> (case ks_space s q of None \<Rightarrow> False | Some sp \<Rightarrow> alloc_room E sp)"
| "call_allowed E q (Port_destroy name) s \<longleftrightarrow> q \<in> dom (ks_space s) \<and> \<not> guard_violated s (q, MACH_PORT_INDEX name) True 0"
| "call_allowed E q (Port_mod_refs name right delta) s \<longleftrightarrow> q \<in> dom (ks_space s) \<and> room s"
| "call_allowed E q (Port_destruct name srdelta guard) s \<longleftrightarrow> q \<in> dom (ks_space s) \<and> room s"
| "call_allowed E q (Port_set_attributes name flavor info count) s \<longleftrightarrow> q \<in> dom (ks_space s) \<and> flavor \<noteq> MACH_PORT_DNREQUESTS_SIZE"
| "call_allowed E q (Port_request_notification name mid sync notify) s \<longleftrightarrow> q \<in> dom (ks_space s)
     \<and> mid \<notin> {MACH_NOTIFY_SEND_POSSIBLE, MACH_NOTIFY_DEAD_NAME}"
| "call_allowed E q c s \<longleftrightarrow> q \<in> dom (ks_space s)"

definition rights_in :: "ptr \<Rightarrow> kst \<Rightarrow> nat \<rightharpoonup> right" where
  "rights_in q s = (\<lambda>i. rights s (q, i))"

definition returned :: "kenv \<Rightarrow> ptr \<Rightarrow> kst \<Rightarrow> ('r \<times> kst) option \<Rightarrow> bool" where
  "returned E q s res \<longleftrightarrow> (\<exists>r s'. res = Some (r, s') \<and> rights_ok E s' \<and> (\<forall>u. u \<noteq> q \<longrightarrow> rights_in u s' = rights_in u s))"

lemma call_step_returned: "call_step E s q name res \<Longrightarrow> returned E q s res"
  by (auto simp: call_step_def returned_def rights_in_def)

lemma returned_map: "returned E q s res \<Longrightarrow> returned E q s (map_option (map_prod f id) res)"
  by (auto simp: returned_def)

lemma gains_right_view: "gains_right s q name obj ty u s' \<Longrightarrow> u' \<noteq> q \<Longrightarrow> rights_in u' s' = rights_in u' s"
  by (auto simp: gains_right_def rights_in_def)

lemma looked_at_call: "looked_at E s q name v s' v' \<Longrightarrow> res = Some (a, s') \<Longrightarrow> call_step E s q name res"
  by (auto simp: looked_at_def call_step_def)

lemma lookup_none:
  assumes ok: "rights_ok E s" and sp: "ks_space s q = Some sp" and n: "right_of s q name = None"
  obtains kr where "ipc_right_lookup_write q name s = Some (kr, 0)" "kr \<noteq> KERN_SUCCESS"
  using ok sp
proof (cases rule: lookup_write [where name = name])
  case (found i obj b r)
  have "MACH_PORT_INDEX name = i" by (rule namedD(1) [OF found(4)])
  then have "right_of s q name = Some (obj, b, r)" unfolding right_of_iff using found(3,4) by blast
  then show ?thesis using n by simp
qed (use that in simp_all)

lemma mach_port_type_step:
  assumes ok: "rights_ok E s" and sp: "ks_space s q = Some sp"
  shows "call_step E s q name (mach_port_type q name s)"
proof (cases "MACH_PORT_VALID name")
  case True
  show ?thesis
  proof (cases "right_of s q name")
    case None
    then obtain kr where "ipc_right_lookup_write q name s = Some (kr, 0)" "kr \<noteq> KERN_SUCCESS" using lookup_none [OF ok sp] by blast
    then show ?thesis by (simp add: mach_port_type_def call_step_refl [OF ok])
  next
    case (Some v)
    from mach_port_type_ok [OF ok Some True] show ?thesis by (elim exE conjE) (rule looked_at_call)
  qed
qed (use space_nonnull [OF ok sp] in \<open>auto simp: mach_port_type_def MACH_PORT_VALID_def intro!: call_step_refl [OF ok]\<close>)

lemma mach_port_get_refs_step:
  assumes ok: "rights_ok E s" and sp: "ks_space s q = Some sp"
  shows "call_step E s q name (mach_port_get_refs q name right s)"
proof (cases "MACH_PORT_VALID name \<and> right_number right < 6")
  case True
  show ?thesis
  proof (cases "right_of s q name")
    case None
    then obtain kr where "ipc_right_lookup_write q name s = Some (kr, 0)" "kr \<noteq> KERN_SUCCESS" using lookup_none [OF ok sp] by blast
    then show ?thesis using True by (simp add: mach_port_get_refs_def call_step_refl [OF ok])
  next
    case (Some v)
    from True mach_port_get_refs_ok [OF ok Some] show ?thesis by (elim conjE) (blast intro: looked_at_call)
  qed
qed (use space_nonnull [OF ok sp] in \<open>auto simp: mach_port_get_refs_def intro!: call_step_refl [OF ok]\<close>)

lemma mach_port_request_notification_step:
  assumes ok: "rights_ok E s" and sp: "ks_space s q = Some sp" and m: "mid \<notin> {MACH_NOTIFY_SEND_POSSIBLE, MACH_NOTIFY_DEAD_NAME}"
  shows "call_step E s q name (mach_port_request_notification E others q name mid sync notify s)"
  using m request_port_destroyed_step [OF ok sp] request_no_senders_step [OF ok sp] space_nonnull [OF ok sp]
  by (cases mid) (simp_all add: mach_port_request_notification_def call_step_refl [OF ok])

lemma mach_port_allocate_returned:
  assumes ok: "rights_ok E s" and sp: "ks_space s q = Some sp" and rm: "alloc_room E sp" and obj: "fresh_object obj s"
  shows "returned E q s (mach_port_allocate E obj q right 0 s)"
proof (cases "allocatable right")
  case True
  obtain new s' where "mach_port_allocate E obj q right 0 s = Some ((KERN_SUCCESS, new), s')" "rights_ok E s'"
    "gains_right s q new (if right = MACH_PORT_RIGHT_DEAD_NAME then IO_NULL else obj) (MACH_PORT_TYPE right)
       (of_bool (right = MACH_PORT_RIGHT_DEAD_NAME)) s'" by (rule mach_port_allocate_ok [OF ok sp rm obj True, of 0])
  then show ?thesis using gains_right_view unfolding returned_def by blast
next
  case False
  then have "mach_port_allocate E obj q right 0 s = Some ((KERN_INVALID_VALUE, 0), s)"
    using space_nonnull [OF ok sp] by (cases right)
      (auto simp: allocatable_def mach_port_allocate_def mach_port_allocate_full_def mach_port_allocate_internal_def qos_template_def)
  then show ?thesis using ok by (simp add: returned_def)
qed

lemma mach_port_construct_returned:
  assumes ok: "rights_ok E s" and sp: "ks_space s q = Some sp" and rm: "alloc_room E sp" and obj: "fresh_object obj s"
  shows "returned E q s (mach_port_construct E alone obj q options c s)"
proof (cases "fst (construct_flags E options) = KERN_SUCCESS")
  case True
  then have "construct_flags E options = (KERN_SUCCESS, snd (construct_flags E options))" by (metis prod.collapse)
  from mach_port_construct_ok [OF assms this, of c] show ?thesis
  proof (elim exE conjE, goal_cases)
    case (1 name s')
    have "rights_in u s' = rights_in u s" if "u \<noteq> q" for u
    proof (cases "limit_too_large options")
      case True
      then show ?thesis using 1(3) by (simp add: rights_in_def)
    next
      case False
      then show ?thesis using 1(3) by (simp only: if_False) (blast intro: gains_right_view [OF _ that])
    qed
    then show ?case using 1(1,2) unfolding returned_def by blast
  qed
next
  case False
  then show ?thesis using ok space_nonnull [OF ok sp] by (auto simp: mach_port_construct_def returned_def split: prod.splits)
qed

lemma do_call_returned:
  assumes ok: "rights_ok E s" and a: "call_allowed E q c s"
  shows "returned E q s (do_call E q c s)"
proof -
  obtain sp where sp: "ks_space s q = Some sp" using a by (cases c) (auto split: option.splits)
  note steps = mach_port_destroy_step [OF ok sp, THEN call_step_returned] mach_port_deallocate_step [OF ok sp, THEN call_step_returned]
    mach_port_mod_refs_step [OF ok sp, THEN call_step_returned] mach_port_destruct_step [OF ok sp, THEN call_step_returned]
    mach_port_type_step [OF ok sp, THEN call_step_returned] mach_port_get_refs_step [OF ok sp, THEN call_step_returned]
    mach_port_set_mscount_step [OF ok sp, THEN call_step_returned] mach_port_set_seqno_step [OF ok sp, THEN call_step_returned]
    mach_port_set_context_step [OF ok sp, THEN call_step_returned] mach_port_guard_step [OF ok sp, THEN call_step_returned]
    mach_port_guard_with_flags_step [OF ok sp, THEN call_step_returned] mach_port_unguard_step [OF ok sp, THEN call_step_returned]
    mach_port_swap_guard_step [OF ok sp, THEN call_step_returned] mach_port_set_attributes_step [OF ok sp, THEN call_step_returned]
    mach_port_request_notification_step [OF ok sp, THEN call_step_returned]
    mach_port_allocate_returned [OF ok sp] mach_port_construct_returned [OF ok sp]
  show ?thesis using a sp by (cases c) (simp_all add: steps returned_map)
qed

section \<open>The calls keep their promise\<close>

interpretation calls: isolated_calls "do_call E" "call_allowed E" "rights_ok E" rights_in for E
  by unfold_locales (use do_call_returned in \<open>simp add: returned_def\<close>)

section \<open>Properties\<close>


lemma built_reachable: "reachable (do_call example_env) (call_allowed example_env) new_kst built_kst"
proof -
  obtain r s' where s': "do_call example_env 0x20 (Port_construct 0x1000 example_options 7) new_kst = Some (r, s')"
    using do_call_returned [OF new_kst_ok(1), of "0x20" "Port_construct 0x1000 example_options 7"] new_kst_ok(2,4) example_space_ok(3)
    by (auto simp: returned_def)
  then have "s' = built_kst" by (auto simp: built_kst_def)
  moreover have "call_allowed example_env 0x20 (Port_construct 0x1000 example_options 7) new_kst"
    using new_kst_ok(2,4) example_space_ok(3) by simp
  ultimately show ?thesis using reachable.call [where step = "do_call example_env", OF reachable.start _ s'] by blast
qed






end
