(* ===== verification/Mach_Refs.thy ===== *)
theory Mach_Refs
  imports Mach_Trace
begin

text \<open>
  Laws that relate the calls to each other and to a reference description: \<open>mach_port_deallocate\<close> is \<open>mach_port_mod_refs\<close> by -1,
  the user references are clamped arithmetic, guards protect receive rights and come off again, constructing and
  destructing cancel out. Three theorems pin down places where the code does not do what it means to.
\<close>

section \<open>Dropping a user reference\<close>

text \<open>The kinds of right that a type has for \<open>mach_port_deallocate\<close> to drop.\<close>

definition dropped_kind :: "32 word \<Rightarrow> mach_port_right_t option" where
  "dropped_kind ty = (if ty = MACH_PORT_TYPE_SEND \<or> ty = MACH_PORT_TYPE_SEND_RECEIVE then Some MACH_PORT_RIGHT_SEND
     else if ty = MACH_PORT_TYPE_SEND_ONCE then Some MACH_PORT_RIGHT_SEND_ONCE
     else if ty = MACH_PORT_TYPE_DEAD_NAME then Some MACH_PORT_RIGHT_DEAD_NAME
     else if ty = MACH_PORT_TYPE_PORT_SET then Some MACH_PORT_RIGHT_PORT_SET else None)"

lemma urefs_delta_minus:
  assumes "u \<noteq> 0" "u < MACH_PORT_UREFS_MAX"
  shows "urefs_delta u (- 1) = Some (- 1)"
proof -
  have u: "0 < uint u" "uint u < 0xffff" using assms by (simp_all add: word_less_def MACH_PORT_UREFS_MAX_def word_neq_0_conv uint_0_iff)
  then show ?thesis by (auto simp: urefs_delta_def MACH_PORT_UREFS_MAX_def MACH_PORT_UREFS_UNDERFLOW_def MACH_PORT_UREFS_OVERFLOW_def word_less_def word_sless_alt)
qed

lemma entry_of_right:
  assumes "rights_ok E s" "rights s (q, i) = Some (p, b, r)"
  obtains e where "get_entry q i s = Some e" "ie_object e = p" "ie_bits e = b" "ie_request e = r" "assert_active q s = Some ()"
    "\<And>port name flags. ks_port s p = Some port \<Longrightarrow> ip_active port \<Longrightarrow> ipc_right_check q p name i flags s = Some (False, s)"
proof -
  obtain e xs where e: "entry_at (ks_space s) q i e xs {} (sends_of (ks_space s) q) (ks_space s)" "ie_object e = p" "ie_bits e = b" "ie_request e = r"
    using entry_begin(1) [OF rights_okD(1) [OF assms(1)] assms(2)] by blast
  show thesis using that [OF get_entry_at [OF e(1)] e(2-4) assert_active_at [OF e(1)]] ipc_right_check_live [OF e(1,2)] by blast
qed

lemma dealloc_is_delta:
  assumes ok: "rights_ok E s" and x: "rights s (q, i) = Some (p, b, r)" and n: "named name i b"
    and k: "dropped_kind (IE_BITS_TYPE b) = Some kind" and st: "\<not> stale s p b" and m: "IE_BITS_UREFS b \<noteq> MACH_PORT_UREFS_MAX"
    and pin: "\<And>port. IE_BITS_TYPE b = MACH_PORT_TYPE_SEND_RECEIVE \<Longrightarrow> ks_port s p = Some port \<Longrightarrow> \<not> (pinned_control_port_enabled E \<and> ip_pinned port)"
  shows "ipc_right_dealloc E q name i s = ipc_right_delta E q name i kind (- 1) s"
proof -
  obtain e where e: "get_entry q i s = Some e" "ie_object e = p" "ie_bits e = b" "ie_request e = r" "assert_active q s = Some ()"
      "\<And>port name flags. ks_port s p = Some port \<Longrightarrow> ip_active port \<Longrightarrow> ipc_right_check q p name i flags s = Some (False, s)"
    using entry_of_right [OF ok x] by metis
  have le: "IE_BITS_UREFS b < MACH_PORT_UREFS_MAX" using m IE_BITS_UREFS_le [of b] by simp
  note pre = e(1-5) le urefs_delta_minus [OF _ le]
  have ro: "right_ok (ks_port s) (ks_pset s) (q, i) (p, b, r)" by (rule rights_inv_cases [OF rights_okD(3) [OF ok] x])
  have one: "IE_BITS_UREFS b - 1 = 0 \<longleftrightarrow> IE_BITS_UREFS b = 1" by simp
  consider (set) "IE_BITS_TYPE b = MACH_PORT_TYPE_PORT_SET" "kind = MACH_PORT_RIGHT_PORT_SET" | (dead) "IE_BITS_TYPE b = MACH_PORT_TYPE_DEAD_NAME" "kind = MACH_PORT_RIGHT_DEAD_NAME"
    | (sonce) "IE_BITS_TYPE b = MACH_PORT_TYPE_SEND_ONCE" "kind = MACH_PORT_RIGHT_SEND_ONCE" | (send) "IE_BITS_TYPE b = MACH_PORT_TYPE_SEND" "kind = MACH_PORT_RIGHT_SEND"
    | (both) "IE_BITS_TYPE b = MACH_PORT_TYPE_SEND_RECEIVE" "kind = MACH_PORT_RIGHT_SEND"
    using k by (auto simp: dropped_kind_def split: if_splits)
  then show ?thesis
  proof cases
    case set
    then show ?thesis using pre by (simp add: ipc_right_dealloc_def ipc_right_delta_def ipc_right_dealloc_port_set_def ipc_right_delta_port_set_def ie_bits Let_def)
  next
    case dead
    then have "IE_BITS_UREFS b \<noteq> 0" "b AND MACH_PORT_TYPE_SEND_RIGHTS = 0" "p = IO_NULL" "r = IE_REQ_NONE" using ro by (simp_all add: right_ok_def ie_bits)
    then show ?thesis using pre dead one
      by (simp add: ipc_right_dealloc_def ipc_right_delta_def ipc_right_dealloc_dead_name_def ipc_right_delta_dead_name_def delta_dead_name_def ie_bits Let_def word_neq_0_conv)
  next
    case sonce
    then obtain port where "ks_port s p = Some port" "ip_active port" "IE_BITS_UREFS b = 1" "b AND MACH_PORT_TYPE_SEND_ONCE \<noteq> 0"
      using ro st by (auto simp: right_ok_def port_right_ok_def stale_def ie_bits split: if_splits)
    then show ?thesis using pre e(6) sonce
      by (simp add: ipc_right_dealloc_def ipc_right_delta_def ipc_right_dealloc_send_once_def ipc_right_delta_send_once_def ie_bits Let_def word_sless_alt)
  next
    case send
    then obtain port where "ks_port s p = Some port" "ip_active port" "IE_BITS_UREFS b \<noteq> 0"
      using ro st by (auto simp: right_ok_def port_right_ok_def stale_def ie_bits split: if_splits)
    then show ?thesis using pre e(6) send one
      by (simp add: ipc_right_dealloc_def ipc_right_delta_def ipc_right_dealloc_send_def ipc_right_delta_send_def delta_send_last_def ie_bits Let_def word_neq_0_conv)
  next
    case both
    then obtain port where p: "ks_port s p = Some port" "ip_active port" "IE_BITS_UREFS b \<noteq> 0" "ip_receiver_name port = name" "ip_receiver port = q"
      using ro namedD(3) [OF n] by (auto simp: right_ok_def port_right_ok_def ie_bits split: if_splits)
    then show ?thesis using pre e(6) both one pin [OF both(1) p(1)] counts_pos(1) [OF ok x p(1)] drop_sright_eq [OF p(1)]
      by (auto simp: ipc_right_dealloc_def ipc_right_delta_def ipc_right_dealloc_send_receive_def ipc_right_delta_send_def delta_send_last_def ie_bits Let_def word_neq_0_conv require_ip_active_def send_no_senders_def)
  qed
qed

lemma mach_port_deallocate_eq:
  assumes ok: "rights_ok E s" and v: "right_of s q name = Some (p, b, r)" and n: "MACH_PORT_VALID name"
    and k: "dropped_kind (IE_BITS_TYPE b) = Some kind" and st: "\<not> stale s p b" and m: "IE_BITS_UREFS b \<noteq> MACH_PORT_UREFS_MAX"
    and pin: "\<And>port. IE_BITS_TYPE b = MACH_PORT_TYPE_SEND_RECEIVE \<Longrightarrow> ks_port s p = Some port \<Longrightarrow> \<not> (pinned_control_port_enabled E \<and> ip_pinned port)"
  shows "mach_port_deallocate E q name s = mach_port_mod_refs E q name kind (- 1) s"
proof -
  have x: "rights s (q, MACH_PORT_INDEX name) = Some (p, b, r)" "named name (MACH_PORT_INDEX name) b" using v by (simp_all add: right_of_iff)
  have "q \<noteq> 0" "ipc_right_lookup_write q name s = Some (KERN_SUCCESS, MACH_PORT_INDEX name)" using right_of_found [OF ok v] by metis+
  moreover have "right_number kind < 6" using k by (auto simp: dropped_kind_def split: if_splits)
  ultimately show ?thesis using dealloc_is_delta [OF ok x k st m pin] n by (simp add: mach_port_deallocate_def mach_port_mod_refs_def)
qed

section \<open>Clamped user references\<close>

text \<open>What a change by \<open>d\<close> makes of \<open>u\<close> user references: they stick at the maximum, and a change below zero is refused.\<close>

definition clamp_urefs :: "int \<Rightarrow> int \<Rightarrow> int option" where
  "clamp_urefs u d = (if \<bar>d\<bar> > 0xffff then None
     else if u = 0xffff then Some (if d = - 0xffff then 0 else 0xffff)
     else if u + d < 0 then None else Some (min 0xffff (u + d)))"

lemma urefs_delta_clamp:
  "map_option (\<lambda>d. uint (IE_BITS_UREFS b + d)) (urefs_delta (IE_BITS_UREFS b) delta) = clamp_urefs (uint (IE_BITS_UREFS b)) (sint delta)"
proof -
  have "IE_BITS_UREFS b = MACH_PORT_UREFS_MAX \<longleftrightarrow> uint (IE_BITS_UREFS b) = 0xffff" using urefs_max_int(1) by (metis word_uint_eqI)
  then show ?thesis using urefs_delta_value [OF IE_BITS_UREFS_le, of b delta] by (simp add: clamp_urefs_def)
qed

lemma mach_port_mod_refs_send_ok:
  assumes ok: "rights_ok E s" and v: "right_of s q name = Some (p, b, r)" and n: "MACH_PORT_VALID name"
    and sd: "b AND MACH_PORT_TYPE_SEND \<noteq> 0" and st: "\<not> stale s p b"
  shows "case clamp_urefs (uint (IE_BITS_UREFS b)) (sint delta) of
      None \<Rightarrow> \<exists>s'. mach_port_mod_refs E q name MACH_PORT_RIGHT_SEND delta s = Some (KERN_INVALID_VALUE, s') \<and> rights_ok E s' \<and> rights s' = rights s
    | Some u \<Rightarrow> u \<noteq> 0 \<longrightarrow> (\<exists>s' b'. mach_port_mod_refs E q name MACH_PORT_RIGHT_SEND delta s = Some (KERN_SUCCESS, s') \<and> rights_ok E s'
        \<and> rights s' = (rights s)((q, MACH_PORT_INDEX name) \<mapsto> (p, b', r)) \<and> named name (MACH_PORT_INDEX name) b'
        \<and> IE_BITS_TYPE b' = IE_BITS_TYPE b \<and> uint (IE_BITS_UREFS b') = u)"
proof -
  let ?i = "MACH_PORT_INDEX name"
  have x: "rights s (q, ?i) = Some (p, b, r)" "named name ?i b" using v by (simp_all add: right_of_iff)
  have l: "q \<noteq> 0" "ipc_right_lookup_write q name s = Some (KERN_SUCCESS, ?i)" using right_of_found [OF ok v] by metis+
  have t: "IE_BITS_TYPE b = MACH_PORT_TYPE_SEND \<or> IE_BITS_TYPE b = MACH_PORT_TYPE_SEND_RECEIVE" using right_types [OF ok x(1)] sd by (auto simp: ie_bits)
  then have pt: "port_type b" by (auto simp: port_type_def)
  obtain port where p: "ks_port s p = Some port" "port_right_ok port q ?i b r" using port_right(1) [OF ok x(1) pt] by blast
  then have act: "ip_active port" using st t by (auto simp: stale_def port_right_ok_def ie_bits)
  obtain e where e: "get_entry q ?i s = Some e" "ie_object e = p" "ie_bits e = b" "ie_request e = r" "assert_active q s = Some ()"
      "ipc_right_check q p name ?i IPC_OBJECT_COPYIN_FLAGS_NONE s = Some (False, s)"
    using entry_of_right [OF ok x(1)] p(1) act by metis
  note pre = l n e p(1) sd port_right(3) [OF ok x(1) pt] counts_pos(1) [OF ok x(1) p(1) sd] mach_port_mod_refs_def ipc_right_delta_def ipc_right_delta_send_def
  note c = urefs_delta_clamp [of b delta]
  show ?thesis
  proof (cases "urefs_delta (IE_BITS_UREFS b) delta")
    case None
    then show ?thesis using c pre rights_ok_log [OF ok, of "mach_port_guard_exception name 0 0 kGUARD_EXC_INVALID_VALUE s"]
      by (auto simp: delta_invalid_value_def mach_port_guard_exception_def)
  next
    case (Some d)
    then have u: "clamp_urefs (uint (IE_BITS_UREFS b)) (sint delta) = Some (uint (IE_BITS_UREFS b + d))" using c by simp
    have "\<exists>s' b'. mach_port_mod_refs E q name MACH_PORT_RIGHT_SEND delta s = Some (KERN_SUCCESS, s') \<and> rights_ok E s'
        \<and> rights s' = (rights s)((q, ?i) \<mapsto> (p, b', r)) \<and> named name ?i b'
        \<and> IE_BITS_TYPE b' = IE_BITS_TYPE b \<and> uint (IE_BITS_UREFS b') = uint (IE_BITS_UREFS b + d)" if nz: "IE_BITS_UREFS b + d \<noteq> 0"
    proof (cases "d = 0")
      case True
      then show ?thesis using Some nz pre ok x by (intro exI [of _ s] exI [of _ b]) auto
    next
      case False
      obtain s1 s' where s': "set_entry q ?i (e\<lparr>ie_bits := b + d\<rparr>) s = Some s1" "entry_modified q name ?i s1 = Some s'"
          "rights_ok E s'" "rights s' = (rights s)((q, ?i) \<mapsto> (p, b + d, r))"
        using uref_change_ok [OF ok x(1) refl sd pt e(1) urefs_delta_bits [OF Some nz]] by blast
      then show ?thesis using Some nz False pre x(2) urefs_add [OF urefs_deltaD [OF Some]] unfolding named_def by (intro exI [of _ s'] exI [of _ "b + d"]) simp
    qed
    then show ?thesis using u by (simp add: uint_0_iff)
  qed
qed

section \<open>Guards\<close>

lemma receive_right_of:
  assumes ok: "rights_ok E s" and v: "right_of s q name = Some (p, b, r)" and b: "b AND MACH_PORT_TYPE_RECEIVE \<noteq> 0"
  shows "ipc_port_translate_receive q name s = Some (KERN_SUCCESS, p)"
    "\<exists>port. ks_port s p = Some port \<and> ip_active port \<and> ip_receiver port = q \<and> ip_receiver_name port = name" "p \<noteq> IP_NULL"
proof -
  have x: "rights s (q, MACH_PORT_INDEX name) = Some (p, b, r)" "named name (MACH_PORT_INDEX name) b" using v by (simp_all add: right_of_iff)
  have pt: "port_type b" using right_types [OF ok x(1)] b by (auto simp: port_type_def ie_bits)
  obtain sp where sp: "ks_space s q = Some sp" using right_of_found [OF ok v] by metis
  from ok sp show "ipc_port_translate_receive q name s = Some (KERN_SUCCESS, p)"
  proof (cases rule: translate_receive [where name = name])
    case failed
    then show ?thesis using x b by blast
  next
    case (receive i p' b' r' port)
    have "MACH_PORT_INDEX name = i" by (rule namedD(1) [OF receive(3)])
    then show ?thesis using receive(1,2) x(1) by simp
  qed
  obtain port where "ks_port s p = Some port" "port_right_ok port q (MACH_PORT_INDEX name) b r" using port_right(1) [OF ok x(1) pt] by blast
  then show "\<exists>port. ks_port s p = Some port \<and> ip_active port \<and> ip_receiver port = q \<and> ip_receiver_name port = name"
    using b namedD(3) [OF x(2)] by (auto simp: port_right_ok_def)
  show "p \<noteq> IP_NULL" by (rule port_right(3) [OF ok x(1) pt])
qed

lemma mach_port_guard_unguard:
  assumes ok: "rights_ok E s" and v: "right_of s q name = Some (p, b, r)" and n: "MACH_PORT_VALID name" and b: "b AND MACH_PORT_TYPE_RECEIVE \<noteq> 0"
    and p: "ks_port s p = Some port" "ip_context port = 0" "\<not> ip_guarded port"
  shows "\<exists>s1. mach_port_guard q name guard strict s = Some (KERN_SUCCESS, s1) \<and> rights_ok E s1 \<and> rights s1 = rights s
    \<and> ks_port s1 p = Some (port\<lparr>ip_context := guard, ip_guarded := True, ip_strict_guard := strict\<rparr>)
    \<and> mach_port_unguard q name guard s1 = Some (KERN_SUCCESS, put_port s p (port\<lparr>ip_strict_guard := False\<rparr>))"
proof -
  let ?p = "port\<lparr>ip_context := guard, ip_guarded := True, ip_strict_guard := strict\<rparr>"
  let ?s = "put_port s p ?p"
  have q: "q \<noteq> 0" using right_of_found [OF ok v] by metis
  have f: "(if strict then MPG_STRICT else 0) AND MPG_STRICT \<noteq> 0 \<longleftrightarrow> strict" "(if strict then MPG_STRICT else 0) AND MPG_IMMOVABLE_RECEIVE = 0"
    by (simp_all add: MPG_STRICT_def MPG_IMMOVABLE_RECEIVE_def)
  have im: "port\<lparr>ip_context := guard, ip_guarded := True, ip_strict_guard := strict, ip_immovable_receive := ip_immovable_receive port\<rparr> = ?p" by simp
  have s1: "rights_ok E ?s" "rights ?s = rights s" by (rule same_rights_ok [OF ok p(1)]; simp add: same_rights_simps)+
  then have v1: "right_of ?s q name = Some (p, b, r)" using v by (simp add: right_of_def)
  have undo: "port\<lparr>ip_context := 0, ip_guarded := False, ip_strict_guard := False\<rparr> = port\<lparr>ip_strict_guard := False\<rparr>" using p(2,3) by (cases port) simp
  have "mach_port_guard q name guard strict s = Some (KERN_SUCCESS, ?s)"
    using q n p receive_right_of(1) [OF ok v b] f im by (simp add: mach_port_guard_def mach_port_guard_locked_def)
  moreover have "mach_port_unguard q name guard ?s = Some (KERN_SUCCESS, put_port s p (port\<lparr>ip_strict_guard := False\<rparr>))"
    using q n receive_right_of(1) [OF s1(1) v1 b] undo by (simp add: mach_port_unguard_def mach_port_unguard_locked_def)
  ultimately show ?thesis using s1 by auto
qed

text \<open>The calls that a guard is there to refuse leave everything but the log of exceptions as it is.\<close>

lemma guard_refuses:
  assumes ok: "rights_ok E s" and v: "right_of s q name = Some (p, b, r)" and n: "MACH_PORT_VALID name" and b: "b AND MACH_PORT_TYPE_RECEIVE \<noteq> 0"
    and p: "ks_port s p = Some port" "ip_guarded port" and g: "guard \<noteq> ip_context port"
  shows "\<exists>s'. mach_port_unguard q name guard s = Some (KERN_INVALID_ARGUMENT, s') \<and> same_but_log s s'"
    "\<exists>s'. mach_port_swap_guard q name guard new s = Some (KERN_INVALID_ARGUMENT, s') \<and> same_but_log s s'"
    "\<exists>s'. mach_port_destruct E q name 0 guard s = Some (KERN_INVALID_ARGUMENT, s') \<and> same_but_log s s'"
    "\<exists>s'. mach_port_mod_refs E q name MACH_PORT_RIGHT_RECEIVE (- 1) s = Some (KERN_INVALID_RIGHT, s') \<and> same_but_log s s'"
proof -
  let ?i = "MACH_PORT_INDEX name"
  have x: "rights s (q, ?i) = Some (p, b, r)" using v by (simp add: right_of_iff)
  have l: "q \<noteq> 0" "ipc_right_lookup_write q name s = Some (KERN_SUCCESS, ?i)" using right_of_found [OF ok v] by metis+
  note tr = receive_right_of [OF ok v b]
  obtain e where e: "get_entry q ?i s = Some e" "ie_object e = p" "ie_bits e = b" "assert_active q s = Some ()" using entry_of_right [OF ok x] by metis
  have a: "ip_active port" "ip_receiver port = q" "ip_receiver_name port = name" using tr(2) p(1) by auto
  note pre = l n e p g b tr(1,3) a
  show "\<exists>s'. mach_port_unguard q name guard s = Some (KERN_INVALID_ARGUMENT, s') \<and> same_but_log s s'"
    using pre by (auto simp: mach_port_unguard_def mach_port_unguard_locked_def same_but_log_def mach_port_guard_exception_def)
  show "\<exists>s'. mach_port_swap_guard q name guard new s = Some (KERN_INVALID_ARGUMENT, s') \<and> same_but_log s s'"
    using pre by (auto simp: mach_port_swap_guard_def same_but_log_def mach_port_guard_exception_def)
  show "\<exists>s'. mach_port_destruct E q name 0 guard s = Some (KERN_INVALID_ARGUMENT, s') \<and> same_but_log s s'"
    using pre by (simp add: mach_port_destruct_def ipc_right_destruct_def require_ip_active_def Let_def same_but_log_def mach_port_guard_exception_def)
  show "\<exists>s'. mach_port_mod_refs E q name MACH_PORT_RIGHT_RECEIVE (- 1) s = Some (KERN_INVALID_RIGHT, s') \<and> same_but_log s s'"
    using pre by (simp add: mach_port_mod_refs_def ipc_right_delta_def ipc_right_delta_receive_def require_ip_active_def Let_def same_but_log_def mach_port_guard_exception_def)
qed

section \<open>Construction undone\<close>

lemma construct_destruct:
  assumes ok: "rights_ok E s" and sp: "ks_space s q = Some sp" and rm: "alloc_room E sp" and obj: "fresh_object obj s"
    and fl: "construct_flags E options = (KERN_SUCCESS, fl)" and l: "\<not> limit_too_large options"
  defines "send \<equiv> mpo_flags options AND MPO_INSERT_SEND_RIGHT \<noteq> 0"
  shows "\<exists>name s1 s2. mach_port_construct E alone obj q options c s = Some ((KERN_SUCCESS, name), s1)
    \<and> mach_port_destruct E q name (if send then - 1 else 0) c s1 = Some (KERN_SUCCESS, s2) \<and> rights_ok E s2 \<and> rights s2 = rights s"
proof -
  let ?ty = "if send then MACH_PORT_TYPE_SEND_RECEIVE else MACH_PORT_TYPE_RECEIVE"
  obtain name s1 port where s1: "mach_port_construct E alone obj q options c s = Some ((KERN_SUCCESS, name), s1)" "rights_ok E s1"
      "gains_right s q name obj ?ty (of_bool send) s1" "ks_port s1 obj = Some port" "ip_context port = c"
    using mach_port_construct_ok [OF ok sp rm obj fl, of c] l unfolding send_def by auto
  obtain b where b: "rights s1 = (rights s)((q, MACH_PORT_INDEX name) \<mapsto> (obj, b, IE_REQ_NONE))" "named name (MACH_PORT_INDEX name) b"
      "IE_BITS_TYPE b = ?ty" "IE_BITS_UREFS b = of_bool send" "MACH_PORT_VALID name" "rights s (q, MACH_PORT_INDEX name) = None"
    using s1(3) by (auto simp: gains_right_def)
  have x: "rights s1 (q, MACH_PORT_INDEX name) = Some (obj, b, IE_REQ_NONE)" using b(1) by simp
  have "right_of s1 q name = Some (obj, b, IE_REQ_NONE)" using x b(2) by (simp add: right_of_iff)
  from right_of_found [OF s1(2) this] have f: "q \<noteq> 0" "ipc_right_lookup_write q name s1 = Some (KERN_SUCCESS, MACH_PORT_INDEX name)" by metis+
  have "\<exists>s'. ipc_right_destruct E q name (MACH_PORT_INDEX name) (if send then - 1 else 0) c s1 = Some (KERN_SUCCESS, s') \<and> rights_ok E s'
      \<and> rights s' = (rights s1)((q, MACH_PORT_INDEX name) := None)"
    by (rule ipc_right_destruct_gone [OF s1(2) x b(2) _ s1(4)]) (use b(3,4) s1(5) in auto)
  then show ?thesis using s1(1) f b(1,5,6) by (auto simp: mach_port_destruct_def fun_upd_idem)
qed

section \<open>Where the code falls short\<close>

text \<open>
  \<open>ipc_right_destroy\<close> clears the type of the entry before it looks at the guard. When the guard is violated it returns an error, but the right is
  gone: the entry has no type and is not free either, and the port stays active with a receiver that cannot name it.
\<close>

lemma set_entry_untyped:
  assumes sp: "ks_space s q = Some sp" "is_active sp" and x: "rights s (q, i) = Some v" and e: "IE_BITS_TYPE (ie_bits e) = MACH_PORT_TYPE_NONE"
  shows "\<exists>s'. set_entry q i e s = Some s' \<and> rights s' = (rights s)((q, i) := None) \<and> ks_port s' = ks_port s \<and> ks_pset s' = ks_pset s
    \<and> get_entry q i s' = Some e \<and> assert_active q s' = Some ()"
proof -
  have i: "0 < i" "i < length (is_table sp)" using x sp by (auto simp: rights_def split: if_splits)
  let ?sp = "sp\<lparr>is_table := (is_table sp)[i := e]\<rparr>"
  have "set_entry q i e s = Some (put_space s q ?sp)" using sp i by (simp add: set_entry_def on_space_def arr_set_def)
  moreover have "rights (put_space s q ?sp) = (rights s)((q, i) := None)"
    using sp i e by (auto simp: rights_def fun_eq_iff entry_type_def nth_list_update is_active_def)
  ultimately show ?thesis using sp i by (simp add: get_entry_def arr_get_def assert_active_def is_active_def)
qed

lemma destroy_guarded:
  assumes ok: "rights_ok E s" and v: "right_of s q name = Some (p, b, r)" and n: "MACH_PORT_VALID name" and b: "b AND MACH_PORT_TYPE_RECEIVE \<noteq> 0"
    and p: "ks_port s p = Some port" "ip_guarded port" "ip_context port \<noteq> 0"
  shows "\<exists>s'. mach_port_destroy E q name s = Some (KERN_INVALID_RIGHT, s') \<and> rights s' = (rights s)((q, MACH_PORT_INDEX name) := None)
    \<and> ks_port s' = ks_port s \<and> ip_active port \<and> ip_receiver port = q"
proof -
  let ?i = "MACH_PORT_INDEX name"
  have x: "rights s (q, ?i) = Some (p, b, r)" using v by (simp add: right_of_iff)
  obtain sp where l: "ks_space s q = Some sp" "is_active sp" "q \<noteq> 0" "ipc_right_lookup_write q name s = Some (KERN_SUCCESS, ?i)" using right_of_found [OF ok v] .
  obtain e where e: "get_entry q ?i s = Some e" "ie_object e = p" "ie_bits e = b" using entry_of_right [OF ok x] by metis
  have ty: "IE_BITS_TYPE b = MACH_PORT_TYPE_RECEIVE \<or> IE_BITS_TYPE b = MACH_PORT_TYPE_SEND_RECEIVE" using right_types [OF ok x] b by (auto simp: ie_bits)
  have "IE_BITS_TYPE (b AND NOT IE_BITS_TYPE_MASK) = MACH_PORT_TYPE_NONE"
    by (simp add: IE_BITS_TYPE_def MACH_PORT_TYPE_NONE_def and.assoc)
  then obtain s1 where s1: "set_entry q ?i (e\<lparr>ie_bits := b AND NOT IE_BITS_TYPE_MASK\<rparr>) s = Some s1" "rights s1 = (rights s)((q, ?i) := None)"
      "ks_port s1 = ks_port s" "get_entry q ?i s1 = Some (e\<lparr>ie_bits := b AND NOT IE_BITS_TYPE_MASK\<rparr>)" "assert_active q s1 = Some ()"
    using set_entry_untyped [OF l(1,2) x, of "e\<lparr>ie_bits := b AND NOT IE_BITS_TYPE_MASK\<rparr>"] by auto
  note tr = receive_right_of [OF ok v b]
  have a: "ip_active port" "ip_receiver port = q" using tr(2) p(1) by auto
  have ty': "IE_BITS_TYPE b AND MACH_PORT_TYPE_RECEIVE \<noteq> 0" using ty by (auto simp: ie_bits_defs)
  let ?s = "mach_port_guard_exception name 0 (ip_context port) kGUARD_EXC_DESTROY s1"
  have "mach_port_destroy E q name s = Some (KERN_INVALID_RIGHT, ?s)"
    using l(3,4) n e s1(1,3-5) ty ty' tr(3) p a by (auto simp: mach_port_destroy_def ipc_right_destroy_def Let_def)
  moreover have "rights ?s = rights s1" "ks_port ?s = ks_port s1" by (auto intro: rights_cong simp: mach_port_guard_exception_def)
  ultimately show ?thesis using s1(2,3) a by simp
qed

text \<open>
  \<open>mach_port_names_helper\<close> adds a user reference for the request of a dead right without looking whether the count is full: the carry sets the
  bit of a send right in the type.
\<close>

lemma urefs_carry:
  fixes x :: "32 word"
  assumes u: "x AND 0xffff = 0xffff"
  shows "(((x AND NOT 0x1f0000) OR 0x100000) + 1) AND 0x1f0000 = 0x110000"
proof -
  let ?hi = "x AND NOT 0x1fffff"
  have "NOT 0x1f0000 = NOT 0x1fffff OR (0xffff :: 32 word)" by simp
  then have "x AND NOT 0x1f0000 = ?hi OR 0xffff" by (simp only: bit.conj_disj_distrib u)
  then have "(x AND NOT 0x1f0000) OR 0x100000 = ?hi OR 0x10ffff" by (simp only: or.assoc) simp
  also have "\<dots> = ?hi + 0x10ffff" by (rule disjunctive_add_eq_or [symmetric]) (simp add: and.assoc)
  finally have "((x AND NOT 0x1f0000) OR 0x100000) + 1 = ?hi + 0x110000" by simp
  also have "\<dots> = ?hi OR 0x110000" by (rule disjunctive_add_eq_or) (simp add: and.assoc)
  finally show ?thesis by (simp only: bit.conj_disj_distrib2 and.assoc) simp
qed

lemma names_helper_carry:
  assumes b: "IE_BITS_UREFS (ie_bits e) = MACH_PORT_UREFS_MAX" "IE_BITS_TYPE (ie_bits e) = MACH_PORT_TYPE_SEND"
    and p: "IP_VALID (ie_object e)" "ks_port s (ie_object e) = Some port" "\<not> ip_active port" "\<not> IP_TIMESTAMP_ORDER ts (ip_timestamp port)"
    and r: "ie_request e \<noteq> IE_REQ_NONE" "ipc_port_request_type port name (ie_request e) = Some t" "t \<noteq> 0"
  shows "mach_port_names_helper ts e name s = Some (name, MACH_PORT_TYPE_DEAD_NAME OR MACH_PORT_TYPE_SEND)"
proof -
  have "ie_bits e AND 0xffff = 0xffff" using b(1) by (simp add: IE_BITS_UREFS_def IE_BITS_UREFS_MASK_def MACH_PORT_UREFS_MAX_def)
  note c = urefs_carry [OF this]
  have d: "MACH_PORT_TYPE_DEAD_NAME = 0x100000" "IE_BITS_TYPE_MASK = 0x1f0000" "MACH_PORT_TYPE_DEAD_NAME OR MACH_PORT_TYPE_SEND = 0x110000"
    by (simp_all add: ie_bits_defs)
  have "IE_BITS_TYPE (((ie_bits e AND NOT IE_BITS_TYPE_MASK) OR MACH_PORT_TYPE_DEAD_NAME) + 1) = MACH_PORT_TYPE_DEAD_NAME OR MACH_PORT_TYPE_SEND"
    unfolding IE_BITS_TYPE_def d(3) unfolding d(1,2) by (rule c)
  then show ?thesis using type_SEND_tests [OF b(2)] p r by (simp add: mach_port_names_helper_def Let_def)
qed

text \<open>\<open>mach_port_allocate_internal\<close> passes the name on for receive rights and port sets, but not for dead names.\<close>

lemma allocate_name_dead:
  assumes ok: "rights_ok E s" and sp: "ks_space s q = Some sp" and rm: "alloc_room E sp"
  shows "\<exists>new s'. (\<forall>name. MACH_PORT_VALID name \<longrightarrow> mach_port_allocate_name E obj q MACH_PORT_RIGHT_DEAD_NAME name s = Some (KERN_SUCCESS, s'))
    \<and> rights_ok E s' \<and> gains_right s q new IO_NULL MACH_PORT_TYPE_DEAD_NAME 1 s'"
proof -
  obtain new s' where "ipc_object_alloc_dead E q s = Some ((KERN_SUCCESS, new), s')" "rights_ok E s'" "gains_right s q new IO_NULL MACH_PORT_TYPE_DEAD_NAME 1 s'"
    using ipc_object_alloc_dead_ok [OF ok sp rm] .
  then show ?thesis using space_nonnull [OF ok sp]
    by (intro exI [of _ new] exI [of _ s'])
      (simp add: mach_port_allocate_name_def mach_port_allocate_full_def mach_port_allocate_internal_def qos_template_def)
qed

section \<open>Properties\<close>

text \<open>
  C10. Giving up a right with \<open>mach_port_deallocate\<close> is the same as \<open>mach_port_mod_refs\<close> by -1 of the kind that the name has: the same result
  and the same state to the last field, for every send right, send-once right, dead name and port set, unless the right
  is stale, the count is pegged at its maximum, or the send right goes with the receive right of a pinned port (where only
  \<open>mach_port_mod_refs\<close> refuses).
\<close>

theorem mach_port_deallocate_is_mod_refs:
  assumes "rights_ok E s" "right_of s q name = Some (p, b, r)" "MACH_PORT_VALID name"
    "dropped_kind (IE_BITS_TYPE b) = Some kind" "\<not> stale s p b" "IE_BITS_UREFS b \<noteq> MACH_PORT_UREFS_MAX"
    "\<And>port. IE_BITS_TYPE b = MACH_PORT_TYPE_SEND_RECEIVE \<Longrightarrow> ks_port s p = Some port \<Longrightarrow> \<not> (pinned_control_port_enabled E \<and> ip_pinned port)"
  shows "mach_port_deallocate E q name s = mach_port_mod_refs E q name kind (- 1) s"
  by (rule mach_port_deallocate_eq [OF assms])

lemma gains_right_right_of:
  assumes "gains_right s q name obj ty u s'"
  obtains b where "right_of s' q name = Some (obj, b, IE_REQ_NONE)" "IE_BITS_TYPE b = ty" "IE_BITS_UREFS b = u" "MACH_PORT_VALID name"
  using assms by (auto simp: gains_right_def right_of_iff)

theorem mach_port_deallocate_is_mod_refs_witness:
  "\<exists>name s. mach_port_allocate example_env 0x1000 0x20 MACH_PORT_RIGHT_PORT_SET 0 new_kst = Some ((KERN_SUCCESS, name), s)
    \<and> mach_port_deallocate example_env 0x20 name s = mach_port_mod_refs example_env 0x20 name MACH_PORT_RIGHT_PORT_SET (- 1) s"
proof -
  have k: "allocatable MACH_PORT_RIGHT_PORT_SET" by (simp add: allocatable_def)
  obtain name s where a: "mach_port_allocate example_env 0x1000 0x20 MACH_PORT_RIGHT_PORT_SET 0 new_kst = Some ((KERN_SUCCESS, name), s)"
      "rights_ok example_env s" "gains_right new_kst 0x20 name 0x1000 (MACH_PORT_TYPE MACH_PORT_RIGHT_PORT_SET) 0 s"
    using mach_port_allocate_ok [OF new_kst_ok(1,2) example_space_ok(3) new_kst_ok(4) k, of 0] by auto
  obtain b where b: "right_of s 0x20 name = Some (0x1000, b, IE_REQ_NONE)" "IE_BITS_TYPE b = MACH_PORT_TYPE_PORT_SET" "IE_BITS_UREFS b = 0" "MACH_PORT_VALID name"
    using gains_right_right_of [OF a(3)] by (metis MACH_PORT_TYPE_PORT_SET_def)
  have "mach_port_deallocate example_env 0x20 name s = mach_port_mod_refs example_env 0x20 name MACH_PORT_RIGHT_PORT_SET (- 1) s"
    by (rule mach_port_deallocate_is_mod_refs [OF a(2) b(1,4)]) (use b(2,3) in \<open>simp_all add: dropped_kind_def stale_def MACH_PORT_UREFS_MAX_def\<close>)
  with a(1) show ?thesis by blast
qed

text \<open>
  C18. \<open>mach_port_mod_refs\<close> on a send right computes clamped arithmetic on its user references, whatever the 32-bit delta: too large a
  delta, or one below zero references, is refused with \<open>KERN_INVALID_VALUE\<close> and no change; otherwise the count becomes the sum, or
  sticks at 65535, from where it only moves by -65535, and no bit outside the count changes. (A result of zero ends the right.)
\<close>

theorem mach_port_mod_refs_clamps:
  assumes "rights_ok E s" "right_of s q name = Some (p, b, r)" "MACH_PORT_VALID name" "b AND MACH_PORT_TYPE_SEND \<noteq> 0" "\<not> stale s p b"
  shows "case clamp_urefs (uint (IE_BITS_UREFS b)) (sint delta) of
      None \<Rightarrow> \<exists>s'. mach_port_mod_refs E q name MACH_PORT_RIGHT_SEND delta s = Some (KERN_INVALID_VALUE, s') \<and> rights_ok E s' \<and> rights s' = rights s
    | Some u \<Rightarrow> u \<noteq> 0 \<longrightarrow> (\<exists>s' b'. mach_port_mod_refs E q name MACH_PORT_RIGHT_SEND delta s = Some (KERN_SUCCESS, s') \<and> rights_ok E s'
        \<and> rights s' = (rights s)((q, MACH_PORT_INDEX name) \<mapsto> (p, b', r)) \<and> named name (MACH_PORT_INDEX name) b'
        \<and> IE_BITS_TYPE b' = IE_BITS_TYPE b \<and> uint (IE_BITS_UREFS b') = u)"
  by (rule mach_port_mod_refs_send_ok [OF assms])

theorem mach_port_mod_refs_clamps_witness:
  "\<exists>s' b' r. mach_port_mod_refs example_env 0x20 built_name MACH_PORT_RIGHT_SEND 0xffff built_kst = Some (KERN_SUCCESS, s')
    \<and> rights s' (0x20, MACH_PORT_INDEX built_name) = Some (0x1000, b', r) \<and> uint (IE_BITS_UREFS b') = 0xffff"
proof -
  obtain b where b: "right_of built_kst 0x20 built_name = Some (0x1000, b, IE_REQ_NONE)" "IE_BITS_TYPE b = MACH_PORT_TYPE_SEND_RECEIVE" "IE_BITS_UREFS b = 1"
    using built_right(1) by blast
  have "clamp_urefs (uint (IE_BITS_UREFS b)) (sint (0xffff :: 32 word)) = Some 0xffff" using b(3) by (simp add: clamp_urefs_def)
  then show ?thesis
    using mach_port_mod_refs_clamps [OF built_ok(1) b(1) built_right(2), of "0xffff"] b(2) by (auto simp: stale_def ie_bits)
qed


text \<open>A port that was constructed with its context as guard.\<close>

lemma guarded_example:
  obtains name s b port where "mach_port_construct example_env alone 0x1000 0x20 \<lparr>mpo_flags = MPO_CONTEXT_AS_GUARD, mpl_qlimit = 0, mpo_work_interval_port = 0\<rparr> 7 new_kst
      = Some ((KERN_SUCCESS, name), s)" "rights_ok example_env s" "right_of s 0x20 name = Some (0x1000, b, IE_REQ_NONE)" "MACH_PORT_VALID name"
    "b AND MACH_PORT_TYPE_RECEIVE \<noteq> 0" "ks_port s 0x1000 = Some port" "ip_context port = 7" "ip_guarded port"
proof -
  let ?o = "\<lparr>mpo_flags = MPO_CONTEXT_AS_GUARD, mpl_qlimit = 0, mpo_work_interval_port = 0\<rparr>"
  have o: "construct_flags example_env ?o = (KERN_SUCCESS, IPC_PORT_INIT_MESSAGE_QUEUE)" "\<not> limit_too_large ?o"
      "mpo_flags ?o AND MPO_INSERT_SEND_RIGHT = 0" "mpo_flags ?o AND MPO_CONTEXT_AS_GUARD \<noteq> 0"
    by (simp_all add: construct_flags_def limit_too_large_def Let_def MPO_CONTEXT_AS_GUARD_def MPO_INSERT_SEND_RIGHT_def MPO_FILTER_MSG_def
        MPO_TG_BLOCK_TRACKING_def MPO_QLIMIT_def)
  obtain name s port where s: "mach_port_construct example_env alone 0x1000 0x20 ?o 7 new_kst = Some ((KERN_SUCCESS, name), s)" "rights_ok example_env s"
      "gains_right new_kst 0x20 name 0x1000 MACH_PORT_TYPE_RECEIVE 0 s" "ks_port s 0x1000 = Some port" "ip_context port = 7" "ip_guarded port"
    using mach_port_construct_ok [OF new_kst_ok(1,2) example_space_ok(3) new_kst_ok(4) o(1), of 7] o(2-4) by auto
  obtain b where "right_of s 0x20 name = Some (0x1000, b, IE_REQ_NONE)" "IE_BITS_TYPE b = MACH_PORT_TYPE_RECEIVE" "MACH_PORT_VALID name"
    using gains_right_right_of [OF s(3)] by metis
  then show thesis using that [OF s(1,2)] s(4-6) by (auto simp: ie_bits)
qed


text \<open>
  C21. Guarding and unguarding a receive right cancel out: on a port with no guard and no context \<open>mach_port_guard\<close> succeeds and sets exactly the
  guard, its value and its strictness, and \<open>mach_port_unguard\<close> with the same value takes off exactly these: the
  state, log included, is the one before, with the strictness cleared.
\<close>

theorem mach_port_guard_unguard_roundtrip:
  assumes "rights_ok E s" "right_of s q name = Some (p, b, r)" "MACH_PORT_VALID name" "b AND MACH_PORT_TYPE_RECEIVE \<noteq> 0"
    "ks_port s p = Some port" "ip_context port = 0" "\<not> ip_guarded port"
  shows "\<exists>s1. mach_port_guard q name guard strict s = Some (KERN_SUCCESS, s1) \<and> rights_ok E s1 \<and> rights s1 = rights s
    \<and> ks_port s1 p = Some (port\<lparr>ip_context := guard, ip_guarded := True, ip_strict_guard := strict\<rparr>)
    \<and> mach_port_unguard q name guard s1 = Some (KERN_SUCCESS, put_port s p (port\<lparr>ip_strict_guard := False\<rparr>))"
  by (rule mach_port_guard_unguard [OF assms])

theorem mach_port_guard_unguard_roundtrip_witness:
  "\<exists>name s s1 s2. mach_port_construct example_env alone 0x1000 0x20 example_options 0 new_kst = Some ((KERN_SUCCESS, name), s)
    \<and> mach_port_guard 0x20 name 9 True s = Some (KERN_SUCCESS, s1) \<and> mach_port_unguard 0x20 name 9 s1 = Some (KERN_SUCCESS, s2)"
proof -
  obtain name s port where s: "mach_port_construct example_env alone 0x1000 0x20 example_options 0 new_kst = Some ((KERN_SUCCESS, name), s)" "rights_ok example_env s"
      "gains_right new_kst 0x20 name 0x1000 MACH_PORT_TYPE_SEND_RECEIVE 1 s" "ks_port s 0x1000 = Some port" "ip_context port = 0" "\<not> ip_guarded port"
    using mach_port_construct_ok [OF new_kst_ok(1,2) example_space_ok(3) new_kst_ok(4) example_options_simps(4) [of 5], unfolded example_options_simps(5), of 0]
      example_options_simps(1-3) [of 5, unfolded example_options_simps(5)] by auto
  obtain b where b: "right_of s 0x20 name = Some (0x1000, b, IE_REQ_NONE)" "IE_BITS_TYPE b = MACH_PORT_TYPE_SEND_RECEIVE" "MACH_PORT_VALID name"
    using gains_right_right_of [OF s(3)] by metis
  then have "b AND MACH_PORT_TYPE_RECEIVE \<noteq> 0" by (simp add: ie_bits)
  from mach_port_guard_unguard_roundtrip [OF s(2) b(1,3) this s(4-6), of 9 True] s(1) show ?thesis by blast
qed

text \<open>
  C14. \<open>mach_port_construct\<close> and \<open>mach_port_destruct\<close> cancel out: destructing a port that was just constructed, with its context as the guard and
  its send reference as the delta, succeeds and leaves every space with the rights it had before.
\<close>

theorem mach_port_construct_destruct_roundtrip:
  assumes "rights_ok E s" "ks_space s q = Some sp" "alloc_room E sp" "fresh_object obj s"
    "construct_flags E options = (KERN_SUCCESS, fl)" "\<not> limit_too_large options"
  defines "send \<equiv> mpo_flags options AND MPO_INSERT_SEND_RIGHT \<noteq> 0"
  shows "\<exists>name s1 s2. mach_port_construct E alone obj q options c s = Some ((KERN_SUCCESS, name), s1)
    \<and> mach_port_destruct E q name (if send then - 1 else 0) c s1 = Some (KERN_SUCCESS, s2) \<and> rights_ok E s2 \<and> rights s2 = rights s"
  unfolding send_def by (rule construct_destruct [OF assms(1-6)])

theorem mach_port_construct_destruct_roundtrip_witness:
  "\<exists>s2. mach_port_destruct example_env 0x20 built_name (- 1) 7 built_kst = Some (KERN_SUCCESS, s2) \<and> rights s2 = Map.empty"
proof -
  note o = example_options_simps(1-4) [of 5, unfolded example_options_simps(5)]
  obtain name s1 s2 where "mach_port_construct example_env alone 0x1000 0x20 example_options 7 new_kst = Some ((KERN_SUCCESS, name), s1)"
      "mach_port_destruct example_env 0x20 name (- 1) 7 s1 = Some (KERN_SUCCESS, s2)" "rights s2 = rights new_kst"
    using mach_port_construct_destruct_roundtrip [OF new_kst_ok(1,2) example_space_ok(3) new_kst_ok(4) o(4), of 7] o(1,3) by auto
  then show ?thesis by (simp add: built_kst_def built_name_def new_kst_ok(3))
qed

text \<open>
  C38. \<open>mach_port_destroy\<close> of a guarded receive right returns \<open>KERN_INVALID_RIGHT\<close> and yet takes the right away: the name denotes nothing afterwards,
  while the port is still active and still names the space as its receiver, so that no call can reach it any more. The
  other calls that a guard refuses leave the right alone.
\<close>

theorem mach_port_destroy_loses_guarded_right:
  assumes "rights_ok E s" "right_of s q name = Some (p, b, r)" "MACH_PORT_VALID name" "b AND MACH_PORT_TYPE_RECEIVE \<noteq> 0"
    "ks_port s p = Some port" "ip_guarded port" "ip_context port \<noteq> 0"
  shows "\<exists>s'. mach_port_destroy E q name s = Some (KERN_INVALID_RIGHT, s') \<and> rights s' = (rights s)((q, MACH_PORT_INDEX name) := None)
    \<and> ks_port s' = ks_port s \<and> ip_active port \<and> ip_receiver port = q"
  by (rule destroy_guarded [OF assms])

theorem mach_port_destroy_loses_guarded_right_witness:
  "\<exists>name s s'. mach_port_construct example_env alone 0x1000 0x20 \<lparr>mpo_flags = MPO_CONTEXT_AS_GUARD, mpl_qlimit = 0, mpo_work_interval_port = 0\<rparr> 7 new_kst
      = Some ((KERN_SUCCESS, name), s) \<and> mach_port_destroy example_env 0x20 name s = Some (KERN_INVALID_RIGHT, s') \<and> right_of s' 0x20 name = None"
proof -
  obtain name s b port where g: "mach_port_construct example_env alone 0x1000 0x20 \<lparr>mpo_flags = MPO_CONTEXT_AS_GUARD, mpl_qlimit = 0, mpo_work_interval_port = 0\<rparr> 7 new_kst
      = Some ((KERN_SUCCESS, name), s)" "rights_ok example_env s" "right_of s 0x20 name = Some (0x1000, b, IE_REQ_NONE)" "MACH_PORT_VALID name"
    "b AND MACH_PORT_TYPE_RECEIVE \<noteq> 0" "ks_port s 0x1000 = Some port" "ip_context port = 7" "ip_guarded port" by (rule guarded_example)
  have "ip_context port \<noteq> 0" using g(7) by simp
  from mach_port_destroy_loses_guarded_right [OF g(2-6,8) this]
  obtain s' where s': "mach_port_destroy example_env 0x20 name s = Some (KERN_INVALID_RIGHT, s')" "rights s' = (rights s)((0x20, MACH_PORT_INDEX name) := None)"
    by blast
  then have "right_of s' 0x20 name = None" by (simp add: right_of_def)
  with g(1) s'(1) show ?thesis by blast
qed

text \<open>
  C39. \<open>mach_port_names\<close> can report a type that no right has: for a send right with a full count of user references and a registered request, whose
  port has died, the reference that it adds for the request carries into the type, and the caller reads a dead
  name that is also a send right.
\<close>

theorem mach_port_names_carry:
  assumes "IE_BITS_UREFS (ie_bits e) = MACH_PORT_UREFS_MAX" "IE_BITS_TYPE (ie_bits e) = MACH_PORT_TYPE_SEND" "IP_VALID (ie_object e)"
    "ks_port s (ie_object e) = Some port" "\<not> ip_active port" "\<not> IP_TIMESTAMP_ORDER ts (ip_timestamp port)"
    "ie_request e \<noteq> IE_REQ_NONE" "ipc_port_request_type port name (ie_request e) = Some t" "t \<noteq> 0"
  shows "mach_port_names_helper ts e name s = Some (name, MACH_PORT_TYPE_DEAD_NAME OR MACH_PORT_TYPE_SEND)"
  by (rule names_helper_carry [OF assms])

theorem mach_port_names_carry_witness:
  "mach_port_names_helper 0x20 \<lparr>ie_object = 0x1000, ie_bits = 0x0301ffff, ie_dist = 0, ie_index = 0, ie_request = 1\<rparr> 0x203
      (put_port empty_kst 0x1000 (example_requests\<lparr>ip_io_bits := 0\<rparr>)) = Some (0x203, MACH_PORT_TYPE_DEAD_NAME OR MACH_PORT_TYPE_SEND)"
  by (rule mach_port_names_carry [where port = "example_requests\<lparr>ip_io_bits := 0\<rparr>" and t = MACH_PORT_TYPE_DNREQUEST])
    (simp_all add: ie_bits_defs MACH_PORT_UREFS_MAX_def IP_VALID_def IP_NULL_def IP_DEAD_def ip_active_def io_active_def IO_BITS_ACTIVE_def IE_REQ_NONE_def
      IP_TIMESTAMP_ORDER_def ip_timestamp_def ipc_port_request_type_def example_requests_def example_port_def
      MACH_PORT_TYPE_DNREQUEST_def IPR_SOR_PORT_def IPR_SOR_SPREQ_def IPR_SOR_SPREQ_MASK_def IPR_SOR_SPBIT_MASK_def)

text \<open>
  C40. \<open>mach_port_allocate_name\<close> of a dead name pays no heed to the name: for every legal name, even one that denotes a right already, it succeeds with
  the same outcome, a new dead name at a place that the kernel picks and does not tell the caller.
\<close>

theorem mach_port_allocate_name_ignores_name:
  assumes "rights_ok E s" "ks_space s q = Some sp" "alloc_room E sp"
  shows "\<exists>new s'. (\<forall>name. MACH_PORT_VALID name \<longrightarrow> mach_port_allocate_name E obj q MACH_PORT_RIGHT_DEAD_NAME name s = Some (KERN_SUCCESS, s'))
    \<and> rights_ok E s' \<and> gains_right s q new IO_NULL MACH_PORT_TYPE_DEAD_NAME 1 s'"
  by (rule allocate_name_dead [OF assms])

theorem mach_port_allocate_name_ignores_name_witness:
  "\<exists>s'. mach_port_allocate_name example_env 0x1000 0x20 MACH_PORT_RIGHT_DEAD_NAME 0x203 new_kst = Some (KERN_SUCCESS, s')
    \<and> mach_port_allocate_name example_env 0x1000 0x20 MACH_PORT_RIGHT_DEAD_NAME 0x303 new_kst = Some (KERN_SUCCESS, s')"
proof -
  have "MACH_PORT_VALID 0x203" "MACH_PORT_VALID 0x303" by (simp_all add: MACH_PORT_VALID_def MACH_PORT_NULL_def MACH_PORT_DEAD_def)
  with mach_port_allocate_name_ignores_name [OF new_kst_ok(1,2) example_space_ok(3), of "0x1000"] show ?thesis by blast
qed

end
