(* ===== verification/Spec2Isabelle.thy ===== *)
theory Spec2Isabelle
  imports Mach_Refs
begin

text \<open>
  A verification library for the Mach IPC capability core of XNU, the kernel of PureDarwin
  (\<open>src/src/Kernel/xnu/osfmk/ipc\<close>, with the headers of \<open>osfmk/mach\<close> that it uses).

  \<^bold>\<open>The program.\<close> A task holds rights to kernel objects (ports and port sets) under 32-bit names. The names live
  in the space of the task: a table of entries with a randomised free list and a reverse hash table that is threaded through
  the same slots and finds the name of a send right. A port counts the send and send-once rights to it and the
  references to its memory, knows the space that holds its receive right (or the port that the right is in transit to), and
  carries a table of requests for notifications. The port system calls look a name up, change the right that
  it denotes and keep all of these in step.

  \<^bold>\<open>The theories\<close>, from the bottom:

  \<^item> \<open>Mach_Prelude\<close>: machine types, return codes, the failure discipline and generic lemmas.
  \<^item> \<open>Mach_Port_Names\<close>: names, entry bits and the generation counter (\<open>mach/port.h\<close>, \<open>ipc/port.h\<close>, \<open>ipc/ipc_entry.h\<close>).
    Names round-trip, and the generation counter has the period that the rollover point gives.
  \<^item> \<open>Ipc_Hash\<close>: the reverse hash table (\<open>ipc_hash.c\<close>). Lookup decides membership, insertion and deletion keep the
    Robin Hood order and change the content by one entry; the locale \<open>reverse_table\<close> is the contract of the three.
  \<^item> \<open>Ipc_Table\<close>: size classes (\<open>ipc_table.c\<close>). The classes are filled and strictly increasing.
  \<^item> \<open>Ipc_Space\<close>: spaces, their creation and the boolean generator (\<open>ipc_space.c\<close>, \<open>prng_random.c\<close>). A created space satisfies
    \<open>space_ok\<close> and the free list visits every entry once.
  \<^item> \<open>Ipc_Entry\<close>, \<open>Ipc_Grow\<close>: allocation, release and growth (\<open>ipc_entry.c\<close>). Claimed names are fresh, held entries can be
    claimed (locale \<open>entry_allocator\<close>), and growth keeps every right under its name.
  \<^item> \<open>Ipc_Kern\<close>: ports, port sets, reference counts, the kernel state \<open>kst\<close>, its event log and the environment \<open>kenv\<close>
    (\<open>ipc_port.h\<close>, \<open>ipc_object.h\<close>, \<open>ipc_notify.c\<close>).
  \<^item> \<open>Ipc_Request\<close>: request tables of ports (\<open>ipc_port.c\<close>). They implement a finite map (locale \<open>request_table\<close>), also across growth
    with other threads running.
  \<^item> \<open>Ipc_Port\<close>, \<open>Ipc_Right\<close>, \<open>Ipc_Object\<close>: the routines of \<open>ipc_port.c\<close>, \<open>ipc_right.c\<close> and \<open>ipc_object.c\<close>, with the circularity check of
    \<open>ipc_importance.c\<close>, the label check of \<open>ipc_kobject.c\<close> and the end of a space.
  \<^item> \<open>Ipc_Transit\<close>: chains of ports in transit stay finite, and the walks along them return.
  \<^item> \<open>Ipc_Rights\<close>, \<open>Ipc_Release\<close>, \<open>Ipc_Destroy\<close>, \<open>Ipc_Delta\<close>, \<open>Ipc_Right_Destroy\<close>: the abstraction \<open>rights\<close>, a finite map from space and table index to object,
    bits and request, the invariant \<open>rights_ok\<close> that ties it to the ports, and the routines that give up rights.
  \<^item> \<open>Mach_Port\<close>: the system calls (\<open>mach_port.c\<close>) with what they use of \<open>ipc_pset.c\<close>, \<open>ipc_mqueue.c\<close> and \<open>ipc_kmsg.c\<close>.
  \<^item> \<open>Mach_Calls\<close>, \<open>Mach_Alloc\<close>, \<open>Mach_Construct\<close>, \<open>Mach_Info\<close>, \<open>Mach_Refs\<close>: what the calls do to \<open>rights\<close>: each call returns, keeps \<open>rights_ok\<close>
    and changes at most the right that it names; allocation and construction add exactly the right asked for; the
    queries tell the truth; laws between the calls, and three places where the code does not do what it means to.
  \<^item> \<open>Mach_Trace\<close>: sequences of calls of many tasks (locale \<open>isolated_calls\<close>, relation \<open>reachable\<close>): the invariant holds in every reachable
    state, no call panics, and a task that does nothing keeps its rights.

  \<^bold>\<open>How code becomes a definition.\<close> A routine is a function on the state it changes, with the name it has in the source; a large \<open>switch\<close>
  is split into one definition per case. The result is an \<open>option\<close>: \<open>None\<close> is a failed assertion, a panic, an access outside a table
  or to a freed object, or a loop that never ends. So a theorem that a call returns \<open>Some\<close> shows that none of these
  happens. Loops that need not end are \<open>partial_function (option)\<close>; no fuel is used. Counts keep their width (32-bit send rights,
  16-bit user references and importance counts) and wrap as in the code. Locks are not modelled: a routine is one step, and
  where the code drops a lock in the middle (growth of the two kinds of tables, the buffers of \<open>mach_port_names\<close>) what other threads
  do is an argument of the definition.

  \<^bold>\<open>Parameters.\<close> \<open>kenv\<close> holds what is read of the rest of the kernel: memory allocation, size classes, boot arguments, entitlement
  and importance of tasks, senders that wait on a queue. The address of a new object is an argument; \<open>fresh_object\<close> says that
  no object has it. Calls into the message queue, turnstiles, importance and the generated notification stubs are events of
  \<open>ks_log\<close>, in the order of the code.

  \<^bold>\<open>Bounds and hypotheses.\<close> Deletion from the reverse hash is correct up to \<open>IPC_ENTRY_DIST_MAX + 1\<close> slots, so \<open>space_ok\<close> bounds
  tables by that size; growth and lookup have no bound. \<open>alloc_room\<close> asks for a free entry, or for a size class and memory to grow into.
  \<open>room\<close> asks that a reference to a backup port does not overflow. \<open>destroyable\<close> asks of ports that can be destroyed that they
  are not linked to a synchronous inheritor through the \<open>kdata\<close> union. In \<open>call_allowed\<close>, \<open>mach_port_destroy\<close> of a guarded receive right is
  excluded, since it breaks the invariant (\<open>mach_port_destroy_loses_guarded_right\<close>).

  \<^bold>\<open>Not modelled.\<close> Message bodies and their buffers (\<open>ipc_kmsg.c\<close>, \<open>mach_msg.c\<close>): layout, user memory and descriptors. Sending and receiving
  (\<open>ipc_mqueue.c\<close>), port set membership, turnstiles and sync links: wait queues and the scheduler. Vouchers, event
  links, task importance, kernel objects behind ports and the trap layer (\<open>mach_kernelrpc.c\<close>): their effects are not visible
  in rights. The rest of the kernel and the user libraries are outside this development.
\<close>

end
